(* ===== verification/Prelude.thy ===== *)
theory Prelude
  imports Main "HOL-Library.Word" "HOL-Library.Char_ord" "HOL-Library.List_Lexorder"
begin

text \<open>
  What every component of the model shares: the machine integers of the target (a
  little-endian host with 64-bit pointers, the x86-64 and ARM builds of the README), the
  faults a C++ statement can end in, raw buffers and the accesses the code makes to them,
  \<open>std::map\<close> as a sorted association list, the searches of \<open>std::string\<close>, and the
  interface of a keyed store that the maps and the configuration file both provide.
\<close>

unbundle bit_operations_syntax

section \<open>Hints and type names\<close>

named_theorems wire_simps \<open>sizes and fields of the packed wire structures\<close>
named_theorems map_simps \<open>lookups in sorted association lists\<close>
named_theorems buf_simps \<open>lengths and reads of raw buffers\<close>

type_synonym u8 = "8 word"
type_synonym u16 = "16 word"
type_synonym u32 = "32 word"
type_synonym u64 = "64 word"
type_synonym bytes = "8 word list"

section \<open>Faults\<close>

text \<open>
  How a statement can fail to complete normally: an exception the daemon never catches
  (with the text of \<open>std::runtime_error\<close>, or \<open>std::out_of_range\<close> of
  \<open>std::string::substr\<close>), an access outside an object (heap buffers, null pointers, the
  top of an empty stack, a past-the-end iterator), an integer division by zero, a loop that
  never ends, and an exhausted recursion bound of the model.
\<close>

datatype fault =
    Runtime_error string
  | Out_of_range
  | Bad_access
  | Div_by_zero
  | Diverges
  | Out_of_fuel

type_synonym 'a res = "fault + 'a"

fun bind_res :: "'a res \<Rightarrow> ('a \<Rightarrow> 'b res) \<Rightarrow> 'b res" where
  "bind_res (Inl e) f = Inl e"
| "bind_res (Inr x) f = f x"

lemma bind_res_Inr_iff:
  "bind_res m f = Inr y \<longleftrightarrow> (\<exists>x. m = Inr x \<and> f x = Inr y)"
  by (cases m) auto

lemma bind_res_Inl_iff:
  "bind_res m f = Inl e \<longleftrightarrow> m = Inl e \<or> (\<exists>x. m = Inr x \<and> f x = Inl e)"
  by (cases m) auto

lemma bind_res_assoc: "bind_res (bind_res m f) g = bind_res m (\<lambda>x. bind_res (f x) g)"
  by (cases m) auto

lemma bind_res_cong [fundef_cong]:
  "m = m' \<Longrightarrow> (\<And>x. m' = Inr x \<Longrightarrow> f x = f' x) \<Longrightarrow> bind_res m f = bind_res m' f'"
  by (cases m') auto

section \<open>Characters and bytes\<close>

definition u8_of_char :: "char \<Rightarrow> u8" where
  "u8_of_char c = word_of_nat (of_char c)"

definition char_of_u8 :: "u8 \<Rightarrow> char" where
  "char_of_u8 w = char_of (unat w)"

lemma char_of_u8_of_char [simp]: "char_of_u8 (u8_of_char c) = c"
  by (simp add: char_of_u8_def u8_of_char_def unat_of_nat take_bit_eq_mod)

lemma u8_of_char_of_u8 [simp]: "u8_of_char (char_of_u8 w) = w"
proof -
  have "unat w < 2 ^ LENGTH(8)" by (rule unsigned_less)
  then have "unat w mod 256 = unat w" by simp
  then show ?thesis by (simp add: char_of_u8_def u8_of_char_def)
qed

lemma u8_of_char_inject [simp]: "u8_of_char c = u8_of_char d \<longleftrightarrow> c = d"
  by (metis char_of_u8_of_char)

lemma u8_of_char_nul [simp]: "u8_of_char (CHR 0x00) = 0"
  by (simp add: u8_of_char_def)

lemma u8_of_char_eq_0_iff [simp]: "u8_of_char c = 0 \<longleftrightarrow> c = CHR 0x00"
  by (metis u8_of_char_inject u8_of_char_nul)

definition bytes_of :: "string \<Rightarrow> bytes" where
  "bytes_of s = map u8_of_char s"

definition string_of :: "bytes \<Rightarrow> string" where
  "string_of bs = map char_of_u8 bs"

lemma length_bytes_of [simp]: "length (bytes_of s) = length s"
  by (simp add: bytes_of_def)

lemma length_string_of [simp]: "length (string_of bs) = length bs"
  by (simp add: string_of_def)

lemma string_of_bytes_of [simp]: "string_of (bytes_of s) = s"
  by (simp add: string_of_def bytes_of_def comp_def)

text \<open>The text a \<open>char*\<close> denotes: up to the first NUL.\<close>

definition c_str :: "string \<Rightarrow> string" where
  "c_str s = takeWhile (\<lambda>c. c \<noteq> CHR 0x00) s"

lemma c_str_id: "CHR 0x00 \<notin> set s \<Longrightarrow> c_str s = s"
  unfolding c_str_def by (simp add: takeWhile_eq_all_conv) (metis)

section \<open>Raw buffers\<close>

text \<open>
  Memory the code reaches through pointers is a list of bytes; every access states the
  object it stays in, and an access that leaves it is \<open>Bad_access\<close>.
\<close>

definition get_byte :: "bytes \<Rightarrow> nat \<Rightarrow> u8 res" where
  "get_byte buf i = (if i < length buf then Inr (buf ! i) else Inl Bad_access)"

definition get_bytes :: "bytes \<Rightarrow> nat \<Rightarrow> nat \<Rightarrow> bytes res" where
  "get_bytes buf off n =
     (if off + n \<le> length buf then Inr (take n (drop off buf)) else Inl Bad_access)"

definition overlay :: "bytes \<Rightarrow> nat \<Rightarrow> bytes \<Rightarrow> bytes" where
  "overlay buf off bs = take off buf @ bs @ drop (off + length bs) buf"

definition put_bytes :: "bytes \<Rightarrow> nat \<Rightarrow> bytes \<Rightarrow> bytes res" where
  "put_bytes buf off bs =
     (if off + length bs \<le> length buf then Inr (overlay buf off bs) else Inl Bad_access)"

lemma length_overlay [buf_simps]:
  "off + length bs \<le> length buf \<Longrightarrow> length (overlay buf off bs) = length buf"
  by (simp add: overlay_def)

lemma put_bytes_ok [buf_simps]:
  "off + length bs \<le> length buf \<Longrightarrow> put_bytes buf off bs = Inr (overlay buf off bs)"
  by (simp add: put_bytes_def)

lemma get_bytes_ok [buf_simps]:
  "off + n \<le> length buf \<Longrightarrow> get_bytes buf off n = Inr (take n (drop off buf))"
  by (simp add: get_bytes_def)

lemma get_byte_ok [buf_simps]: "i < length buf \<Longrightarrow> get_byte buf i = Inr (buf ! i)"
  by (simp add: get_byte_def)

lemma put_bytes_InrD:
  "put_bytes buf off bs = Inr buf' \<Longrightarrow>
     off + length bs \<le> length buf \<and> buf' = overlay buf off bs \<and> length buf' = length buf"
  by (auto simp: put_bytes_def length_overlay split: if_splits)

text \<open>What was written is read back; the rest of the buffer is untouched.\<close>

lemma overlay_read_back [buf_simps]:
  "off \<le> length buf \<Longrightarrow> take (length bs) (drop off (overlay buf off bs)) = bs"
  by (simp add: overlay_def)

lemma overlay_take [buf_simps]:
  "n \<le> off \<Longrightarrow> off \<le> length buf \<Longrightarrow> take n (overlay buf off bs) = take n buf"
  by (simp add: overlay_def min_def)

lemma overlay_drop [buf_simps]:
  "off + length bs \<le> n \<Longrightarrow> off \<le> length buf \<Longrightarrow> drop n (overlay buf off bs) = drop n buf"
  by (simp add: overlay_def)

lemma overlay_nth_other [buf_simps]:
  "off + length bs \<le> length buf \<Longrightarrow> i < off \<or> off + length bs \<le> i \<Longrightarrow> i < length buf \<Longrightarrow>
     overlay buf off bs ! i = buf ! i"
  by (auto simp: overlay_def nth_append)

section \<open>Integers in memory\<close>

text \<open>
  The bytes of a multi-byte integer as the little-endian host stores them, the network
  byte order conversions (which swap the bytes on this host), and the conversions back.
\<close>

definition u16_mem :: "u16 \<Rightarrow> bytes" where
  "u16_mem x = [ucast x, ucast (drop_bit 8 x)]"

definition u32_mem :: "u32 \<Rightarrow> bytes" where
  "u32_mem x = [ucast x, ucast (drop_bit 8 x), ucast (drop_bit 16 x), ucast (drop_bit 24 x)]"

definition u64_mem :: "u64 \<Rightarrow> bytes" where
  "u64_mem x = u32_mem (ucast x) @ u32_mem (ucast (drop_bit 32 x))"

definition u16_load :: "u8 \<Rightarrow> u8 \<Rightarrow> u16" where
  "u16_load a b = ucast a OR push_bit 8 (ucast b)"

definition u32_load :: "u8 \<Rightarrow> u8 \<Rightarrow> u8 \<Rightarrow> u8 \<Rightarrow> u32" where
  "u32_load a b c d =
     ucast a OR push_bit 8 (ucast b) OR push_bit 16 (ucast c) OR push_bit 24 (ucast d)"

definition htons :: "u16 \<Rightarrow> u16" where
  "htons x = push_bit 8 x OR drop_bit 8 x"

definition htonl :: "u32 \<Rightarrow> u32" where
  "htonl x = u32_load (ucast (drop_bit 24 x)) (ucast (drop_bit 16 x))
                      (ucast (drop_bit 8 x)) (ucast x)"

lemma length_u16_mem [simp]: "length (u16_mem x) = 2"
  by (simp add: u16_mem_def)

lemma length_u32_mem [simp]: "length (u32_mem x) = 4"
  by (simp add: u32_mem_def)

lemma length_u64_mem [simp]: "length (u64_mem x) = 8"
  by (simp add: u64_mem_def)

lemma u16_load_mem [simp]: "u16_load (ucast x) (ucast (drop_bit 8 x)) = x"
  unfolding u16_load_def
  by (rule bit_word_eqI) (auto simp: bit_simps dest: bit_imp_le_length)

lemma htons_load: "htons (u16_load a b) = u16_load b a"
  unfolding u16_load_def htons_def
  by (rule bit_word_eqI) (auto simp: bit_simps dest: bit_imp_le_length)

lemma u8_bit_high [simp]: "8 \<le> n \<Longrightarrow> \<not> bit (a :: u8) n"
  using bit_imp_le_length [of a n] by auto

lemma u16_mem_load [simp]: "u16_mem (u16_load a b) = [a, b]"
  unfolding u16_load_def u16_mem_def
  by (auto intro!: bit_word_eqI simp: bit_simps)

lemma htons_htons [simp]: "htons (htons x) = x"
  by (metis htons_load u16_load_mem)

lemma u16_mem_htons: "u16_mem (htons x) = rev (u16_mem x)"
  by (metis htons_load u16_load_mem u16_mem_def u16_mem_load rev.simps append.simps)

lemma unat_u16: "n < 65536 \<Longrightarrow> unat (word_of_nat n :: u16) = n"
  by (simp add: unat_of_nat take_bit_eq_mod)

section \<open>size\_t arithmetic\<close>

text \<open>Subtraction and addition of \<open>size_t\<close> wrap modulo \<open>2 ^ 64\<close>.\<close>

definition size_sub :: "nat \<Rightarrow> nat \<Rightarrow> nat" where
  "size_sub a b = (if b \<le> a then a - b else 2 ^ 64 + a - b)"

lemma size_sub_ok [simp]: "b \<le> a \<Longrightarrow> size_sub a b = a - b"
  by (simp add: size_sub_def)

section \<open>Strings\<close>

text \<open>
  Searches return \<open>None\<close> for \<open>std::string::npos\<close>; \<open>substr\<close> throws when its position lies
  behind the end. \<open>str_at\<close> is \<open>str[i]\<close> of \<open>std::string\<close>, which is NUL at the end.
\<close>

fun find_idx :: "('a \<Rightarrow> bool) \<Rightarrow> 'a list \<Rightarrow> nat option" where
  "find_idx P [] = None"
| "find_idx P (x # xs) = (if P x then Some 0 else map_option Suc (find_idx P xs))"

definition find_from :: "('a \<Rightarrow> bool) \<Rightarrow> nat \<Rightarrow> 'a list \<Rightarrow> nat option" where
  "find_from P i xs = map_option (\<lambda>k. i + k) (find_idx P (drop i xs))"

definition rfind_idx :: "('a \<Rightarrow> bool) \<Rightarrow> 'a list \<Rightarrow> nat option" where
  "rfind_idx P xs = map_option (\<lambda>k. length xs - 1 - k) (find_idx P (rev xs))"

fun starts_with :: "'a list \<Rightarrow> 'a list \<Rightarrow> bool" where
  "starts_with [] ys = True"
| "starts_with (x # xs) [] = False"
| "starts_with (x # xs) (y # ys) = (x = y \<and> starts_with xs ys)"

fun find_sub :: "'a list \<Rightarrow> 'a list \<Rightarrow> nat option" where
  "find_sub needle [] = (if needle = [] then Some 0 else None)"
| "find_sub needle (y # ys) =
     (if starts_with needle (y # ys) then Some 0 else map_option Suc (find_sub needle ys))"

definition find_sub_from :: "'a list \<Rightarrow> 'a list \<Rightarrow> nat \<Rightarrow> nat option" where
  "find_sub_from needle hay i =
     (if i \<le> length hay then map_option (\<lambda>k. i + k) (find_sub needle (drop i hay)) else None)"

definition substr :: "nat \<Rightarrow> nat \<Rightarrow> 'a list \<Rightarrow> 'a list res" where
  "substr pos n s = (if pos \<le> length s then Inr (take n (drop pos s)) else Inl Out_of_range)"

definition str_at :: "string \<Rightarrow> nat \<Rightarrow> char" where
  "str_at s i = (if i < length s then s ! i else CHR 0x00)"

lemma find_idx_Some:
  "find_idx P xs = Some i \<longleftrightarrow> i < length xs \<and> P (xs ! i) \<and> (\<forall>j < i. \<not> P (xs ! j))"
proof (induction xs arbitrary: i)
  case (Cons x xs)
  show ?case
    by (cases i) (auto simp: Cons.IH less_Suc_eq_0_disj)
qed simp

lemma find_idx_None [simp]: "find_idx P xs = None \<longleftrightarrow> (\<forall>x \<in> set xs. \<not> P x)"
  by (induction xs) auto

lemma find_idx_append_first:
  "\<forall>x \<in> set xs. \<not> P x \<Longrightarrow> P y \<Longrightarrow> find_idx P (xs @ y # ys) = Some (length xs)"
  by (induction xs) auto

lemma rfind_idx_last:
  "P x \<Longrightarrow> \<forall>y \<in> set ys. \<not> P y \<Longrightarrow> rfind_idx P (xs @ x # ys) = Some (length xs)"
  using find_idx_append_first [of "rev ys" P x "rev xs"] by (simp add: rfind_idx_def)

lemma find_from_Some:
  "find_from P i xs = Some k \<Longrightarrow> i \<le> k \<and> k < length xs \<and> P (xs ! k)"
  by (auto simp: find_from_def find_idx_Some)

lemma starts_with_iff: "starts_with xs ys \<longleftrightarrow> (\<exists>zs. ys = xs @ zs)"
  by (induction xs ys rule: starts_with.induct) auto

lemma substr_InrD: "substr pos n s = Inr t \<Longrightarrow> pos \<le> length s \<and> t = take n (drop pos s)"
  by (auto simp: substr_def split: if_splits)

text \<open>\<open>strncpy\<close> of a C string: exactly \<open>n\<close> bytes, padded with NUL.\<close>

definition strncpy_bytes :: "nat \<Rightarrow> string \<Rightarrow> bytes" where
  "strncpy_bytes n s = take n (bytes_of (c_str s) @ replicate n 0)"

lemma length_strncpy_bytes [simp]: "length (strncpy_bytes n s) = n"
  by (simp add: strncpy_bytes_def)

section \<open>std::map\<close>

text \<open>
  An ordered map is its list of entries in key order; \<open>std::string\<close> keys compare as
  unsigned bytes, which is the order of \<open>List_Lexorder\<close> over \<open>Char_ord\<close>.
  \<open>map_assign\<close> is \<open>m[k] = v\<close> and overwrites; \<open>map_insert\<close> is \<open>m.insert\<close> and keeps an
  entry that exists.
\<close>

type_synonym ('k, 'v) std_map = "('k \<times> 'v) list"

definition map_ok :: "('k::linorder, 'v) std_map \<Rightarrow> bool" where
  "map_ok m \<longleftrightarrow> sorted_wrt (<) (map fst m)"

fun map_assign :: "'k::linorder \<Rightarrow> 'v \<Rightarrow> ('k, 'v) std_map \<Rightarrow> ('k, 'v) std_map" where
  "map_assign k v [] = [(k, v)]"
| "map_assign k v ((k', v') # m) =
     (if k < k' then (k, v) # (k', v') # m
      else if k = k' then (k, v) # m
      else (k', v') # map_assign k v m)"

definition map_insert :: "'k::linorder \<Rightarrow> 'v \<Rightarrow> ('k, 'v) std_map \<Rightarrow> ('k, 'v) std_map" where
  "map_insert k v m = (if map_of m k = None then map_assign k v m else m)"

text \<open>\<open>m.insert(other.begin(), other.end())\<close>\<close>

definition map_insert_all ::
  "('k::linorder, 'v) std_map \<Rightarrow> ('k, 'v) std_map \<Rightarrow> ('k, 'v) std_map" where
  "map_insert_all other m = fold (\<lambda>(k, v). map_insert k v) other m"

lemma map_ok_Nil [simp]: "map_ok []"
  by (simp add: map_ok_def)

lemma map_ok_Cons:
  "map_ok ((k, v) # m) \<longleftrightarrow> (\<forall>x \<in> fst ` set m. k < x) \<and> map_ok m"
  by (auto simp: map_ok_def)

lemma map_ok_distinct: "map_ok m \<Longrightarrow> distinct (map fst m)"
  by (simp add: map_ok_def strict_sorted_iff)

lemma map_of_assign [map_simps]: "map_of (map_assign k v m) = (map_of m)(k \<mapsto> v)"
  by (induction m) (auto simp: fun_eq_iff)

lemma keys_assign [map_simps]: "fst ` set (map_assign k v m) = insert k (fst ` set m)"
  using arg_cong [OF map_of_assign [of k v m], of dom] by (simp add: dom_map_of_conv_image_fst)

lemma map_ok_assign [intro]: "map_ok m \<Longrightarrow> map_ok (map_assign k v m)"
proof (induction m)
  case (Cons p m)
  then show ?case by (cases p) (auto simp: map_ok_Cons keys_assign)
qed (simp add: map_ok_Cons)

lemma map_of_insert [map_simps]:
  "map_of (map_insert k v m) = (if map_of m k = None then (map_of m)(k \<mapsto> v) else map_of m)"
  by (simp add: map_insert_def map_of_assign)

lemma keys_insert [map_simps]: "fst ` set (map_insert k v m) = insert k (fst ` set m)"
  by (simp add: map_insert_def keys_assign map_of_eq_None_iff insert_absorb)

lemma map_ok_insert [intro]: "map_ok m \<Longrightarrow> map_ok (map_insert k v m)"
  by (auto simp: map_insert_def)

lemma map_insert_all_simps [simp]:
  "map_insert_all [] m = m"
  "map_insert_all ((k, v) # other) m = map_insert_all other (map_insert k v m)"
  by (simp_all add: map_insert_all_def)

lemma map_ok_insert_all [intro]: "map_ok m \<Longrightarrow> map_ok (map_insert_all other m)"
  by (induction other arbitrary: m) (simp_all add: split_paired_all map_ok_insert)

lemma keys_insert_all [map_simps]:
  "fst ` set (map_insert_all other m) = fst ` set other \<union> fst ` set m"
proof (induction other arbitrary: m)
  case (Cons p other)
  then show ?case by (cases p) (simp add: keys_insert)
qed simp

lemma map_of_insert_all [map_simps]:
  "map_ok other \<Longrightarrow> map_of (map_insert_all other m) = map_of other ++ map_of m"
proof (induction other arbitrary: m)
  case (Cons p other)
  obtain k v where p: "p = (k, v)" by force
  from Cons.prems have "k \<notin> fst ` set other" and ok: "map_ok other"
    by (auto simp: p map_ok_Cons)
  then have "map_of other k = None" by (simp add: map_of_eq_None_iff)
  then show ?case
    by (auto simp: p Cons.IH [OF ok] map_of_insert map_add_def fun_eq_iff split: option.splits)
qed simp

section \<open>The interface of a keyed store\<close>

text \<open>
  What the clients of a map or of the configuration file rely on: a stored value is found
  under its key until it is stored again, and no other key is disturbed. \<open>admissible\<close>
  says which entries the provider can hold at all.
\<close>

locale keyed_store =
  fixes valid :: "'m \<Rightarrow> bool"
    and admissible :: "'k \<Rightarrow> 'v \<Rightarrow> bool"
    and lookup :: "'m \<Rightarrow> 'k \<Rightarrow> 'v option"
    and store :: "'k \<Rightarrow> 'v \<Rightarrow> 'm \<Rightarrow> 'm"
  assumes valid_store: "valid m \<Longrightarrow> admissible k v \<Longrightarrow> valid (store k v m)"
    and lookup_store: "valid m \<Longrightarrow> admissible k v \<Longrightarrow>
      lookup (store k v m) k' = (if k' = k then Some v else lookup m k')"
begin

lemma lookup_same: "valid m \<Longrightarrow> admissible k v \<Longrightarrow> lookup (store k v m) k = Some v"
  by (simp add: lookup_store)

lemma lookup_other:
  "valid m \<Longrightarrow> admissible k v \<Longrightarrow> k' \<noteq> k \<Longrightarrow> lookup (store k v m) k' = lookup m k'"
  by (simp add: lookup_store)

lemma store_overwrites:
  "valid m \<Longrightarrow> admissible k v \<Longrightarrow> admissible k w \<Longrightarrow>
     lookup (store k w (store k v m)) k' = lookup (store k w m) k'"
  by (simp add: lookup_store valid_store)

lemma store_commutes:
  "valid m \<Longrightarrow> admissible k v \<Longrightarrow> admissible l w \<Longrightarrow> k \<noteq> l \<Longrightarrow>
     lookup (store k v (store l w m)) k' = lookup (store l w (store k v m)) k'"
  by (simp add: lookup_store valid_store)

text \<open>A run of stores: the last one to a key wins.\<close>

lemma valid_fold_store:
  "valid m \<Longrightarrow> \<forall>(k, v) \<in> set kvs. admissible k v \<Longrightarrow>
     valid (fold (\<lambda>(k, v). store k v) kvs m)"
  by (induction kvs arbitrary: m) (auto simp: valid_store)

lemma lookup_fold_store:
  "valid m \<Longrightarrow> \<forall>(k, v) \<in> set kvs. admissible k v \<Longrightarrow>
     lookup (fold (\<lambda>(k, v). store k v) kvs m) k =
       (case map_of (rev kvs) k of Some v \<Rightarrow> Some v | None \<Rightarrow> lookup m k)"
  by (induction kvs arbitrary: m)
     (auto simp: valid_store lookup_store map_of_append split: option.splits)

end

interpretation std_map_store: keyed_store map_ok "\<lambda>_ _. True" map_of map_assign
  by unfold_locales (auto simp: map_simps)

end
