(* ===== verification/IEEE_Float.thy ===== *)
theory IEEE_Float
  imports Prelude
begin

text \<open>
  The floating-point values of the target: a \<open>double\<close> is its IEEE 754 binary64 bit pattern
  (what \<open>memcpy\<close> of a \<open>double\<close> moves), a \<open>float\<close> its binary32 pattern. Conversions round
  to nearest, ties to even. The out-of-range conversion to \<open>int\<close>, which the C++ standard
  leaves undefined, is the one of the target's \<open>cvttsd2si\<close>: the smallest integer.
\<close>

type_synonym dbl = "64 word"
type_synonym flt = "32 word"

section \<open>Rounding a ratio\<close>

fun ilog2 :: "nat \<Rightarrow> nat" where
  "ilog2 n = (if n \<le> 1 then 0 else Suc (ilog2 (n div 2)))"

declare ilog2.simps [simp del]

definition round_half_even :: "nat \<Rightarrow> nat \<Rightarrow> nat" where
  "round_half_even n d =
     (let q = n div d; r = n mod d
      in if 2 * r < d then q else if d < 2 * r then Suc q
         else if even q then q else Suc q)"

text \<open>
  The magnitude bits of \<open>n / d\<close> in a format of \<open>p\<close> significand bits whose least
  subnormal is \<open>2 ^ emin\<close> and whose infinity has the bits \<open>infb\<close>. A carry out of the
  significand moves into the exponent field by itself.
\<close>

definition fp_magnitude :: "nat \<Rightarrow> int \<Rightarrow> nat \<Rightarrow> nat \<Rightarrow> nat \<Rightarrow> nat" where
  "fp_magnitude p emin infb n d =
     (if n = 0 then 0 else
      let e0 = int (ilog2 n) - int (ilog2 d);
          E = (if d * 2 ^ nat e0 \<le> n * 2 ^ nat (- e0) then e0 else e0 - 1);
          e = max (E - (int p - 1)) emin;
          q = round_half_even (n * 2 ^ nat (- e)) (d * 2 ^ nat e)
      in min (nat (e - emin) * 2 ^ (p - 1) + q) infb)"

definition dbl_inf :: nat where "dbl_inf = 2047 * 2 ^ 52"
definition flt_inf :: nat where "flt_inf = 255 * 2 ^ 23"

definition dbl_magnitude :: "nat \<Rightarrow> nat \<Rightarrow> nat" where
  "dbl_magnitude = fp_magnitude 53 (-1074) dbl_inf"

definition flt_magnitude :: "nat \<Rightarrow> nat \<Rightarrow> nat" where
  "flt_magnitude = fp_magnitude 24 (-149) flt_inf"

definition dbl_make :: "bool \<Rightarrow> nat \<Rightarrow> dbl" where
  "dbl_make neg mag = word_of_nat ((if neg then 2 ^ 63 else 0) + mag)"

definition flt_make :: "bool \<Rightarrow> nat \<Rightarrow> flt" where
  "flt_make neg mag = word_of_nat ((if neg then 2 ^ 31 else 0) + mag)"

definition dbl_of_ratio :: "bool \<Rightarrow> nat \<Rightarrow> nat \<Rightarrow> dbl" where
  "dbl_of_ratio neg n d = dbl_make neg (dbl_magnitude n d)"

section \<open>Reading a pattern\<close>

definition dbl_neg :: "dbl \<Rightarrow> bool" where "dbl_neg w = (2 ^ 63 \<le> unat w)"
definition dbl_mag :: "dbl \<Rightarrow> nat" where "dbl_mag w = unat w mod 2 ^ 63"
definition flt_neg :: "flt \<Rightarrow> bool" where "flt_neg w = (2 ^ 31 \<le> unat w)"
definition flt_mag :: "flt \<Rightarrow> nat" where "flt_mag w = unat w mod 2 ^ 31"

definition dbl_is_nan :: "dbl \<Rightarrow> bool" where "dbl_is_nan w = (dbl_inf < dbl_mag w)"
definition dbl_is_inf :: "dbl \<Rightarrow> bool" where "dbl_is_inf w = (dbl_mag w = dbl_inf)"

text \<open>The significand and exponent of a finite value \<open>m * 2 ^ e\<close>.\<close>

definition dbl_frac :: "dbl \<Rightarrow> nat \<times> int" where
  "dbl_frac w = (let ex = dbl_mag w div 2 ^ 52; f = dbl_mag w mod 2 ^ 52
                 in if ex = 0 then (f, -1074) else (f + 2 ^ 52, int ex - 1075))"

definition flt_frac :: "flt \<Rightarrow> nat \<times> int" where
  "flt_frac w = (let ex = flt_mag w div 2 ^ 23; f = flt_mag w mod 2 ^ 23
                 in if ex = 0 then (f, -149) else (f + 2 ^ 23, int ex - 150))"

definition ratio_of :: "nat \<times> int \<Rightarrow> nat \<times> nat" where
  "ratio_of me = (fst me * 2 ^ nat (snd me), 2 ^ nat (- snd me))"

section \<open>Conversions\<close>

definition dbl_of_int :: "int \<Rightarrow> dbl" where
  "dbl_of_int i = dbl_of_ratio (i < 0) (nat \<bar>i\<bar>) 1"

definition flt_of_int :: "int \<Rightarrow> flt" where
  "flt_of_int i = flt_make (i < 0) (flt_magnitude (nat \<bar>i\<bar>) 1)"

definition int_min :: int where "int_min = - (2 ^ 31)"
definition int_max :: int where "int_max = 2 ^ 31 - 1"

definition dbl_trunc :: "dbl \<Rightarrow> int option" where
  "dbl_trunc w =
     (if dbl_inf \<le> dbl_mag w then None
      else let (n, d) = ratio_of (dbl_frac w); m = int (n div d)
           in Some (if dbl_neg w then - m else m))"

definition int_of_dbl :: "dbl \<Rightarrow> int" where
  "int_of_dbl w = (case dbl_trunc w of
       None \<Rightarrow> int_min
     | Some i \<Rightarrow> if int_min \<le> i \<and> i \<le> int_max then i else int_min)"

definition flt_of_dbl :: "dbl \<Rightarrow> flt" where
  "flt_of_dbl w =
     (if dbl_is_nan w then flt_make (dbl_neg w) (flt_inf + 2 ^ 22)
      else if dbl_is_inf w then flt_make (dbl_neg w) flt_inf
      else let (n, d) = ratio_of (dbl_frac w) in flt_make (dbl_neg w) (flt_magnitude n d))"

definition dbl_of_flt :: "flt \<Rightarrow> dbl" where
  "dbl_of_flt w =
     (if flt_inf < flt_mag w then dbl_make (flt_neg w) (dbl_inf + 2 ^ 51)
      else if flt_mag w = flt_inf then dbl_make (flt_neg w) dbl_inf
      else let (n, d) = ratio_of (flt_frac w) in dbl_of_ratio (flt_neg w) n d)"

definition int_of_flt :: "flt \<Rightarrow> int" where
  "int_of_flt w = int_of_dbl (dbl_of_flt w)"

section \<open>Comparison\<close>

text \<open>
  The magnitude bits grow with the value, so signed magnitudes compare as the values do;
  a comparison with a NaN is false.
\<close>

definition dbl_ord :: "dbl \<Rightarrow> int" where
  "dbl_ord w = (if dbl_neg w then - int (dbl_mag w) else int (dbl_mag w))"

definition dbl_eq :: "dbl \<Rightarrow> dbl \<Rightarrow> bool" where
  "dbl_eq x y = (\<not> dbl_is_nan x \<and> \<not> dbl_is_nan y \<and> dbl_ord x = dbl_ord y)"

definition dbl_lt :: "dbl \<Rightarrow> dbl \<Rightarrow> bool" where
  "dbl_lt x y = (\<not> dbl_is_nan x \<and> \<not> dbl_is_nan y \<and> dbl_ord x < dbl_ord y)"

section \<open>Facts\<close>

lemma ilog2_1 [simp]: "ilog2 (Suc 0) = 0"
  by (simp add: ilog2.simps)

lemma ilog2_bounds: "0 < n \<Longrightarrow> 2 ^ ilog2 n \<le> n \<and> n < 2 ^ Suc (ilog2 n)"
proof (induction n rule: ilog2.induct)
  case (1 n)
  show ?case
  proof (cases "n \<le> 1")
    case True
    with 1 have "n = 1" by simp
    then show ?thesis by simp
  next
    case False
    then have "2 ^ ilog2 (n div 2) \<le> n div 2 \<and> n div 2 < 2 ^ Suc (ilog2 (n div 2))"
      using 1 by simp
    moreover have "ilog2 n = Suc (ilog2 (n div 2))"
      using False by (simp add: ilog2.simps [of n])
    ultimately show ?thesis by auto
  qed
qed

lemma round_half_even_exact: "0 < d \<Longrightarrow> round_half_even (q * d) d = q"
  by (simp add: round_half_even_def)

lemma fp_magnitude_le: "fp_magnitude p emin infb n d \<le> infb"
  by (simp add: fp_magnitude_def Let_def)

lemma unat_dbl_make:
  "mag < 2 ^ 63 \<Longrightarrow> unat (dbl_make neg mag) = (if neg then 2 ^ 63 else 0) + mag"
  by (simp only: dbl_make_def unat_of_nat take_bit_eq_mod) simp

lemma dbl_mag_make: "mag < 2 ^ 63 \<Longrightarrow> dbl_mag (dbl_make neg mag) = mag"
  by (simp add: dbl_mag_def unat_dbl_make)

lemma dbl_neg_make: "mag < 2 ^ 63 \<Longrightarrow> dbl_neg (dbl_make neg mag) = neg"
  by (simp add: dbl_neg_def unat_dbl_make)

text \<open>
  An integer whose magnitude is below \<open>2 ^ 53\<close> is represented exactly: reading the pattern
  back gives the integer.
\<close>

lemma dbl_magnitude_nat:
  assumes "0 < n" "n < 2 ^ 53"
  shows "dbl_magnitude n 1 = (ilog2 n + 1022) * 2 ^ 52 + n * 2 ^ (52 - ilog2 n)"
proof -
  let ?l = "ilog2 n"
  have b: "2 ^ ?l \<le> n" "n < 2 ^ Suc ?l" using ilog2_bounds [OF assms(1)] by auto
  have "(2::nat) ^ ?l < 2 ^ 53" using b(1) assms(2) by (rule le_less_trans)
  then have "?l < 53" by (rule power_less_imp_less_exp [rotated]) simp
  then have l: "?l \<le> 52" by simp
  have cmp: "2 ^ ?l \<le> n * 2 ^ nat (- int ?l)" using b by simp
  have e: "max (int ?l - 52) (-1074) = int ?l - 52" using l by simp
  have q: "round_half_even (n * 2 ^ nat (52 - int ?l)) (2 ^ nat (int ?l - 52)) = n * 2 ^ (52 - ?l)"
    using l round_half_even_exact [of 1 "n * 2 ^ (52 - ?l)"] by (simp add: nat_diff_distrib')
  have k: "nat (1022 + int ?l) = ?l + 1022" by simp
  have "n * 2 ^ (52 - ?l) < 2 ^ Suc ?l * 2 ^ (52 - ?l)"
    using b(2) by simp
  also have "\<dots> = 2 ^ 53"
    using l by (simp flip: power_add)
  finally have small: "n * 2 ^ (52 - ?l) < 2 ^ 53" .
  have "(?l + 1022) * 2 ^ 52 \<le> 1074 * 2 ^ 52" using l by simp
  with small have "(?l + 1022) * 2 ^ 52 + n * 2 ^ (52 - ?l) \<le> dbl_inf"
    by (simp add: dbl_inf_def)
  then show ?thesis
    using assms(1) by (simp add: dbl_magnitude_def fp_magnitude_def Let_def b(1) cmp e q k)
qed

end
