(* ===== verification/C_Library.thy ===== *)
theory C_Library
  imports IEEE_Float
begin

text \<open>
  What the daemon uses of the C and C++ standard libraries on text: character classes in
  the C locale, \<open>strcasecmp\<close>, the conversions \<open>strtol\<close> and \<open>strtod\<close>, the extraction
  operators of \<open>std::istringstream\<close> (libstdc++), and the insertion operators and
  \<open>printf\<close> formats that turn numbers into text.
\<close>

section \<open>Characters\<close>

definition isspace :: "char \<Rightarrow> bool" where
  "isspace c = (c = CHR '' '' \<or> c = CHR 0x09 \<or> c = CHR 0x0A \<or> c = CHR 0x0B
     \<or> c = CHR 0x0C \<or> c = CHR 0x0D)"

definition char_val :: "char \<Rightarrow> nat" where
  "char_val c = of_char c"

definition isdigit :: "char \<Rightarrow> bool" where
  "isdigit c = (48 \<le> char_val c \<and> char_val c \<le> 57)"

definition digit_val :: "char \<Rightarrow> nat" where
  "digit_val c = char_val c - 48"

definition digit_char :: "nat \<Rightarrow> char" where
  "digit_char d = char_of (48 + d)"

definition tolower :: "char \<Rightarrow> char" where
  "tolower c = (if 65 \<le> char_val c \<and> char_val c \<le> 90 then char_of (char_val c + 32) else c)"

definition isupper :: "char \<Rightarrow> bool" where
  "isupper c = (65 \<le> char_val c \<and> char_val c \<le> 90)"

definition hex_val :: "char \<Rightarrow> nat option" where
  "hex_val c = (let k = char_val c in
     if 48 \<le> k \<and> k \<le> 57 then Some (k - 48)
     else if 65 \<le> k \<and> k \<le> 70 then Some (k - 55)
     else if 97 \<le> k \<and> k \<le> 102 then Some (k - 87) else None)"

definition stricmp_eq :: "string \<Rightarrow> string \<Rightarrow> bool" where
  "stricmp_eq s t = (map tolower (c_str s) = map tolower (c_str t))"

lemma char_val_lt: "char_val c < 256"
  by (simp add: char_val_def)

lemma digit_char_val: "d < 10 \<Longrightarrow> char_val (digit_char d) = 48 + d"
  by (simp add: char_val_def digit_char_def)

lemma isdigit_digit_char [simp]: "d < 10 \<Longrightarrow> isdigit (digit_char d)"
  by (simp add: isdigit_def digit_char_val)

lemma digit_val_char [simp]: "d < 10 \<Longrightarrow> digit_val (digit_char d) = d"
  by (simp add: digit_val_def digit_char_val)

lemma tolower_not_upper: "\<not> isupper (tolower c)"
  by (auto simp: tolower_def isupper_def char_val_def)

lemma isdigit_not_space: "isdigit c \<Longrightarrow> \<not> isspace c"
  by (auto simp: isdigit_def isspace_def char_val_def)

section \<open>Numbers as text\<close>

fun show_nat :: "nat \<Rightarrow> string" where
  "show_nat n = (if n < 10 then [digit_char n] else show_nat (n div 10) @ [digit_char (n mod 10)])"

declare show_nat.simps [simp del]

text \<open>\<open>%d\<close>, and \<open><<\<close> of an integer.\<close>

definition show_int :: "int \<Rightarrow> string" where
  "show_int i = (if i < 0 then CHR ''-'' # show_nat (nat (- i)) else show_nat (nat i))"

definition nat_of_digits :: "string \<Rightarrow> nat" where
  "nat_of_digits ds = foldl (\<lambda>a c. 10 * a + digit_val c) 0 ds"

lemma show_nat_digits: "\<forall>c \<in> set (show_nat n). isdigit c"
proof (induction n rule: show_nat.induct)
  case (1 n)
  then show ?case
    by (cases "n < 10") (auto simp: show_nat.simps [of n])
qed

lemma show_nat_nonempty [simp]: "show_nat n \<noteq> []"
  by (simp add: show_nat.simps)

lemma nat_of_digits_show [simp]: "nat_of_digits (show_nat n) = n"
proof (induction n rule: show_nat.induct)
  case (1 n)
  then show ?case
    by (cases "n < 10") (simp_all add: show_nat.simps [of n] nat_of_digits_def)
qed

section \<open>strtol\<close>

text \<open>The value (clamped to \<open>long\<close>), the text behind it and \<open>ERANGE\<close>.\<close>

definition long_min :: int where "long_min = - (2 ^ 63)"
definition long_max :: int where "long_max = 2 ^ 63 - 1"

fun split_sign :: "string \<Rightarrow> bool \<times> string" where
  "split_sign [] = (False, [])"
| "split_sign (c # s) =
     (if c = CHR ''-'' then (True, s) else if c = CHR ''+'' then (False, s) else (False, c # s))"

definition strtol :: "string \<Rightarrow> int \<times> string \<times> bool" where
  "strtol str =
     (let (neg, s) = split_sign (dropWhile isspace str);
          ds = takeWhile isdigit s; v = (if neg then - int (nat_of_digits ds) else int (nat_of_digits ds))
      in if ds = [] then (0, str, False)
         else (max long_min (min long_max v), dropWhile isdigit s, v < long_min \<or> long_max < v))"

lemma split_sign_show_nat: "split_sign (show_nat n @ s) = (False, show_nat n @ s)"
proof -
  obtain c cs where c: "show_nat n = c # cs" by (cases "show_nat n") auto
  then have "isdigit c" using show_nat_digits [of n] by simp
  then show ?thesis by (auto simp: c isdigit_def char_val_def)
qed

lemma takeWhile_show_nat:
  "s = [] \<or> \<not> isdigit (hd s) \<Longrightarrow> takeWhile isdigit (show_nat n @ s) = show_nat n"
  using show_nat_digits [of n] by (cases s) (auto simp: takeWhile_append)

lemma dropWhile_show_nat:
  "s = [] \<or> \<not> isdigit (hd s) \<Longrightarrow> dropWhile isdigit (show_nat n @ s) = s"
  using show_nat_digits [of n] by (cases s) (auto simp: dropWhile_append)

lemma takeWhile_show_nat_all [simp]: "takeWhile isdigit (show_nat n) = show_nat n"
  by (simp add: takeWhile_eq_all_conv show_nat_digits)

lemma dropWhile_show_nat_all [simp]: "dropWhile isdigit (show_nat n) = []"
  by (simp add: dropWhile_eq_Nil_conv show_nat_digits)

lemma dropWhile_space_show_nat: "dropWhile isspace (show_nat n @ s) = show_nat n @ s"
proof -
  obtain c cs where c: "show_nat n = c # cs" by (cases "show_nat n") auto
  then have "isdigit c" using show_nat_digits [of n] by simp
  then show ?thesis by (simp add: c isdigit_not_space)
qed

lemma strtol_show_int:
  assumes "int_min \<le> i" "i \<le> int_max"
  shows "strtol (show_int i) = (i, [], False)"
proof -
  have r: "long_min \<le> i" "i \<le> long_max"
    using assms by (auto simp: int_min_def int_max_def long_min_def long_max_def)
  show ?thesis
  proof (cases "i < 0")
    case True
    have "\<not> isspace (CHR ''-'')" by (simp add: isspace_def)
    with True r show ?thesis
      by (simp add: strtol_def show_int_def Let_def)
  next
    case False
    with r show ?thesis
      using split_sign_show_nat [of "nat i" "[]"] dropWhile_space_show_nat [of "nat i" "[]"]
      by (simp add: strtol_def show_int_def Let_def)
  qed
qed

section \<open>strtod\<close>

text \<open>
  A decimal or hexadecimal floating constant, an infinity or a NaN (C99 7.20.1.3). The
  value is the correctly rounded one; \<open>ERANGE\<close> is set on overflow, and when an inexact
  result falls below the normal range.
\<close>

definition parse_exp :: "string \<Rightarrow> int \<times> string" where
  \<comment> \<open>the exponent behind the letter \<open>e\<close> or \<open>p\<close>, if there is one\<close>
  "parse_exp s = (case s of [] \<Rightarrow> (0, s) | _ # t \<Rightarrow>
     (let (neg, u) = split_sign t; ds = takeWhile isdigit u
      in if ds = [] then (0, s)
         else ((if neg then - int (nat_of_digits ds) else int (nat_of_digits ds)),
               dropWhile isdigit u)))"

definition split_point :: "(char \<Rightarrow> bool) \<Rightarrow> string \<Rightarrow> string \<times> string \<times> string" where
  "split_point P s =
     (let ip = takeWhile P s; r = dropWhile P s
      in case r of c # t \<Rightarrow> if c = CHR ''.'' then (ip, takeWhile P t, dropWhile P t) else (ip, [], r)
         | [] \<Rightarrow> (ip, [], []))"

definition dbl_result :: "bool \<Rightarrow> nat \<Rightarrow> nat \<Rightarrow> dbl \<times> bool" where
  "dbl_result neg n d =
     (let mag = dbl_magnitude n d;
          tiny = (n \<noteq> 0 \<and> mag < 2 ^ 52 \<and> mag * d \<noteq> n * 2 ^ 1074)
      in (dbl_make neg mag, mag = dbl_inf \<or> tiny))"

definition strtod_decimal :: "bool \<Rightarrow> string \<Rightarrow> (dbl \<times> string \<times> bool) option" where
  "strtod_decimal neg s =
     (let (ip, fp, r) = split_point isdigit s
      in if ip = [] \<and> fp = [] then None
         else let (ex, rest) = (if r \<noteq> [] \<and> tolower (hd r) = CHR ''e'' then parse_exp r else (0, r));
                  k = ex - int (length fp); N = nat_of_digits (ip @ fp);
                  (v, er) = dbl_result neg (N * 10 ^ nat k) (10 ^ nat (- k))
              in Some (v, rest, er))"

definition hex_of_digits :: "string \<Rightarrow> nat" where
  "hex_of_digits ds = foldl (\<lambda>a c. 16 * a + (case hex_val c of Some d \<Rightarrow> d | None \<Rightarrow> 0)) 0 ds"

definition strtod_hex :: "bool \<Rightarrow> string \<Rightarrow> (dbl \<times> string \<times> bool) option" where
  "strtod_hex neg s =
     (let (ip, fp, r) = split_point (\<lambda>c. hex_val c \<noteq> None) s
      in if ip = [] \<and> fp = [] then None
         else let (ex, rest) = (if r \<noteq> [] \<and> tolower (hd r) = CHR ''p'' then parse_exp r else (0, r));
                  k = ex - 4 * int (length fp); N = hex_of_digits (ip @ fp);
                  (v, er) = dbl_result neg (N * 2 ^ nat k) (2 ^ nat (- k))
              in Some (v, rest, er))"

definition istarts :: "string \<Rightarrow> string \<Rightarrow> bool" where
  "istarts p s = starts_with p (map tolower s)"

definition strtod :: "string \<Rightarrow> dbl \<times> string \<times> bool" where
  "strtod str =
     (let (neg, s) = split_sign (dropWhile isspace str)
      in if istarts ''infinity'' s then (dbl_make neg dbl_inf, drop 8 s, False)
         else if istarts ''inf'' s then (dbl_make neg dbl_inf, drop 3 s, False)
         else if istarts ''nan'' s then (dbl_make neg (dbl_inf + 2 ^ 51), drop 3 s, False)
         else case (if istarts ''0x'' s then strtod_hex neg (drop 2 s) else None) of
           Some r \<Rightarrow> r
         | None \<Rightarrow> (case strtod_decimal neg s of Some r \<Rightarrow> r | None \<Rightarrow> (0, str, False)))"

section \<open>Stream extraction\<close>

text \<open>
  \<open>stream >> v\<close> for an integer type with range \<open>lo .. hi\<close>: the value stored (none when the
  stream holds only white space, then \<open>v\<close> keeps what it held), the rest of the stream and
  whether the stream is still good. Text that is no number stores 0; a number out of range
  stores the nearest bound.
\<close>

definition istream_int :: "int \<Rightarrow> int \<Rightarrow> string \<Rightarrow> int option \<times> string \<times> bool" where
  "istream_int lo hi str =
     (let t = dropWhile isspace str; (neg, s) = split_sign t;
          ds = takeWhile isdigit s; r = dropWhile isdigit s;
          v = (if neg then - int (nat_of_digits ds) else int (nat_of_digits ds))
      in if t = [] then (None, [], False)
         else if ds = [] then (Some 0, r, False)
         else (Some (max lo (min hi v)), r, lo \<le> v \<and> v \<le> hi))"

text \<open>The same for an unsigned type of \<open>2 ^ w\<close> values: a minus sign negates modulo \<open>2 ^ w\<close>.\<close>

definition istream_uint :: "nat \<Rightarrow> string \<Rightarrow> nat option \<times> string \<times> bool" where
  "istream_uint w str =
     (let t = dropWhile isspace str; (neg, s) = split_sign t;
          ds = takeWhile isdigit s; r = dropWhile isdigit s; v = nat_of_digits ds
      in if t = [] then (None, [], False)
         else if ds = [] then (Some 0, r, False)
         else if 2 ^ w \<le> v then (Some (2 ^ w - 1), r, False)
         else (Some (if neg then (2 ^ w - v) mod 2 ^ w else v), r, True))"

text \<open>The characters a \<open>double\<close> extraction collects before it converts them.\<close>

definition float_token :: "string \<Rightarrow> string \<times> string" where
  "float_token t =
     (let sg = (if t \<noteq> [] \<and> (hd t = CHR ''-'' \<or> hd t = CHR ''+'') then [hd t] else []);
          s = drop (length sg) t; (ip, fp, r) = split_point isdigit s;
          mant = take (length s - length r) s
      in if r \<noteq> [] \<and> tolower (hd r) = CHR ''e'' \<and> (ip \<noteq> [] \<or> fp \<noteq> [])
         then let u = tl r; es = (if u \<noteq> [] \<and> (hd u = CHR ''-'' \<or> hd u = CHR ''+'') then [hd u] else []);
                  u' = drop (length es) u; ed = takeWhile isdigit u'
              in (sg @ mant @ [hd r] @ es @ ed, drop (length ed) u')
         else (sg @ mant, r))"

definition dbl_max :: nat where "dbl_max = dbl_inf - 1"

definition istream_dbl :: "string \<Rightarrow> dbl option \<times> string \<times> bool" where
  "istream_dbl str =
     (let t = dropWhile isspace str; (tok, rest) = float_token t; (v, r, er) = strtod tok
      in if t = [] then (None, [], False)
         else if tok = [] \<or> r \<noteq> [] then (Some 0, rest, False)
         else if dbl_is_inf v then (Some (dbl_make (dbl_neg v) dbl_max), rest, False)
         else (Some v, rest, True))"

text \<open>\<open>stream >> c\<close> for a character type (which \<open>uint8_t\<close> is) takes one character.\<close>

definition istream_char :: "string \<Rightarrow> char option \<times> string" where
  "istream_char str = (case dropWhile isspace str of [] \<Rightarrow> (None, []) | c # s \<Rightarrow> (Some c, s))"

section \<open>Formatting a double\<close>

definition pad_left :: "nat \<Rightarrow> char \<Rightarrow> string \<Rightarrow> string" where
  "pad_left n c s = replicate (n - length s) c @ s"

definition nonfinite :: "dbl \<Rightarrow> string" where
  "nonfinite v = (if dbl_neg v then ''-'' else []) @ (if dbl_is_nan v then ''nan'' else ''inf'')"

text \<open>\<open>%f\<close>: the exact value rounded to six decimals.\<close>

definition show_fixed :: "dbl \<Rightarrow> string" where
  "show_fixed v =
     (if dbl_inf \<le> dbl_mag v then nonfinite v
      else let (n, d) = ratio_of (dbl_frac v); N = round_half_even (n * 10 ^ 6) d
           in (if dbl_neg v then ''-'' else []) @ show_nat (N div 10 ^ 6) @ ''.''
              @ pad_left 6 (CHR ''0'') (show_nat (N mod 10 ^ 6)))"

text \<open>\<open><<\<close> of a \<open>double\<close> with the stream's default precision, which is \<open>%g\<close>: six
  significant digits without trailing zeros, in exponent form outside \<open>1e-4 .. 1e6\<close>.\<close>

fun dec_exp :: "nat \<Rightarrow> nat \<Rightarrow> nat \<Rightarrow> int" where
  \<comment> \<open>the decimal exponent of \<open>n / d\<close>, found within the range a \<open>double\<close> can have\<close>
  "dec_exp 0 n d = 0"
| "dec_exp (Suc k) n d =
     (if n = 0 then 0 else if n < d then dec_exp k (10 * n) d - 1
      else if 10 * d \<le> n then dec_exp k n (10 * d) + 1 else 0)"

definition strip_zeros :: "string \<Rightarrow> string" where
  "strip_zeros s =
     (let t = rev (dropWhile (\<lambda>c. c = CHR ''0'') (rev s))
      in if t \<noteq> [] \<and> last t = CHR ''.'' then butlast t else t)"

definition show_dbl :: "dbl \<Rightarrow> string" where
  "show_dbl v =
     (if dbl_inf \<le> dbl_mag v then nonfinite v
      else let (n, d) = ratio_of (dbl_frac v);
               sg = (if dbl_neg v then ''-'' else []);
               X0 = dec_exp 400 n d;
               D0 = round_half_even (n * 10 ^ nat (5 - X0)) (d * 10 ^ nat (X0 - 5));
               (X, D) = (if D0 = 10 ^ 6 then (X0 + 1, 10 ^ 5) else (X0, D0));
               ds = pad_left 6 (CHR ''0'') (show_nat D)
           in if n = 0 then sg @ ''0''
              else if X < -4 \<or> 6 \<le> X
              then sg @ strip_zeros (take 1 ds @ ''.'' @ drop 1 ds) @ ''e''
                   @ (if X < 0 then ''-'' else ''+'') @ pad_left 2 (CHR ''0'') (show_nat (nat \<bar>X\<bar>))
              else if X < 0
              then sg @ strip_zeros (''0.'' @ replicate (nat (- X) - 1) (CHR ''0'') @ ds)
              else sg @ strip_zeros (take (nat X + 1) ds @ ''.'' @ drop (nat X + 1) ds))"

end
