(* ===== verification/Json_Value.thy ===== *)
theory Json_Value
  imports C_Library
begin

text \<open>
  The values of the JSON library (\<open>daemon/src/json.h\<close>, \<open>daemon/src/json.cpp\<close>): the tagged
  \<open>Value\<close> with its accessors, and the containers \<open>Array\<close> and \<open>Object\<close>. A \<open>Value\<close> keeps
  one field per type; the numeric fields always hold the conversions of the one that was
  set, so a datatype with one payload determines all of them.
\<close>

section \<open>Types\<close>

datatype jvalue =
    JNull
  | JStr string
  | JInt int
  | JFlt flt
  | JDbl dbl
  | JObj "(string \<times> jvalue) list"
  | JArr "jvalue list"
  | JBool bool

type_synonym jobject = "(string, jvalue) std_map"
type_synonym jarray = "jvalue list"

datatype value_type =
    NULLVal | StringVal | IntVal | FloatVal | DoubleVal | ObjectVal | ArrayVal | BoolVal

fun GetType :: "jvalue \<Rightarrow> value_type" where
  "GetType JNull = NULLVal"
| "GetType (JStr _) = StringVal"
| "GetType (JInt _) = IntVal"
| "GetType (JFlt _) = FloatVal"
| "GetType (JDbl _) = DoubleVal"
| "GetType (JObj _) = ObjectVal"
| "GetType (JArr _) = ArrayVal"
| "GetType (JBool _) = BoolVal"

definition IsNumeric :: "jvalue \<Rightarrow> bool" where
  "IsNumeric v = (GetType v = IntVal \<or> GetType v = DoubleVal \<or> GetType v = FloatVal)"

section \<open>The fields\<close>

fun mIntVal :: "jvalue \<Rightarrow> int" where
  "mIntVal (JInt i) = i"
| "mIntVal (JFlt f) = int_of_flt f"
| "mIntVal (JDbl d) = int_of_dbl d"
| "mIntVal _ = 0"

fun mFloatVal :: "jvalue \<Rightarrow> flt" where
  "mFloatVal (JInt i) = flt_of_int i"
| "mFloatVal (JFlt f) = f"
| "mFloatVal (JDbl d) = flt_of_dbl d"
| "mFloatVal _ = 0"

fun mDoubleVal :: "jvalue \<Rightarrow> dbl" where
  "mDoubleVal (JInt i) = dbl_of_int i"
| "mDoubleVal (JFlt f) = dbl_of_flt f"
| "mDoubleVal (JDbl d) = d"
| "mDoubleVal _ = 0"

fun mStringVal :: "jvalue \<Rightarrow> string" where
  "mStringVal (JStr s) = s"
| "mStringVal _ = []"

fun mObjectVal :: "jvalue \<Rightarrow> jobject" where
  "mObjectVal (JObj m) = m"
| "mObjectVal _ = []"

fun mArrayVal :: "jvalue \<Rightarrow> jarray" where
  "mArrayVal (JArr xs) = xs"
| "mArrayVal _ = []"

fun mBoolVal :: "jvalue \<Rightarrow> bool" where
  "mBoolVal (JBool b) = b"
| "mBoolVal _ = False"

section \<open>Object\<close>

definition Object_HasKey :: "jobject \<Rightarrow> string \<Rightarrow> bool" where
  "Object_HasKey m key = (map_of m key \<noteq> None)"

text \<open>\<open>HasKeys\<close>: -1, or the index of the first key that is missing.\<close>

fun Object_HasKeys_from :: "int \<Rightarrow> jobject \<Rightarrow> string list \<Rightarrow> int" where
  "Object_HasKeys_from i m [] = -1"
| "Object_HasKeys_from i m (k # ks) =
     (if \<not> Object_HasKey m k then i else Object_HasKeys_from (i + 1) m ks)"

definition Object_HasKeys :: "jobject \<Rightarrow> string list \<Rightarrow> int" where
  "Object_HasKeys m keys = Object_HasKeys_from 0 m keys"

text \<open>\<open>operator[]\<close> inserts a null value for a missing key; the \<open>const\<close> one
  dereferences \<open>end()\<close>.\<close>

definition Object_index :: "jobject \<Rightarrow> string \<Rightarrow> jvalue \<times> jobject" where
  "Object_index m key =
     (case map_of m key of Some v \<Rightarrow> (v, m) | None \<Rightarrow> (JNull, map_assign key JNull m))"

definition Object_index_const :: "jobject \<Rightarrow> string \<Rightarrow> jvalue res" where
  "Object_index_const m key = (case map_of m key of Some v \<Rightarrow> Inr v | None \<Rightarrow> Inl Bad_access)"

section \<open>Array\<close>

definition Array_index :: "jarray \<Rightarrow> nat \<Rightarrow> jvalue res" where
  "Array_index xs i = (if i < length xs then Inr (xs ! i) else Inl Bad_access)"

definition Array_push_back :: "jarray \<Rightarrow> jvalue \<Rightarrow> jarray" where
  "Array_push_back xs v = xs @ [v]"

definition Array_insert :: "jarray \<Rightarrow> nat \<Rightarrow> jvalue \<Rightarrow> jarray res" where
  "Array_insert xs i v =
     (if i \<le> length xs then Inr (take i xs @ v # drop i xs) else Inl Bad_access)"

section \<open>Value\<close>

definition Value_index :: "jvalue \<Rightarrow> nat \<Rightarrow> jvalue res" where
  "Value_index v i =
     (if GetType v \<noteq> ArrayVal then Inl (Runtime_error ''json mValueType==ArrayVal required'')
      else Array_index (mArrayVal v) i)"

definition Value_key :: "jvalue \<Rightarrow> string \<Rightarrow> (jvalue \<times> jvalue) res" where
  \<comment> \<open>the element, and the object afterwards\<close>
  "Value_key v key =
     (if GetType v \<noteq> ObjectVal then Inl (Runtime_error ''json mValueType==ObjectVal required'')
      else let (w, m) = Object_index (mObjectVal v) key in Inr (w, JObj m))"

definition Value_key_const :: "jvalue \<Rightarrow> string \<Rightarrow> jvalue res" where
  "Value_key_const v key =
     (if GetType v \<noteq> ObjectVal then Inl (Runtime_error ''json mValueType==ObjectVal required'')
      else Object_index_const (mObjectVal v) key)"

definition Value_size :: "jvalue \<Rightarrow> nat" where
  "Value_size v =
     (if GetType v \<noteq> ObjectVal \<and> GetType v \<noteq> ArrayVal then 1
      else if GetType v = ObjectVal then length (mObjectVal v) else length (mArrayVal v))"

definition Value_HasKey :: "jvalue \<Rightarrow> string \<Rightarrow> bool res" where
  "Value_HasKey v key =
     (if GetType v \<noteq> ObjectVal then Inl (Runtime_error ''json mValueType==ObjectVal required'')
      else Inr (Object_HasKey (mObjectVal v) key))"

definition Value_HasKeys :: "jvalue \<Rightarrow> string list \<Rightarrow> int res" where
  "Value_HasKeys v keys =
     (if GetType v \<noteq> ObjectVal then Inl (Runtime_error ''json mValueType==ObjectVal required'')
      else Inr (Object_HasKeys (mObjectVal v) keys))"

text \<open>The throwing conversions (also the conversion operators) and those with a default.\<close>

definition ToInt :: "jvalue \<Rightarrow> int res" where
  "ToInt v = (if \<not> IsNumeric v then Inl (Runtime_error ''json mValueType==IsNumeric() required'')
              else Inr (mIntVal v))"

definition ToFloat :: "jvalue \<Rightarrow> flt res" where
  "ToFloat v = (if \<not> IsNumeric v then Inl (Runtime_error ''json mValueType==IsNumeric() required'')
                else Inr (mFloatVal v))"

definition ToDouble :: "jvalue \<Rightarrow> dbl res" where
  "ToDouble v = (if \<not> IsNumeric v then Inl (Runtime_error ''json mValueType==IsNumeric() required'')
                 else Inr (mDoubleVal v))"

definition ToBool :: "jvalue \<Rightarrow> bool res" where
  "ToBool v = (if GetType v \<noteq> BoolVal then Inl (Runtime_error ''json mValueType==BoolVal required'')
               else Inr (mBoolVal v))"

definition ToString :: "jvalue \<Rightarrow> string res" where
  "ToString v = (if GetType v \<noteq> StringVal then Inl (Runtime_error ''json mValueType==StringVal required'')
                 else Inr (mStringVal v))"

definition ToObject :: "jvalue \<Rightarrow> jobject res" where
  "ToObject v = (if GetType v \<noteq> ObjectVal then Inl (Runtime_error ''json mValueType==ObjectVal required'')
                 else Inr (mObjectVal v))"

definition ToArray :: "jvalue \<Rightarrow> jarray res" where
  "ToArray v = (if GetType v \<noteq> ArrayVal then Inl (Runtime_error ''json mValueType==ArrayVal required'')
                else Inr (mArrayVal v))"

definition ToInt_def_val :: "jvalue \<Rightarrow> int \<Rightarrow> int" where
  "ToInt_def_val v d = (if IsNumeric v then mIntVal v else d)"

definition ToDouble_def_val :: "jvalue \<Rightarrow> dbl \<Rightarrow> dbl" where
  "ToDouble_def_val v d = (if IsNumeric v then mDoubleVal v else d)"

definition ToBool_def_val :: "jvalue \<Rightarrow> bool \<Rightarrow> bool" where
  "ToBool_def_val v d = (if GetType v = BoolVal then mBoolVal v else d)"

definition ToString_def_val :: "jvalue \<Rightarrow> string \<Rightarrow> string" where
  "ToString_def_val v d = (if GetType v = StringVal then mStringVal v else d)"

section \<open>Comparison\<close>

text \<open>
  \<open>==\<close> and \<open><\<close> on two numbers convert as C++ does; on a \<open>float\<close> and an \<open>int\<close> the
  \<open>int\<close> becomes a \<open>float\<close>. The guard at the top only answers when neither side is a
  number, so a comparison of a number with something else reaches the \<open>switch\<close> on the left
  type and compares the left field with the default of the right one.
\<close>

fun num_eq :: "jvalue \<Rightarrow> jvalue \<Rightarrow> bool" where
  "num_eq (JInt i) (JInt j) = (i = j)"
| "num_eq (JInt i) (JFlt g) = dbl_eq (dbl_of_flt (flt_of_int i)) (dbl_of_flt g)"
| "num_eq (JInt i) (JDbl e) = dbl_eq (dbl_of_int i) e"
| "num_eq (JFlt f) (JInt j) = dbl_eq (dbl_of_flt f) (dbl_of_flt (flt_of_int j))"
| "num_eq (JFlt f) (JFlt g) = dbl_eq (dbl_of_flt f) (dbl_of_flt g)"
| "num_eq (JFlt f) (JDbl e) = dbl_eq (dbl_of_flt f) e"
| "num_eq (JDbl d) (JInt j) = dbl_eq d (dbl_of_int j)"
| "num_eq (JDbl d) (JFlt g) = dbl_eq d (dbl_of_flt g)"
| "num_eq (JDbl d) (JDbl e) = dbl_eq d e"
| "num_eq _ _ = False"

fun num_lt :: "jvalue \<Rightarrow> jvalue \<Rightarrow> bool" where
  "num_lt (JInt i) (JInt j) = (i < j)"
| "num_lt (JInt i) (JFlt g) = dbl_lt (dbl_of_flt (flt_of_int i)) (dbl_of_flt g)"
| "num_lt (JInt i) (JDbl e) = dbl_lt (dbl_of_int i) e"
| "num_lt (JFlt f) (JInt j) = dbl_lt (dbl_of_flt f) (dbl_of_flt (flt_of_int j))"
| "num_lt (JFlt f) (JFlt g) = dbl_lt (dbl_of_flt f) (dbl_of_flt g)"
| "num_lt (JFlt f) (JDbl e) = dbl_lt (dbl_of_flt f) e"
| "num_lt (JDbl d) (JInt j) = dbl_lt d (dbl_of_int j)"
| "num_lt (JDbl d) (JFlt g) = dbl_lt d (dbl_of_flt g)"
| "num_lt (JDbl d) (JDbl e) = dbl_lt d e"
| "num_lt _ _ = False"

function (sequential) Value_eq :: "jvalue \<Rightarrow> jvalue \<Rightarrow> bool"
  and Array_eq :: "jarray \<Rightarrow> jarray \<Rightarrow> bool"
  and Object_eq :: "jobject \<Rightarrow> jobject \<Rightarrow> bool" where
  "Value_eq lhs rhs =
     (if GetType lhs \<noteq> GetType rhs \<and> \<not> IsNumeric lhs \<and> \<not> IsNumeric rhs then False
      else case lhs of
          JStr s \<Rightarrow> s = mStringVal rhs
        | JInt _ \<Rightarrow> num_eq lhs rhs
        | JFlt _ \<Rightarrow> num_eq lhs rhs
        | JDbl _ \<Rightarrow> num_eq lhs rhs
        | JBool b \<Rightarrow> b = mBoolVal rhs
        | JObj m \<Rightarrow> Object_eq m (mObjectVal rhs)
        | JArr xs \<Rightarrow> Array_eq xs (mArrayVal rhs)
        | JNull \<Rightarrow> True)"
| "Array_eq [] [] = True"
| "Array_eq (x # xs) (y # ys) = (if Value_eq x y then Array_eq xs ys else False)"
| "Array_eq _ _ = False"
| "Object_eq [] [] = True"
| "Object_eq ((k, x) # m) ((l, y) # n) =
     (if k = l then (if Value_eq x y then Object_eq m n else False) else False)"
| "Object_eq _ _ = False"
  by pat_completeness auto

termination
  by (relation "measure (\<lambda>x. case x of Inl (v, _) \<Rightarrow> size v
        | Inr (Inl (xs, _)) \<Rightarrow> size_list size xs
        | Inr (Inr (m, _)) \<Rightarrow> size_list (size_prod (\<lambda>_. 0) size) m)") auto

lemma size_mArrayVal: "size_list size (mArrayVal v) \<le> size v"
  by (cases v) auto

lemma size_mObjectVal: "size_list (size_prod (\<lambda>_. 0) size) (mObjectVal v) \<le> size v"
  by (cases v) auto

function (sequential) Value_lt :: "jvalue \<Rightarrow> jvalue \<Rightarrow> bool"
  and Array_lt :: "jarray \<Rightarrow> jarray \<Rightarrow> bool"
  and Object_lt :: "jobject \<Rightarrow> jobject \<Rightarrow> bool" where
  "Value_lt lhs rhs =
     (if GetType lhs \<noteq> GetType rhs \<and> \<not> IsNumeric lhs \<and> \<not> IsNumeric rhs then False
      else case lhs of
          JStr s \<Rightarrow> s < mStringVal rhs
        | JInt _ \<Rightarrow> num_lt lhs rhs
        | JFlt _ \<Rightarrow> num_lt lhs rhs
        | JDbl _ \<Rightarrow> num_lt lhs rhs
        | JBool b \<Rightarrow> \<not> b \<and> mBoolVal rhs
        | JObj m \<Rightarrow> Object_lt m (mObjectVal rhs)
        | JArr xs \<Rightarrow> Array_lt xs (mArrayVal rhs)
        | JNull \<Rightarrow> True)"
| "Array_lt _ [] = False"
| "Array_lt [] (y # ys) = True"
| "Array_lt (x # xs) (y # ys) =
     (if Value_lt x y then True else if Value_lt y x then False else Array_lt xs ys)"
| "Object_lt _ [] = False"
| "Object_lt [] (q # n) = True"
| "Object_lt ((k, x) # m) ((l, y) # n) =
     (if k < l then True
      else if l < k then False
      else if Value_lt x y then True
      else if Value_lt y x then False
      else Object_lt m n)"
  by pat_completeness auto
termination
  by (relation "measure (\<lambda>x. case x of Inl (v, w) \<Rightarrow> size v + size w
        | Inr (Inl (xs, ys)) \<Rightarrow> size_list size xs + size_list size ys
        | Inr (Inr (m, n)) \<Rightarrow>
            size_list (size_prod (\<lambda>_. 0) size) m + size_list (size_prod (\<lambda>_. 0) size) n)")
     (auto simp: less_Suc_eq_le size_mArrayVal size_mObjectVal)

definition Array_find :: "jarray \<Rightarrow> jvalue \<Rightarrow> nat option" where
  "Array_find xs v = find_idx (\<lambda>x. Value_eq x v) xs"

definition Array_HasValue :: "jarray \<Rightarrow> jvalue \<Rightarrow> bool" where
  "Array_HasValue xs v = (Array_find xs v \<noteq> None)"

section \<open>Facts\<close>

declare Value_eq.simps [simp del] Value_lt.simps [simp del]

lemma Object_HasKeys_from_spec:
  "Object_HasKeys_from i m ks =
     (case find_idx (\<lambda>k. \<not> Object_HasKey m k) ks of None \<Rightarrow> -1 | Some j \<Rightarrow> i + int j)"
proof (induction ks arbitrary: i)
  case (Cons k ks)
  then show ?case
    by (cases "find_idx (\<lambda>k. \<not> Object_HasKey m k) ks") (simp_all del: find_idx_None)
qed simp

lemma Object_HasKeys_spec:
  "Object_HasKeys m ks =
     (case find_idx (\<lambda>k. \<not> Object_HasKey m k) ks of None \<Rightarrow> -1 | Some j \<Rightarrow> int j)"
  by (cases "find_idx (\<lambda>k. \<not> Object_HasKey m k) ks")
     (simp_all add: Object_HasKeys_def Object_HasKeys_from_spec del: find_idx_None)

lemma Object_index_ok: "map_ok m \<Longrightarrow> map_ok (snd (Object_index m key))"
  by (auto simp: Object_index_def split: option.splits)

lemma Value_index_ok: "i < length xs \<Longrightarrow> Value_index (JArr xs) i = Inr (xs ! i)"
  by (simp add: Value_index_def Array_index_def)

lemma Value_index_object: "Value_index (JObj m) i = Inl (Runtime_error ''json mValueType==ArrayVal required'')"
  by (simp add: Value_index_def)

lemma Value_size_simps [simp]:
  "Value_size (JArr xs) = length xs" "Value_size (JObj m) = length m" "Value_size JNull = 1"
  "Value_size (JStr s) = 1" "Value_size (JInt i) = 1" "Value_size (JFlt f) = 1"
  "Value_size (JDbl d) = 1" "Value_size (JBool b) = 1"
  by (simp_all add: Value_size_def)

text \<open>Reading a key that exists neither inserts nor throws.\<close>

lemma Value_key_present:
  "map_of m key = Some v \<Longrightarrow> Value_key (JObj m) key = Inr (v, JObj m)"
  by (simp add: Value_key_def Object_index_def)

section \<open>The order of values\<close>

text \<open>The other comparisons are written with \<open>operator <\<close>; this makes values an instance of the
  library's \<open>ord\<close>. It is not an order: \<open>null\<close> is less than itself.\<close>

instantiation jvalue :: ord
begin

definition less_jvalue :: "jvalue \<Rightarrow> jvalue \<Rightarrow> bool" where
  "less_jvalue lhs rhs = Value_lt lhs rhs"

definition less_eq_jvalue :: "jvalue \<Rightarrow> jvalue \<Rightarrow> bool" where
  "less_eq_jvalue lhs rhs = (\<not> Value_lt rhs lhs)"

instance ..

end

lemma JInt_less [simp]: "JInt i < JInt j \<longleftrightarrow> i < j" "JInt i \<le> JInt j \<longleftrightarrow> i \<le> j"
  by (auto simp: less_jvalue_def less_eq_jvalue_def Value_lt.simps IsNumeric_def)

lemma JStr_less [simp]: "JStr s < JStr t \<longleftrightarrow> s < t" "JStr s \<le> JStr t \<longleftrightarrow> s \<le> t"
  by (auto simp: less_jvalue_def less_eq_jvalue_def Value_lt.simps IsNumeric_def)

lemma null_less_itself: "JNull < JNull" "\<not> JNull \<le> JNull"
  by (simp_all add: less_jvalue_def less_eq_jvalue_def Value_lt.simps)

end
