(* ===== verification/Json_Text.thy ===== *)
theory Json_Text
  imports Json_Value
begin

text \<open>
  \<open>json::Serialize\<close> and \<open>json::Deserialize\<close> (\<open>daemon/src/json.cpp\<close>). The parser cuts the
  text into pieces and parses each on its own; the stack of open brackets is one object that
  every level mutates. Its recursion carries a fuel argument;
  \<open>Deserialize_terminates\<close> shows that the fuel \<open>Deserialize\<close> starts with is always enough.
\<close>

abbreviation dquote :: char where "dquote \<equiv> CHR 0x22"
abbreviation backslash :: char where "backslash \<equiv> CHR 0x5C"

section \<open>Serialize\<close>

function (sequential) SerializeValue :: "jvalue \<Rightarrow> string"
  and SerializeArray :: "jarray \<Rightarrow> string"
  and Serialize :: "jvalue \<Rightarrow> string"
  and Serialize_elements :: "bool \<Rightarrow> jarray \<Rightarrow> string"
  and Serialize_members :: "bool \<Rightarrow> jobject \<Rightarrow> string" where
  "SerializeValue v = (case v of
       JInt i \<Rightarrow> show_int i
     | JFlt f \<Rightarrow> show_fixed (dbl_of_flt f)
     | JDbl d \<Rightarrow> show_fixed d
     | JBool b \<Rightarrow> if b then ''true'' else ''false''
     | JNull \<Rightarrow> ''null''
     | JObj m \<Rightarrow> Serialize v
     | JArr xs \<Rightarrow> SerializeArray xs
     | JStr s \<Rightarrow> [dquote] @ s @ [dquote])"
| "SerializeArray xs = ''['' @ Serialize_elements True xs @ '']''"
| "Serialize v = (case v of
       JObj m \<Rightarrow> ''{'' @ Serialize_members True m @ ''}''
     | JArr xs \<Rightarrow> ''['' @ Serialize_elements True xs @ '']''
     | _ \<Rightarrow> [])"
| "Serialize_elements first [] = []"
| "Serialize_elements first (x # xs) =
     (if first then [] else '','') @ SerializeValue x @ Serialize_elements False xs"
| "Serialize_members first [] = []"
| "Serialize_members first ((k, x) # m) =
     (if first then [] else '','') @ [dquote] @ k @ [dquote] @ '':'' @ SerializeValue x
     @ Serialize_members False m"
  by pat_completeness auto
termination
  by (relation "measure (\<lambda>x. case x of
        Inl (Inl v) \<Rightarrow> 2 * size v + 1
      | Inl (Inr xs) \<Rightarrow> 2 * size_list size xs + 1
      | Inr (Inl v) \<Rightarrow> 2 * size v
      | Inr (Inr (Inl (_, xs))) \<Rightarrow> 2 * size_list size xs
      | Inr (Inr (Inr (_, m))) \<Rightarrow> 2 * size_list (size_prod (\<lambda>_. 0) size) m)") auto

declare SerializeValue.simps [simp del] Serialize.simps [simp del]

section \<open>Scanning helpers\<close>

datatype StackDepthType = InObject | InArray

type_synonym depth_stack = "StackDepthType list"  \<comment> \<open>top first\<close>

definition Trim :: "string \<Rightarrow> string" where
  "Trim str = rev (dropWhile isspace (rev (dropWhile isspace str)))"

fun quote_scan :: "bool \<Rightarrow> nat \<Rightarrow> string \<Rightarrow> nat option" where
  "quote_scan found_slash i [] = None"
| "quote_scan found_slash i (c # cs) =
     (if c = backslash \<and> \<not> found_slash then quote_scan True (Suc i) cs
      else if c = dquote \<and> \<not> found_slash then Some i
      else quote_scan False (Suc i) cs)"

definition GetQuotePos :: "string \<Rightarrow> nat \<Rightarrow> nat option" where
  "GetQuotePos str start_pos = quote_scan False start_pos (drop start_pos str)"

text \<open>\<open>npos\<close> is \<open>None\<close>; \<open>npos + 1\<close> is 0.\<close>

definition succ_pos :: "nat option \<Rightarrow> nat" where
  "succ_pos p = (case p of None \<Rightarrow> 0 | Some i \<Rightarrow> Suc i)"

fun end_scan :: "nat \<Rightarrow> char \<Rightarrow> nat \<Rightarrow> bool \<Rightarrow> depth_stack \<Rightarrow> string
    \<Rightarrow> (nat option \<times> depth_stack) res" where
  "end_scan original_count prev i in_quote stk [] = Inr (Some i, stk)"
| "end_scan original_count prev i in_quote stk (c # cs) =
     (if c = dquote
      then end_scan original_count c (Suc i) (if prev \<noteq> backslash then \<not> in_quote else in_quote) stk cs
      else if \<not> in_quote then
        (if c = CHR ''['' then end_scan original_count c (Suc i) in_quote (InArray # stk) cs
         else if c = CHR ''{'' then end_scan original_count c (Suc i) in_quote (InObject # stk) cs
         else if c = CHR '']'' \<or> c = CHR ''}'' then
           (case stk of
              [] \<Rightarrow> Inl Bad_access
            | t # stk' \<Rightarrow>
                if t \<noteq> (if c = CHR '']'' then InArray else InObject) then Inr (None, stk)
                else if length stk = original_count then Inr (Some i, stk')
                else end_scan original_count c (Suc i) in_quote stk' cs)
         else end_scan original_count c (Suc i) in_quote stk cs)
      else end_scan original_count c (Suc i) in_quote stk cs)"

definition GetEndOfArrayOrObj :: "string \<Rightarrow> depth_stack \<Rightarrow> (nat option \<times> depth_stack) res" where
  "GetEndOfArrayOrObj str stk = (case str of
       [] \<Rightarrow> Inr (Some 1, stk)
     | c # cs \<Rightarrow> end_scan (length stk) c 1 False stk cs)"

text \<open>\<open>strtoul\<close> with base 16, reduced to the \<open>char\<close> the caller keeps of it.\<close>

definition strtoul16_char :: "string \<Rightarrow> char" where
  "strtoul16_char str =
     (let (neg, s) = split_sign (dropWhile isspace (c_str str));
          t = (if istarts ''0x'' s \<and> length s > 2 \<and> hex_val (s ! 2) \<noteq> None then drop 2 s else s);
          v = hex_of_digits (takeWhile (\<lambda>c. hex_val c \<noteq> None) t) mod 256
      in char_of (if neg then 256 - v else v))"

function (sequential) unescape :: "string \<Rightarrow> string res" where
  "unescape [] = Inr []"
| "unescape [c] = Inr [c]"
| "unescape (c # d # cs) =
     (if c = backslash then
        (if d = CHR ''u'' then
           bind_res (substr 3 2 (d # cs)) (\<lambda>hex_str.
           bind_res (unescape (drop 4 cs)) (\<lambda>s. Inr (strtoul16_char hex_str # s)))
         else bind_res (unescape cs) (\<lambda>s. Inr (
           (if d = dquote \<or> d = backslash \<or> d = CHR ''/'' then [d]
            else if d = CHR ''t'' then [CHR 0x09]
            else if d = CHR ''n'' then [CHR 0x0A]
            else if d = CHR ''r'' then [CHR 0x0D]
            else if d = CHR ''b'' then [CHR 0x08]
            else if d = CHR ''f'' then [CHR 0x0C]
            else []) @ s)))
      else bind_res (unescape (d # cs)) (\<lambda>s. Inr (c # s)))"
  by pat_completeness auto
termination
  by (relation "measure length") auto

definition UnescapeJSONString :: "string \<Rightarrow> string res" where
  "UnescapeJSONString str = bind_res (unescape str) (\<lambda>s. Inr (Trim s))"

section \<open>Scalars\<close>

text \<open>
  The scan of \<open>DeserializeValue\<close> over a number, boolean or null: where it stopped, the two
  flags and the characters collected, or an error; the stack it leaves behind either way.
\<close>

fun scalar_scan :: "nat \<Rightarrow> bool \<Rightarrow> bool \<Rightarrow> bool \<Rightarrow> string \<Rightarrow> depth_stack \<Rightarrow> string
    \<Rightarrow> depth_stack \<times> (nat \<times> bool \<times> bool \<times> string) option" where
  "scalar_scan i has_dot has_e found_digit temp_val stk [] = (stk, Some (i, has_dot, has_e, temp_val))"
| "scalar_scan i has_dot has_e found_digit temp_val stk (c # cs) =
     (let keep = (\<lambda>has_dot has_e stk. scalar_scan (Suc i) has_dot has_e
            (if isdigit c then True else found_digit)
            (if isspace c then temp_val else temp_val @ [c]) stk cs)
      in if c = CHR ''.'' then
           (if \<not> found_digit then (stk, None) else keep True has_e stk)
         else if c = CHR ''e'' \<or> c = CHR ''E'' then
           (if \<not> stricmp_eq temp_val ''fals'' \<and> \<not> stricmp_eq temp_val ''tru'' then
              (if \<not> found_digit then (stk, None)
               else if has_e then (stk, None)
               else keep has_dot True stk)
            else keep has_dot has_e stk)
         else if c = CHR '']'' then
           (if stk = [] \<or> hd stk \<noteq> InArray then (stk, None) else keep has_dot has_e (tl stk))
         else if c = CHR ''}'' then
           (if stk = [] \<or> hd stk \<noteq> InObject then (stk, None) else keep has_dot has_e (tl stk))
         else if c = CHR '','' then (stk, Some (i, has_dot, has_e, temp_val))
         else if c = CHR ''['' \<or> c = CHR ''{'' then (stk, None)
         else keep has_dot has_e stk)"

definition scalar_value :: "bool \<Rightarrow> bool \<Rightarrow> string \<Rightarrow> jvalue option" where
  "scalar_value has_dot has_e temp_val =
     (if stricmp_eq temp_val ''true'' then Some (JBool True)
      else if stricmp_eq temp_val ''false'' then Some (JBool False)
      else if has_e \<or> has_dot then
        (let (d, rest, erange) = strtod (c_str temp_val)
         in if erange \<or> rest \<noteq> [] then None else Some (JDbl d))
      else if stricmp_eq temp_val ''null'' then Some JNull
      else
        (let (ival, rest, erange) = strtol (c_str temp_val)
         in if rest \<noteq> [] then None
            else if erange \<and> (ival = long_max \<or> ival = long_min) then
              (let (dval, rest', erange') = strtod (c_str temp_val)
               in if erange' \<or> rest' \<noteq> [] then None else Some (JDbl dval))
            else if int_min \<le> ival \<and> ival \<le> int_max then Some (JInt ival)
            else None))"

section \<open>Deserialize\<close>

text \<open>
  The results are \<open>(value, stack)\<close>, and for \<open>DeserializeValue\<close> also \<open>had_error\<close> and what
  is left of the string it consumes from. \<open>DeserializeArray\<close>, \<open>DeserializeObj\<close> and
  \<open>DeserializeInternal\<close> take the value parser they call as an argument; \<open>DeserializeValue\<close>
  ties the knot. Each loop may run once per character of its text.
\<close>

type_synonym value_parser =
  "string \<Rightarrow> depth_stack \<Rightarrow> (jvalue \<times> bool \<times> string \<times> depth_stack) res"

definition is_array_stop :: "char \<Rightarrow> bool" where
  "is_array_stop c = (c \<in> {CHR ''{'', CHR ''['', CHR '','', CHR '']''})"

definition push_non_null :: "jarray \<Rightarrow> jvalue \<Rightarrow> jarray" where
  "push_non_null a v = (if GetType v \<noteq> NULLVal then Array_push_back a v else a)"

text \<open>
  One pass of the loop over the array's text: the text handed to \<open>DeserializeValue\<close>,
  whether that is the whole rest (a nested array or object), and what follows the value.
\<close>

definition array_piece :: "string \<Rightarrow> string \<times> bool \<times> string" where
  "array_piece str = (case find_idx is_array_stop str of
       None \<Rightarrow> (str, False, [])
     | Some i \<Rightarrow> if str ! i = CHR ''{'' \<or> str ! i = CHR ''['' then (str, True, [])
                else (take i str, False, drop (i + 1) str))"

primrec array_loop :: "value_parser \<Rightarrow> nat \<Rightarrow> jarray \<Rightarrow> string \<Rightarrow> depth_stack
    \<Rightarrow> (jvalue \<times> depth_stack) res" where
  "array_loop dv 0 a str stk = Inl Out_of_fuel"
| "array_loop dv (Suc n) a str stk =
     (if str = [] then Inr (JArr a, stk)
      else let (tmp, nested, rest) = array_piece str
           in bind_res (dv tmp stk) (\<lambda>(v, had_error, str1, stk1).
                if had_error then Inr (JNull, stk1)
                else array_loop dv n (push_non_null a v) (if nested then str1 else rest) stk1))"

definition DeserializeArray :: "value_parser \<Rightarrow> string \<Rightarrow> depth_stack
    \<Rightarrow> (jvalue \<times> depth_stack) res" where
  "DeserializeArray dv str0 stk =
     (let str = Trim str0
      in if str_at str 0 = CHR ''['' \<and> str_at str (length str - 1) = CHR '']''
         then bind_res (substr 1 (size_sub (length str) 2) str) (\<lambda>str1.
                array_loop dv (Suc (length str1)) [] str1 stk)
         else Inr (JNull, stk))"

definition object_key :: "string \<Rightarrow> (string \<times> string) option" where
  \<comment> \<open>the next key and the text behind its colon\<close>
  "object_key str =
     (let start_quote_idx = GetQuotePos str 0;
          end_quote_idx = GetQuotePos str (succ_pos start_quote_idx);
          colon_idx = (case end_quote_idx of None \<Rightarrow> None
                       | Some e \<Rightarrow> find_from (\<lambda>c. c = CHR '':'') e str)
      in case start_quote_idx of None \<Rightarrow> None
         | Some sq \<Rightarrow> (case end_quote_idx of None \<Rightarrow> None
           | Some eq \<Rightarrow> (case colon_idx of None \<Rightarrow> None
             | Some colon \<Rightarrow> Some (take (eq - sq - 1) (drop (sq + 1) str), drop (colon + 1) str))))"

primrec object_loop :: "value_parser \<Rightarrow> nat \<Rightarrow> jobject \<Rightarrow> string \<Rightarrow> depth_stack
    \<Rightarrow> (jvalue \<times> depth_stack) res" where
  "object_loop dv 0 obj str stk = Inl Out_of_fuel"
| "object_loop dv (Suc n) obj str stk =
     (if str = [] then Inr (JObj obj, stk)
      else case object_key str of
          None \<Rightarrow> Inr (JNull, stk)
        | Some (key, str1) \<Rightarrow>
            if key = [] then Inr (JNull, stk)
            else bind_res (dv str1 stk) (\<lambda>(v, had_error, str2, stk1).
              if had_error then Inr (JNull, stk1)
              else object_loop dv n (map_assign key v obj) str2 stk1))"

definition DeserializeObj :: "value_parser \<Rightarrow> string \<Rightarrow> depth_stack
    \<Rightarrow> (jvalue \<times> depth_stack) res" where
  "DeserializeObj dv str0 stk =
     (let str = Trim str0
      in if str_at str 0 \<noteq> CHR ''{'' \<and> str_at str (length str - 1) \<noteq> CHR ''}''
         then Inr (JNull, stk)
         else bind_res (substr 1 (size_sub (length str) 2) str) (\<lambda>str1.
                object_loop dv (Suc (length str1)) [] str1 stk))"

text \<open>The pop of \<open>DeserializeInternal\<close>; \<open>top()\<close> of an empty stack is undefined.\<close>

definition pop_expected :: "StackDepthType \<Rightarrow> jvalue \<times> depth_stack \<Rightarrow> (jvalue \<times> depth_stack) res" where
  "pop_expected t r = (case r of (v, stk1) \<Rightarrow>
     if GetType v = NULLVal then Inr (v, stk1)
     else (case stk1 of
         [] \<Rightarrow> Inl Bad_access
       | t' # stk2 \<Rightarrow> Inr (v, if t' \<noteq> t then stk1 else stk2)))"

definition DeserializeInternal :: "value_parser \<Rightarrow> string \<Rightarrow> depth_stack
    \<Rightarrow> (jvalue \<times> depth_stack) res" where
  "DeserializeInternal dv str0 stk =
     (let str = Trim str0
      in if str_at str 0 = CHR ''{'' then
           (if str_at str (length str - 1) \<noteq> CHR ''}'' then Inr (JNull, stk)
            else bind_res (DeserializeObj dv str (InObject # stk)) (pop_expected InObject))
         else if str_at str 0 = CHR ''['' then
           (if str_at str (length str - 1) \<noteq> CHR '']'' then Inr (JNull, stk)
            else bind_res (DeserializeArray dv str (InArray # stk)) (pop_expected InArray))
         else Inr (JNull, stk))"

definition scalar_branch :: "string \<Rightarrow> depth_stack \<Rightarrow> jvalue \<times> bool \<times> string \<times> depth_stack" where
  "scalar_branch str stk =
     (case scalar_scan 0 False False False [] stk str of
        (stk1, None) \<Rightarrow> (JNull, True, str, stk1)
      | (stk1, Some (i, has_dot, has_e, temp_val)) \<Rightarrow>
          (case scalar_value has_dot has_e temp_val of
             None \<Rightarrow> (JNull, True, str, stk1)
           | Some v \<Rightarrow> (v, False, drop i str, stk1)))"

primrec DeserializeValue :: "nat \<Rightarrow> value_parser" where
  "DeserializeValue 0 = (\<lambda>_ _. Inl Out_of_fuel)"
| "DeserializeValue (Suc n) = (\<lambda>str0 stk.
     let str = Trim str0
     in if str = [] then Inr (JNull, False, str, stk)
        else if hd str = CHR ''['' then
          bind_res (GetEndOfArrayOrObj str (InArray # stk)) (\<lambda>(i, stk1).
            case i of
              None \<Rightarrow> Inr (JNull, True, str, stk1)
            | Some i \<Rightarrow>
                bind_res (DeserializeArray (DeserializeValue n) (take (i + 1) str) stk1) (\<lambda>(v, stk2).
                bind_res (substr (i + 1) (length str) str) (\<lambda>str'.
                  Inr (v, False, str', stk2))))
        else if hd str = CHR ''{'' then
          bind_res (GetEndOfArrayOrObj str (InObject # stk)) (\<lambda>(i, stk1).
            case i of
              None \<Rightarrow> Inr (JNull, True, str, stk1)
            | Some i \<Rightarrow>
                bind_res (DeserializeInternal (DeserializeValue n) (take (i + 1) str) stk1) (\<lambda>(v, stk2).
                bind_res (substr (i + 1) (length str) str) (\<lambda>str'.
                  Inr (v, False, str', stk2))))
        else if hd str = dquote then
          (case GetQuotePos str 1 of
             None \<Rightarrow> Inr (JNull, True, str, stk)
           | Some end_quote \<Rightarrow>
               bind_res (UnescapeJSONString (take (end_quote - 1) (drop 1 str))) (\<lambda>s.
                 Inr (JStr s, False, drop (end_quote + 1) str, stk)))
        else Inr (scalar_branch str stk))"

definition Deserialize :: "string \<Rightarrow> jvalue res" where
  "Deserialize str =
     bind_res (DeserializeInternal (DeserializeValue (Suc (length str))) str [])
       (\<lambda>(v, depth_stack). Inr v)"

end
