(* ===== verification/Json_Facts.thy ===== *)
theory Json_Facts
  imports Json_Text
begin

text \<open>
  What the parser and printer of \<open>daemon/src/json.cpp\<close> guarantee: the parser always
  returns (a value or an uncaught exception), what the values it builds look like, and the
  values that survive printing and parsing again.
\<close>

section \<open>Termination\<close>

lemma length_Trim: "length (Trim s) \<le> length s"
proof -
  have "length (dropWhile isspace (rev (dropWhile isspace s))) \<le> length (dropWhile isspace s)"
    using length_dropWhile_le [of isspace "rev (dropWhile isspace s)"] by simp
  then show ?thesis
    using length_dropWhile_le [of isspace s] by (simp add: Trim_def)
qed

lemma set_Trim: "set (Trim s) \<subseteq> set s"
  by (auto simp: Trim_def dest!: set_dropWhileD)

lemma Trim_nonspace:
  assumes "c \<in> set s" "\<not> isspace c"
  shows "c \<in> set (Trim s)"
proof -
  have keep: "c \<in> set (dropWhile isspace t)" if "c \<in> set t" for t
    using that assms(2) by (induction t) auto
  have "c \<in> set (dropWhile isspace (rev (dropWhile isspace s)))"
    by (rule keep) (use keep [OF assms(1)] in simp)
  then show ?thesis by (simp add: Trim_def)
qed

definition is_opener :: "char \<Rightarrow> bool" where
  "is_opener c = (c = CHR ''{'' \<or> c = CHR ''['')"

text \<open>One step of the scan fails, stops at a comma, or goes on behind a character that
  opens no bracket.\<close>

lemma scalar_scan_cases:
  fixes i has_dot has_e fd tv stk c cs
  defines "r \<equiv> scalar_scan i has_dot has_e fd tv stk (c # cs)"
  obtains stk' where "r = (stk', None)"
  | "c = CHR '',''" "r = (stk, Some (i, has_dot, has_e, tv))"
  | d e f t s where "r = scalar_scan (Suc i) d e f t s cs" "\<not> is_opener c" "c \<noteq> CHR '',''"
proof -
  define Q where "Q x \<longleftrightarrow> (\<exists>stk'. x = (stk', None)) \<or>
      c = CHR '','' \<and> x = (stk, Some (i, has_dot, has_e, tv)) \<or>
      (\<exists>d e f t s. x = scalar_scan (Suc i) d e f t s cs) \<and> \<not> is_opener c \<and> c \<noteq> CHR '',''" for x
  have if_I: "Q (if b then x else y)" if "b \<Longrightarrow> Q x" "\<not> b \<Longrightarrow> Q y" for b x y
    using that by simp
  have "Q r"
    unfolding r_def scalar_scan.simps Let_def
    by (intro if_I; simp add: Q_def is_opener_def; blast)
  then show thesis
    using that by (auto simp: Q_def)
qed

lemma scalar_scan_pos:
  "scalar_scan i has_dot has_e fd tv stk cs = (stk', Some (j, x)) \<Longrightarrow> i \<le> j \<and> j \<le> i + length cs"
proof (induction cs arbitrary: i has_dot has_e fd tv stk)
  case (Cons c cs)
  show ?case
    by (rule scalar_scan_cases [of i has_dot has_e fd tv stk c cs])
       (use Cons in \<open>fastforce dest: Cons.IH\<close>)+
qed simp

lemma scalar_scan_opener:
  "find_idx is_array_stop cs = Some i \<Longrightarrow> is_opener (cs ! i) \<Longrightarrow>
     snd (scalar_scan k has_dot has_e fd tv stk cs) = None"
proof (induction cs arbitrary: i k has_dot has_e fd tv stk)
  case (Cons c cs)
  show ?case
  proof (rule scalar_scan_cases [of k has_dot has_e fd tv stk c cs])
    assume "c = CHR '',''"
    with Cons.prems have False by (auto simp: is_array_stop_def is_opener_def)
    then show ?thesis ..
  next
    fix d e f t s
    assume r: "scalar_scan k has_dot has_e fd tv stk (c # cs) = scalar_scan (Suc k) d e f t s cs"
      and c: "\<not> is_opener c"
    from Cons.prems c obtain j where "find_idx is_array_stop cs = Some j" "is_opener (cs ! j)"
      by (auto split: if_splits)
    from Cons.IH [OF this] r show ?thesis by simp
  qed simp
qed simp

text \<open>The first character of a kind that is not white space survives trimming.\<close>

lemma find_find_idx: "List.find P s = map_option (\<lambda>i. s ! i) (find_idx P s)"
proof (induction s)
  case (Cons c s)
  show ?case
    by (cases "find_idx P s") (auto simp: Cons.IH simp del: find_idx_None)
qed simp

lemma find_dropWhile:
  "(\<And>c. P c \<Longrightarrow> \<not> Q c) \<Longrightarrow> List.find P (dropWhile Q s) = List.find P s"
  by (induction s) auto

lemma find_append_None: "List.find P t = None \<Longrightarrow> List.find P (s @ t) = List.find P s"
  by (induction s) auto

lemma find_Trim:
  assumes "\<And>c. P c \<Longrightarrow> \<not> isspace c"
  shows "List.find P (Trim s) = List.find P s"
proof -
  have strip: "List.find P (rev (dropWhile isspace (rev t))) = List.find P t" for t
  proof -
    have "t = rev (dropWhile isspace (rev t)) @ rev (takeWhile isspace (rev t))"
      by (metis rev_append rev_rev_ident takeWhile_dropWhile_id)
    moreover have "List.find P (rev (takeWhile isspace (rev t))) = None"
      using assms by (auto simp: find_None_iff dest!: set_takeWhileD)
    ultimately show ?thesis by (metis find_append_None)
  qed
  show ?thesis
    using assms by (simp add: Trim_def strip find_dropWhile)
qed

lemma array_stop_not_space: "is_array_stop c \<Longrightarrow> \<not> isspace c"
  by (auto simp: is_array_stop_def isspace_def)

definition nested_piece :: "string \<Rightarrow> bool" where
  "nested_piece str = (\<exists>c. List.find is_array_stop str = Some c \<and> is_opener c)"

lemma array_piece_nested: "array_piece str = (t, b, r) \<Longrightarrow> b = nested_piece str"
  by (auto simp: array_piece_def nested_piece_def find_find_idx is_opener_def
      simp del: find_idx_None split: option.splits if_splits)

lemma array_piece_shrinks:
  "array_piece str = (t, b, r) \<Longrightarrow> str \<noteq> [] \<Longrightarrow>
     length t \<le> length str \<and> (\<not> b \<longrightarrow> length r < length str) \<and> (b \<longrightarrow> t = str)"
  by (auto simp: array_piece_def split: option.splits if_splits)

lemma nested_piece_Trim [simp]: "nested_piece (Trim s) = nested_piece s"
  by (simp add: nested_piece_def find_Trim array_stop_not_space)

lemma scalar_branch_rest:
  assumes "scalar_branch str stk = (v, e, rest, stk')"
  shows "length rest \<le> length str" "\<not> e \<Longrightarrow> \<not> nested_piece str"
proof -
  show "length rest \<le> length str"
    using assms by (auto simp: scalar_branch_def split: prod.splits option.splits)
  show "\<not> nested_piece str" if "\<not> e"
  proof
    assume "nested_piece str"
    then obtain i where "find_idx is_array_stop str = Some i" "is_opener (str ! i)"
      by (auto simp: nested_piece_def find_find_idx)
    from scalar_scan_opener [OF this] that assms show False
      by (auto simp: scalar_branch_def split: prod.splits option.splits) (metis option.distinct(1) snd_conv)
  qed
qed

lemma substr_Suc_shrinks: "substr (Suc k) n s = Inr t \<Longrightarrow> length t < length s"
  by (auto dest!: substr_InrD)

lemma quote_scan_pos: "quote_scan b i s = Some k \<Longrightarrow> i \<le> k \<and> k < i + length s"
  by (induction b i s rule: quote_scan.induct) (fastforce split: if_splits)+

text \<open>What a value parser leaves is no longer than what it was given, and shorter when a
  nested array or object was consumed.\<close>

definition shrinks :: "value_parser \<Rightarrow> bool" where
  "shrinks dv \<longleftrightarrow> (\<forall>str stk v e rest stk'. dv str stk = Inr (v, e, rest, stk') \<longrightarrow>
     length rest \<le> length str \<and> (\<not> e \<and> nested_piece str \<longrightarrow> length rest < length str))"

lemma DeserializeValue_shrinks: "shrinks (DeserializeValue n)"
proof (cases n)
  case (Suc m)
  show ?thesis
    unfolding shrinks_def
  proof (intro allI impI)
    fix str0 stk v e rest stk'
    assume run: "DeserializeValue n str0 stk = Inr (v, e, rest, stk')"
    define str where "str = Trim str0"
    have len: "length str \<le> length str0" by (simp add: str_def length_Trim)
    have nest: "nested_piece str = nested_piece str0" by (simp add: str_def)
    have "length rest \<le> length str \<and> (\<not> e \<and> nested_piece str \<longrightarrow> length rest < length str)"
    proof (cases "str = []")
      case True
      with run show ?thesis by (auto simp: Suc Let_def nested_piece_def simp flip: str_def)
    next
      case False
      then have pos: "0 < length str" by simp
      show ?thesis
        using run False pos
        by (auto simp: Suc Let_def bind_res_Inr_iff scalar_branch_rest(1) dest!: scalar_branch_rest(2)
            dest!: substr_Suc_shrinks simp flip: str_def split: if_splits option.splits prod.splits)
    qed
    with len nest show "length rest \<le> length str0 \<and> (\<not> e \<and> nested_piece str0 \<longrightarrow> length rest < length str0)"
      by auto
  qed
qed (simp add: shrinks_def)

text \<open>A parser that answers every text shorter than \<open>N\<close> without running out of fuel; a
  loop over at most that much text answers as well.\<close>

definition answers :: "value_parser \<Rightarrow> nat \<Rightarrow> bool" where
  "answers dv N \<longleftrightarrow> (\<forall>str stk. length str < N \<longrightarrow> dv str stk \<noteq> Inl Out_of_fuel)"

lemma array_loop_answers:
  assumes "shrinks dv" "answers dv N" "length str < N" "length str < n"
  shows "array_loop dv n a str stk \<noteq> Inl Out_of_fuel"
  using assms(3,4)
proof (induction n arbitrary: a str stk)
  case (Suc n)
  obtain t b r where piece: "array_piece str = (t, b, r)" by (metis prod_cases3)
  show ?case
  proof (cases "str = []")
    case False
    note sh = array_piece_shrinks [OF piece False] array_piece_nested [OF piece]
    from sh(1) Suc.prems have "dv t stk \<noteq> Inl Out_of_fuel"
      using assms(2) by (auto simp: answers_def)
    moreover have "array_loop dv n a' (if b then str1 else r) stk1 \<noteq> Inl Out_of_fuel"
      if "dv t stk = Inr (v, False, str1, stk1)" for v str1 stk1 a'
      using that sh Suc.prems assms(1) by (intro Suc.IH) (fastforce simp: shrinks_def)+
    ultimately show ?thesis
      using False by (auto simp: piece bind_res_Inl_iff)
  qed simp
qed simp

lemma object_key_shrinks: "object_key str = Some (k, str1) \<Longrightarrow> length str1 < length str"
  by (auto simp: object_key_def Let_def split: option.splits dest!: find_from_Some)

lemma object_loop_answers:
  assumes "shrinks dv" "answers dv N" "length str < N" "length str < n"
  shows "object_loop dv n obj str stk \<noteq> Inl Out_of_fuel"
  using assms(3,4)
proof (induction n arbitrary: obj str stk)
  case (Suc n)
  show ?case
  proof (cases "object_key str")
    case (Some p)
    then obtain k str1 where k: "object_key str = Some (k, str1)" by (cases p) auto
    note sh = object_key_shrinks [OF k]
    then have "dv str1 stk \<noteq> Inl Out_of_fuel"
      using assms(2) Suc.prems by (auto simp: answers_def)
    moreover have "object_loop dv n obj' str2 stk1 \<noteq> Inl Out_of_fuel"
      if "dv str1 stk = Inr (v, e, str2, stk1)" for v e str2 stk1 obj'
      using that sh Suc.prems assms(1) by (intro Suc.IH) (fastforce simp: shrinks_def)+
    ultimately show ?thesis
      by (auto simp: k bind_res_Inl_iff)
  qed simp
qed simp

lemma substr_1_shrinks: "substr 1 n s = Inr t \<Longrightarrow> length t < length s"
  by (auto dest!: substr_InrD)

lemma substr_no_fuel [simp]: "substr p n s \<noteq> Inl Out_of_fuel"
  by (simp add: substr_def)

lemma DeserializeArray_answers:
  assumes "shrinks dv" "answers dv N" "length str \<le> N"
  shows "DeserializeArray dv str stk \<noteq> Inl Out_of_fuel"
proof -
  have "array_loop dv (Suc (length s)) [] s stk \<noteq> Inl Out_of_fuel"
    if "substr 1 n (Trim str) = Inr s" for s n
    using substr_1_shrinks [OF that] length_Trim [of str] assms
    by (intro array_loop_answers [of dv N]) auto
  then show ?thesis by (auto simp: DeserializeArray_def Let_def bind_res_Inl_iff)
qed

lemma DeserializeObj_answers:
  assumes "shrinks dv" "answers dv N" "length str \<le> N"
  shows "DeserializeObj dv str stk \<noteq> Inl Out_of_fuel"
proof -
  have "object_loop dv (Suc (length s)) [] s stk \<noteq> Inl Out_of_fuel"
    if "substr 1 n (Trim str) = Inr s" for s n
    using substr_1_shrinks [OF that] length_Trim [of str] assms
    by (intro object_loop_answers [of dv N]) auto
  then show ?thesis by (auto simp: DeserializeObj_def Let_def bind_res_Inl_iff)
qed

lemma pop_expected_no_fuel [simp]: "pop_expected t r \<noteq> Inl Out_of_fuel"
  by (auto simp: pop_expected_def split: prod.splits list.splits)

lemma DeserializeInternal_answers:
  assumes "shrinks dv" "answers dv N" "length str \<le> N"
  shows "DeserializeInternal dv str stk \<noteq> Inl Out_of_fuel"
proof -
  have "length (Trim str) \<le> N" using length_Trim [of str] assms(3) by simp
  with assms(1,2) show ?thesis
    by (auto simp: DeserializeInternal_def Let_def bind_res_Inl_iff
        DeserializeArray_answers DeserializeObj_answers)
qed

lemma end_scan_no_fuel [simp]: "end_scan oc p i q stk s \<noteq> Inl Out_of_fuel"
  by (induction oc p i q stk s rule: end_scan.induct) (auto split: list.splits)

lemma GetEndOfArrayOrObj_no_fuel [simp]: "GetEndOfArrayOrObj s stk \<noteq> Inl Out_of_fuel"
  by (simp add: GetEndOfArrayOrObj_def split: list.splits)

lemma unescape_no_fuel [simp]: "unescape s \<noteq> Inl Out_of_fuel"
  by (induction s rule: unescape.induct) (auto simp: bind_res_Inl_iff)

lemma DeserializeValue_answers: "answers (DeserializeValue n) n"
proof (induction n)
  case (Suc n)
  note IH = DeserializeValue_shrinks [of n] Suc.IH
  show ?case
    unfolding answers_def
  proof (intro allI impI)
    fix str0 :: string and stk
    assume "length str0 < Suc n"
    then have "length (Trim str0) \<le> n" using length_Trim [of str0] by simp
    then show "DeserializeValue (Suc n) str0 stk \<noteq> Inl Out_of_fuel"
      by (auto simp: Let_def bind_res_Inl_iff UnescapeJSONString_def
          DeserializeArray_answers [OF IH] DeserializeInternal_answers [OF IH]
          split: option.splits)
  qed
qed (simp add: answers_def)

lemma Deserialize_answers: "Deserialize str \<noteq> Inl Out_of_fuel"
  by (auto simp: Deserialize_def bind_res_Inl_iff
      DeserializeInternal_answers [OF DeserializeValue_shrinks DeserializeValue_answers]
      simp del: DeserializeValue.simps)

section \<open>What the parser builds\<close>

text \<open>
  A value parsed from characters \<open>C\<close>: objects in key order with non-empty keys cut out of
  the text, arrays without null elements, integers of 32 bits.
\<close>

lemma size_snd_member: "p \<in> set m \<Longrightarrow> size (snd p) < Suc (size_list (size_prod (\<lambda>_. 0) size) m)"
  by (induction m) auto

function wf_json :: "char set \<Rightarrow> jvalue \<Rightarrow> bool" where
  "wf_json C (JObj m) = (map_ok m \<and> (\<forall>p \<in> set m. fst p \<noteq> [] \<and> set (fst p) \<subseteq> C \<and> wf_json C (snd p)))"
| "wf_json C (JArr xs) = (\<forall>x \<in> set xs. x \<noteq> JNull \<and> wf_json C x)"
| "wf_json C (JInt i) = (int_min \<le> i \<and> i \<le> int_max)"
| "wf_json C JNull = True"
| "wf_json C (JStr s) = True"
| "wf_json C (JFlt f) = False"
| "wf_json C (JDbl d) = True"
| "wf_json C (JBool b) = True"
  by pat_completeness auto
termination
  by (relation "measure (size \<circ> snd)") (auto simp: size_snd_member less_Suc_eq_le size_list_estimation')

lemma GetType_NULLVal [simp]: "GetType v = NULLVal \<longleftrightarrow> v = JNull"
  by (cases v) auto

definition yields :: "value_parser \<Rightarrow> char set \<Rightarrow> bool" where
  "yields dv C \<longleftrightarrow> (\<forall>str stk v e rest stk'. set str \<subseteq> C \<longrightarrow> dv str stk = Inr (v, e, rest, stk') \<longrightarrow>
     wf_json C v \<and> set rest \<subseteq> C)"

lemma array_piece_set:
  "array_piece str = (t, b, r) \<Longrightarrow> set t \<subseteq> set str \<and> set r \<subseteq> set str"
  by (auto simp: array_piece_def split: option.splits if_splits dest: in_set_takeD in_set_dropD)

lemma wf_json_push: "wf_json C (JArr a) \<Longrightarrow> wf_json C v \<Longrightarrow> wf_json C (JArr (push_non_null a v))"
  by (auto simp: push_non_null_def Array_push_back_def)

lemma wf_json_assign:
  assumes "wf_json C (JObj m)" "k \<noteq> []" "set k \<subseteq> C" "wf_json C v"
  shows "wf_json C (JObj (map_assign k v m))"
proof -
  have "set (map_assign k v m) \<subseteq> insert (k, v) (set m)"
    by (induction m) (auto split: if_splits)
  with assms show ?thesis by (fastforce simp: map_ok_assign)
qed

lemma array_loop_yields:
  assumes "yields dv C" "set str \<subseteq> C" "wf_json C (JArr a)" "array_loop dv n a str stk = Inr (v, stk')"
  shows "wf_json C v \<and> (v = JNull \<or> GetType v = ArrayVal)"
  using assms(2-)
proof (induction n arbitrary: a str stk)
  case (Suc n)
  obtain t b r where piece: "array_piece str = (t, b, r)" by (metis prod_cases3)
  show ?case
  proof (cases "str = []")
    case False
    from Suc.prems(3) False obtain v1 e str1 stk1 where dv: "dv t stk = Inr (v1, e, str1, stk1)"
      and k: "e \<and> v = JNull \<or> \<not> e \<and> array_loop dv n (push_non_null a v1) (if b then str1 else r) stk1 = Inr (v, stk')"
      by (auto simp: piece bind_res_Inr_iff split: if_splits)
    have "set t \<subseteq> C" "set r \<subseteq> C" using array_piece_set [OF piece] Suc.prems(1) by auto
    with dv assms(1) have "wf_json C v1" "set str1 \<subseteq> C"
      unfolding yields_def by blast+
    with k Suc.IH [of "if b then str1 else r" "push_non_null a v1" stk1] \<open>set r \<subseteq> C\<close> wf_json_push [OF Suc.prems(2)]
    show ?thesis by (auto split: if_splits)
  qed (use Suc.prems in auto)
qed simp

lemma object_key_set:
  "object_key str = Some (k, str1) \<Longrightarrow> set k \<subseteq> set str \<and> set str1 \<subseteq> set str"
  by (auto simp: object_key_def Let_def split: option.splits dest: in_set_takeD in_set_dropD)

lemma object_loop_yields:
  assumes "yields dv C" "set str \<subseteq> C" "wf_json C (JObj m)" "object_loop dv n m str stk = Inr (v, stk')"
  shows "wf_json C v \<and> (v = JNull \<or> GetType v = ObjectVal)"
  using assms(2-)
proof (induction n arbitrary: m str stk)
  case (Suc n)
  show ?case
  proof (cases "str = [] \<or> object_key str = None \<or> fst (the (object_key str)) = []")
    case True
    with Suc.prems show ?thesis by (auto split: option.splits if_splits)
  next
    case False
    then obtain k str1 where k: "object_key str = Some (k, str1)" "k \<noteq> []" "str \<noteq> []" by auto
    from object_key_set [OF k(1)] Suc.prems(1) have C: "set k \<subseteq> C" "set str1 \<subseteq> C" by auto
    from Suc.prems(3) k obtain v1 e str2 stk1 where dv: "dv str1 stk = Inr (v1, e, str2, stk1)"
      and r: "e \<and> v = JNull \<or> \<not> e \<and> object_loop dv n (map_assign k v1 m) str2 stk1 = Inr (v, stk')"
      by (auto simp: bind_res_Inr_iff split: if_splits)
    from dv assms(1) C have v1: "wf_json C v1" "set str2 \<subseteq> C"
      unfolding yields_def by blast+
    from r Suc.IH [OF v1(2) wf_json_assign [OF Suc.prems(2) k(2) C(1) v1(1)]]
    show ?thesis by auto
  qed
qed simp

lemma DeserializeArray_yields:
  assumes "yields dv C" "set str \<subseteq> C" "DeserializeArray dv str stk = Inr (v, stk')"
  shows "wf_json C v \<and> (v = JNull \<or> GetType v = ArrayVal)"
proof -
  have "set t \<subseteq> C" if "substr 1 n (Trim str) = Inr t" for n t
    using that set_Trim [of str] assms(2) by (auto dest!: substr_InrD in_set_takeD dest: in_set_dropD)
  with assms(3) show ?thesis
    by (auto simp: DeserializeArray_def Let_def bind_res_Inr_iff split: if_splits simp del: array_loop.simps
        dest!: array_loop_yields [OF assms(1), rotated 2])
qed

lemma DeserializeObj_yields:
  assumes "yields dv C" "set str \<subseteq> C" "DeserializeObj dv str stk = Inr (v, stk')"
  shows "wf_json C v \<and> (v = JNull \<or> GetType v = ObjectVal)"
proof -
  have "set t \<subseteq> C" if "substr 1 n (Trim str) = Inr t" for n t
    using that set_Trim [of str] assms(2) by (auto dest!: substr_InrD in_set_takeD dest: in_set_dropD)
  with assms(3) show ?thesis
    by (auto simp: DeserializeObj_def Let_def bind_res_Inr_iff split: if_splits simp del: object_loop.simps
        dest!: object_loop_yields [OF assms(1), rotated 2])
qed

lemma pop_expected_value: "pop_expected t (v, stk) = Inr (w, stk') \<Longrightarrow> w = v"
  by (auto simp: pop_expected_def split: if_splits list.splits)

lemma DeserializeInternal_yields:
  assumes "yields dv C" "set str \<subseteq> C" "DeserializeInternal dv str stk = Inr (v, stk')"
  shows "wf_json C v \<and> (v = JNull \<or> GetType v = ObjectVal \<or> GetType v = ArrayVal)"
proof -
  have s: "set (Trim str) \<subseteq> C" using set_Trim [of str] assms(2) by auto
  from assms(3) show ?thesis
    by (auto simp: DeserializeInternal_def Let_def bind_res_Inr_iff split: if_splits
        dest!: pop_expected_value DeserializeObj_yields [OF assms(1) s] DeserializeArray_yields [OF assms(1) s])
qed

lemma scalar_branch_yields:
  assumes "scalar_branch str stk = (v, e, rest, stk')" "set str \<subseteq> C"
  shows "wf_json C v \<and> set rest \<subseteq> C"
  using assms
  by (auto simp: scalar_branch_def scalar_value_def Let_def split: prod.splits option.splits if_splits
      dest: in_set_dropD)

lemma is_drop: "\<exists>k. drop m s = drop k s" "\<exists>k. s = drop k s"
  by blast (metis drop0)

lemma DeserializeValue_yields: "yields (DeserializeValue n) C"
proof (induction n)
  case (Suc n)
  show ?case
    unfolding yields_def
  proof (intro allI impI)
    fix str0 stk v e rest stk'
    assume C: "set str0 \<subseteq> C" and run: "DeserializeValue (Suc n) str0 stk = Inr (v, e, rest, stk')"
    define str where "str = Trim str0"
    have s: "set str \<subseteq> C" using set_Trim [of str0] C by (auto simp: str_def)
    have t: "set (take k str) \<subseteq> C" and d: "set (drop k str) \<subseteq> C" for k
      using s by (auto dest: in_set_takeD in_set_dropD)
    note arr = DeserializeArray_yields [OF Suc.IH t] and obj = DeserializeInternal_yields [OF Suc.IH t]
    have "\<exists>k. rest = drop k str"
      using run
      by (auto simp: Let_def bind_res_Inr_iff scalar_branch_def simp flip: str_def
          split: if_splits option.splits prod.splits dest!: substr_InrD intro: is_drop) (rule is_drop)+
    with d have "set rest \<subseteq> C" by auto
    moreover have "wf_json C v"
      using run
      by (auto simp: Let_def bind_res_Inr_iff simp flip: str_def split: if_splits option.splits
          dest!: arr obj scalar_branch_yields [OF _ s])
    ultimately show "wf_json C v \<and> set rest \<subseteq> C" by simp
  qed
qed (simp add: yields_def)

lemma Deserialize_yields:
  "Deserialize str = Inr v \<Longrightarrow>
     wf_json (set str) v \<and> (v = JNull \<or> GetType v = ObjectVal \<or> GetType v = ArrayVal)"
  by (auto simp: Deserialize_def bind_res_Inr_iff simp del: DeserializeValue.simps
      dest!: DeserializeInternal_yields [OF DeserializeValue_yields subset_refl])

end
