(* ===== verification/Json_Roundtrip.thy ===== *)
theory Json_Roundtrip
  imports Json_Facts
begin

text \<open>
  Which values survive \<open>Serialize\<close> followed by \<open>Deserialize\<close>: integers, booleans, strings
  without the characters the printer does not escape and the array parser stops at, and
  arrays and objects of them. The proof follows the parser: its bracket matcher passes over
  printed values, its value parser reads a printed value and leaves the text behind it, and
  its two loops read the printed elements and members.
\<close>

section \<open>Values that print plainly\<close>

definition plain_string :: "string \<Rightarrow> bool" where
  "plain_string s = (Trim s = s \<and>
     (\<forall>c \<in> set s. c \<noteq> dquote \<and> c \<noteq> backslash \<and> \<not> is_array_stop c))"

definition plain_key :: "string \<Rightarrow> bool" where
  "plain_key k = (k \<noteq> [] \<and> (\<forall>c \<in> set k. c \<noteq> dquote \<and> c \<noteq> backslash))"

function plain :: "jvalue \<Rightarrow> bool" where
  "plain (JObj m) = (map_ok m \<and> (\<forall>p \<in> set m. plain_key (fst p) \<and> plain (snd p)))"
| "plain (JArr xs) = (\<forall>x \<in> set xs. x \<noteq> JNull \<and> plain x)"
| "plain (JInt i) = (int_min \<le> i \<and> i \<le> int_max)"
| "plain JNull = True"
| "plain (JStr s) = plain_string s"
| "plain (JFlt f) = False"
| "plain (JDbl d) = False"
| "plain (JBool b) = True"
  by pat_completeness auto
termination
  by (relation "measure size") (auto simp: size_snd_member less_Suc_eq_le size_list_estimation')

lemma Serialize_text [simp]:
  "SerializeValue (JInt i) = show_int i"
  "SerializeValue (JBool b) = (if b then ''true'' else ''false'')"
  "SerializeValue JNull = ''null''"
  "SerializeValue (JStr s) = dquote # s @ [dquote]"
  "SerializeValue (JArr xs) = ''['' @ Serialize_elements True xs @ '']''"
  "SerializeValue (JObj m) = ''{'' @ Serialize_members True m @ ''}''"
  "Serialize (JArr xs) = SerializeValue (JArr xs)"
  "Serialize (JObj m) = SerializeValue (JObj m)"
  by (simp_all add: SerializeValue.simps Serialize.simps)

text \<open>Induction over the values, their elements and their members.\<close>

lemma jvalue_induct [case_names scalar arr obj]:
  assumes scalar: "\<And>v. GetType v \<noteq> ArrayVal \<Longrightarrow> GetType v \<noteq> ObjectVal \<Longrightarrow> P v"
    and arr: "\<And>xs. (\<And>x. x \<in> set xs \<Longrightarrow> P x) \<Longrightarrow> P (JArr xs)"
    and obj: "\<And>m. (\<And>p. p \<in> set m \<Longrightarrow> P (snd p)) \<Longrightarrow> P (JObj m)"
  shows "P v"
proof (induction v)
  case (JObj m)
  then show ?case by (intro obj) (fastforce simp: snds.simps)
qed (auto intro: scalar arr)

section \<open>Bracket matching\<close>

text \<open>The scan for the closing bracket passes over a text and leaves the stack as it was.\<close>

definition passes :: "string \<Rightarrow> bool" where
  "passes s \<longleftrightarrow> (\<forall>oc prev i stk rest. prev \<noteq> backslash \<longrightarrow> oc \<le> length stk \<longrightarrow>
     (\<exists>p. p \<noteq> backslash \<and>
       end_scan oc prev i False stk (s @ rest) = end_scan oc p (i + length s) False stk rest))"

lemma passesD:
  assumes "passes s" "prev \<noteq> backslash" "oc \<le> length stk"
  shows "\<exists>p. p \<noteq> backslash \<and>
    end_scan oc prev i False stk (s @ rest) = end_scan oc p (i + length s) False stk rest"
  by (rule assms(1) [unfolded passes_def, rule_format, OF assms(2,3)])

lemma passes_Nil [simp]: "passes []"
  by (auto simp: passes_def)

lemma passes_append [intro]:
  assumes "passes s" "passes t"
  shows "passes (s @ t)"
  unfolding passes_def
proof (intro allI impI)
  fix oc prev i stk rest
  assume prev: "prev \<noteq> backslash" and oc: "oc \<le> length (stk :: depth_stack)"
  obtain p where p: "p \<noteq> backslash"
    "end_scan oc prev i False stk (s @ t @ rest) = end_scan oc p (i + length s) False stk (t @ rest)"
    using passesD [OF assms(1) prev oc] by iprover
  obtain q where "q \<noteq> backslash"
    "end_scan oc p (i + length s) False stk (t @ rest) =
     end_scan oc q (i + length s + length t) False stk rest"
    using passesD [OF assms(2) p(1) oc] by iprover
  with p(2) show "\<exists>p. p \<noteq> backslash \<and> end_scan oc prev i False stk ((s @ t) @ rest) =
      end_scan oc p (i + length (s @ t)) False stk rest"
    by (intro exI [of _ q]) (simp add: add.assoc)
qed

text \<open>The scan at each kind of character.\<close>

lemma end_scan_char:
  "c \<notin> {dquote, CHR ''['', CHR '']'', CHR ''{'', CHR ''}''} \<Longrightarrow>
     end_scan oc prev i q stk (c # cs) = end_scan oc c (Suc i) q stk cs"
  by simp

lemma end_scan_in_quote:
  "c \<noteq> dquote \<Longrightarrow> end_scan oc prev i True stk (c # cs) = end_scan oc c (Suc i) True stk cs"
  by simp

lemma end_scan_quote:
  "prev \<noteq> backslash \<Longrightarrow>
     end_scan oc prev i q stk (dquote # cs) = end_scan oc dquote (Suc i) (\<not> q) stk cs"
  by simp

lemma end_scan_open:
  "end_scan oc prev i False stk (CHR ''['' # cs) = end_scan oc (CHR ''['') (Suc i) False (InArray # stk) cs"
  "end_scan oc prev i False stk (CHR ''{'' # cs) = end_scan oc (CHR ''{'') (Suc i) False (InObject # stk) cs"
  by simp_all

lemma end_scan_close:
  "end_scan oc prev i False (InArray # stk) (CHR '']'' # cs) =
     (if Suc (length stk) = oc then Inr (Some i, stk) else end_scan oc (CHR '']'') (Suc i) False stk cs)"
  "end_scan oc prev i False (InObject # stk) (CHR ''}'' # cs) =
     (if Suc (length stk) = oc then Inr (Some i, stk) else end_scan oc (CHR ''}'') (Suc i) False stk cs)"
  by simp_all

declare end_scan.simps(2) [simp del]

lemma passes_char:
  "c \<notin> {dquote, backslash, CHR ''['', CHR '']'', CHR ''{'', CHR ''}''} \<Longrightarrow> passes [c]"
  unfolding passes_def by (auto simp: end_scan_char)

lemma passes_chars:
  "\<forall>c \<in> set s. c \<notin> {dquote, backslash, CHR ''['', CHR '']'', CHR ''{'', CHR ''}''} \<Longrightarrow> passes s"
proof (induction s)
  case (Cons c s)
  then show ?case using passes_append [of "[c]" s] passes_char [of c] by simp
qed simp

lemma end_scan_quoted:
  "\<forall>c \<in> set s. c \<noteq> dquote \<and> c \<noteq> backslash \<Longrightarrow> prev \<noteq> backslash \<Longrightarrow>
     end_scan oc prev i True stk (s @ dquote # rest) =
       end_scan oc dquote (i + length s + 1) False stk rest"
  by (induction s arbitrary: prev i) (simp_all add: end_scan_quote end_scan_in_quote)

lemma passes_quoted:
  assumes "\<forall>c \<in> set s. c \<noteq> dquote \<and> c \<noteq> backslash"
  shows "passes (dquote # s @ [dquote])"
  unfolding passes_def
proof (intro allI impI exI conjI)
  fix oc prev i stk rest
  show "end_scan oc prev i False stk ((dquote # s @ [dquote]) @ rest) =
      end_scan oc dquote (i + length (dquote # s @ [dquote])) False stk rest"
    if "prev \<noteq> backslash"
    using that end_scan_quoted [OF assms, of dquote oc "Suc i" stk rest]
    by (simp add: end_scan_quote)
qed simp

lemma passes_array:
  assumes "passes s"
  shows "passes (''['' @ s @ '']'')"
  unfolding passes_def
proof (intro allI impI)
  fix oc prev i stk rest
  assume "prev \<noteq> backslash" and oc: "oc \<le> length (stk :: depth_stack)"
  obtain p where "p \<noteq> backslash" and
    "end_scan oc (CHR ''['') (Suc i) False (InArray # stk) (s @ '']'' @ rest) =
     end_scan oc p (Suc i + length s) False (InArray # stk) ('']'' @ rest)"
    using passesD [OF assms, of "CHR ''[''" oc "InArray # stk" "Suc i" "'']'' @ rest"] oc by auto
  with oc have "end_scan oc prev i False stk ((''['' @ s @ '']'') @ rest) =
      end_scan oc (CHR '']'') (i + length (''['' @ s @ '']'')) False stk rest"
    by (simp add: end_scan_open end_scan_close)
  then show "\<exists>p. p \<noteq> backslash \<and> end_scan oc prev i False stk ((''['' @ s @ '']'') @ rest) =
      end_scan oc p (i + length (''['' @ s @ '']'')) False stk rest"
    by (intro exI [of _ "CHR '']''"]) simp
qed

lemma passes_object:
  assumes "passes s"
  shows "passes (''{'' @ s @ ''}'')"
  unfolding passes_def
proof (intro allI impI)
  fix oc prev i stk rest
  assume "prev \<noteq> backslash" and oc: "oc \<le> length (stk :: depth_stack)"
  obtain p where "p \<noteq> backslash" and
    "end_scan oc (CHR ''{'') (Suc i) False (InObject # stk) (s @ ''}'' @ rest) =
     end_scan oc p (Suc i + length s) False (InObject # stk) (''}'' @ rest)"
    using passesD [OF assms, of "CHR ''{''" oc "InObject # stk" "Suc i" "''}'' @ rest"] oc by auto
  with oc have "end_scan oc prev i False stk ((''{'' @ s @ ''}'') @ rest) =
      end_scan oc (CHR ''}'') (i + length (''{'' @ s @ ''}'')) False stk rest"
    by (simp add: end_scan_open end_scan_close)
  then show "\<exists>p. p \<noteq> backslash \<and> end_scan oc prev i False stk ((''{'' @ s @ ''}'') @ rest) =
      end_scan oc p (i + length (''{'' @ s @ ''}'')) False stk rest"
    by (intro exI [of _ "CHR ''}''"]) simp
qed

lemma show_int_chars: "c \<in> set (show_int i) \<Longrightarrow> isdigit c \<or> c = CHR ''-''"
  using show_nat_digits by (auto simp: show_int_def split: if_splits)

lemma digit_or_minus_plain:
  "isdigit c \<or> c = CHR ''-'' \<Longrightarrow>
     c \<notin> {dquote, backslash, CHR ''['', CHR '']'', CHR ''{'', CHR ''}'', CHR '','', CHR ''.'',
          CHR ''e'', CHR ''E'', CHR 0x00} \<and> \<not> isspace c"
  by (auto simp: isdigit_def isspace_def char_val_def)

lemma passes_elements:
  "(\<And>x. x \<in> set xs \<Longrightarrow> passes (SerializeValue x)) \<Longrightarrow> passes (Serialize_elements b xs)"
proof (induction xs arbitrary: b)
  case (Cons x xs)
  have "passes ('','' @ SerializeValue x @ Serialize_elements False xs)"
    using Cons by (intro passes_append passes_char) auto
  moreover have "passes (SerializeValue x @ Serialize_elements False xs)"
    using Cons by (intro passes_append) auto
  ultimately show ?case by simp
qed simp

lemma passes_members:
  "(\<And>p. p \<in> set m \<Longrightarrow> plain_key (fst p) \<and> passes (SerializeValue (snd p))) \<Longrightarrow>
     passes (Serialize_members b m)"
proof (induction m arbitrary: b)
  case (Cons p m)
  obtain k x where p: "p = (k, x)" by force
  have q: "passes (dquote # k @ [dquote])"
    using Cons.prems [of p] by (intro passes_quoted) (auto simp: p plain_key_def)
  have "passes ((dquote # k @ [dquote]) @ '':'' @ SerializeValue x @ Serialize_members False m)"
    using Cons.IH Cons.prems [of p] Cons.prems p q
    by (intro passes_append passes_char) auto
  moreover have "passes ('','' @ (dquote # k @ [dquote]) @ '':'' @ SerializeValue x @ Serialize_members False m)"
    using passes_append [OF passes_char [of "CHR '',''"] calculation] by simp
  ultimately show ?case by (simp add: p)
qed simp

lemma passes_plain: "plain v \<Longrightarrow> passes (SerializeValue v)"
proof (induction v rule: jvalue_induct)
  case (scalar v)
  then show ?case
  proof (cases v)
    case (JInt i)
    have "passes (show_int i)"
      by (rule passes_chars) (use show_int_chars digit_or_minus_plain in blast)
    with JInt show ?thesis by simp
  next
    case (JStr s)
    with scalar show ?thesis
      by (auto simp: plain_string_def intro!: passes_quoted)
  qed (auto intro!: passes_chars)
next
  case (arr xs)
  then have "passes (Serialize_elements True xs)" by (intro passes_elements) auto
  then show ?case using passes_array by simp
next
  case (obj m)
  then have "passes (Serialize_members True m)" by (intro passes_members) auto
  then show ?case using passes_object by simp
qed

lemma GetEnd_array:
  assumes "passes s"
  shows "GetEndOfArrayOrObj (''['' @ s @ '']'' @ rest) (InArray # stk) = Inr (Some (length s + 1), stk)"
  using passesD [OF assms, of "CHR ''[''" "Suc (length stk)" "InArray # stk" 1 "'']'' @ rest"]
  by (auto simp: GetEndOfArrayOrObj_def end_scan_close)

lemma GetEnd_object:
  assumes "passes s"
  shows "GetEndOfArrayOrObj (''{'' @ s @ ''}'' @ rest) (InObject # stk) = Inr (Some (length s + 1), stk)"
  using passesD [OF assms, of "CHR ''{''" "Suc (length stk)" "InObject # stk" 1 "''}'' @ rest"]
  by (auto simp: GetEndOfArrayOrObj_def end_scan_close)

section \<open>Printed values are trimmed\<close>

definition solid :: "string \<Rightarrow> bool" where
  "solid s = (s \<noteq> [] \<and> \<not> isspace (hd s) \<and> \<not> isspace (last s))"

lemma Trim_solid: "s = [] \<or> solid s \<Longrightarrow> Trim s = s"
proof (elim disjE)
  assume s: "solid s"
  then have "dropWhile isspace s = s" by (cases s) (auto simp: solid_def)
  moreover have "dropWhile isspace (rev s) = rev s"
    using s by (cases s rule: rev_cases) (auto simp: solid_def)
  ultimately show "Trim s = s" by (simp add: Trim_def)
qed (simp add: Trim_def)

lemma solid_bracket:
  "\<not> isspace a \<Longrightarrow> \<not> isspace b \<Longrightarrow> solid (a # s @ [b])"
  by (simp add: solid_def)

lemma not_isspace_chars [simp]:
  "\<not> isspace (CHR ''['')" "\<not> isspace (CHR '']'')" "\<not> isspace (CHR ''{'')" "\<not> isspace (CHR ''}'')"
  "\<not> isspace dquote" "\<not> isspace (CHR '','')" "\<not> isspace (CHR ''-'')"
  by (simp_all add: isspace_def)

lemma show_int_nonempty [simp]: "show_int i \<noteq> []"
  by (simp add: show_int_def)

lemma solid_show_int: "solid (show_int i)"
proof -
  have "\<not> isspace c" if "c \<in> set (show_int i)" for c
    using digit_or_minus_plain [OF show_int_chars [OF that]] by simp
  then show ?thesis by (simp add: solid_def)
qed

lemma solid_plain: "plain v \<Longrightarrow> solid (SerializeValue v)"
  by (cases v) (auto simp: solid_show_int solid_bracket, auto simp: solid_def isspace_def)

lemma solid_append: "solid s \<Longrightarrow> t = [] \<or> solid t \<Longrightarrow> solid (s @ t)"
  by (auto simp: solid_def)

section \<open>Scalars\<close>

lemma scalar_scan_number:
  "\<forall>c \<in> set s. isdigit c \<or> c = CHR ''-'' \<Longrightarrow>
     scalar_scan i has_dot has_e fd tv stk (s @ rest) =
       scalar_scan (i + length s) has_dot has_e (fd \<or> (\<exists>c \<in> set s. isdigit c)) (tv @ s) stk rest"
proof (induction s arbitrary: i fd tv)
  case (Cons c s)
  then have c: "isdigit c \<or> c = CHR ''-''" by simp
  have "scalar_scan i has_dot has_e fd tv stk (c # (s @ rest)) =
      scalar_scan (Suc i) has_dot has_e (fd \<or> isdigit c) (tv @ [c]) stk (s @ rest)"
    using digit_or_minus_plain [OF c] by (simp add: Let_def)
  also have "\<dots> = scalar_scan (Suc i + length s) has_dot has_e
      ((fd \<or> isdigit c) \<or> (\<exists>c \<in> set s. isdigit c)) ((tv @ [c]) @ s) stk rest"
    by (rule Cons.IH) (use Cons.prems in simp)
  finally show ?case by (simp add: disj_assoc)
qed simp

definition follows :: "string \<Rightarrow> bool" where
  \<comment> \<open>what can stand behind a value in its array or object\<close>
  "follows r = (r = [] \<or> (\<exists>t. r = CHR '','' # t) \<and> solid r)"

lemma scalar_scan_follows:
  "follows r \<Longrightarrow> scalar_scan i has_dot has_e fd tv stk r = (stk, Some (i, has_dot, has_e, tv))"
  by (auto simp: follows_def)

lemma scalar_value_int:
  assumes "int_min \<le> i" "i \<le> int_max"
  shows "scalar_value False False (show_int i) = Some (JInt i)"
proof -
  obtain c cs where s: "show_int i = c # cs" by (cases "show_int i") auto
  then have c: "isdigit c \<or> c = CHR ''-''" using show_int_chars [of c i] by simp
  have nul: "c_str (show_int i) = show_int i"
    using show_int_chars digit_or_minus_plain by (intro c_str_id) fastforce
  have low: "tolower c \<notin> {CHR ''t'', CHR ''f'', CHR ''n''}"
    using c by (auto simp: tolower_def isdigit_def char_val_def)
  then have "\<not> stricmp_eq (show_int i) ''true''" "\<not> stricmp_eq (show_int i) ''false''"
    "\<not> stricmp_eq (show_int i) ''null''"
    unfolding stricmp_eq_def nul by (auto simp: s c_str_def tolower_def char_val_def)
  with assms show ?thesis
    by (simp add: scalar_value_def nul strtol_show_int)
qed

lemma scalar_branch_int:
  assumes "int_min \<le> i" "i \<le> int_max" "follows r"
  shows "scalar_branch (show_int i @ r) stk = (JInt i, False, r, stk)"
proof -
  have "\<forall>c \<in> set (show_int i). isdigit c \<or> c = CHR ''-''" by (simp add: show_int_chars)
  from scalar_scan_number [OF this] show ?thesis
    by (simp add: scalar_branch_def scalar_scan_follows [OF assms(3)] scalar_value_int assms(1,2))
qed

lemma scalar_branch_words:
  assumes "follows r"
  shows "scalar_branch (''true'' @ r) stk = (JBool True, False, r, stk)"
    "scalar_branch (''false'' @ r) stk = (JBool False, False, r, stk)"
    "scalar_branch (''null'' @ r) stk = (JNull, False, r, stk)"
  by (simp_all add: scalar_branch_def Let_def scalar_scan_follows [OF assms] scalar_value_def
      isdigit_def isspace_def char_val_def stricmp_eq_def c_str_def tolower_def)

lemma quote_scan_plain:
  "\<forall>c \<in> set s. c \<noteq> dquote \<and> c \<noteq> backslash \<Longrightarrow> quote_scan False i (s @ dquote # r) = Some (i + length s)"
  by (induction s arbitrary: i) auto

lemma unescape_plain: "backslash \<notin> set s \<Longrightarrow> unescape s = Inr s"
  by (induction s rule: unescape.induct) auto

section \<open>The loops\<close>

text \<open>A value parser that reads the printed form of the plain values in \<open>V\<close>.\<close>

definition reads :: "value_parser \<Rightarrow> jvalue set \<Rightarrow> nat \<Rightarrow> bool" where
  "reads dv V N \<longleftrightarrow> (\<forall>v r stk. v \<in> V \<longrightarrow> follows r \<longrightarrow> length (SerializeValue v @ r) < N \<longrightarrow>
     dv (SerializeValue v @ r) stk = Inr (v, False, r, stk)) \<and>
     (0 < N \<longrightarrow> (\<forall>stk. dv [] stk = Inr (JNull, False, [], stk)))"

lemma readsD:
  "reads dv V N \<Longrightarrow> v \<in> V \<Longrightarrow> follows r \<Longrightarrow> length (SerializeValue v @ r) < N \<Longrightarrow>
     dv (SerializeValue v @ r) stk = Inr (v, False, r, stk)"
  by (simp add: reads_def)

lemma solid_elements: "\<forall>x \<in> set xs. plain x \<Longrightarrow> xs \<noteq> [] \<Longrightarrow> solid (Serialize_elements b xs)"
proof (induction xs arbitrary: b)
  case (Cons x xs)
  then have "solid (SerializeValue x @ Serialize_elements False xs)"
    by (cases "xs = []") (auto intro!: solid_append simp: solid_plain)
  then show ?case by (auto simp: solid_def)
qed simp

lemma follows_elements: "\<forall>x \<in> set xs. plain x \<Longrightarrow> follows (Serialize_elements False xs)"
  using solid_elements [of xs False] by (cases xs) (auto simp: follows_def)

lemma array_piece_scalar:
  "\<forall>c \<in> set s. \<not> is_array_stop c \<Longrightarrow> array_piece s = (s, False, [])"
  "\<forall>c \<in> set s. \<not> is_array_stop c \<Longrightarrow> array_piece (s @ CHR '','' # r) = (s, False, r)"
proof -
  assume s: "\<forall>c \<in> set s. \<not> is_array_stop c"
  show "array_piece s = (s, False, [])"
    using s find_idx_None [of is_array_stop s] by (simp add: array_piece_def del: find_idx_None)
  have "is_array_stop (CHR '','')" by (simp add: is_array_stop_def)
  from find_idx_append_first [where xs = s and ys = r, OF s this]
  show "array_piece (s @ CHR '','' # r) = (s, False, r)" by (simp add: array_piece_def)
qed

lemma array_piece_bracket:
  "is_opener c \<Longrightarrow> array_piece (c # s) = (c # s, True, [])"
  by (auto simp: array_piece_def is_array_stop_def is_opener_def)

lemma scalar_no_stop:
  assumes "plain v" "GetType v \<noteq> ArrayVal" "GetType v \<noteq> ObjectVal"
  shows "\<forall>c \<in> set (SerializeValue v). \<not> is_array_stop c"
proof (cases v)
  case (JInt i)
  have "\<not> is_array_stop c" if "c \<in> set (show_int i)" for c
    using show_int_chars [OF that] digit_or_minus_plain [of c] by (auto simp: is_array_stop_def)
  with JInt show ?thesis by simp
next
  case (JStr s)
  with assms show ?thesis by (auto simp: plain_string_def is_array_stop_def)
qed (use assms in \<open>auto simp: is_array_stop_def\<close>)

lemma push_plain: "x \<noteq> JNull \<Longrightarrow> push_non_null a x = a @ [x]"
  by (simp add: push_non_null_def Array_push_back_def)

lemma array_loop_reads:
  assumes "reads dv (set xs) N" "\<forall>x \<in> set xs. plain x \<and> x \<noteq> JNull"
    "length (Serialize_elements b xs) < N" "length (Serialize_elements b xs) < n"
  shows "array_loop dv n a (Serialize_elements b xs) stk = Inr (JArr (a @ xs), stk)"
  using assms
proof (induction xs arbitrary: a b n)
  case Nil
  then show ?case by (cases n) auto
next
  case (Cons x xs)
  let ?r = "Serialize_elements False xs"
  have rd: "reads dv (set xs) N" using Cons.prems(1) by (auto simp: reads_def)
  have x: "plain x" "x \<noteq> JNull" and xs: "\<forall>y \<in> set xs. plain y" using Cons.prems(2) by auto
  have f: "follows ?r" by (rule follows_elements) (rule xs)
  have ne: "SerializeValue x \<noteq> []" using solid_plain [OF x(1)] by (simp add: solid_def)
  then have pos: "0 < length (SerializeValue x)" by simp
  have plain_step: "array_loop dv n' a' (SerializeValue x @ ?r) stk = Inr (JArr (a' @ x # xs), stk)"
    if len: "length (SerializeValue x @ ?r) < N" "length (SerializeValue x @ ?r) < n'" for n' a'
  proof -
    obtain k where k: "n' = Suc k" using len by (cases n') auto
    have less: "length ?r < N" "length ?r < k"
      using len k pos unfolding length_append by linarith+
    show ?thesis
    proof (cases "GetType x = ArrayVal \<or> GetType x = ObjectVal")
      case True
      then obtain c s where s: "SerializeValue x = c # s" "is_opener c"
        by (cases x) (auto simp: is_opener_def)
      have "dv (SerializeValue x @ ?r) stk = Inr (x, False, ?r, stk)"
        by (rule readsD [OF Cons.prems(1) _ f len(1)]) simp
      moreover have "array_loop dv k (a' @ [x]) ?r stk = Inr (JArr ((a' @ [x]) @ xs), stk)"
        by (rule Cons.IH [OF rd]) (use Cons.prems(2) less in auto)
      ultimately show ?thesis
        using array_piece_bracket [OF s(2)] by (simp add: k s(1) push_plain x)
    next
      case False
      then have ns: "\<forall>c \<in> set (SerializeValue x). \<not> is_array_stop c"
        by (intro scalar_no_stop x) auto
      have dv: "dv (SerializeValue x) stk = Inr (x, False, [], stk)"
        using readsD [OF Cons.prems(1), of x "[]"] len by (simp add: follows_def)
      show ?thesis
      proof (cases xs)
        case Nil
        with len ne show ?thesis
          by (cases k) (simp_all add: k array_piece_scalar(1) [OF ns] dv push_plain x)
      next
        case (Cons y ys)
        let ?t = "Serialize_elements True xs"
        have r: "?r = CHR '','' # ?t" by (simp add: Cons)
        have "array_loop dv k (a' @ [x]) ?t stk = Inr (JArr ((a' @ [x]) @ xs), stk)"
          by (rule Cons.IH [OF rd]) (use Cons.prems(2) len k r in auto)
        then show ?thesis
          using ne by (simp add: k r array_piece_scalar(2) [OF ns] dv push_plain x)
      qed
    qed
  qed
  show ?case
  proof (cases b)
    case True
    with plain_step Cons.prems(3,4) show ?thesis by simp
  next
    case False
    obtain k where k: "n = Suc k" using Cons.prems(4) by (cases n) auto
    have "dv [] stk = Inr (JNull, False, [], stk)"
      using Cons.prems(1,3) by (auto simp: reads_def)
    then show ?thesis
      using plain_step [of k a] Cons.prems(3,4) False array_piece_scalar(2) [of "[]"]
      by (simp add: k push_non_null_def)
  qed
qed

lemma solid_members:
  "\<forall>p \<in> set m. plain (snd p) \<Longrightarrow> m \<noteq> [] \<Longrightarrow> solid (Serialize_members b m)"
proof (induction m arbitrary: b)
  case (Cons p m)
  obtain k x where p: "p = (k, x)" by force
  have "solid (SerializeValue x @ Serialize_members False m)"
    using Cons by (cases "m = []") (auto intro!: solid_append simp: solid_plain p)
  then show ?case by (auto simp: solid_def p)
qed simp

lemma follows_members: "\<forall>p \<in> set m. plain (snd p) \<Longrightarrow> follows (Serialize_members False m)"
  using solid_members [of m False] by (cases m) (auto simp: follows_def)

lemma object_key_reads:
  assumes "plain_key k" "pre = [] \<or> pre = '',''"
  shows "object_key (pre @ [dquote] @ k @ [dquote] @ '':'' @ s) = Some (k, s)"
proof -
  let ?t = "pre @ [dquote] @ k @ [dquote] @ '':'' @ s"
  have q: "\<forall>c \<in> set k. c \<noteq> dquote \<and> c \<noteq> backslash" using assms(1) by (simp add: plain_key_def)
  have 1: "GetQuotePos ?t 0 = Some (length pre)"
    using assms(2) by (auto simp: GetQuotePos_def)
  have 2: "GetQuotePos ?t (Suc (length pre)) = Some (Suc (length pre + length k))"
    using quote_scan_plain [OF q, of "Suc (length pre)" "'':'' @ s"] by (simp add: GetQuotePos_def)
  have 3: "find_from (\<lambda>c. c = CHR '':'') (Suc (length pre + length k)) ?t =
      Some (Suc (Suc (length pre + length k)))"
    by (simp add: find_from_def)
  show ?thesis
    unfolding object_key_def Let_def 1 option.case succ_pos_def 2 3
    using assms(2) by (auto simp: eval_nat_numeral)
qed

lemma map_assign_last: "\<forall>x \<in> fst ` set m. x < k \<Longrightarrow> map_assign k v m = m @ [(k, v)]"
  by (induction m) auto

lemma object_loop_reads:
  assumes "reads dv (snd ` set m) N" "\<forall>p \<in> set m. plain_key (fst p) \<and> plain (snd p)"
    "map_ok (m0 @ m)" "length (Serialize_members b m) < N" "length (Serialize_members b m) < n"
  shows "object_loop dv n m0 (Serialize_members b m) stk = Inr (JObj (m0 @ m), stk)"
  using assms
proof (induction m arbitrary: m0 b n)
  case Nil
  then show ?case by (cases n) auto
next
  case (Cons p m)
  obtain k x where p: "p = (k, x)" by force
  obtain n' where n': "n = Suc n'" using Cons.prems(5) by (cases n) auto
  let ?r = "Serialize_members False m"
  let ?pre = "if b then [] else '',''"
  have str: "Serialize_members b (p # m) = ?pre @ [dquote] @ k @ [dquote] @ '':'' @ SerializeValue x @ ?r"
    by (simp add: p)
  have key: "plain_key k" and ne: "k \<noteq> []" using Cons.prems(2) by (auto simp: p plain_key_def)
  have ok: "object_key (Serialize_members b (p # m)) = Some (k, SerializeValue x @ ?r)"
    unfolding str by (rule object_key_reads [OF key]) simp
  have f: "follows ?r" by (rule follows_members) (use Cons.prems(2) in auto)
  have dv: "dv (SerializeValue x @ ?r) stk = Inr (x, False, ?r, stk)"
    by (rule readsD [OF Cons.prems(1) _ f]) (use Cons.prems(4) in \<open>auto simp: p split: if_splits\<close>)
  have asc: "map_assign k x m0 = m0 @ [(k, x)]"
    using Cons.prems(3) by (intro map_assign_last) (auto simp: map_ok_def sorted_wrt_append p)
  have "object_loop dv n' (m0 @ [(k, x)]) ?r stk = Inr (JObj ((m0 @ [(k, x)]) @ m), stk)"
    by (rule Cons.IH)
       (use Cons.prems n' in \<open>auto simp: p reads_def split: if_splits\<close>)
  moreover have "Serialize_members b (p # m) \<noteq> []" unfolding str by simp
  ultimately show ?case
    using ok ne by (simp add: n' dv asc p del: Serialize_members.simps)
qed

section \<open>The round trip\<close>

lemma DeserializeArray_reads:
  assumes "reads dv (set xs) N" "plain (JArr xs)" "length (SerializeValue (JArr xs)) \<le> Suc N"
  shows "DeserializeArray dv (SerializeValue (JArr xs)) stk = Inr (JArr xs, stk)"
proof -
  let ?s = "Serialize_elements True xs"
  have t: "Trim (CHR ''['' # ?s @ '']'') = CHR ''['' # ?s @ '']''"
    by (rule Trim_solid) (simp add: solid_bracket)
  have "array_loop dv (Suc (length ?s)) [] ?s stk = Inr (JArr ([] @ xs), stk)"
    using assms by (intro array_loop_reads [of dv xs N]) auto
  then show ?thesis
    by (simp add: DeserializeArray_def t str_at_def nth_append substr_def del: array_loop.simps)
qed

lemma DeserializeInternal_reads_object:
  assumes "reads dv (snd ` set m) N" "plain (JObj m)" "length (SerializeValue (JObj m)) \<le> Suc N"
  shows "DeserializeInternal dv (SerializeValue (JObj m)) stk = Inr (JObj m, stk)"
proof -
  let ?s = "Serialize_members True m"
  have t: "Trim (CHR ''{'' # ?s @ ''}'') = CHR ''{'' # ?s @ ''}''"
    by (rule Trim_solid) (simp add: solid_bracket)
  have "object_loop dv (Suc (length ?s)) [] ?s (InObject # stk) = Inr (JObj ([] @ m), InObject # stk)"
    using assms by (intro object_loop_reads [of dv m N]) auto
  then show ?thesis
    by (simp add: DeserializeInternal_def DeserializeObj_def t str_at_def nth_append substr_def
        pop_expected_def del: object_loop.simps)
qed

lemma DeserializeInternal_reads_array:
  assumes "reads dv (set xs) N" "plain (JArr xs)" "length (SerializeValue (JArr xs)) \<le> Suc N"
  shows "DeserializeInternal dv (SerializeValue (JArr xs)) stk = Inr (JArr xs, stk)"
proof -
  let ?s = "Serialize_elements True xs"
  have t: "Trim (CHR ''['' # ?s @ '']'') = CHR ''['' # ?s @ '']''"
    by (rule Trim_solid) (simp add: solid_bracket)
  show ?thesis
    using DeserializeArray_reads [OF assms, of "InArray # stk"]
    by (simp add: DeserializeInternal_def t str_at_def nth_append pop_expected_def)
qed

lemma reads_mono: "reads dv V N \<Longrightarrow> W \<subseteq> V \<Longrightarrow> reads dv W N"
  by (auto simp: reads_def)

lemma DeserializeValue_reads: "reads (DeserializeValue n) (Collect plain) n"
proof (induction n)
  case (Suc n)
  have "DeserializeValue (Suc n) (SerializeValue v @ r) stk = Inr (v, False, r, stk)"
    if v: "plain v" and r: "follows r" and len: "length (SerializeValue v @ r) < Suc n" for v r stk
  proof -
    have sol: "r = [] \<or> solid r" using r by (auto simp: follows_def)
    have tr: "Trim (SerializeValue v @ r) = SerializeValue v @ r"
      by (rule Trim_solid) (use solid_append [OF solid_plain [OF v] sol] in simp)
    show ?thesis
    proof (cases v)
      case (JArr xs)
      have ps: "passes (Serialize_elements True xs)"
        using v JArr passes_plain by (intro passes_elements) auto
      have rd: "reads (DeserializeValue n) (set xs) n"
        by (rule reads_mono [OF Suc.IH]) (use v JArr in auto)
      have "DeserializeArray (DeserializeValue n) (SerializeValue v) stk = Inr (v, stk)"
        using DeserializeArray_reads [OF rd] v len JArr by simp
      then show ?thesis
        using tr GetEnd_array [OF ps, of r stk] by (simp add: JArr Let_def substr_def)
    next
      case (JObj m)
      have ps: "passes (Serialize_members True m)"
        using v JObj passes_plain by (intro passes_members) auto
      have rd: "reads (DeserializeValue n) (snd ` set m) n"
        by (rule reads_mono [OF Suc.IH]) (use v JObj in auto)
      have "DeserializeInternal (DeserializeValue n) (SerializeValue v) stk = Inr (v, stk)"
        using DeserializeInternal_reads_object [OF rd] v len JObj by simp
      then show ?thesis
        using tr GetEnd_object [OF ps, of r stk] by (simp add: JObj Let_def substr_def)
    next
      case (JStr s)
      then have q: "\<forall>c \<in> set s. c \<noteq> dquote \<and> c \<noteq> backslash" and t: "Trim s = s"
        using v by (auto simp: plain_string_def)
      have "GetQuotePos (SerializeValue v @ r) 1 = Some (1 + length s)"
        using quote_scan_plain [OF q, of 1 r] by (simp add: GetQuotePos_def JStr)
      moreover have "UnescapeJSONString s = Inr s"
        using q t by (subst UnescapeJSONString_def, subst unescape_plain) auto
      ultimately show ?thesis using tr by (simp add: JStr Let_def)
    next
      case (JInt i)
      obtain c cs where s: "show_int i = c # cs" by (cases "show_int i") auto
      have "c \<notin> {CHR ''['', CHR ''{'', dquote}"
        using digit_or_minus_plain [OF show_int_chars [of c i]] s by simp
      then show ?thesis
        using tr scalar_branch_int [OF _ _ r, of i stk] v by (simp add: JInt Let_def s)
    next
      case JNull
      show ?thesis using tr scalar_branch_words(3) [OF r, of stk] by (simp add: JNull Let_def)
    next
      case (JBool b)
      show ?thesis
        using tr scalar_branch_words(1,2) [OF r, of stk] by (cases b) (simp_all add: JBool Let_def)
    qed (use v in simp_all)
  qed
  moreover have "DeserializeValue (Suc n) [] stk = Inr (JNull, False, [], stk)" for stk
    by (simp add: Trim_def)
  ultimately show ?case by (simp add: reads_def del: DeserializeValue.simps)
qed (simp add: reads_def)

lemma Deserialize_Serialize_plain:
  assumes "plain v" "GetType v = ArrayVal \<or> GetType v = ObjectVal"
  shows "Deserialize (Serialize v) = Inr v"
proof -
  have rd: "reads (DeserializeValue (Suc (length (Serialize v)))) V (Suc (length (Serialize v)))"
    if "V \<subseteq> Collect plain" for V
    by (rule reads_mono [OF DeserializeValue_reads that])
  have members: "snd ` set m \<subseteq> Collect plain" if "plain (JObj m)" for m
    using that by auto
  from assms(2) consider (arr) xs where "v = JArr xs" | (obj) m where "v = JObj m"
    by (cases v) auto
  then show ?thesis
  proof cases
    case arr
    have "DeserializeInternal (DeserializeValue (Suc (length (Serialize v)))) (SerializeValue v) []
        = Inr (v, [])"
      unfolding arr by (rule DeserializeInternal_reads_array) (use rd assms(1) arr in \<open>auto simp del: DeserializeValue.simps\<close>)
    then show ?thesis by (simp add: Deserialize_def arr del: DeserializeValue.simps)
  next
    case obj
    have "DeserializeInternal (DeserializeValue (Suc (length (Serialize v)))) (SerializeValue v) []
        = Inr (v, [])"
      unfolding obj
      by (rule DeserializeInternal_reads_object [where N = "Suc (length (Serialize (JObj m)))"])
         (use rd [OF members] assms(1) obj in \<open>simp_all del: DeserializeValue.simps\<close>)
    then show ?thesis by (simp add: Deserialize_def obj del: DeserializeValue.simps)
  qed
qed

end
