(* ===== verification/Json_Properties.thy ===== *)
theory Json_Properties
  imports Json_Roundtrip
begin

text \<open>
  What the JSON library of the daemon (\<open>daemon/src/json.cpp\<close>) promises: the parser always
  answers, what it builds is well-formed, printing and parsing again is the identity on the
  values the parser can represent, and how its comparison treats values of unlike types.
\<close>

text \<open>C25: the recursive descent parser always returns: on every text, the recursion stays within
  the bound given by its length, so the result is a value or one of the exceptions of the code.\<close>

theorem parser_always_answers: "Deserialize str \<noteq> Inl Out_of_fuel"
  by (rule Deserialize_answers)

text \<open>C26: what the parser accepts is well-formed: a null, an object or an array whose objects
  are ordered maps with non-empty keys cut out of the text, whose arrays hold no null, and
  whose integers fit an \<open>int\<close>.\<close>

theorem parser_builds_well_formed:
  assumes "Deserialize str = Inr v"
  shows "wf_json (set str) v \<and> (v = JNull \<or> GetType v = ObjectVal \<or> GetType v = ArrayVal)"
  using assms by (rule Deserialize_yields)

definition sample_text :: string where
  "sample_text = [CHR ''['', CHR ''{'', dquote, CHR ''a'', dquote, CHR '':'', CHR ''1'', CHR ''}'', CHR '']'']"

definition sample_value :: jvalue where
  "sample_value = JArr [JObj [(''a'', JInt 1)]]"

lemma parse_sample: "Deserialize sample_text = Inr sample_value"
  by code_simp

theorem parser_builds_well_formed_witness: "wf_json (set sample_text) sample_value"
  using parser_builds_well_formed [OF parse_sample] by blast

text \<open>C11: an object or array that is made of integers, booleans, nulls outside arrays, and
  strings without characters that need escaping survives printing and parsing.\<close>

theorem print_parse_roundtrip:
  assumes "plain v" "GetType v = ArrayVal \<or> GetType v = ObjectVal"
  shows "Deserialize (Serialize v) = Inr v"
  using assms by (rule Deserialize_Serialize_plain)

theorem print_parse_roundtrip_witness: "Deserialize (Serialize sample_value) = Inr sample_value"
proof (rule print_parse_roundtrip)
  show "plain sample_value"
    by (simp add: sample_value_def plain_key_def map_ok_def int_min_def int_max_def)
qed (simp add: sample_value_def)

text \<open>Comparing a string with a number is not symmetric: the empty string equals every
  integer when it stands on the left, and no integer equals it.\<close>

theorem value_eq_not_symmetric:
  "Value_eq (JStr s) (JInt i) = (s = []) \<and> \<not> Value_eq (JInt i) (JStr s)"
  by (simp add: Value_eq.simps IsNumeric_def)

end
