(* ===== verification/Ini_Manage.thy ===== *)
theory Ini_Manage
  imports C_Library
begin

text \<open>
  The configuration file (\<open>daemon/src/ini_manage.cpp\<close>, \<open>daemon/src/ini_manage.h\<close>): sections
  of records in the order of the file, each with the comment lines in front of it. The
  linked lists are HOL lists; their size counters, which nothing reads, are the lengths.
  All text lives in arrays of 255 bytes, and a \<open>strcpy\<close>, \<open>sprintf\<close> or \<open>strcat\<close> that does
  not fit is \<open>Bad_access\<close>. Allocation succeeds.
\<close>

section \<open>The content\<close>

record ini_record =
  rcomments :: string
  rkey :: string
  rvalue :: string

record ini_section =
  sdata :: "ini_record list"
  scomments :: string
  sname :: string

record ini_state =
  ini_content :: "ini_section list"
  gfilename :: string
  error_msg :: "string option"
  w_flag :: bool  \<comment> \<open>\<open>REPLACE\<close>\<close>

text \<open>A C string copied into an array of \<open>n\<close> bytes.\<close>

definition strcpy_to :: "nat \<Rightarrow> string \<Rightarrow> string res" where
  "strcpy_to n s = (if length (c_str s) < n then Inr (c_str s) else Inl Bad_access)"

text \<open>The test \<open>comment[0] != '#' || comment[0] != ';'\<close> is always true.\<close>

definition store_comment :: "string \<Rightarrow> string res" where
  "store_comment comment =
     (if (str_at comment 0 \<noteq> CHR ''#'' \<or> str_at comment 0 \<noteq> CHR '';'') \<and> 0 < length (c_str comment)
      then strcpy_to 255 (CHR ''#'' # comment)
      else strcpy_to 255 comment)"

fun get_section :: "string \<Rightarrow> ini_section list \<Rightarrow> ini_section option" where
  "get_section sec [] = None"
| "get_section sec (e # es) = (if sname e = c_str sec then Some e else get_section sec es)"

fun find_record :: "string \<Rightarrow> ini_record list \<Rightarrow> ini_record option" where
  "find_record key [] = None"
| "find_record key (r # rs) = (if c_str key = rkey r then Some r else find_record key rs)"

definition get_record :: "ini_section option \<Rightarrow> string \<Rightarrow> ini_record option" where
  "get_record sec key = (case sec of None \<Rightarrow> None | Some s \<Rightarrow> find_record key (sdata s))"

text \<open>Writing through the pointer a search returned changes the first match.\<close>

fun update_section :: "string \<Rightarrow> (ini_section \<Rightarrow> ini_section) \<Rightarrow> ini_section list \<Rightarrow> ini_section list" where
  "update_section sec f [] = []"
| "update_section sec f (e # es) = (if sname e = c_str sec then f e # es else e # update_section sec f es)"

fun update_record :: "string \<Rightarrow> (ini_record \<Rightarrow> ini_record) \<Rightarrow> ini_record list \<Rightarrow> ini_record list" where
  "update_record key f [] = []"
| "update_record key f (r # rs) = (if c_str key = rkey r then f r # rs else r # update_record key f rs)"

definition init_content :: "ini_state \<Rightarrow> ini_state" where
  "init_content st = st \<lparr> ini_content := [] \<rparr>"

definition add_section :: "string \<Rightarrow> string \<Rightarrow> ini_state \<Rightarrow> ini_state res" where
  "add_section sec comment st =
     (let st = st \<lparr> error_msg := None \<rparr> in
      case get_section sec (ini_content st) of
        None \<Rightarrow>
          bind_res (strcpy_to 255 sec) (\<lambda>name.
          bind_res (store_comment comment) (\<lambda>cm.
            Inr (st \<lparr> ini_content := ini_content st @ [\<lparr> sdata = [], scomments = cm, sname = name \<rparr>] \<rparr>)))
      | Some temp \<Rightarrow>
          if w_flag st then
            bind_res (strcpy_to 255 sec) (\<lambda>name.
            bind_res (store_comment comment) (\<lambda>cm.
              Inr (st \<lparr> ini_content := update_section sec (\<lambda>e. e \<lparr> scomments := cm, sname := name \<rparr>)
                                           (ini_content st) \<rparr>)))
          else Inr st)"

text \<open>The branch of \<open>_append\<close> with the section found.\<close>

definition append_record :: "string \<Rightarrow> string \<Rightarrow> string \<Rightarrow> string \<Rightarrow> ini_state \<Rightarrow> ini_state res" where
  "append_record sec key value comment st =
     (case get_record (get_section sec (ini_content st)) key of
        None \<Rightarrow>
          bind_res (store_comment comment) (\<lambda>cm.
          bind_res (strcpy_to 255 key) (\<lambda>k.
          bind_res (strcpy_to 255 value) (\<lambda>v.
            Inr (st \<lparr> ini_content := update_section sec
               (\<lambda>e. e \<lparr> sdata := sdata e @ [\<lparr> rcomments = cm, rkey = k, rvalue = v \<rparr>] \<rparr>)
               (ini_content st) \<rparr>))))
      | Some temp \<Rightarrow>
          if w_flag st then
            bind_res (store_comment comment) (\<lambda>cm.
            bind_res (strcpy_to 255 key) (\<lambda>k.
            bind_res (strcpy_to 255 value) (\<lambda>v.
              Inr (st \<lparr> ini_content := update_section sec
                 (\<lambda>e. e \<lparr> sdata := update_record key
                            (\<lambda>r. r \<lparr> rcomments := cm, rkey := k, rvalue := v \<rparr>) (sdata e) \<rparr>)
                 (ini_content st) \<rparr>))))
          else Inr st)"

text \<open>The recursion of \<open>_append\<close> finds the section it has just added.\<close>

definition append_value :: "string \<Rightarrow> string \<Rightarrow> string \<Rightarrow> string \<Rightarrow> ini_state \<Rightarrow> ini_state res" where
  "append_value sec key value comment st =
     (case get_section sec (ini_content st) of
        Some tmp_sec \<Rightarrow> append_record sec key value comment st
      | None \<Rightarrow> bind_res (add_section sec [] st) (append_record sec key value comment))"

section \<open>Reading and writing values\<close>

definition get_value :: "ini_state \<Rightarrow> string \<Rightarrow> string \<Rightarrow> string" where
  "get_value st sec key =
     (case get_record (get_section sec (ini_content st)) key of Some r \<Rightarrow> rvalue r | None \<Rightarrow> [])"

definition set_value_flag :: "string \<Rightarrow> string \<Rightarrow> string \<Rightarrow> string \<Rightarrow> bool \<Rightarrow> ini_state
    \<Rightarrow> (bool \<times> ini_state) res" where
  "set_value_flag sec key value comment flag st =
     bind_res (append_value sec key value comment (st \<lparr> w_flag := flag, error_msg := None \<rparr>)) (\<lambda>st.
       Inr (if error_msg st = None then False else True, st))"

definition set_value :: "string \<Rightarrow> string \<Rightarrow> string \<Rightarrow> ini_state \<Rightarrow> (bool \<times> ini_state) res" where
  "set_value sec key value st = set_value_flag sec key value [] True st"

section \<open>Loading\<close>

text \<open>
  \<open>trim\<close> removes a newline and then a carriage return from the end. On an empty string it
  looks at the byte in front of the buffer, \<open>below\<close>, and would overwrite it.
\<close>

abbreviation newline :: char where "newline \<equiv> CHR 0x0A"
abbreviation carriage_return :: char where "carriage_return \<equiv> CHR 0x0D"

definition trim_end :: "char \<Rightarrow> char \<Rightarrow> string \<Rightarrow> string res" where
  "trim_end below c s =
     (if s = [] then (if below = c then Inl Bad_access else Inr [])
      else if last s = c then Inr (butlast s) else Inr s)"

definition trim :: "char \<Rightarrow> string \<Rightarrow> string res" where
  "trim below s = bind_res (trim_end below newline s) (trim_end below carriage_return)"

text \<open>\<open>fgets\<close> with a buffer of 255 bytes: up to 254 characters, ending behind a newline.\<close>

definition fgets_line :: "string \<Rightarrow> string" where
  "fgets_line s = take (min 254 (Suc (length (takeWhile (\<lambda>c. c \<noteq> newline) s)))) s"

function fgets_lines :: "string \<Rightarrow> string list" where
  "fgets_lines s = (if s = [] then [] else fgets_line s # fgets_lines (drop (length (fgets_line s)) s))"
  by auto
termination
  by (relation "measure length") (auto simp: fgets_line_def min_def)

declare fgets_lines.simps [simp del]

record load_state =
  lini :: ini_state
  lcomments :: string
  lsection :: string
  lsth_loaded :: bool

text \<open>One pass of the loop of \<open>load\<close>; \<open>None\<close> is its early return with a parse error.\<close>

definition load_line :: "char \<Rightarrow> string \<Rightarrow> load_state \<Rightarrow> (ini_state + load_state) res" where
  "load_line below line ls =
     bind_res (trim below (c_str line)) (\<lambda>buffer.
       let fail = Inr (Inl ((lini ls) \<lparr> error_msg := Some ''parse ini error'' \<rparr>))
       in case buffer of
         [] \<Rightarrow> Inr (Inr ls)
       | c # cs \<Rightarrow>
         if c = CHR ''['' then
           (case rfind_idx (\<lambda>d. d = CHR '']'') buffer of
              None \<Rightarrow> fail
            | Some index_pos \<Rightarrow>
                let current_section = take (index_pos - 1) (drop 1 buffer)
                in bind_res (add_section current_section (lcomments ls) (lini ls)) (\<lambda>st.
                     Inr (Inr \<lparr> lini = st, lcomments = [], lsection = current_section,
                                lsth_loaded = True \<rparr>)))
         else if c = CHR ''#'' \<or> c = CHR '';'' then
           bind_res (strcpy_to 1024
              (lcomments ls @ (if lcomments ls \<noteq> [] then [newline] else []) @ buffer)) (\<lambda>cm.
             Inr (Inr (ls \<lparr> lcomments := cm, lsth_loaded := True \<rparr>)))
         else
           (case find_idx (\<lambda>d. d = CHR ''='') buffer of
              None \<Rightarrow> fail
            | Some index_pos \<Rightarrow>
                if lsection ls = [] then fail
                else bind_res (append_value (lsection ls) (take index_pos buffer)
                        (drop (index_pos + 1) buffer) (lcomments ls) (lini ls)) (\<lambda>st.
                       Inr (Inr (ls \<lparr> lini := st, lcomments := [], lsth_loaded := True \<rparr>)))))"

primrec load_lines :: "char \<Rightarrow> string list \<Rightarrow> load_state \<Rightarrow> (bool \<times> ini_state) res" where
  "load_lines below [] ls = Inr (lsth_loaded ls, lini ls)"
| "load_lines below (line # lines) ls =
     bind_res (load_line below line ls) (\<lambda>r.
       case r of Inl st \<Rightarrow> Inr (False, st) | Inr ls' \<Rightarrow> load_lines below lines ls')"

text \<open>\<open>file\<close> is what \<open>fopen\<close> opens for reading, if it does.\<close>

definition load :: "char \<Rightarrow> string option \<Rightarrow> ini_state \<Rightarrow> (bool \<times> ini_state) res" where
  "load below file st =
     (case file of
        None \<Rightarrow> Inr (False, st \<lparr> error_msg := Some ''open file error'' \<rparr>)
      | Some text \<Rightarrow> load_lines below (fgets_lines text)
          \<lparr> lini = st \<lparr> error_msg := None \<rparr>, lcomments = [], lsection = [], lsth_loaded = False \<rparr>)"

definition ini_start :: "char \<Rightarrow> string \<Rightarrow> string option \<Rightarrow> ini_state \<Rightarrow> (bool \<times> ini_state) res" where
  "ini_start below filename file st =
     bind_res (strcpy_to 255 filename) (\<lambda>fn.
     bind_res (load below file ((init_content st) \<lparr> error_msg := None, w_flag := True, gfilename := fn \<rparr>))
       (\<lambda>(ok, st). if ok then Inr (True, st)
                  else Inr (False, st \<lparr> error_msg := Some ''initial parse file error'' \<rparr>)))"

section \<open>Saving\<close>

definition comment_line :: "string \<Rightarrow> string" where
  "comment_line c = (if c \<noteq> [] then c @ [newline] else [])"

fun string_allrecord :: "ini_record list \<Rightarrow> string" where
  "string_allrecord [] = []"
| "string_allrecord (r # rs) =
     comment_line (rcomments r) @ rkey r @ ''='' @ rvalue r @ [newline] @ string_allrecord rs"

fun sections_text :: "ini_section list \<Rightarrow> string" where
  "sections_text [] = []"
| "sections_text (e # es) =
     comment_line (scomments e) @ ''['' @ sname e @ '']'' @ [newline]
     @ string_allrecord (sdata e) @ sections_text es"

definition content_string :: "ini_state \<Rightarrow> string" where
  "content_string st = sections_text (ini_content st)"

text \<open>\<open>_save\<close>: the text written, when the file can be opened for writing.\<close>

definition save :: "bool \<Rightarrow> ini_state \<Rightarrow> bool \<times> ini_state \<times> string option" where
  "save writable st =
     (if \<not> writable then (False, st \<lparr> error_msg := Some ''open file error'' \<rparr>, None)
      else (True, st \<lparr> error_msg := None \<rparr>, Some (sections_text (ini_content st))))"

text \<open>\<open>clear\<close> frees the records of every section and then the sections.\<close>

definition clear_content :: "ini_state \<Rightarrow> ini_state" where
  "clear_content st = st \<lparr> ini_content := [] \<rparr>"

definition ini_end :: "bool \<Rightarrow> ini_state \<Rightarrow> ini_state \<times> string option" where
  "ini_end writable st =
     (let (ok, st', out) = save writable st in (clear_content st', out))"

section \<open>The invariant\<close>

text \<open>Every array holds a terminated string, and no name or key occurs twice.\<close>

definition cstr :: "string \<Rightarrow> bool" where
  "cstr s = (CHR 0x00 \<notin> set s \<and> length s < 255)"

definition record_ok :: "ini_record \<Rightarrow> bool" where
  "record_ok r = (cstr (rcomments r) \<and> cstr (rkey r) \<and> cstr (rvalue r))"

definition section_ok :: "ini_section \<Rightarrow> bool" where
  "section_ok e = (cstr (scomments e) \<and> cstr (sname e) \<and> distinct (map rkey (sdata e))
     \<and> (\<forall>r \<in> set (sdata e). record_ok r))"

definition ini_ok :: "ini_state \<Rightarrow> bool" where
  "ini_ok st = (distinct (map sname (ini_content st)) \<and> (\<forall>e \<in> set (ini_content st). section_ok e))"

lemma nul_c_str [simp]: "CHR 0x00 \<notin> set (c_str s)"
  by (auto simp: c_str_def dest: set_takeWhileD)

lemma c_str_c_str [simp]: "c_str (c_str s) = c_str s"
  by (rule c_str_id) simp

lemma length_c_str: "length (c_str s) \<le> length s"
  by (simp add: c_str_def length_takeWhile_le)

lemma cstr_c_str: "cstr s \<Longrightarrow> c_str s = s"
  by (simp add: cstr_def c_str_id)

lemma strcpy_to_ok: "strcpy_to 255 s = Inr t \<longleftrightarrow> t = c_str s \<and> cstr t"
  by (auto simp: strcpy_to_def cstr_def)

lemma store_comment_ok: "store_comment s = Inr t \<Longrightarrow> cstr t"
  by (auto simp: store_comment_def strcpy_to_ok split: if_splits)

lemma get_section_Some:
  "get_section sec es = Some e \<Longrightarrow> e \<in> set es \<and> sname e = c_str sec"
  by (induction es) (auto split: if_splits)

lemma get_section_None: "get_section sec es = None \<longleftrightarrow> c_str sec \<notin> sname ` set es"
  by (induction es) auto

lemma find_record_Some: "find_record key rs = Some r \<Longrightarrow> r \<in> set rs \<and> rkey r = c_str key"
  by (induction rs) (auto split: if_splits)

lemma find_record_None: "find_record key rs = None \<longleftrightarrow> c_str key \<notin> rkey ` set rs"
  by (induction rs) auto

lemma update_section_names:
  "(\<And>e. sname e = c_str sec \<Longrightarrow> sname (f e) = sname e) \<Longrightarrow>
     map sname (update_section sec f es) = map sname es"
  by (induction es) auto

lemma update_record_keys:
  "(\<And>r. rkey r = c_str key \<Longrightarrow> rkey (f r) = rkey r) \<Longrightarrow> map rkey (update_record key f rs) = map rkey rs"
  by (induction rs) auto

lemma update_section_member:
  "e \<in> set (update_section sec f es) \<Longrightarrow> e \<in> set es \<or> (\<exists>e0 \<in> set es. sname e0 = c_str sec \<and> e = f e0)"
  by (induction es) (auto split: if_splits)

lemma update_record_member:
  "r \<in> set (update_record key f rs) \<Longrightarrow> r \<in> set rs \<or> (\<exists>r0 \<in> set rs. rkey r0 = c_str key \<and> r = f r0)"
  by (induction rs) (auto split: if_splits)

lemma get_update_section:
  "(\<And>e. sname e = c_str sec \<Longrightarrow> sname (f e) = sname e) \<Longrightarrow>
     get_section sec' (update_section sec f es) =
       (if c_str sec' = c_str sec then map_option f (get_section sec' es) else get_section sec' es)"
  by (induction es) auto

lemma find_update_record:
  "(\<And>r. rkey r = c_str key \<Longrightarrow> rkey (f r) = rkey r) \<Longrightarrow>
     find_record key' (update_record key f rs) =
       (if c_str key' = c_str key then map_option f (find_record key' rs) else find_record key' rs)"
  by (induction rs) auto

lemma find_record_append:
  "find_record key (rs @ rs') = (case find_record key rs of Some r \<Rightarrow> Some r | None \<Rightarrow> find_record key rs')"
  by (induction rs) auto

lemma get_section_append:
  "get_section sec (es @ es') = (case get_section sec es of Some e \<Rightarrow> Some e | None \<Rightarrow> get_section sec es')"
  by (induction es) auto

text \<open>Changing one section in place keeps the invariant if the section stays well formed.\<close>

lemma ini_ok_update:
  assumes "ini_ok st"
    and "\<And>e. e \<in> set (ini_content st) \<Longrightarrow> sname e = c_str sec \<Longrightarrow> section_ok e \<Longrightarrow> section_ok (f e)"
    and "\<And>e. sname e = c_str sec \<Longrightarrow> sname (f e) = sname e"
  shows "ini_ok (st \<lparr> ini_content := update_section sec f (ini_content st) \<rparr>)"
  using assms(1,2) update_section_names [of sec f "ini_content st", OF assms(3)]
  by (auto simp: ini_ok_def dest!: update_section_member)

lemma add_section_ini_ok:
  assumes "ini_ok st" "add_section sec comment st = Inr st'"
  shows "ini_ok st'"
proof (cases "get_section sec (ini_content st)")
  case None
  with assms show ?thesis
    by (auto simp: add_section_def bind_res_Inr_iff ini_ok_def section_ok_def strcpy_to_ok
        get_section_None dest!: store_comment_ok)
next
  case (Some e)
  have ok: "ini_ok (st \<lparr> error_msg := None \<rparr>)" using assms(1) by (simp add: ini_ok_def)
  have "ini_ok (st \<lparr> error_msg := None, ini_content := update_section sec
      (\<lambda>e. e \<lparr> scomments := cm, sname := c_str sec \<rparr>) (ini_content st) \<rparr>)"
    if "cstr cm" for cm
    using ini_ok_update [OF ok, of sec "\<lambda>e. e \<lparr> scomments := cm, sname := c_str sec \<rparr>"] that
    by (auto simp: section_ok_def)
  with assms(2) ok Some show ?thesis
    by (auto simp: add_section_def Let_def bind_res_Inr_iff strcpy_to_ok
        dest!: store_comment_ok split: if_splits)
qed

lemma append_record_ini_ok:
  assumes "ini_ok st" "get_section sec (ini_content st) = Some e"
    "append_record sec key value comment st = Inr st'"
  shows "ini_ok st'"
proof (cases "find_record key (sdata e)")
  case None
  have key: "c_str key \<notin> rkey ` set (sdata e0)"
    if "e0 \<in> set (ini_content st)" "sname e0 = c_str sec" for e0
  proof -
    have "e0 = e"
      using that get_section_Some [OF assms(2)] assms(1) by (simp add: ini_ok_def distinct_map) (metis inj_onD)
    with None show ?thesis by (simp add: find_record_None)
  qed
  from assms None show ?thesis
    by (auto simp: append_record_def get_record_def bind_res_Inr_iff strcpy_to_ok section_ok_def
        record_ok_def key dest!: store_comment_ok intro!: ini_ok_update)
next
  case (Some r)
  from assms Some show ?thesis
    by (auto simp: append_record_def get_record_def bind_res_Inr_iff strcpy_to_ok section_ok_def
        record_ok_def update_record_keys dest!: store_comment_ok update_record_member
        intro!: ini_ok_update split: if_splits)
qed

lemma append_value_ini_ok:
  assumes "ini_ok st" "append_value sec key value comment st = Inr st'"
  shows "ini_ok st'"
proof (cases "get_section sec (ini_content st)")
  case None
  with assms(2) obtain st1 where st1: "add_section sec [] st = Inr st1"
    and r: "append_record sec key value comment st1 = Inr st'"
    by (auto simp: append_value_def bind_res_Inr_iff)
  have "get_section sec (ini_content st1) \<noteq> None"
    using st1 None by (auto simp: add_section_def bind_res_Inr_iff strcpy_to_ok get_section_append)
  then show ?thesis
    using append_record_ini_ok [OF add_section_ini_ok [OF assms(1) st1] _ r] by auto
next
  case (Some e)
  with append_record_ini_ok [OF assms(1) Some] assms(2) show ?thesis by (simp add: append_value_def)
qed

lemma set_value_ini_ok: "ini_ok st \<Longrightarrow> set_value sec key value st = Inr (b, st') \<Longrightarrow> ini_ok st'"
  by (auto simp: set_value_def set_value_flag_def bind_res_Inr_iff ini_ok_def
      dest!: append_value_ini_ok [rotated])

lemma load_line_ini_ok:
  assumes "ini_ok (lini ls)" "load_line below line ls = Inr r"
  shows "case r of Inl st \<Rightarrow> ini_ok st | Inr ls' \<Rightarrow> ini_ok (lini ls')"
proof -
  have e: "ini_ok (lini ls \<lparr> error_msg := x \<rparr>)" for x using assms(1) by (simp add: ini_ok_def)
  note ok = add_section_ini_ok [OF assms(1)] append_value_ini_ok [OF assms(1)]
  from assms(2) obtain buffer where b: "trim below (c_str line) = Inr buffer"
    by (auto simp: load_line_def bind_res_Inr_iff)
  show ?thesis
  proof (cases buffer)
    case Nil
    with assms b show ?thesis by (auto simp: load_line_def)
  next
    case (Cons c cs)
    consider "c = CHR ''[''" | "c = CHR ''#'' \<or> c = CHR '';''"
      | "c \<noteq> CHR ''[''" "c \<noteq> CHR ''#''" "c \<noteq> CHR '';''" by blast
    then show ?thesis
    proof cases
      case 1
      with assms(2) b Cons show ?thesis
        by (auto simp: load_line_def Let_def bind_res_Inr_iff e dest: ok(1) split: option.splits)
    next
      case 2
      then have "c \<noteq> CHR ''[''" by auto
      with 2 assms b Cons show ?thesis
        by (auto simp: load_line_def bind_res_Inr_iff)
    next
      case 3
      with assms(2) b Cons show ?thesis
        by (cases "find_idx (\<lambda>d. d = CHR ''='') buffer")
           (auto simp: load_line_def Let_def e bind_res_Inr_iff simp del: find_idx.simps find_idx_None
             dest: ok(2) split: if_splits)
    qed
  qed
qed

lemma load_lines_ini_ok:
  "ini_ok (lini ls) \<Longrightarrow> load_lines below lines ls = Inr (b, st) \<Longrightarrow> ini_ok st"
proof (induction lines arbitrary: ls)
  case (Cons line lines)
  from Cons.prems(2) obtain r where r: "load_line below line ls = Inr r"
    and k: "(case r of Inl st \<Rightarrow> Inr (False, st) | Inr ls' \<Rightarrow> load_lines below lines ls') = Inr (b, st)"
    by (auto simp: bind_res_Inr_iff)
  from load_line_ini_ok [OF Cons.prems(1) r] k Cons.IH show ?case
    by (auto split: sum.splits)
qed auto

lemma ini_start_ini_ok:
  assumes "ini_start below fn file st = Inr (b, st')"
  shows "ini_ok st'"
proof -
  have e: "ini_ok (s \<lparr> error_msg := x \<rparr>) = ini_ok s" for s x by (simp add: ini_ok_def)
  have i: "ini_ok (init_content s \<lparr> error_msg := x, w_flag := w, gfilename := g \<rparr>)" for s x w g
    by (simp add: ini_ok_def init_content_def)
  have l: "ini_ok st2" if "load below file s = Inr (c, st2)" "ini_ok s" for s c st2
    using that by (auto simp: load_def e split: option.splits dest: load_lines_ini_ok [rotated])
  show ?thesis
    using assms by (auto simp: ini_start_def bind_res_Inr_iff e split: if_splits dest!: l [OF _ i])
qed

section \<open>The file as a keyed store\<close>

definition ini_lookup :: "ini_state \<Rightarrow> string \<times> string \<Rightarrow> string option" where
  "ini_lookup st p = (case p of (sec, key) \<Rightarrow>
     if c_str sec = sec \<and> c_str key = key
     then map_option rvalue (get_record (get_section sec (ini_content st)) key) else None)"

definition ini_store :: "string \<times> string \<Rightarrow> string \<Rightarrow> ini_state \<Rightarrow> ini_state" where
  "ini_store p value st = (case p of (sec, key) \<Rightarrow>
     case set_value sec key value st of Inr (b, st') \<Rightarrow> st' | Inl e \<Rightarrow> st)"

definition ini_admissible :: "string \<times> string \<Rightarrow> string \<Rightarrow> bool" where
  "ini_admissible p value = (case p of (sec, key) \<Rightarrow> cstr sec \<and> cstr key \<and> cstr value)"

lemma store_comment_Nil [simp]: "store_comment [] = Inr []"
  by (simp add: store_comment_def strcpy_to_def c_str_def)

lemma strcpy_to_cstr [simp]: "cstr s \<Longrightarrow> strcpy_to 255 s = Inr s"
  by (simp add: strcpy_to_def cstr_c_str) (simp add: cstr_def)

lemma append_record_lookup:
  assumes "cstr sec" "cstr key" "cstr value" "w_flag st"
    "get_section sec (ini_content st) = Some e"
  obtains st' where "append_record sec key value [] st = Inr st'" "error_msg st' = error_msg st"
    "\<And>p. ini_lookup st' p = (if p = (sec, key) then Some value else ini_lookup st p)"
proof (cases "find_record key (sdata e)")
  case None
  let ?f = "\<lambda>e. e \<lparr> sdata := sdata e @ [\<lparr> rcomments = [], rkey = key, rvalue = value \<rparr>] \<rparr>"
  let ?st = "st \<lparr> ini_content := update_section sec ?f (ini_content st) \<rparr>"
  have "append_record sec key value [] st = Inr ?st"
    using None assms by (simp add: append_record_def get_record_def)
  moreover have "ini_lookup ?st p = (if p = (sec, key) then Some value else ini_lookup st p)" for p
    using None assms
    by (cases p) (auto simp: ini_lookup_def get_update_section get_record_def find_record_append
        cstr_c_str split: option.splits)
  ultimately show thesis by (intro that [of ?st]) auto
next
  case (Some r)
  let ?g = "\<lambda>r. r \<lparr> rcomments := [], rkey := key, rvalue := value \<rparr>"
  let ?f = "\<lambda>e. e \<lparr> sdata := update_record key ?g (sdata e) \<rparr>"
  let ?st = "st \<lparr> ini_content := update_section sec ?f (ini_content st) \<rparr>"
  have "append_record sec key value [] st = Inr ?st"
    using Some assms by (simp add: append_record_def get_record_def)
  moreover have "ini_lookup ?st p = (if p = (sec, key) then Some value else ini_lookup st p)" for p
    using Some assms
    by (cases p) (auto simp: ini_lookup_def get_update_section get_record_def find_update_record
        cstr_c_str split: option.splits)
  ultimately show thesis by (intro that [of ?st]) auto
qed

lemma set_value_lookup:
  assumes "ini_admissible (sec, key) value"
  obtains st' where "set_value sec key value st = Inr (False, st')"
    "\<And>p. ini_lookup st' p = (if p = (sec, key) then Some value else ini_lookup st p)"
proof -
  let ?st = "st \<lparr> w_flag := True, error_msg := None \<rparr>"
  from assms have c: "cstr sec" "cstr key" "cstr value" by (auto simp: ini_admissible_def)
  have w: "ini_lookup ?st p = ini_lookup st p" for p by (cases p) (simp add: ini_lookup_def)
  show thesis
  proof (cases "get_section sec (ini_content st)")
    case None
    let ?e = "\<lparr> sdata = [], scomments = [], sname = sec \<rparr>"
    let ?st1 = "?st \<lparr> ini_content := ini_content st @ [?e] \<rparr>"
    have add: "add_section sec [] ?st = Inr ?st1" using None c by (simp add: add_section_def)
    have sec: "get_section sec (ini_content ?st1) = Some ?e"
      using None c by (simp add: get_section_append cstr_c_str)
    have same: "ini_lookup ?st1 p = ini_lookup st p" for p
      by (cases p) (auto simp: ini_lookup_def get_section_append get_record_def split: option.splits)
    from append_record_lookup [OF c _ sec] obtain st' where
      "append_record sec key value [] ?st1 = Inr st'" "error_msg st' = error_msg ?st1"
      "\<And>p. ini_lookup st' p = (if p = (sec, key) then Some value else ini_lookup ?st1 p)"
      by auto
    with None add same show thesis
      by (intro that [of st']) (simp_all add: set_value_def set_value_flag_def append_value_def)
  next
    case (Some e)
    then have "get_section sec (ini_content ?st) = Some e" by simp
    from append_record_lookup [OF c _ this] obtain st' where
      "append_record sec key value [] ?st = Inr st'" "error_msg st' = error_msg ?st"
      "\<And>p. ini_lookup st' p = (if p = (sec, key) then Some value else ini_lookup ?st p)"
      by auto
    with Some w show thesis
      by (intro that [of st']) (simp_all add: set_value_def set_value_flag_def append_value_def)
  qed
qed

interpretation ini_file: keyed_store ini_ok ini_admissible ini_lookup ini_store
proof unfold_locales
  fix m k v k'
  assume m: "ini_ok m" and a: "ini_admissible k v"
  obtain sec key where k: "k = (sec, key)" by force
  from a k obtain st' where s: "set_value sec key v m = Inr (False, st')"
    "\<And>p. ini_lookup st' p = (if p = (sec, key) then Some v else ini_lookup m p)"
    using set_value_lookup [of sec key v m] by blast
  then show "ini_lookup (ini_store k v m) k' = (if k' = k then Some v else ini_lookup m k')"
    by (simp add: ini_store_def k)
  from s(1) set_value_ini_ok [OF m s(1)] show "ini_ok (ini_store k v m)"
    by (simp add: ini_store_def k)
qed

lemma get_value_lookup:
  "cstr sec \<Longrightarrow> cstr key \<Longrightarrow>
     get_value st sec key = (case ini_lookup st (sec, key) of Some v \<Rightarrow> v | None \<Rightarrow> [])"
  by (simp add: get_value_def ini_lookup_def cstr_c_str split: option.split)

section \<open>Saving and loading again\<close>

text \<open>A line that \<open>fgets\<close> returns whole and \<open>trim\<close> leaves alone.\<close>

definition clean_line :: "string \<Rightarrow> bool" where
  "clean_line l = (l \<noteq> [] \<and> newline \<notin> set l \<and> CHR 0x00 \<notin> set l \<and> last l \<noteq> carriage_return
     \<and> length l \<le> 253)"

definition printable_comment :: "string \<Rightarrow> bool" where
  "printable_comment c = (c = [] \<or> clean_line c \<and> hd c = CHR ''#'')"

definition printable_record :: "ini_record \<Rightarrow> bool" where
  "printable_record r = (printable_comment (rcomments r) \<and> clean_line (rkey r @ ''='' @ rvalue r)
     \<and> CHR ''='' \<notin> set (rkey r) \<and> (rkey r = [] \<or> hd (rkey r) \<notin> {CHR ''['', CHR ''#'', CHR '';''}))"

definition printable_section :: "ini_section \<Rightarrow> bool" where
  "printable_section e = (printable_comment (scomments e) \<and> sname e \<noteq> []
     \<and> clean_line (''['' @ sname e @ '']'') \<and> distinct (map rkey (sdata e))
     \<and> (\<forall>r \<in> set (sdata e). printable_record r))"

text \<open>Loading puts another \<open>#\<close> in front of every comment.\<close>

definition hash :: "string \<Rightarrow> string" where
  "hash c = (if c = [] then [] else CHR ''#'' # c)"

definition hash_record :: "ini_record \<Rightarrow> ini_record" where
  "hash_record r = r \<lparr> rcomments := hash (rcomments r) \<rparr>"

definition hash_section :: "ini_section \<Rightarrow> ini_section" where
  "hash_section e = e \<lparr> scomments := hash (scomments e), sdata := map hash_record (sdata e) \<rparr>"

lemma fgets_lines_newline:
  assumes "newline \<notin> set l" "length l \<le> 253"
  shows "fgets_lines (l @ newline # rest) = (l @ [newline]) # fgets_lines rest"
proof -
  have "takeWhile (\<lambda>c. c \<noteq> newline) (l @ newline # rest) = l"
    using assms(1) by (subst takeWhile_append2) auto
  then have "fgets_line (l @ newline # rest) = l @ [newline]"
    using assms(2) by (simp add: fgets_line_def)
  then show ?thesis by (subst fgets_lines.simps) simp
qed

lemma trim_clean: "clean_line l \<Longrightarrow> trim below (c_str (l @ [newline])) = Inr l"
  by (simp add: clean_line_def c_str_id trim_def trim_end_def)

lemma load_lines_clean:
  "clean_line l \<Longrightarrow> load_lines below (fgets_lines (l @ newline # rest)) ls =
     bind_res (load_line below (l @ [newline]) ls) (\<lambda>r.
       case r of Inl st \<Rightarrow> Inr (False, st) | Inr ls' \<Rightarrow> load_lines below (fgets_lines rest) ls')"
  by (simp add: fgets_lines_newline clean_line_def)

lemma store_comment_hash: "printable_comment c \<Longrightarrow> store_comment c = Inr (hash c)"
  by (auto simp: store_comment_def hash_def printable_comment_def clean_line_def c_str_id strcpy_to_def
      str_at_def)

lemma load_comment:
  assumes "printable_comment c" "lcomments ls = []"
  shows "load_lines below (fgets_lines (comment_line c @ rest)) ls =
    load_lines below (fgets_lines rest) (ls \<lparr> lcomments := c, lsth_loaded := lsth_loaded ls \<or> c \<noteq> [] \<rparr>)"
proof (cases "c = []")
  case True
  with assms show ?thesis by (cases ls) (simp add: comment_line_def)
next
  case False
  with assms(1) have c: "clean_line c" "hd c = CHR ''#''" by (auto simp: printable_comment_def)
  then obtain cs where cs: "c = CHR ''#'' # cs" using False by (cases c) auto
  have "strcpy_to 1024 c = Inr c"
    using c by (auto simp: strcpy_to_def clean_line_def c_str_id)
  with assms(2) have "load_line below (c @ [newline]) ls =
      Inr (Inr (ls \<lparr> lcomments := c, lsth_loaded := True \<rparr>))"
    unfolding load_line_def trim_clean [OF c(1)] by (simp add: cs)
  with False show ?thesis
    using load_lines_clean [OF c(1), of below rest ls] by (simp add: comment_line_def)
qed

lemma load_record:
  assumes "printable_record r" "lsection ls = sname e" "sname e \<noteq> []" "cstr (sname e)"
    "lcomments ls = rcomments r" "ini_content (lini ls) = es @ [e]" "sname e \<notin> sname ` set es"
    "rkey r \<notin> rkey ` set (sdata e)"
  shows "load_lines below (fgets_lines (rkey r @ ''='' @ rvalue r @ newline # rest)) ls =
    load_lines below (fgets_lines rest) (ls \<lparr> lcomments := [], lsth_loaded := True,
      lini := (lini ls) \<lparr> ini_content := es @ [e \<lparr> sdata := sdata e @ [hash_record r] \<rparr>] \<rparr> \<rparr>)"
proof -
  let ?l = "rkey r @ ''='' @ rvalue r"
  have cl: "clean_line ?l" and eq: "CHR ''='' \<notin> set (rkey r)"
    using assms(1) by (auto simp: printable_record_def)
  obtain c cs where l: "?l = c # cs" by (cases ?l) auto
  then have c: "c \<notin> {CHR ''['', CHR ''#'', CHR '';''}"
    using assms(1) by (cases "rkey r") (auto simp: printable_record_def)
  have "find_idx (\<lambda>d. d = CHR ''='') ?l = Some (length (rkey r))"
    using eq find_idx_append_first [of "rkey r" "\<lambda>d. d = CHR ''=''" "CHR ''=''" "rvalue r"] by auto
  then have fi: "find_idx (\<lambda>d. d = CHR ''='') (c # cs) = Some (length (rkey r))" by (simp only: l)
  have tk: "take (length (rkey r)) (c # cs) = rkey r" "drop (length (rkey r) + 1) (c # cs) = rvalue r"
    unfolding l [symmetric] by simp_all
  have cs: "cstr (rkey r)" "cstr (rvalue r)" using cl by (auto simp: cstr_def clean_line_def)
  have none: "find_record (rkey r) (sdata e) = None"
    using assms(8) cs by (simp add: find_record_None cstr_c_str)
  have hr: "hash_record r = \<lparr> rcomments = hash (rcomments r), rkey = rkey r, rvalue = rvalue r \<rparr>"
    by (cases r) (simp add: hash_record_def)
  have upd: "update_section (sname e) f (es @ [e]) = es @ [f e]" for f
    using assms(4,7) by (induction es) (auto simp: cstr_c_str)
  have get: "get_section (sname e) (es @ [e]) = Some e"
    using assms(4,7) by (induction es) (auto simp: cstr_c_str)
  have "append_value (sname e) (rkey r) (rvalue r) (rcomments r) (lini ls) =
    Inr ((lini ls) \<lparr> ini_content := es @ [e \<lparr> sdata := sdata e @ [hash_record r] \<rparr>] \<rparr>)"
    using assms cs
    by (simp add: append_value_def append_record_def get get_record_def none cstr_c_str
        printable_record_def store_comment_hash upd hr)
  with fi tk c assms have "load_line below l ls = Inr (Inr (ls \<lparr> lcomments := [], lsth_loaded := True,
      lini := (lini ls) \<lparr> ini_content := es @ [e \<lparr> sdata := sdata e @ [hash_record r] \<rparr>] \<rparr> \<rparr>))"
    if "trim below (c_str l) = Inr (c # cs)" for l
    by (simp add: load_line_def that Let_def del: find_idx.simps)
  from this [OF trim_clean [OF cl, of below, unfolded l]]
  have "load_line below (?l @ [newline]) ls = Inr (Inr (ls \<lparr> lcomments := [], lsth_loaded := True,
      lini := (lini ls) \<lparr> ini_content := es @ [e \<lparr> sdata := sdata e @ [hash_record r] \<rparr>] \<rparr> \<rparr>))"
    by (simp only: l)
  then show ?thesis
    using load_lines_clean [OF cl, of below rest ls] by simp
qed

lemma load_records:
  assumes "\<forall>r \<in> set rs. printable_record r" "lsection ls = sname e" "sname e \<noteq> []" "cstr (sname e)"
    "lcomments ls = []" "lsth_loaded ls" "ini_content (lini ls) = es @ [e]" "sname e \<notin> sname ` set es"
    "distinct (map rkey (sdata e @ rs))"
  shows "load_lines below (fgets_lines (string_allrecord rs @ rest)) ls =
    load_lines below (fgets_lines rest) (ls \<lparr>
      lini := (lini ls) \<lparr> ini_content := es @ [e \<lparr> sdata := sdata e @ map hash_record rs \<rparr>] \<rparr> \<rparr>)"
  using assms
proof (induction rs arbitrary: ls e)
  case Nil
  then show ?case by (cases ls; cases "lini ls") simp
next
  case (Cons r rs)
  let ?e = "e \<lparr> sdata := sdata e @ [hash_record r] \<rparr>"
  let ?ls = "ls \<lparr> lini := (lini ls) \<lparr> ini_content := es @ [?e] \<rparr> \<rparr>"
  have key: "rkey (hash_record r) = rkey r" by (simp add: hash_record_def)
  have "load_lines below (fgets_lines (string_allrecord (r # rs) @ rest)) ls =
    load_lines below (fgets_lines (rkey r @ ''='' @ rvalue r @ newline # string_allrecord rs @ rest))
      (ls \<lparr> lcomments := rcomments r \<rparr>)"
    using load_comment [of "rcomments r" ls] Cons.prems by (cases ls) (simp add: printable_record_def)
  also have "\<dots> = load_lines below (fgets_lines (string_allrecord rs @ rest)) ?ls"
    using load_record [of r "ls \<lparr> lcomments := rcomments r \<rparr>" e es] Cons.prems
    by (cases ls) simp
  also have "\<dots> = load_lines below (fgets_lines rest) (?ls \<lparr>
      lini := (lini ?ls) \<lparr> ini_content := es @ [?e \<lparr> sdata := sdata ?e @ map hash_record rs \<rparr>] \<rparr> \<rparr>)"
    by (rule Cons.IH) (use Cons.prems key in auto)
  finally show ?case by simp
qed

lemma load_section:
  assumes "printable_section e" "lcomments ls = []" "error_msg (lini ls) = None" "sname e \<notin> sname ` set (ini_content (lini ls))"
  shows "load_lines below (fgets_lines (sections_text [e] @ rest)) ls =
    load_lines below (fgets_lines rest) (ls \<lparr> lsection := sname e, lsth_loaded := True,
      lini := (lini ls) \<lparr> ini_content := ini_content (lini ls) @ [hash_section e] \<rparr> \<rparr>)"
proof -
  let ?l = "''['' @ sname e @ '']''"
  let ?e = "\<lparr> sdata = [], scomments = hash (scomments e), sname = sname e \<rparr>"
  let ?ls = "ls \<lparr> lcomments := [], lsection := sname e, lsth_loaded := True,
      lini := (lini ls) \<lparr> ini_content := ini_content (lini ls) @ [?e] \<rparr> \<rparr>"
  have eq: "ls \<lparr> lcomments := [], lsection := s, lsth_loaded := True, lini := X \<rparr> =
      \<lparr> lini = X, lcomments = [], lsection = s, lsth_loaded = True \<rparr>" for s X
    by (cases ls) simp
  have cl: "clean_line ?l" and cm: "printable_comment (scomments e)"
    using assms(1) by (auto simp: printable_section_def)
  have cs: "cstr (sname e)" using cl by (auto simp: cstr_def clean_line_def)
  have idx: "rfind_idx (\<lambda>d. d = CHR '']'') (CHR ''['' # sname e @ '']'') = Some (Suc (length (sname e)))"
    using rfind_idx_last [of "\<lambda>d. d = CHR '']''" "CHR '']''" "[]" "CHR ''['' # sname e"] by simp
  have none: "get_section (sname e) (ini_content (lini ls)) = None"
    using assms(4) cs by (simp add: get_section_None cstr_c_str)
  have clear: "lini ls \<lparr> error_msg := None \<rparr> = lini ls" using assms(3) by (cases "lini ls") simp
  have sec: "add_section (sname e) (scomments e) (lini ls) =
      Inr ((lini ls) \<lparr> ini_content := ini_content (lini ls) @ [?e] \<rparr>)"
    using cs none clear by (simp add: add_section_def Let_def store_comment_hash [OF cm])
  have "load_lines below (fgets_lines (comment_line (scomments e) @ ?l @ newline # string_allrecord (sdata e) @ rest)) ls =
    load_lines below (fgets_lines (?l @ newline # string_allrecord (sdata e) @ rest))
      (ls \<lparr> lcomments := scomments e, lsth_loaded := lsth_loaded ls \<or> scomments e \<noteq> [] \<rparr>)"
    by (rule load_comment [OF cm assms(2)])
  also have "\<dots> = load_lines below (fgets_lines (string_allrecord (sdata e) @ rest)) ?ls"
    using load_lines_clean [OF cl, of below "string_allrecord (sdata e) @ rest"] trim_clean [OF cl, of below]
    by (simp add: load_line_def Let_def idx sec eq)
  also have "\<dots> = load_lines below (fgets_lines rest) (?ls \<lparr> lini := (lini ?ls) \<lparr>
      ini_content := ini_content (lini ls) @ [?e \<lparr> sdata := sdata ?e @ map hash_record (sdata e) \<rparr>] \<rparr> \<rparr>)"
    using assms(1,4) cs by (intro load_records) (auto simp: printable_section_def)
  finally show ?thesis
    using assms(2) by (cases ls; cases e) (simp add: hash_section_def)
qed

lemma sections_text_Cons: "sections_text (e # es) = sections_text [e] @ sections_text es"
  by simp

lemma load_sections:
  assumes "\<forall>e \<in> set es. printable_section e" "lcomments ls = []"
    "error_msg (lini ls) = None" "distinct (map sname (ini_content (lini ls) @ es))"
  shows "load_lines below (fgets_lines (sections_text es)) ls =
    Inr (lsth_loaded ls \<or> es \<noteq> [], (lini ls) \<lparr> ini_content := ini_content (lini ls) @ map hash_section es \<rparr>)"
  using assms
proof (induction es arbitrary: ls)
  case Nil
  then show ?case by (cases "lini ls") (simp add: fgets_lines.simps)
next
  case (Cons e es)
  let ?ls = "ls \<lparr> lsection := sname e, lsth_loaded := True,
      lini := (lini ls) \<lparr> ini_content := ini_content (lini ls) @ [hash_section e] \<rparr> \<rparr>"
  have name: "sname (hash_section e) = sname e" by (simp add: hash_section_def)
  have "load_lines below (fgets_lines (sections_text es)) ?ls =
    Inr (lsth_loaded ?ls \<or> es \<noteq> [], (lini ?ls) \<lparr> ini_content := ini_content (lini ?ls) @ map hash_section es \<rparr>)"
    by (rule Cons.IH) (use Cons.prems name in auto)
  then show ?case
    unfolding sections_text_Cons [of e es]
    using load_section [of e ls below "sections_text es"] Cons.prems by simp
qed

lemma ini_start_sections:
  assumes "\<forall>e \<in> set es. printable_section e" "distinct (map sname es)" "es \<noteq> []" "cstr fn"
  shows "\<exists>st'. ini_start below fn (Some (sections_text es)) st = Inr (True, st')
    \<and> ini_content st' = map hash_section es"
  using assms load_sections [of es "\<lparr> lini = init_content st \<lparr> error_msg := None, w_flag := True, gfilename := fn \<rparr> \<lparr> error_msg := None \<rparr>, lcomments = [], lsection = [], lsth_loaded = False \<rparr>" below]
  by (simp add: ini_start_def load_def init_content_def)

end
