(* ===== verification/Config.thy ===== *)
theory Config
  imports Ini_Manage
begin

text \<open>
  The configuration singleton (\<open>daemon/src/Config.cpp\<close>, \<open>daemon/src/Config.h\<close>, interface
  \<open>include/IConfig.h\<close>) over the configuration file, as it is built with
  \<open>CONFIG_FILE_ACCESS\<close> and without \<open>WRITE_DEFAULTS_ON_ACCESS\<close>. Listeners are named by
  numbers; a setter answers with the listeners it calls.
\<close>

record config =
  cini :: ini_state
  mNoSaveMode :: bool
  mConfigChanged :: bool
  mListeners :: "nat list"
  mDisableChangeListeners :: bool

definition CONFIG_FILE :: string where
  "CONFIG_FILE = ''conf/recsdaemon.ini''"

definition ini_zero :: ini_state where
  \<comment> \<open>the static variables of \<open>ini_manage.cpp\<close>\<close>
  "ini_zero = \<lparr> ini_content = [], gfilename = [], error_msg = None, w_flag = False \<rparr>"

definition Config_ctor :: "char \<Rightarrow> string option \<Rightarrow> ini_state \<Rightarrow> config res" where
  "Config_ctor below file ini =
     bind_res (ini_start below CONFIG_FILE file ini) (\<lambda>(ok, ini').
       Inr \<lparr> cini = ini', mNoSaveMode = \<not> ok, mConfigChanged = False, mListeners = [],
             mDisableChangeListeners = False \<rparr>)"

definition GetInstance :: "char \<Rightarrow> string option \<Rightarrow> ini_state \<Rightarrow> config option \<Rightarrow> config res" where
  "GetInstance below file ini inst =
     (case inst of Some c \<Rightarrow> Inr c | None \<Rightarrow> Config_ctor below file ini)"

text \<open>The destructor; the text is what it writes to the file.\<close>

definition Config_dtor :: "bool \<Rightarrow> config \<Rightarrow> ini_state \<times> string option" where
  "Config_dtor writable c =
     (if mConfigChanged c \<and> \<not> mNoSaveMode c then ini_end writable (cini c) else (cini c, None))"

definition shutdown_config :: "bool \<Rightarrow> config option \<Rightarrow> config option \<times> string option" where
  "shutdown_config writable inst =
     (case inst of None \<Rightarrow> (None, None) | Some c \<Rightarrow> (None, snd (Config_dtor writable c)))"

definition saveConfig :: "bool \<Rightarrow> config \<Rightarrow> config \<times> string option" where
  "saveConfig writable c =
     (if \<not> mNoSaveMode c
      then let (ok, ini, out) = save writable (cini c) in (c \<lparr> cini := ini, mConfigChanged := False \<rparr>, out)
      else (c, None))"

definition getConfigAsString :: "config \<Rightarrow> string" where
  "getConfigAsString c = content_string (cini c)"

definition registerConfigChangeHandler :: "nat \<Rightarrow> config \<Rightarrow> config" where
  "registerConfigChangeHandler h c = c \<lparr> mListeners := mListeners c @ [h] \<rparr>"

definition removeConfigChangeHandler :: "nat \<Rightarrow> config \<Rightarrow> config" where
  "removeConfigChangeHandler h c = c \<lparr> mListeners := filter (\<lambda>l. l \<noteq> h) (mListeners c) \<rparr>"

definition notifyChangeHandlers :: "config \<Rightarrow> config \<times> nat list" where
  "notifyChangeHandlers c =
     (c \<lparr> mConfigChanged := True \<rparr>, if \<not> mDisableChangeListeners c then mListeners c else [])"

definition setDisableChangeListeners :: "bool \<Rightarrow> config \<Rightarrow> config" where
  "setDisableChangeListeners state c = c \<lparr> mDisableChangeListeners := state \<rparr>"

section \<open>Typed access\<close>

definition GetBoolean :: "config \<Rightarrow> string \<Rightarrow> string \<Rightarrow> bool \<Rightarrow> bool" where
  "GetBoolean c Section Setting Default =
     (let buffer = get_value (cini c) Section Setting
      in if buffer \<noteq> []
         then buffer \<in> {''wahr'', ''Wahr'', ''WAHR'', ''true'', ''True'', ''TRUE''}
         else Default)"

definition GetString :: "config \<Rightarrow> string \<Rightarrow> string \<Rightarrow> string \<Rightarrow> string" where
  "GetString c Section Setting Default =
     (let buffer = get_value (cini c) Section Setting in if buffer \<noteq> [] then buffer else Default)"

text \<open>\<open>junk\<close> is what the uninitialised local variable holds; the extraction leaves it alone
  when the text is only white space.\<close>

definition GetInt :: "int \<Rightarrow> config \<Rightarrow> string \<Rightarrow> string \<Rightarrow> int \<Rightarrow> int" where
  "GetInt junk c Section Setting Default =
     (let buffer = get_value (cini c) Section Setting
      in if buffer \<noteq> []
         then (case istream_int int_min int_max buffer of (Some v, _) \<Rightarrow> v | (None, _) \<Rightarrow> junk)
         else Default)"

definition GetDouble :: "dbl \<Rightarrow> config \<Rightarrow> string \<Rightarrow> string \<Rightarrow> dbl \<Rightarrow> dbl" where
  "GetDouble junk c Section Setting Default =
     (let buffer = get_value (cini c) Section Setting
      in if buffer \<noteq> []
         then (case istream_dbl buffer of (Some v, _) \<Rightarrow> v | (None, _) \<Rightarrow> junk)
         else Default)"

definition SetString :: "config \<Rightarrow> string \<Rightarrow> string \<Rightarrow> string \<Rightarrow> (bool \<times> config \<times> nat list) res" where
  "SetString c Section Setting Value =
     bind_res (set_value Section Setting Value (cini c)) (\<lambda>(ret, ini).
       let (c', called) = notifyChangeHandlers (c \<lparr> cini := ini \<rparr>) in Inr (ret, c', called))"

definition SetBoolean :: "config \<Rightarrow> string \<Rightarrow> string \<Rightarrow> bool \<Rightarrow> (bool \<times> config \<times> nat list) res" where
  "SetBoolean c Section Setting Value =
     bind_res (set_value Section Setting (if Value then ''true'' else ''false'') (cini c)) (\<lambda>(ret, ini).
       let (c', called) = notifyChangeHandlers (c \<lparr> cini := ini \<rparr>) in Inr (ret, c', called))"

definition SetInt :: "config \<Rightarrow> string \<Rightarrow> string \<Rightarrow> int \<Rightarrow> (bool \<times> config \<times> nat list) res" where
  "SetInt c Section Setting Value =
     bind_res (set_value Section Setting (show_int Value) (cini c)) (\<lambda>(ret, ini).
       let (c', called) = notifyChangeHandlers (c \<lparr> cini := ini \<rparr>) in Inr (ret, c', called))"

definition SetDouble :: "config \<Rightarrow> string \<Rightarrow> string \<Rightarrow> dbl \<Rightarrow> (bool \<times> config \<times> nat list) res" where
  "SetDouble c Section Setting Value =
     bind_res (set_value Section Setting (show_dbl Value) (cini c)) (\<lambda>(ret, ini).
       let (c', called) = notifyChangeHandlers (c \<lparr> cini := ini \<rparr>) in Inr (ret, c', called))"

section \<open>Facts\<close>

lemma getters_get_value:
  "get_value (cini c) s k = get_value (cini d) s k \<Longrightarrow> GetString c s k v = GetString d s k v"
  "get_value (cini c) s k = get_value (cini d) s k \<Longrightarrow> GetInt j c s k i = GetInt j d s k i"
  "get_value (cini c) s k = get_value (cini d) s k \<Longrightarrow> GetBoolean c s k b = GetBoolean d s k b"
  by (simp_all add: GetString_def GetInt_def GetBoolean_def)

text \<open>A setter stores the text of its value and marks the configuration as changed.\<close>

lemma SetString_effect:
  assumes "cstr s" "cstr k" "cstr v"
  obtains c' where
    "SetString c s k v = Inr (False, c', if mDisableChangeListeners c then [] else mListeners c)"
    "mConfigChanged c'" "ini_ok (cini c) \<longrightarrow> ini_ok (cini c')"
    "\<And>s' k'. cstr s' \<Longrightarrow> cstr k' \<Longrightarrow>
       get_value (cini c') s' k' = (if s' = s \<and> k' = k then v else get_value (cini c) s' k')"
proof -
  have "ini_admissible (s, k) v" using assms by (simp add: ini_admissible_def)
  from set_value_lookup [OF this, of "cini c"] obtain st' where
    st': "set_value s k v (cini c) = Inr (False, st')"
    "\<And>p. ini_lookup st' p = (if p = (s, k) then Some v else ini_lookup (cini c) p)" by blast
  show thesis
  proof (rule that)
    show "SetString c s k v = Inr (False, c \<lparr> cini := st', mConfigChanged := True \<rparr>,
        if mDisableChangeListeners c then [] else mListeners c)"
      using st'(1) by (simp add: SetString_def notifyChangeHandlers_def)
    show "ini_ok (cini c) \<longrightarrow> ini_ok (cini (c \<lparr> cini := st', mConfigChanged := True \<rparr>))"
      using set_value_ini_ok [OF _ st'(1)] by simp
    show "get_value (cini (c \<lparr> cini := st', mConfigChanged := True \<rparr>)) s' k' =
        (if s' = s \<and> k' = k then v else get_value (cini c) s' k')"
      if "cstr s'" "cstr k'" for s' k'
      using that by (simp add: get_value_lookup st'(2))
  qed simp
qed

lemma SetInt_SetString: "SetInt c s k i = SetString c s k (show_int i)"
  by (simp add: SetInt_def SetString_def)

lemma SetBoolean_SetString: "SetBoolean c s k b = SetString c s k (if b then ''true'' else ''false'')"
  by (simp add: SetBoolean_def SetString_def)

lemma istream_show_int:
  assumes "lo \<le> i" "i \<le> hi"
  shows "istream_int lo hi (show_int i) = (Some i, [], True)"
proof (cases "i < 0")
  case True
  have "\<not> isspace (CHR ''-'')" by (simp add: isspace_def)
  with True assms show ?thesis by (simp add: istream_int_def show_int_def)
next
  case False
  with assms show ?thesis
    using split_sign_show_nat [of "nat i" "[]"] dropWhile_space_show_nat [of "nat i" "[]"]
    by (simp add: istream_int_def show_int_def)
qed

lemma length_show_nat: "length (show_nat n) \<le> Suc n"
proof (induction n rule: show_nat.induct)
  case (1 n)
  then show ?case by (cases "n < 10") (simp_all add: show_nat.simps [of n])
qed

lemma length_show_nat_pow: "n < 10 ^ k \<Longrightarrow> 0 < k \<Longrightarrow> length (show_nat n) \<le> k"
proof (induction k arbitrary: n)
  case (Suc k)
  show ?case
  proof (cases "n < 10")
    case True
    then show ?thesis by (simp add: show_nat.simps)
  next
    case False
    with Suc.prems have "0 < k" by (cases k) auto
    moreover have "n div 10 < 10 ^ k" using Suc.prems by (simp add: div_less_iff_less_mult mult.commute)
    ultimately show ?thesis using Suc.IH False by (simp add: show_nat.simps [of n])
  qed
qed simp

lemma cstr_show_int:
  assumes "int_min \<le> i" "i \<le> int_max"
  shows "cstr (show_int i)"
proof -
  have "nat \<bar>i\<bar> < 10 ^ 10" using assms by (simp add: int_min_def int_max_def)
  then have "length (show_nat (nat \<bar>i\<bar>)) \<le> 10" by (rule length_show_nat_pow) simp
  moreover have "CHR 0x00 \<notin> set (show_nat n)" for n
    using show_nat_digits [of n] by (auto simp: isdigit_def char_val_def)
  ultimately show ?thesis
    using assms by (auto simp: cstr_def show_int_def)
qed

end
