(* ===== verification/Config_Properties.thy ===== *)
theory Config_Properties
  imports Config
begin

text \<open>
  What the configuration promises (\<open>daemon/src/ini_manage.cpp\<close>, \<open>daemon/src/Config.cpp\<close>): it is
  a keyed store whose typed values come back as they were set, its invariant survives every
  operation, and a saved file loads again with one more \<open>#\<close> in front of each comment.
\<close>

text \<open>Setting a value succeeds, although it reports failure, and afterwards every key has
  the value it had before, except the one that was set.\<close>

theorem set_then_get:
  assumes "cstr sec" "cstr key" "cstr value" "cstr sec'" "cstr key'"
  shows "\<exists>st'. set_value sec key value st = Inr (False, st') \<and>
    get_value st' sec' key' = (if sec' = sec \<and> key' = key then value else get_value st sec' key')"
proof -
  have "ini_admissible (sec, key) value" using assms by (simp add: ini_admissible_def)
  from set_value_lookup [OF this, of st] obtain st' where s: "set_value sec key value st = Inr (False, st')"
    "\<And>p. ini_lookup st' p = (if p = (sec, key) then Some value else ini_lookup st p)" by blast
  have "get_value st' sec' key' = (if sec' = sec \<and> key' = key then value else get_value st sec' key')"
    using assms by (simp add: get_value_lookup s(2))
  with s(1) show ?thesis by blast
qed

definition sample_ini :: ini_state where
  "sample_ini = \<lparr> ini_content = [\<lparr> sdata = [\<lparr> rcomments = [], rkey = ''port'', rvalue = ''2023'' \<rparr>],
     scomments = ''#net'', sname = ''Telnet'' \<rparr>], gfilename = ''config.ini'', error_msg = None, w_flag = False \<rparr>"

theorem set_then_get_witness:
  "\<exists>st'. set_value ''Slot'' ''defaultSlot'' ''2'' sample_ini = Inr (False, st') \<and>
     get_value st' ''Telnet'' ''port'' = ''2023''"
  using set_then_get [of "''Slot''" "''defaultSlot''" "''2''" "''Telnet''" "''port''" sample_ini]
  by (simp add: cstr_def get_value_def sample_ini_def get_record_def c_str_def)

text \<open>C27: in a sequence of settings the last one to a key wins, and keys not set keep their
  value.\<close>

theorem last_setting_wins:
  assumes "ini_ok st" "\<forall>(p, v) \<in> set settings. ini_admissible p v"
  shows "ini_lookup (fold (\<lambda>(p, v). ini_store p v) settings st) p =
    (case map_of (rev settings) p of Some v \<Rightarrow> Some v | None \<Rightarrow> ini_lookup st p)"
  using assms by (rule ini_file.lookup_fold_store)

theorem last_setting_wins_witness:
  "ini_lookup (fold (\<lambda>(p, v). ini_store p v)
     [((''Slot'', ''n''), ''1''), ((''Slot'', ''n''), ''2'')] sample_ini) (''Slot'', ''n'') = Some ''2''"
  using last_setting_wins [of sample_ini "[((''Slot'', ''n''), ''1''), ((''Slot'', ''n''), ''2'')]" "(''Slot'', ''n'')"]
  by (simp add: sample_ini_def ini_ok_def section_ok_def record_ok_def ini_admissible_def cstr_def)

text \<open>C28: section and key names stay unique and every stored string fits its array of 255
  bytes, after loading a file and after any setting, whatever the texts are.\<close>

theorem configuration_invariant:
  "(ini_start below fn file st0 = Inr (b, st) \<longrightarrow> ini_ok st) \<and>
   (ini_ok st \<longrightarrow> set_value sec key value st = Inr (c, st') \<longrightarrow> ini_ok st')"
  by (auto dest: ini_start_ini_ok set_value_ini_ok)

theorem configuration_invariant_witness:
  "\<exists>b st. ini_start CHR ''x'' ''config.ini'' None sample_ini = Inr (b, st) \<and> ini_ok st"
proof -
  have "\<exists>b st. ini_start CHR ''x'' ''config.ini'' None sample_ini = Inr (b, st)"
    by (simp add: ini_start_def load_def init_content_def c_str_def cstr_def sample_ini_def, blast)
  with configuration_invariant show ?thesis by blast
qed

text \<open>A value of 255 characters or more is written past the end of its array.\<close>

theorem long_value_overruns:
  assumes "cstr sec" "cstr key" "255 \<le> length (c_str value)"
  shows "set_value sec key value st = Inl Bad_access"
proof -
  have v: "strcpy_to 255 value = Inl Bad_access" using assms(3) by (simp add: strcpy_to_def)
  show ?thesis
    using assms(1,2) v
    by (auto simp: set_value_def set_value_flag_def append_value_def append_record_def add_section_def
        get_section_append get_record_def cstr_c_str split: option.splits)
qed

theorem long_value_overruns_witness:
  "set_value ''Sensors'' ''options0'' (replicate 300 CHR ''x'') sample_ini = Inl Bad_access"
  by (rule long_value_overruns) (simp_all add: cstr_def c_str_id)

text \<open>Integers of the configuration come back as they were set, and the other settings are
  not touched.\<close>

theorem integer_setting_roundtrip:
  assumes "cstr s" "cstr k" "int_min \<le> i" "i \<le> int_max"
  shows "\<exists>c' called. SetInt c s k i = Inr (False, c', called) \<and> GetInt junk c' s k dflt = i \<and>
    (\<forall>s' k'. cstr s' \<and> cstr k' \<and> (s', k') \<noteq> (s, k) \<longrightarrow> GetString c' s' k' d = GetString c s' k' d)"
proof -
  have v: "cstr (show_int i)" using assms by (simp add: cstr_show_int)
  obtain c' where c':
    "SetString c s k (show_int i) = Inr (False, c', if mDisableChangeListeners c then [] else mListeners c)"
    "mConfigChanged c'" "ini_ok (cini c) \<longrightarrow> ini_ok (cini c')"
    "\<And>s' k'. cstr s' \<Longrightarrow> cstr k' \<Longrightarrow>
       get_value (cini c') s' k' = (if s' = s \<and> k' = k then show_int i else get_value (cini c) s' k')"
    by (rule SetString_effect [OF assms(1,2) v, of c]) blast
  have "show_int i \<noteq> []" by (simp add: show_int_def)
  then have "GetInt junk c' s k dflt = i"
    using c'(4) [OF assms(1,2)] istream_show_int [OF assms(3,4)] by (simp add: GetInt_def)
  moreover have "GetString c' s' k' d = GetString c s' k' d" if "cstr s' \<and> cstr k' \<and> (s', k') \<noteq> (s, k)" for s' k'
    by (rule getters_get_value(1)) (use that c'(4) [of s' k'] in auto)
  ultimately show ?thesis using c'(1) by (simp add: SetInt_SetString)
qed

definition sample_config :: config where
  "sample_config = \<lparr> cini = sample_ini, mNoSaveMode = False, mConfigChanged = False, mListeners = [7],
     mDisableChangeListeners = False \<rparr>"

theorem integer_setting_roundtrip_witness:
  "\<exists>c' called. SetInt sample_config ''Update'' ''updateInterval'' (-250) = Inr (False, c', called) \<and>
     GetInt 0 c' ''Update'' ''updateInterval'' 1000 = -250"
  using integer_setting_roundtrip [of "''Update''" "''updateInterval''" "-250" sample_config 0 1000 "[]"]
  by (simp add: cstr_def int_min_def int_max_def) blast

text \<open>A setting marks the configuration as changed and calls every registered change
  handler in the order of registration, unless the handlers are disabled; booleans come
  back as they were set.\<close>

theorem boolean_setting_notifies:
  assumes "cstr s" "cstr k"
  shows "\<exists>c'. SetBoolean c s k b = Inr (False, c', if mDisableChangeListeners c then [] else mListeners c) \<and>
    mConfigChanged c' \<and> GetBoolean c' s k dflt = b"
proof -
  have v: "cstr (if b then ''true'' else ''false'')" by (simp add: cstr_def)
  from SetString_effect [OF assms v, of c] obtain c' where
    c': "SetString c s k (if b then ''true'' else ''false'') =
        Inr (False, c', if mDisableChangeListeners c then [] else mListeners c)" "mConfigChanged c'"
      "get_value (cini c') s k = (if b then ''true'' else ''false'')"
    using assms by metis
  from c'(3) have "GetBoolean c' s k dflt = b" by (cases b) (simp_all add: GetBoolean_def)
  with c' show ?thesis by (auto simp: SetBoolean_SetString)
qed

theorem boolean_setting_notifies_witness:
  "\<exists>c'. SetBoolean sample_config ''Net'' ''on'' True = Inr (False, c', [7]) \<and> GetBoolean c' ''Net'' ''on'' False"
  using boolean_setting_notifies [of "''Net''" "''on''" sample_config True False]
  by (auto simp: cstr_def sample_config_def)

text \<open>C12: the text that is saved loads again: the same sections, records and values in the
  same order, each comment with one more \<open>#\<close>.\<close>

theorem save_load_roundtrip:
  assumes "\<forall>e \<in> set es. printable_section e" "distinct (map sname es)" "es \<noteq> []" "cstr fn"
  shows "\<exists>st'. ini_start below fn (Some (content_string (st0 \<lparr> ini_content := es \<rparr>))) st = Inr (True, st')
    \<and> ini_content st' = map hash_section es"
proof -
  have "content_string (st0 \<lparr> ini_content := es \<rparr>) = sections_text es"
    by (simp add: content_string_def)
  with ini_start_sections [OF assms, of below st] show ?thesis by simp
qed

theorem save_load_roundtrip_witness:
  "\<exists>st'. ini_start CHR ''x'' ''config.ini'' (Some (content_string sample_ini)) sample_ini = Inr (True, st')
     \<and> ini_content st' = map hash_section (ini_content sample_ini)"
  using save_load_roundtrip [of "ini_content sample_ini" "''config.ini''" "CHR ''x''" sample_ini sample_ini]
  by (simp add: sample_ini_def printable_section_def printable_record_def printable_comment_def
      clean_line_def cstr_def)

end
