(* ===== verification/Daemon_Msgs.thy ===== *)
theory Daemon_Msgs
  imports Prelude
begin

text \<open>
  The packed structures of the shared memory (\<open>include/daemon_msgs.h\<close>) and the
  enumerations of \<open>include/c_object_model.h\<close>. A record holds the values as the host has
  them in memory; \<open>enc\<close> gives the bytes of the structure, \<open>dec\<close> reads it from bytes.
\<close>

section \<open>Enumerations\<close>

datatype ISensorDataType =
    TYPE_NONE | TYPE_U8 | TYPE_U16 | TYPE_U32 | TYPE_S8 | TYPE_S16 | TYPE_S32 | TYPE_BOOL
  | TYPE_FLOAT | TYPE_STR | TYPE_BUF | TYPE_LST | TYPE_U64

primrec data_type_code :: "ISensorDataType \<Rightarrow> u8" where
  "data_type_code TYPE_NONE = 0"
| "data_type_code TYPE_U8 = 1"
| "data_type_code TYPE_U16 = 2"
| "data_type_code TYPE_U32 = 3"
| "data_type_code TYPE_S8 = 4"
| "data_type_code TYPE_S16 = 5"
| "data_type_code TYPE_S32 = 6"
| "data_type_code TYPE_BOOL = 7"
| "data_type_code TYPE_FLOAT = 8"
| "data_type_code TYPE_STR = 9"
| "data_type_code TYPE_BUF = 10"
| "data_type_code TYPE_LST = 11"
| "data_type_code TYPE_U64 = 12"

datatype ISensorUnit =
    UNIT_POWER | UNIT_CURRENT | UNIT_VOLTAGE | UNIT_TEMPERATURE | UNIT_ROTATIONAL_SPEED
  | UNIT_DIMENSIONLESS | UNIT_BYTE_SECOND | UNIT_BYTE | UNIT_PERCENT

primrec unit_code :: "ISensorUnit \<Rightarrow> u8" where
  "unit_code UNIT_POWER = 0"
| "unit_code UNIT_CURRENT = 1"
| "unit_code UNIT_VOLTAGE = 2"
| "unit_code UNIT_TEMPERATURE = 3"
| "unit_code UNIT_ROTATIONAL_SPEED = 4"
| "unit_code UNIT_DIMENSIONLESS = 5"
| "unit_code UNIT_BYTE_SECOND = 6"
| "unit_code UNIT_BYTE = 7"
| "unit_code UNIT_PERCENT = 8"

datatype IRenderingType = RENDERING_TEXTUAL

primrec rendering_code :: "IRenderingType \<Rightarrow> u8" where
  "rendering_code RENDERING_TEXTUAL = 0"

datatype Message_Type =
    Empty_Message | Monitoring_Description | Monitoring_Data | Command | Command_Result
  | Basic_Information

primrec message_code :: "Message_Type \<Rightarrow> u8" where
  "message_code Empty_Message = 0"
| "message_code Monitoring_Description = 1"
| "message_code Monitoring_Data = 2"
| "message_code Command = 3"
| "message_code Command_Result = 4"
| "message_code Basic_Information = 5"

definition CHUNK_TYPE_MONITORING :: u8 where "CHUNK_TYPE_MONITORING = 1"

definition bool_mem :: "bool \<Rightarrow> u8" where
  "bool_mem b = (if b then 1 else 0)"

section \<open>Message headers\<close>

record Message_Header =
  mh_type :: u8
  mh_size :: u16
  mh_version :: u8

definition sizeof_Message_Header :: nat where [wire_simps]: "sizeof_Message_Header = 4"

definition enc_Message_Header :: "Message_Header \<Rightarrow> bytes" where
  "enc_Message_Header h = [mh_type h] @ u16_mem (mh_size h) @ [mh_version h]"

definition dec_Message_Header :: "bytes \<Rightarrow> Message_Header" where
  "dec_Message_Header b = \<lparr> mh_type = b ! 0, mh_size = u16_load (b ! 1) (b ! 2), mh_version = b ! 3 \<rparr>"

text \<open>\<open>Monitoring_Data_Header\<close>: the message header, \<open>sensorCnt\<close> at 4 and \<open>flags\<close> at 6.\<close>

definition sizeof_Monitoring_Data_Header :: nat where [wire_simps]: "sizeof_Monitoring_Data_Header = 7"

record Monitoring_Description_Header =
  mdh_header :: Message_Header
  currentPage :: u8
  maxPages :: u8
  sensorEntries :: u8
  startIndex :: u16

definition sizeof_Monitoring_Description_Header :: nat where
  [wire_simps]: "sizeof_Monitoring_Description_Header = 9"

definition enc_Monitoring_Description_Header :: "Monitoring_Description_Header \<Rightarrow> bytes" where
  "enc_Monitoring_Description_Header h = enc_Message_Header (mdh_header h) @
     [currentPage h, maxPages h, sensorEntries h] @ u16_mem (startIndex h)"

definition dec_Monitoring_Description_Header :: "bytes \<Rightarrow> Monitoring_Description_Header" where
  "dec_Monitoring_Description_Header b = \<lparr> mdh_header = dec_Message_Header b, currentPage = b ! 4,
     maxPages = b ! 5, sensorEntries = b ! 6, startIndex = u16_load (b ! 7) (b ! 8) \<rparr>"

section \<open>Sensor descriptions\<close>

definition SENSOR_NAME_LENGTH :: nat where [wire_simps]: "SENSOR_NAME_LENGTH = 29"

record Sensor_Description =
  sd_name :: bytes
  sd_dataType :: u8
  sd_unit :: u8
  sd_maxDataSize :: u16
  sd_useLowerThresholds :: u8
  sd_useUpperThresholds :: u8
  sd_lowerCriticalThreshold :: u64
  sd_lowerWarningThreshold :: u64
  sd_upperWarningThreshold :: u64
  sd_upperCriticalThreshold :: u64
  sd_numberOfValues :: u16
  sd_groupId :: u8
  sd_renderingType :: u8
  sd_entryLength :: u8

definition sizeof_Sensor_Description :: nat where [wire_simps]: "sizeof_Sensor_Description = 72"

definition enc_Sensor_Description :: "Sensor_Description \<Rightarrow> bytes" where
  "enc_Sensor_Description d = [sd_entryLength d] @ sd_name d @ [sd_dataType d, sd_unit d] @
     u16_mem (sd_maxDataSize d) @ [sd_useLowerThresholds d, sd_useUpperThresholds d] @
     u64_mem (sd_lowerCriticalThreshold d) @ u64_mem (sd_lowerWarningThreshold d) @
     u64_mem (sd_upperWarningThreshold d) @ u64_mem (sd_upperCriticalThreshold d) @
     u16_mem (sd_numberOfValues d) @ [sd_groupId d, sd_renderingType d]"

section \<open>Memory headers\<close>

record Daemon_Header =
  magic :: bytes
  dh_size :: u16
  baseboardID :: u8
  maxSlots :: u8
  dh_version :: u8
  dh_reserved :: u8
  chunksOffset :: u16
  dynamicAreaOffset :: u16

definition sizeof_Daemon_Header :: nat where [wire_simps]: "sizeof_Daemon_Header = 14"

definition enc_Daemon_Header :: "Daemon_Header \<Rightarrow> bytes" where
  "enc_Daemon_Header h = magic h @ u16_mem (dh_size h) @
     [baseboardID h, maxSlots h, dh_version h, dh_reserved h] @
     u16_mem (chunksOffset h) @ u16_mem (dynamicAreaOffset h)"

definition dec_Daemon_Header :: "bytes \<Rightarrow> Daemon_Header" where
  "dec_Daemon_Header b = \<lparr> magic = take 4 b, dh_size = u16_load (b ! 4) (b ! 5), baseboardID = b ! 6,
     maxSlots = b ! 7, dh_version = b ! 8, dh_reserved = b ! 9,
     chunksOffset = u16_load (b ! 10) (b ! 11), dynamicAreaOffset = u16_load (b ! 12) (b ! 13) \<rparr>"

definition sizeof_Chunk_Header :: nat where [wire_simps]: "sizeof_Chunk_Header = 3"

record Chunk_Header =
  chunkType :: u8
  ch_length :: u16

definition dec_Chunk_Header :: "bytes \<Rightarrow> Chunk_Header" where
  "dec_Chunk_Header b = \<lparr> chunkType = b ! 0, ch_length = u16_load (b ! 1) (b ! 2) \<rparr>"

section \<open>Monitoring data of the baseboard\<close>

text \<open>\<open>BB_Monitoring\<close> is read at its offsets: \<open>fanSpeed\<close> 2, \<open>voltage\<close> 14, \<open>current\<close> 30,
  \<open>temperature\<close> 46, \<open>powerState\<close> 51, \<open>flags\<close> 55.\<close>

definition sizeof_BB_Monitoring :: nat where [wire_simps]: "sizeof_BB_Monitoring = 57"

definition BB_u16 :: "bytes \<Rightarrow> nat \<Rightarrow> nat \<Rightarrow> u16 res" where
  \<comment> \<open>element \<open>i\<close> of an array of \<open>uint16_t\<close> at \<open>off\<close>, as long as the structure holds it\<close>
  "BB_u16 mon off i = bind_res (get_bytes mon (off + 2 * i) 2) (\<lambda>b. Inr (u16_load (b ! 0) (b ! 1)))"

definition BB_voltage :: "bytes \<Rightarrow> nat \<Rightarrow> u16 res" where "BB_voltage mon i = BB_u16 mon 14 i"
definition BB_current :: "bytes \<Rightarrow> nat \<Rightarrow> u16 res" where "BB_current mon i = BB_u16 mon 30 i"
definition BB_temperature :: "bytes \<Rightarrow> nat \<Rightarrow> u8 res" where "BB_temperature mon i = get_byte mon (46 + i)"

section \<open>The basic information block and commands\<close>

definition HOSTNAME_LENGTH :: nat where [wire_simps]: "HOSTNAME_LENGTH = 256"

text \<open>\<open>Basic_Information_Block\<close>: header 0, \<open>daemonVersion\<close> 4, \<open>management\<close> 7 and \<open>compute\<close> 33
  (each MAC, IP and netmask), \<open>hostname\<close> 59.\<close>

definition sizeof_Basic_Information_Block :: nat where
  [wire_simps]: "sizeof_Basic_Information_Block = 4 + 3 + 26 + 26 + 256"

definition COMMAND_MAX_LENGTH :: nat where [wire_simps]: "COMMAND_MAX_LENGTH = 64"
definition SIGNATURE_LENGTH :: nat where [wire_simps]: "SIGNATURE_LENGTH = 128"

text \<open>\<open>Command_Header\<close>: header 0, \<open>baseboard\<close> 4, \<open>slot\<close> 5, \<open>timestamp\<close> 6, \<open>command\<close> 10,
  \<open>signature\<close> 74, \<open>parametersLength\<close> 202.\<close>

definition sizeof_Command_Header :: nat where [wire_simps]: "sizeof_Command_Header = 204"

section \<open>Layouts\<close>

lemma u16_mem_inject: "u16_mem x = u16_mem y \<longleftrightarrow> x = y"
  by (metis htons_load u16_load_mem u16_mem_def nth_Cons_0 nth_Cons_Suc One_nat_def)

lemma length_enc_Message_Header [simp]: "length (enc_Message_Header h) = sizeof_Message_Header"
  by (simp add: enc_Message_Header_def wire_simps)

lemma length_enc_Monitoring_Description_Header [simp]:
  "length (enc_Monitoring_Description_Header h) = sizeof_Monitoring_Description_Header"
  by (simp add: enc_Monitoring_Description_Header_def wire_simps)

lemma length_enc_Sensor_Description [simp]:
  "length (sd_name d) = SENSOR_NAME_LENGTH \<Longrightarrow> length (enc_Sensor_Description d) = sizeof_Sensor_Description"
  by (simp add: enc_Sensor_Description_def wire_simps)

lemma length_enc_Daemon_Header [simp]:
  "length (magic h) = 4 \<Longrightarrow> length (enc_Daemon_Header h) = sizeof_Daemon_Header"
  by (simp add: enc_Daemon_Header_def wire_simps)

lemma dec_enc_Message_Header: "dec_Message_Header (enc_Message_Header h @ r) = h"
  by (cases h) (simp add: dec_Message_Header_def enc_Message_Header_def u16_mem_def)

lemma dec_enc_Monitoring_Description_Header:
  "dec_Monitoring_Description_Header (enc_Monitoring_Description_Header h @ r) = h"
  by (cases h; cases "mdh_header h")
     (simp add: dec_Monitoring_Description_Header_def enc_Monitoring_Description_Header_def
        dec_Message_Header_def enc_Message_Header_def u16_mem_def)

lemma dec_enc_Daemon_Header:
  assumes "length (magic h) = 4"
  shows "dec_Daemon_Header (enc_Daemon_Header h @ r) = h"
proof -
  from assms obtain a b c d where m: "magic h = [a, b, c, d]"
    by (auto simp: length_Suc_conv numeral_eq_Suc)
  show ?thesis
    by (cases h) (use m in \<open>simp add: dec_Daemon_Header_def enc_Daemon_Header_def u16_mem_def\<close>)
qed

end
