(* ===== verification/Sensor_Bean.thy ===== *)
theory Sensor_Bean
  imports C_Library Daemon_Msgs
begin

text \<open>
  The sensors of the daemon's own process: the option parser and thresholds of
  \<open>include/BaseSensor.h\<close>, and \<open>SensorBean\<close> (\<open>include/SensorBean.h\<close>), a sensor that keeps
  its last value as bytes in the order they are sent. The record of a \<open>SensorBean\<close> extends
  the one of a \<open>BaseSensor\<close> as the classes do.
\<close>

section \<open>BaseSensor\<close>

record base_sensor =
  mUseLowerThresholds :: bool
  mUseUpperThresholds :: bool
  mLowerCriticalThreshold :: dbl
  mLowerWarningThreshold :: dbl
  mUpperWarningThreshold :: dbl
  mUpperCriticalThreshold :: dbl
  mGroup :: string
  mRendering :: IRenderingType
  mNumberOfValues :: u16

definition BaseSensor_ctor :: base_sensor where
  "BaseSensor_ctor = \<lparr> mUseLowerThresholds = False, mUseUpperThresholds = False,
     mLowerCriticalThreshold = 0, mLowerWarningThreshold = 0, mUpperWarningThreshold = 0,
     mUpperCriticalThreshold = 0, mGroup = [], mRendering = RENDERING_TEXTUAL, mNumberOfValues = 1 \<rparr>"

text \<open>The loop of \<open>extract_param\<close> from a position on: where the option's name was accepted.\<close>

function extract_from :: "string \<Rightarrow> string \<Rightarrow> string \<Rightarrow> nat \<Rightarrow> nat option" where
  "extract_from haystack needle delim pos =
     (case find_sub_from needle haystack pos of
        None \<Rightarrow> None
      | Some param_pos \<Rightarrow>
          if param_pos + length needle < length haystack
             \<and> haystack ! (param_pos + length needle) = CHR ''=''
             \<and> (param_pos = 0 \<or> find_from (\<lambda>c. c \<in> set delim) (param_pos - 1) haystack \<noteq> None)
          then Some param_pos
          else extract_from haystack needle delim (param_pos + 1))"
  by auto
termination
  by (relation "measure (\<lambda>(h, _, _, p). Suc (length h) - p)")
     (auto simp: find_sub_from_def split: if_splits)

declare extract_from.simps [simp del]

definition extract_param :: "string \<Rightarrow> string \<Rightarrow> string \<Rightarrow> string" where
  "extract_param haystack needle delim =
     (if needle = [] then []
      else if haystack = [] then []
      else case extract_from haystack needle delim 0 of
          None \<Rightarrow> []
        | Some param_pos \<Rightarrow>
            (let opt_pos = param_pos + length needle + 1;
                 opt_len = (case find_from (\<lambda>c. c \<in> set delim) opt_pos haystack of
                              None \<Rightarrow> length haystack | Some k \<Rightarrow> k)
             in if opt_len > opt_pos then take (opt_len - opt_pos) (drop opt_pos haystack) else []))"

definition getOption :: "string \<Rightarrow> string \<Rightarrow> string" where
  "getOption options name = extract_param options name '' ,''"

text \<open>
  A threshold option: the new value (an extraction that fails still stores 0 or the largest
  number), and whether it parsed.
\<close>

definition threshold_option :: "string \<Rightarrow> string \<Rightarrow> dbl \<Rightarrow> dbl \<times> bool" where
  "threshold_option options name old =
     (let ret = getOption options name
      in if ret = [] then (old, False)
         else case istream_dbl ret of (v, _, good) \<Rightarrow> ((case v of None \<Rightarrow> old | Some d \<Rightarrow> d), good))"

definition BaseSensor_configure :: "string \<Rightarrow> 'a base_sensor_scheme \<Rightarrow> 'a base_sensor_scheme" where
  "BaseSensor_configure data s =
     (let options = c_str data;
          (lc, b1) = threshold_option options ''lowerCriticalThreshold'' (mLowerCriticalThreshold s);
          (lw, b2) = threshold_option options ''lowerWarningThreshold'' (mLowerWarningThreshold s);
          (uw, b3) = threshold_option options ''upperWarningThreshold'' (mUpperWarningThreshold s);
          (uc, b4) = threshold_option options ''upperCriticalThreshold'' (mUpperCriticalThreshold s)
      in s \<lparr> mLowerCriticalThreshold := lc, mLowerWarningThreshold := lw,
             mUpperWarningThreshold := uw, mUpperCriticalThreshold := uc,
             mUseLowerThresholds := mUseLowerThresholds s \<or> b1 \<or> b2,
             mUseUpperThresholds := mUseUpperThresholds s \<or> b3 \<or> b4 \<rparr>)"

section \<open>SensorBean\<close>

record sensor_bean = base_sensor +
  mName :: string
  mDataType :: ISensorDataType
  mUnit :: ISensorUnit
  mMaxDataSize :: nat
  mBeanData :: bytes

text \<open>What \<open>malloc\<close> returns is not initialised: \<open>junk\<close> says what its bytes happen to be.\<close>

definition malloc_bytes :: "(nat \<Rightarrow> u8) \<Rightarrow> nat \<Rightarrow> bytes" where
  "malloc_bytes junk n = map junk [0..<n]"

definition SensorBean_ctor :: "(nat \<Rightarrow> u8) \<Rightarrow> string \<Rightarrow> ISensorDataType \<Rightarrow> nat \<Rightarrow> u16 \<Rightarrow> ISensorUnit
    \<Rightarrow> bool \<Rightarrow> bool \<Rightarrow> dbl \<Rightarrow> dbl \<Rightarrow> dbl \<Rightarrow> dbl \<Rightarrow> string \<Rightarrow> IRenderingType \<Rightarrow> sensor_bean" where
  "SensorBean_ctor junk name dataType maxDataSize numberOfValues unit useLower useUpper
       lowerCritical lowerWarning upperWarning upperCritical groupName renderingType =
     \<lparr> mUseLowerThresholds = useLower, mUseUpperThresholds = useUpper,
       mLowerCriticalThreshold = lowerCritical, mLowerWarningThreshold = lowerWarning,
       mUpperWarningThreshold = upperWarning, mUpperCriticalThreshold = upperCritical,
       mGroup = groupName, mRendering = renderingType, mNumberOfValues = numberOfValues,
       mName = name, mDataType = dataType, mUnit = unit, mMaxDataSize = maxDataSize,
       mBeanData = malloc_bytes junk maxDataSize \<rparr>"

text \<open>\<open>getData\<close> runs the update callback, if there is one, and copies the bytes.\<close>

definition SensorBean_getData :: "(sensor_bean \<Rightarrow> sensor_bean res) option \<Rightarrow> sensor_bean
    \<Rightarrow> (bytes \<times> sensor_bean) res" where
  "SensorBean_getData callback s =
     bind_res (case callback of Some f \<Rightarrow> f s | None \<Rightarrow> Inr s) (\<lambda>s'.
     bind_res (get_bytes (mBeanData s') 0 (mMaxDataSize s')) (\<lambda>b. Inr (b, s')))"

definition setData_string :: "string \<Rightarrow> sensor_bean \<Rightarrow> sensor_bean res" where
  "setData_string value s =
     bind_res (put_bytes (mBeanData s) 0
                 (take (min (mMaxDataSize s) (length value + 1)) (bytes_of value @ [0])))
       (\<lambda>d. Inr (s \<lparr> mBeanData := d \<rparr>))"

text \<open>\<open>4 - mMaxDataSize\<close> wraps when more than four bytes are asked for; the copy then starts
  in front of the variable.\<close>

definition setData_u32 :: "u32 \<Rightarrow> sensor_bean \<Rightarrow> sensor_bean res" where
  "setData_u32 value s =
     (let val = u32_mem (htonl value) in
      bind_res (get_bytes val (size_sub 4 (mMaxDataSize s)) (mMaxDataSize s)) (\<lambda>b.
      bind_res (put_bytes (mBeanData s) 0 b) (\<lambda>d. Inr (s \<lparr> mBeanData := d \<rparr>))))"

definition htonll :: "u64 \<Rightarrow> u64" where
  "htonll value =
     (let high_part = htonl (ucast (drop_bit 32 value));
          low_part = htonl (ucast (value AND 0xFFFFFFFF))
      in push_bit 32 (ucast low_part) OR ucast high_part)"

definition setData_u64 :: "u64 \<Rightarrow> sensor_bean \<Rightarrow> sensor_bean res" where
  "setData_u64 value s =
     (let val = u64_mem (htonll value) in
      bind_res (get_bytes val (size_sub 8 (mMaxDataSize s)) (mMaxDataSize s)) (\<lambda>b.
      bind_res (put_bytes (mBeanData s) 0 b) (\<lambda>d. Inr (s \<lparr> mBeanData := d \<rparr>))))"

definition setData_double :: "dbl \<Rightarrow> sensor_bean \<Rightarrow> sensor_bean res" where
  "setData_double value s =
     bind_res (get_bytes (u64_mem value) 0 (mMaxDataSize s)) (\<lambda>b.
     bind_res (put_bytes (mBeanData s) 0 b) (\<lambda>d. Inr (s \<lparr> mBeanData := d \<rparr>)))"

section \<open>Facts\<close>

text \<open>A bean owns as many bytes as it announces; every operation keeps that.\<close>

definition bean_ok :: "sensor_bean \<Rightarrow> bool" where
  "bean_ok s = (length (mBeanData s) = mMaxDataSize s)"

lemma length_malloc [simp]: "length (malloc_bytes junk n) = n"
  by (simp add: malloc_bytes_def)

lemma setData_effect:
  assumes "setData_string v s = Inr s' \<or> setData_u32 w s = Inr s' \<or> setData_u64 x s = Inr s'
    \<or> setData_double d s = Inr s'"
  shows "\<exists>b. length b = length (mBeanData s) \<and> s' = s \<lparr> mBeanData := b \<rparr>"
  using assms
  by (auto simp: setData_string_def setData_u32_def setData_u64_def setData_double_def Let_def
      bind_res_Inr_iff dest!: put_bytes_InrD)

lemma u32_mem_htonl: "u32_mem (htonl x) = rev (u32_mem x)"
proof -
  have "u32_mem (u32_load a b c d) = [a, b, c, d]" for a b c d
    unfolding u32_load_def u32_mem_def
    by (auto intro!: bit_word_eqI simp: bit_simps)
  then show ?thesis by (simp add: htonl_def u32_mem_def)
qed

lemma ucast_htonll:
  "ucast (htonll x) = htonl (ucast (drop_bit 32 x))"
  "ucast (drop_bit 32 (htonll x)) = htonl (ucast x)"
proof -
  have high [simp]: "32 \<le> n \<Longrightarrow> \<not> bit (w :: u32) n" for w n
    using bit_imp_le_length [of w n] by auto
  show "ucast (htonll x) = htonl (ucast (drop_bit 32 x))"
    unfolding htonll_def Let_def by (rule bit_word_eqI) (auto simp: bit_simps)
  have mask: "(ucast (x AND 0xFFFFFFFF) :: u32) = ucast x"
  proof (rule bit_word_eqI)
    fix n assume n: "n < LENGTH(32)"
    have m: "(0xFFFFFFFF :: u64) = mask 32" by (simp add: mask_eq_exp_minus_1)
    show "bit (ucast (x AND 0xFFFFFFFF) :: u32) n = bit (ucast x :: u32) n"
      unfolding m bit_ucast_iff bit_and_iff bit_mask_iff using n by auto
  qed
  show "ucast (drop_bit 32 (htonll x)) = htonl (ucast x)"
    unfolding htonll_def Let_def mask by (rule bit_word_eqI) (auto simp: bit_simps)
qed

lemma u64_mem_htonll: "u64_mem (htonll x) = rev (u64_mem x)"
  by (simp add: u64_mem_def ucast_htonll u32_mem_htonl)

text \<open>The value a receiver reads from big-endian bytes.\<close>

definition big_endian :: "bytes \<Rightarrow> nat" where
  "big_endian bs = foldl (\<lambda>a b. 256 * a + unat b) 0 bs"

definition little_endian :: "bytes \<Rightarrow> nat" where
  "little_endian bs = foldr (\<lambda>b a. unat b + 256 * a) bs 0"

lemma big_endian_rev: "big_endian (rev bs) = little_endian bs"
  by (simp add: big_endian_def little_endian_def foldl_conv_foldr add.commute)

lemma unat_drop8 [simp]:
  "unat (ucast (drop_bit k (x :: 'a::len word)) :: u8) = unat x div 2 ^ k mod 256"
proof -
  have "unat (drop_bit k x) = unat x div 2 ^ k"
    by (metis drop_bit_eq_div unat_drop_bit_eq)
  then show ?thesis by (simp only: unsigned_ucast_eq take_bit_eq_mod) simp
qed

lemma little_endian_u32: "n \<le> 4 \<Longrightarrow> little_endian (take n (u32_mem x)) = unat x mod 256 ^ n"
proof -
  assume "n \<le> 4"
  have b: "unat (ucast x :: u8) = unat x mod 256"
    using unat_drop8 [of 0 x] by (simp del: unat_drop8)
  from \<open>n \<le> 4\<close> consider "n = 0" | "n = 1" | "n = 2" | "n = 3" | "n = 4" by linarith
  then show ?thesis
  proof cases
    case 3
    then show ?thesis
      using mod_mult2_eq [of "unat x" 256 256] by (simp add: little_endian_def u32_mem_def b)
  next
    case 4
    then show ?thesis
      using mod_mult2_eq [of "unat x" 256 256] mod_mult2_eq [of "unat x" 65536 256]
      by (simp add: little_endian_def u32_mem_def b numeral_3_eq_3)
  next
    case 5
    have "unat x < 2 ^ LENGTH(32)" by (rule unsigned_less)
    with 5 show ?thesis
      using mod_mult2_eq [of "unat x" 256 256] mod_mult2_eq [of "unat x" 65536 256]
        mod_mult2_eq [of "unat x" 16777216 256]
      by (simp add: little_endian_def u32_mem_def b numeral_3_eq_3)
  qed (simp_all add: little_endian_def u32_mem_def b)
qed

text \<open>An integer reading is sent as the low bytes of its value, most significant first.\<close>

lemma setData_u32_bytes:
  assumes "bean_ok s" "mMaxDataSize s \<le> 4"
  shows "setData_u32 v s = Inr (s \<lparr> mBeanData := rev (take (mMaxDataSize s) (u32_mem v)) \<rparr>)"
proof -
  have "drop (4 - mMaxDataSize s) (rev (u32_mem v)) = rev (take (mMaxDataSize s) (u32_mem v))"
    using assms(2) by (simp add: rev_take)
  with assms show ?thesis
    by (simp add: setData_u32_def u32_mem_htonl get_bytes_def put_bytes_def overlay_def bean_ok_def
        rev_take)
qed

lemma setData_u32_value:
  assumes "bean_ok s" "mMaxDataSize s \<le> 4" "setData_u32 v s = Inr s'"
  shows "big_endian (mBeanData s') = unat v mod 256 ^ mMaxDataSize s"
  using setData_u32_bytes [OF assms(1,2), of v] assms(2,3)
  by (auto simp: big_endian_rev little_endian_u32)

lemma setData_u32_overrun:
  assumes "4 < mMaxDataSize s" "mMaxDataSize s < 2 ^ 63"
  shows "setData_u32 v s = Inl Bad_access"
  using assms by (simp add: setData_u32_def size_sub_def get_bytes_def)

lemma setData_u64_bytes:
  assumes "bean_ok s" "mMaxDataSize s \<le> 8"
  shows "setData_u64 v s = Inr (s \<lparr> mBeanData := rev (take (mMaxDataSize s) (u64_mem v)) \<rparr>)"
  using assms
  by (simp add: setData_u64_def u64_mem_htonll get_bytes_def put_bytes_def overlay_def bean_ok_def
      rev_take)

lemma setData_double_bytes:
  assumes "bean_ok s" "mMaxDataSize s \<le> 8"
  shows "setData_double v s = Inr (s \<lparr> mBeanData := take (mMaxDataSize s) (u64_mem v) \<rparr>)"
  using assms by (simp add: setData_double_def get_bytes_def put_bytes_def overlay_def bean_ok_def)

text \<open>A text reading is cut at the size of the sensor, else terminated; the bytes behind the
  terminator are the old ones.\<close>

lemma setData_string_bytes:
  assumes "bean_ok s"
  shows "setData_string v s = Inr (s \<lparr> mBeanData := take (mMaxDataSize s)
    (bytes_of v @ [0] @ drop (length v + 1) (mBeanData s)) \<rparr>)"
proof (cases "mMaxDataSize s \<le> length v + 1")
  case True
  with assms show ?thesis
    by (auto simp: setData_string_def put_bytes_def overlay_def bean_ok_def min_def)
next
  case False
  with assms show ?thesis
    by (auto simp: setData_string_def put_bytes_def overlay_def bean_ok_def min_def)
qed

lemma setData_string_total: "bean_ok s \<Longrightarrow> \<exists>s'. setData_string v s = Inr s'"
  by (simp add: setData_string_bytes)

section \<open>Options\<close>

text \<open>The option is found when the first place where its name is followed by \<open>=\<close> starts the
  text or stands behind a separator.\<close>

lemma find_sub_Some: "find_sub needle hay = Some i \<Longrightarrow>
    i \<le> length hay \<and> take (length needle) (drop i hay) = needle \<and>
    (\<forall>j < i. take (length needle) (drop j hay) \<noteq> needle)"
proof (induction needle hay arbitrary: i rule: find_sub.induct)
  case (2 needle y ys)
  show ?case
  proof (cases "starts_with needle (y # ys)")
    case True
    with 2 show ?thesis by (auto simp: starts_with_iff)
  next
    case False
    then have n: "take (length needle) (y # ys) \<noteq> needle"
      by (metis append_take_drop_id starts_with_iff)
    from False "2.prems" obtain k where k: "find_sub needle ys = Some k" "i = Suc k" by auto
    with "2.IH" [OF False k(1)] n show ?thesis
      by (auto simp: less_Suc_eq_0_disj)
  qed
qed (auto split: if_splits)

lemma find_sub_None: "find_sub needle hay = None \<Longrightarrow> take (length needle) (drop j hay) \<noteq> needle"
proof (induction needle hay arbitrary: j rule: find_sub.induct)
  case (2 needle y ys)
  then have no: "\<not> starts_with needle (y # ys)" and n: "find_sub needle ys = None"
    by (auto split: if_splits)
  show ?case
  proof (cases j)
    case 0
    with no show ?thesis by (metis append_take_drop_id drop0 starts_with_iff)
  qed (use "2.IH" [OF no n] in simp)
qed (auto split: if_splits)

lemma find_sub_from_first:
  assumes "take (length needle) (drop j hay) = needle" "p \<le> j" "j \<le> length hay"
  obtains k where "find_sub_from needle hay p = Some k" "p \<le> k" "k \<le> j"
    "take (length needle) (drop k hay) = needle"
proof -
  have j: "take (length needle) (drop (j - p) (drop p hay)) = needle" using assms by simp
  then obtain i where i: "find_sub needle (drop p hay) = Some i"
    using find_sub_None [of needle "drop p hay" "j - p"] by (cases "find_sub needle (drop p hay)") auto
  note s = find_sub_Some [OF i]
  have "i \<le> j - p" using s j by (meson not_le)
  with s i assms show thesis
    by (intro that [of "p + i"]) (auto simp: find_sub_from_def add.commute)
qed

lemma extract_from_found:
  assumes hay: "hay = pre @ name @ ''='' @ rest" and "pre = [] \<or> last pre \<in> set delim"
    and first: "\<forall>i < length pre. take (length name + 1) (drop i hay) \<noteq> name @ ''=''"
    and "p \<le> length pre"
  shows "extract_from hay name delim p = Some (length pre)"
  using assms(4)
proof (induction "length pre - p" arbitrary: p rule: less_induct)
  case less
  have "take (length name) (drop (length pre) hay) = name" by (simp add: hay)
  then obtain k where k: "find_sub_from name hay p = Some k" "p \<le> k" "k \<le> length pre"
      "take (length name) (drop k hay) = name"
    using find_sub_from_first [of name "length pre" hay p] less.prems by (auto simp: hay)
  show ?case
  proof (cases "k = length pre")
    case True
    have "find_from (\<lambda>c. c \<in> set delim) (length pre - 1) hay \<noteq> None" if "pre \<noteq> []"
    proof -
      have "last pre \<in> set (drop (length pre - 1) hay)"
        using that hay by (cases pre rule: rev_cases) auto
      with assms(2) that show ?thesis by (auto simp: find_from_def)
    qed
    then have ok: "length pre = 0 \<or> find_from (\<lambda>c. c \<in> set delim) (length pre - 1) hay \<noteq> None" by auto
    have "hay ! (length pre + length name) = CHR ''=''" "length pre + length name < length hay"
      by (simp_all add: hay nth_append)
    with ok show ?thesis
      by (subst extract_from.simps) (simp add: k(1) True)
  next
    case False
    with k(3) have less_k: "k < length pre" by simp
    have "\<not> (k + length name < length hay \<and> hay ! (k + length name) = CHR ''='')"
    proof
      assume c: "k + length name < length hay \<and> hay ! (k + length name) = CHR ''=''"
      then have "length name < length (drop k hay)" by auto
      with c have "take (length name + 1) (drop k hay) = name @ ''=''"
        using k(4) take_Suc_conv_app_nth [of "length name" "drop k hay"] by (simp add: add.commute)
      with first less_k show False by blast
    qed
    then have "extract_from hay name delim p = extract_from hay name delim (k + 1)"
      by (subst extract_from.simps) (auto simp: k(1))
    also have "\<dots> = Some (length pre)"
      by (rule less.hyps) (use less_k k(2) in auto)
    finally show ?thesis .
  qed
qed

lemma getOption_found:
  assumes opts: "options = pre @ name @ ''='' @ val @ post" and "name \<noteq> []"
    and "pre = [] \<or> last pre \<in> {CHR '' '', CHR '',''}"
    and "\<forall>c \<in> set val. c \<notin> {CHR '' '', CHR '',''}"
    and "post = [] \<or> hd post \<in> {CHR '' '', CHR '',''}"
    and "\<forall>i < length pre. take (length name + 1) (drop i options) \<noteq> name @ ''=''"
  shows "getOption options name = val"
proof -
  have "extract_from options name '' ,'' 0 = Some (length pre)"
    by (rule extract_from_found [of _ _ _ "val @ post"]) (use assms in auto)
  moreover have "drop (length pre + length name + 1) options = val @ post" by (simp add: opts)
  moreover have "(case find_from (\<lambda>c. c \<in> set '' ,'') (length pre + length name + 1) options of
      None \<Rightarrow> length options | Some k \<Rightarrow> k) = length pre + length name + 1 + length val"
  proof (cases post)
    case Nil
    have "find_idx (\<lambda>c. c \<in> set '' ,'') val = None" using assms(4) by simp
    then have "find_from (\<lambda>c. c \<in> set '' ,'') (length pre + length name + 1) options = None"
      by (simp add: find_from_def opts Nil del: list.set find_idx_None)
    then show ?thesis by (simp add: opts Nil)
  next
    case (Cons c cs)
    then have "c \<in> set '' ,''" using assms(5) by auto
    from find_idx_append_first [where xs = val and ys = cs and P = "\<lambda>c. c \<in> set '' ,''", OF _ this]
    have "find_idx (\<lambda>c. c \<in> set '' ,'') (val @ c # cs) = Some (length val)"
      using assms(4) by simp
    then show ?thesis by (simp add: find_from_def opts Cons)
  qed
  moreover have "options \<noteq> []" by (simp add: opts)
  ultimately show ?thesis
    using assms(2) unfolding getOption_def extract_param_def Let_def by (simp add: opts)
qed

end
