(* ===== verification/Json_Sensors.thy ===== *)
theory Json_Sensors
  imports Json_Facts Sensor_Bean
begin

text \<open>
  Sensors described in JSON (\<open>daemon/src/JSONSensorsParser.cpp\<close>,
  \<open>daemon/src/StaticJSONSensorProvider.cpp\<close>). Sensors live in a heap, because the parser and
  the sensor set point to the same objects. A sensor of a plugin is a parameter: its
  attributes and the answers it gives to successive calls of \<open>getData\<close>.
\<close>

section \<open>The sensor heap\<close>

record plugin_sensor = base_sensor +
  pDataType :: ISensorDataType
  pUnit :: ISensorUnit
  pMaxDataSize :: nat
  pSamples :: "nat \<Rightarrow> bytes \<times> bool"
  pCalls :: nat

datatype isensor = Bean sensor_bean | Plugin plugin_sensor

record sensor_heap =
  hobjs :: "nat \<Rightarrow> isensor option"
  hnext :: nat

definition heap_empty :: sensor_heap where
  "heap_empty = \<lparr> hobjs = (\<lambda>_. None), hnext = 0 \<rparr>"

definition heap_new :: "isensor \<Rightarrow> sensor_heap \<Rightarrow> nat \<times> sensor_heap" where
  "heap_new s h = (hnext h, h \<lparr> hobjs := (hobjs h)(hnext h \<mapsto> s), hnext := Suc (hnext h) \<rparr>)"

definition heap_get :: "sensor_heap \<Rightarrow> nat \<Rightarrow> isensor res" where
  "heap_get h a = (case hobjs h a of Some s \<Rightarrow> Inr s | None \<Rightarrow> Inl Bad_access)"

definition heap_bean :: "sensor_heap \<Rightarrow> nat \<Rightarrow> sensor_bean res" where
  "heap_bean h a = (case hobjs h a of Some (Bean b) \<Rightarrow> Inr b | _ \<Rightarrow> Inl Bad_access)"

definition heap_put :: "nat \<Rightarrow> isensor \<Rightarrow> sensor_heap \<Rightarrow> sensor_heap" where
  "heap_put a s h = h \<lparr> hobjs := (hobjs h)(a \<mapsto> s) \<rparr>"

text \<open>\<open>delete\<close> of an object that is not there is a double free.\<close>

definition heap_delete :: "nat \<Rightarrow> sensor_heap \<Rightarrow> sensor_heap res" where
  "heap_delete a h = (case hobjs h a of
     Some s \<Rightarrow> Inr (h \<lparr> hobjs := (hobjs h)(a := None) \<rparr>) | None \<Rightarrow> Inl Bad_access)"

primrec heap_delete_all :: "nat list \<Rightarrow> sensor_heap \<Rightarrow> sensor_heap res" where
  "heap_delete_all [] h = Inr h"
| "heap_delete_all (a # as) h = bind_res (heap_delete a h) (heap_delete_all as)"

section \<open>Providers\<close>

datatype json_provider =
    Static_JSON string string  \<comment> \<open>\<open>StaticJSONSensorProvider\<close>: description and data\<close>
  | Plugin_JSON string "nat \<Rightarrow> string" nat  \<comment> \<open>description, replies, number of calls so far\<close>

definition StaticJSONSensorProvider_ctor :: "string \<Rightarrow> json_provider" where
  "StaticJSONSensorProvider_ctor description = Static_JSON description []"

fun getSensorsDescription :: "json_provider \<Rightarrow> string" where
  "getSensorsDescription (Static_JSON description data) = c_str description"
| "getSensorsDescription (Plugin_JSON description replies n) = c_str description"

fun getSensorsData :: "json_provider \<Rightarrow> string \<times> json_provider" where
  "getSensorsData (Static_JSON description data) = (c_str data, Static_JSON description data)"
| "getSensorsData (Plugin_JSON description replies n) =
     (c_str (replies n), Plugin_JSON description replies (Suc n))"

fun updateSensorsData :: "string \<Rightarrow> json_provider \<Rightarrow> json_provider" where
  "updateSensorsData new (Static_JSON description data) = Static_JSON description new"
| "updateSensorsData new (Plugin_JSON description replies n) = Plugin_JSON description replies n"

section \<open>One sensor description\<close>

definition field :: "jobject \<Rightarrow> string \<Rightarrow> jvalue res" where
  "field m key = bind_res (Value_key (JObj m) key) (\<lambda>(v, _). Inr v)"

definition field_string :: "jobject \<Rightarrow> string \<Rightarrow> string res" where
  "field_string m key = bind_res (field m key) ToString"

text \<open>The data type and size; a string's size is read with \<open>>>\<close> into a \<open>uint8_t\<close>, which
  takes one character.\<close>

definition sensor_type :: "jobject \<Rightarrow> string \<Rightarrow> (ISensorDataType \<times> nat) option res" where
  "sensor_type m dataTypeStr =
     (if dataTypeStr = ''U8'' then Inr (Some (TYPE_U8, 1))
      else if dataTypeStr = ''U16'' then Inr (Some (TYPE_U16, 2))
      else if dataTypeStr = ''U32'' then Inr (Some (TYPE_U32, 4))
      else if dataTypeStr = ''U64'' then Inr (Some (TYPE_U64, 8))
      else if dataTypeStr = ''double'' then Inr (Some (TYPE_FLOAT, 8))
      else if dataTypeStr = ''string'' then
        (if Object_HasKey m ''maxDataSize''
         then bind_res (field_string m ''maxDataSize'') (\<lambda>s.
                Inr (Some (TYPE_STR, case fst (istream_char s) of None \<Rightarrow> 0 | Some c \<Rightarrow> char_val c)))
         else Inr None)
      else Inr None)"

definition sensor_unit :: "jobject \<Rightarrow> ISensorUnit res" where
  "sensor_unit m =
     (if Object_HasKey m ''unit'' then
        bind_res (field_string m ''unit'') (\<lambda>unitStr. Inr
          (if unitStr = ''W'' then UNIT_POWER
           else if unitStr = ''A'' then UNIT_CURRENT
           else if unitStr = ''V'' then UNIT_VOLTAGE
           else if unitStr = [CHR 0xC2, CHR 0xB0, CHR ''C''] then UNIT_TEMPERATURE
           else if unitStr = ''RPM'' then UNIT_ROTATIONAL_SPEED
           else UNIT_DIMENSIONLESS))
      else Inr UNIT_DIMENSIONLESS)"

definition sensor_thresholds :: "jobject \<Rightarrow> string \<Rightarrow> (bool \<times> dbl \<times> dbl) res" where
  "sensor_thresholds m key =
     (if Object_HasKey m key then
        bind_res (field m key) (\<lambda>thresholds.
          if GetType thresholds = ArrayVal \<and> 2 \<le> Value_size thresholds then
            bind_res (Value_index thresholds 0) (\<lambda>a.
            bind_res (Value_index thresholds 1) (\<lambda>b.
              Inr (True, ToDouble_def_val a 0, ToDouble_def_val b 0)))
          else Inr (False, 0, 0))
      else Inr (False, 0, 0))"

definition sensor_values :: "jobject \<Rightarrow> u16 res" where
  "sensor_values m =
     (if Object_HasKey m ''numberOfValues'' then
        bind_res (field m ''numberOfValues'') (\<lambda>n.
          if IsNumeric n then bind_res (ToInt n) (\<lambda>i. Inr (word_of_int i)) else Inr 1)
      else Inr 1)"

definition sensor_group :: "jobject \<Rightarrow> string res" where
  "sensor_group m = (if Object_HasKey m ''group'' then field_string m ''group'' else Inr [])"

text \<open>The body of the loop over the description; \<open>None\<close> where it skips the element.\<close>

definition parse_sensor :: "(nat \<Rightarrow> u8) \<Rightarrow> jvalue \<Rightarrow> sensor_bean option res" where
  "parse_sensor junk sensor =
     (if GetType sensor \<noteq> ObjectVal then Inr None
      else let m = mObjectVal sensor in
        if \<not> (Object_HasKey m ''name'' \<and> Object_HasKey m ''dataType'') then Inr None
        else
          bind_res (field_string m ''name'') (\<lambda>name.
          if SENSOR_NAME_LENGTH < length name then Inr None else
          bind_res (field_string m ''dataType'') (\<lambda>dataTypeStr.
          bind_res (sensor_type m dataTypeStr) (\<lambda>ts.
          case ts of None \<Rightarrow> Inr None | Some (dataType, maxDataSize) \<Rightarrow>
          bind_res (sensor_unit m) (\<lambda>unit.
          bind_res (sensor_thresholds m ''lowerThresholds'') (\<lambda>(useLower, lowerCritical, lowerWarning).
          bind_res (sensor_thresholds m ''upperThresholds'') (\<lambda>(useUpper, upperWarning, upperCritical).
          bind_res (sensor_values m) (\<lambda>numberOfValues.
          bind_res (sensor_group m) (\<lambda>groupName.
            Inr (Some (SensorBean_ctor junk name dataType maxDataSize numberOfValues unit
              useLower useUpper lowerCritical lowerWarning upperWarning upperCritical
              groupName RENDERING_TEXTUAL)))))))))))"

section \<open>JSONSensorsParser\<close>

record json_parser =
  jp_provider :: json_provider
  jp_name :: string
  jp_sensors :: "(string, nat) std_map"
  jp_ordered :: "nat list"

definition JSONSensorsParser_ctor :: "json_provider \<Rightarrow> string \<Rightarrow> json_parser" where
  "JSONSensorsParser_ctor provider name =
     \<lparr> jp_provider = provider, jp_name = name, jp_sensors = [], jp_ordered = [] \<rparr>"

definition getProvider :: "json_parser \<Rightarrow> json_provider" where
  "getProvider p = jp_provider p"

text \<open>\<open>describe_loop n\<close> runs \<open>n\<close> more passes from element \<open>i\<close> on.\<close>

primrec describe_loop :: "(nat \<Rightarrow> u8) \<Rightarrow> jvalue \<Rightarrow> nat \<Rightarrow> nat \<Rightarrow> json_parser \<times> sensor_heap
    \<Rightarrow> (json_parser \<times> sensor_heap) res" where
  "describe_loop junk description 0 i st = Inr st"
| "describe_loop junk description (Suc n) i st =
     bind_res (Value_index description i) (\<lambda>sensor.
     bind_res (parse_sensor junk sensor) (\<lambda>r.
       case r of
         None \<Rightarrow> describe_loop junk description n (Suc i) st
       | Some s \<Rightarrow>
           let (p, h) = st; (a, h') = heap_new (Bean s) h
           in describe_loop junk description n (Suc i)
                (p \<lparr> jp_sensors := map_insert (mName s) a (jp_sensors p),
                     jp_ordered := jp_ordered p @ [a] \<rparr>, h')))"

text \<open>The 16-bit counter never reaches a size of 65536 or more: after 65536 elements the loop
  starts over, and goes on for ever.\<close>

definition getSensors :: "(nat \<Rightarrow> u8) \<Rightarrow> json_parser \<Rightarrow> sensor_heap
    \<Rightarrow> ((string, nat) std_map \<times> json_parser \<times> sensor_heap) res" where
  "getSensors junk p h =
     bind_res (heap_delete_all (map snd (jp_sensors p)) h) (\<lambda>h.
     let p = p \<lparr> jp_sensors := [], jp_ordered := [] \<rparr> in
     bind_res (Deserialize (getSensorsDescription (jp_provider p))) (\<lambda>description.
       if GetType description = NULLVal then Inr (jp_sensors p, p, h)
       else bind_res (describe_loop junk description (min (Value_size description) 65536) 0 (p, h))
         (\<lambda>(p, h). if 65536 \<le> Value_size description then Inl Diverges
                   else Inr (jp_sensors p, p, h))))"

section \<open>updateSensors\<close>

text \<open>What the loop body stores in the sensor; a value of the wrong kind leaves it alone.\<close>

definition store_reading :: "jvalue \<Rightarrow> sensor_bean \<Rightarrow> sensor_bean res" where
  "store_reading sensorValue s =
     (if mDataType s \<noteq> TYPE_STR then
        (if GetType sensorValue = DoubleVal then
           bind_res (ToDouble sensorValue) (\<lambda>d. setData_double d s)
         else if IsNumeric sensorValue then
           bind_res (ToInt sensorValue) (\<lambda>i. setData_u32 (word_of_int i) s)
         else Inr s)
      else setData_string (ToString_def_val sensorValue []) s)"

definition update_sensor :: "jvalue \<Rightarrow> nat \<Rightarrow> sensor_heap \<Rightarrow> sensor_heap res" where
  "update_sensor sensorValue a h =
     (if GetType sensorValue = NULLVal \<or> GetType sensorValue = ObjectVal
         \<or> GetType sensorValue = ArrayVal then Inr h
      else bind_res (heap_bean h a) (\<lambda>s.
           bind_res (store_reading sensorValue s) (\<lambda>s'. Inr (heap_put a (Bean s') h))))"

primrec update_loop :: "jvalue \<Rightarrow> u16 \<Rightarrow> nat list \<Rightarrow> sensor_heap \<Rightarrow> sensor_heap res" where
  "update_loop sensorsData i [] h = Inr h"
| "update_loop sensorsData i (a # as) h =
     bind_res (Value_index sensorsData (unat i)) (\<lambda>sensorValue.
     bind_res (update_sensor sensorValue a h) (update_loop sensorsData (i + 1) as))"

definition updateSensors :: "json_parser \<Rightarrow> sensor_heap \<Rightarrow> (json_parser \<times> sensor_heap) res" where
  "updateSensors p h =
     (let (sensorsDataString, prov) = getSensorsData (jp_provider p);
          p = p \<lparr> jp_provider := prov \<rparr>
      in if sensorsDataString = [] then Inr (p, h)
         else bind_res (Deserialize sensorsDataString) (\<lambda>sensorsData.
           if GetType sensorsData = NULLVal then Inr (p, h)
           else if Value_size sensorsData < length (jp_ordered p) then Inr (p, h)
           else bind_res (update_loop sensorsData 0 (jp_ordered p) h) (\<lambda>h. Inr (p, h))))"

section \<open>Facts\<close>

lemma field_present: "Object_HasKey m key \<Longrightarrow> \<exists>v. map_of m key = Some v \<and> field m key = Inr v"
  by (auto simp: field_def Object_HasKey_def Value_key_present)

lemma char_val_less: "char_val c \<le> 255"
  using char_val_lt [of c] by linarith

lemma sensor_type_size: "sensor_type m t = Inr (Some (dt, n)) \<Longrightarrow> n \<le> 255"
  by (auto simp: sensor_type_def bind_res_Inr_iff char_val_less split: if_splits option.splits)

text \<open>The sensors the parser creates.\<close>

definition parsed_bean :: "sensor_bean \<Rightarrow> bool" where
  "parsed_bean s \<longleftrightarrow> bean_ok s \<and> length (mName s) \<le> SENSOR_NAME_LENGTH \<and>
     (mDataType s, mMaxDataSize s) \<in> {(TYPE_U8, 1), (TYPE_U16, 2), (TYPE_U32, 4), (TYPE_U64, 8), (TYPE_FLOAT, 8)}
       \<union> {TYPE_STR} \<times> {0..255}"

lemma sensor_type_cases:
  "sensor_type m t = Inr (Some (dt, n)) \<Longrightarrow>
     (dt, n) \<in> {(TYPE_U8, 1), (TYPE_U16, 2), (TYPE_U32, 4), (TYPE_U64, 8), (TYPE_FLOAT, 8)}
       \<union> {TYPE_STR} \<times> {0..255}"
  by (auto simp: sensor_type_def bind_res_Inr_iff char_val_less split: if_splits option.splits)

lemma parse_sensor_bean:
  assumes "parse_sensor junk v = Inr (Some s)"
  shows "parsed_bean s"
proof -
  from assms obtain name dt n nv u ul uu lc lw uw uc g m t where
    "s = SensorBean_ctor junk name dt n nv u ul uu lc lw uw uc g RENDERING_TEXTUAL"
    "length name \<le> SENSOR_NAME_LENGTH" "sensor_type m t = Inr (Some (dt, n))"
    by (auto simp: parse_sensor_def Let_def bind_res_Inr_iff split: if_splits option.splits)
  with sensor_type_cases [of m t dt n] show ?thesis
    by (simp add: parsed_bean_def SensorBean_ctor_def bean_ok_def)
qed

lemma parse_sensor_needs_keys:
  assumes "parse_sensor junk v = Inr (Some s)"
  shows "GetType v = ObjectVal \<and> Object_HasKey (mObjectVal v) ''name''
    \<and> Object_HasKey (mObjectVal v) ''dataType''"
  using assms by (auto simp: parse_sensor_def Let_def split: if_splits)

section \<open>The heap and the parser's pointers\<close>

definition heap_ok :: "sensor_heap \<Rightarrow> bool" where
  "heap_ok h \<longleftrightarrow> (\<forall>a s. hobjs h a = Some s \<longrightarrow> a < hnext h \<and> (\<forall>b. s = Bean b \<longrightarrow> bean_ok b))"

definition parser_ok :: "json_parser \<Rightarrow> sensor_heap \<Rightarrow> bool" where
  "parser_ok p h \<longleftrightarrow> map_ok (jp_sensors p) \<and> distinct (jp_ordered p) \<and>
     (\<forall>a \<in> set (jp_ordered p). \<exists>b. hobjs h a = Some (Bean b) \<and> parsed_bean b) \<and>
     (\<forall>(k, a) \<in> set (jp_sensors p). a \<in> set (jp_ordered p) \<and>
        (\<exists>b. hobjs h a = Some (Bean b) \<and> mName b = k))"

lemma set_map_insert: "set (map_insert k v m) \<subseteq> insert (k, v) (set m)"
proof -
  have "set (map_assign k v m) \<subseteq> insert (k, v) (set m)"
    by (induction m) (auto split: if_splits)
  then show ?thesis by (auto simp: map_insert_def)
qed

lemma describe_loop_ok:
  assumes "describe_loop junk d n i (p, h) = Inr (p', h')" "parser_ok p h" "heap_ok h"
  shows "parser_ok p' h' \<and> heap_ok h' \<and> hnext h \<le> hnext h' \<and>
    (\<forall>a < hnext h. hobjs h' a = hobjs h a) \<and>
    (\<exists>new. jp_ordered p' = jp_ordered p @ new \<and> (\<forall>a \<in> set new. hnext h \<le> a \<and> a < hnext h'))
    \<and> jp_provider p' = jp_provider p"
  using assms
proof (induction n arbitrary: i p h)
  case (Suc n)
  from Suc.prems(1) obtain v r where v: "Value_index d i = Inr v" and r: "parse_sensor junk v = Inr r"
    by (auto simp: bind_res_Inr_iff)
  show ?case
  proof (cases r)
    case None
    with Suc.prems(1) v r have "describe_loop junk d n (Suc i) (p, h) = Inr (p', h')" by simp
    from Suc.IH [OF this Suc.prems(2,3)] show ?thesis .
  next
    case (Some s)
    let ?a = "hnext h"
    let ?h = "h \<lparr> hobjs := (hobjs h)(?a \<mapsto> Bean s), hnext := Suc ?a \<rparr>"
    let ?p = "p \<lparr> jp_sensors := map_insert (mName s) ?a (jp_sensors p), jp_ordered := jp_ordered p @ [?a] \<rparr>"
    have s: "parsed_bean s" using parse_sensor_bean r Some by blast
    have old: "a < ?a" if "a \<in> set (jp_ordered p)" for a
      using that Suc.prems(2,3) unfolding parser_ok_def heap_ok_def by blast
    have run: "describe_loop junk d n (Suc i) (?p, ?h) = Inr (p', h')"
      using Suc.prems(1) v r Some by (simp add: heap_new_def)
    have ok: "parser_ok ?p ?h"
      using Suc.prems(2) s old
      by (fastforce simp: parser_ok_def map_ok_insert dest!: subsetD [OF set_map_insert])
    have "heap_ok ?h"
      using Suc.prems(3) s by (auto simp: heap_ok_def parsed_bean_def less_Suc_eq)
    from Suc.IH [OF run ok this] show ?thesis by fastforce
  qed
qed auto

lemma getSensors_ok:
  assumes "getSensors junk (JSONSensorsParser_ctor prov name) h = Inr (m, p, h')" "heap_ok h"
  shows "m = jp_sensors p \<and> parser_ok p h' \<and> heap_ok h' \<and> hnext h \<le> hnext h' \<and>
    (\<forall>a < hnext h. hobjs h' a = hobjs h a) \<and> (\<forall>a \<in> set (jp_ordered p). hnext h \<le> a) \<and>
    jp_provider p = prov"
proof -
  have "parser_ok (JSONSensorsParser_ctor prov name) h"
    by (simp add: parser_ok_def JSONSensorsParser_ctor_def)
  with assms show ?thesis
    by (auto simp: getSensors_def JSONSensorsParser_ctor_def Let_def bind_res_Inr_iff
        split: if_splits dest!: describe_loop_ok)
qed

section \<open>Updating\<close>

lemma store_reading_effect:
  "store_reading v s = Inr s' \<Longrightarrow> \<exists>d. length d = length (mBeanData s) \<and> s' = s \<lparr> mBeanData := d \<rparr>"
  using setData_effect [of "ToString_def_val v []" s s'] setData_effect [of _ s s']
  by (fastforce simp: store_reading_def bind_res_Inr_iff split: if_splits)

lemma heap_bean_Inr: "heap_bean h a = Inr b \<longleftrightarrow> hobjs h a = Some (Bean b)"
  by (auto simp: heap_bean_def split: option.splits isensor.splits)

lemma update_sensor_effect:
  assumes "update_sensor v a h = Inr h'"
  shows "h' = h \<or> (\<exists>b d. hobjs h a = Some (Bean b) \<and> length d = length (mBeanData b) \<and>
    h' = heap_put a (Bean (b \<lparr> mBeanData := d \<rparr>)) h)"
  using assms store_reading_effect
  by (fastforce simp: update_sensor_def bind_res_Inr_iff heap_bean_Inr split: if_splits)

lemma update_sensor_frame:
  "update_sensor v a h = Inr h' \<Longrightarrow> hnext h' = hnext h \<and> (\<forall>x. x \<noteq> a \<longrightarrow> hobjs h' x = hobjs h x)"
  by (auto simp: heap_put_def dest!: update_sensor_effect)

lemma update_sensor_heap_ok:
  "update_sensor v a h = Inr h' \<Longrightarrow> heap_ok h \<Longrightarrow> heap_ok h'"
  by (fastforce simp: heap_ok_def heap_put_def bean_ok_def dest!: update_sensor_effect)

lemma update_sensor_parser_ok:
  assumes "update_sensor v a h = Inr h'" "parser_ok p h"
  shows "parser_ok p h'"
  using update_sensor_effect [OF assms(1)]
proof (elim disjE exE conjE)
  fix b d
  assume b: "hobjs h a = Some (Bean b)" "length d = length (mBeanData b)"
    and h': "h' = heap_put a (Bean (b \<lparr> mBeanData := d \<rparr>)) h"
  have "parsed_bean b \<Longrightarrow> parsed_bean (b \<lparr> mBeanData := d \<rparr>)"
    using b(2) by (simp add: parsed_bean_def bean_ok_def)
  with assms(2) b show ?thesis
    by (fastforce simp: parser_ok_def h' heap_put_def)
qed (use assms in simp)

lemma update_loop_frame:
  "update_loop data i as h = Inr h' \<Longrightarrow>
     hnext h' = hnext h \<and> (\<forall>x. x \<notin> set as \<longrightarrow> hobjs h' x = hobjs h x)"
  by (induction as arbitrary: i h) (fastforce simp: bind_res_Inr_iff dest!: update_sensor_frame)+

lemma update_loop_ok:
  "update_loop data i as h = Inr h' \<Longrightarrow> heap_ok h \<Longrightarrow> parser_ok p h \<Longrightarrow> heap_ok h' \<and> parser_ok p h'"
  by (induction as arbitrary: i h)
     (auto simp: bind_res_Inr_iff dest: update_sensor_heap_ok update_sensor_parser_ok)

lemma parser_ok_provider [simp]: "parser_ok (p \<lparr> jp_provider := q \<rparr>) h = parser_ok p h"
  by (simp add: parser_ok_def)

lemma updateSensors_ok:
  assumes "updateSensors p h = Inr (p', h')" "heap_ok h" "parser_ok p h"
  shows "heap_ok h' \<and> parser_ok p' h' \<and> hnext h' = hnext h \<and> jp_ordered p' = jp_ordered p
    \<and> jp_sensors p' = jp_sensors p \<and> (\<forall>x. x \<notin> set (jp_ordered p) \<longrightarrow> hobjs h' x = hobjs h x)"
  using assms update_loop_ok [of _ 0 "jp_ordered p" h _ p]
  by (auto simp: updateSensors_def Let_def bind_res_Inr_iff split: prod.splits if_splits
      dest: update_loop_frame)

text \<open>A value that the sensor's buffer can take: an integer goes through a four-byte
  variable.\<close>

definition value_fits :: "jvalue \<Rightarrow> sensor_bean \<Rightarrow> bool" where
  "value_fits v s = (GetType v \<noteq> IntVal \<and> GetType v \<noteq> FloatVal \<or> mDataType s = TYPE_STR \<or> mMaxDataSize s \<le> 4)"

lemma setData_u32_total: "bean_ok s \<Longrightarrow> mMaxDataSize s \<le> 4 \<Longrightarrow> \<exists>s'. setData_u32 v s = Inr s'"
  by (simp add: setData_u32_bytes)

lemma setData_double_total: "bean_ok s \<Longrightarrow> mMaxDataSize s \<le> 8 \<Longrightarrow> \<exists>s'. setData_double v s = Inr s'"
  by (simp add: setData_double_bytes)

lemma parsed_bean_size: "parsed_bean s \<Longrightarrow> mDataType s \<noteq> TYPE_STR \<Longrightarrow> mMaxDataSize s \<le> 8"
  by (auto simp: parsed_bean_def)

lemma store_reading_total:
  assumes "parsed_bean s" "value_fits v s"
  shows "\<exists>s'. store_reading v s = Inr s'"
proof -
  have ok: "bean_ok s" using assms(1) by (simp add: parsed_bean_def)
  show ?thesis
  proof (cases "mDataType s = TYPE_STR")
    case True
    then show ?thesis using setData_string_total [OF ok] by (simp add: store_reading_def)
  next
    case False
    with parsed_bean_size [OF assms(1)] assms(2) show ?thesis
      using setData_double_total [OF ok] setData_u32_total [OF ok]
      by (cases v) (auto simp: store_reading_def IsNumeric_def ToInt_def ToDouble_def value_fits_def)
  qed
qed

lemma update_sensor_total:
  assumes "hobjs h a = Some (Bean s)" "parsed_bean s" "value_fits v s"
  shows "\<exists>h'. update_sensor v a h = Inr h'"
  using store_reading_total [OF assms(2,3)] assms(1)
  by (auto simp: update_sensor_def heap_bean_def)

lemma update_sensor_overrun:
  assumes "hobjs h a = Some (Bean s)" "parsed_bean s" "mDataType s \<in> {TYPE_U64, TYPE_FLOAT}"
  shows "update_sensor (JInt i) a h = Inl Bad_access"
proof -
  have "mMaxDataSize s = 8" "mDataType s \<noteq> TYPE_STR" using assms(2,3) by (auto simp: parsed_bean_def)
  with assms(1) show ?thesis
    by (simp add: update_sensor_def heap_bean_def store_reading_def ToInt_def IsNumeric_def
        setData_u32_overrun)
qed

text \<open>Each sensor in order gets the value at its position.\<close>

lemma update_loop_nth:
  assumes "update_loop (JArr xs) (word_of_nat i) as h = Inr h'" "distinct as" "k < length as"
    "i + length as \<le> 65536"
  shows "\<exists>h1. update_sensor (xs ! (i + k)) (as ! k) h = Inr h1 \<and> hobjs h' (as ! k) = hobjs h1 (as ! k)"
  using assms
proof (induction as arbitrary: i h k)
  case (Cons a as)
  have i: "unat (word_of_nat i :: u16) = i"
    using Cons.prems(4) by (simp add: unat_of_nat take_bit_eq_mod)
  from Cons.prems(1) obtain v h0 where v: "Value_index (JArr xs) i = Inr v"
    and u: "update_sensor v a h = Inr h0"
    and r: "update_loop (JArr xs) (word_of_nat (Suc i)) as h0 = Inr h'"
    by (auto simp: bind_res_Inr_iff i add.commute)
  have v': "v = xs ! i" using v by (auto simp: Value_index_def Array_index_def split: if_splits)
  show ?case
  proof (cases k)
    case 0
    have "a \<notin> set as" using Cons.prems(2) by simp
    with update_loop_frame [OF r] u v' 0 show ?thesis by auto
  next
    case (Suc j)
    have len: "j < length as" "Suc i + length as \<le> 65536" "distinct as"
      using Cons.prems(2-4) Suc by auto
    from Cons.IH [OF r len(3,1,2)] obtain h1 where
      h1: "update_sensor (xs ! (Suc i + j)) (as ! j) h0 = Inr h1" "hobjs h' (as ! j) = hobjs h1 (as ! j)"
      by blast
    have ne: "as ! j \<noteq> a" using Cons.prems(2) len(1) by auto
    then have same: "hobjs h0 (as ! j) = hobjs h (as ! j)" using update_sensor_frame [OF u] by simp
    have b: "heap_bean h0 (as ! j) = heap_bean h (as ! j)" by (simp add: heap_bean_def same)
    have "\<exists>h2. update_sensor w (as ! j) h = Inr h2 \<and> hobjs h2 (as ! j) = hobjs h1 (as ! j)"
      if "update_sensor w (as ! j) h0 = Inr h1" for w
      using that same
      by (auto simp: update_sensor_def b bind_res_Inr_iff heap_put_def split: if_splits)
    from this [OF h1(1)] h1(2) Suc show ?thesis by auto
  qed
qed simp

text \<open>A description without a capital T has no key \<open>dataType\<close>, and no sensor comes of it.\<close>

lemma no_key_no_sensor:
  assumes "wf_json C v" "CHR ''T'' \<notin> C"
  shows "parse_sensor junk v \<noteq> Inr (Some s)"
proof
  assume "parse_sensor junk v = Inr (Some s)"
  then have "GetType v = ObjectVal" and k: "Object_HasKey (mObjectVal v) ''dataType''"
    using parse_sensor_needs_keys by blast+
  then obtain m where m: "v = JObj m" by (cases v) auto
  with k obtain w where "(''dataType'', w) \<in> set m"
    by (auto simp: Object_HasKey_def dest: map_of_SomeD)
  with assms(1) m have "set ''dataType'' \<subseteq> C" by fastforce
  with assms(2) show False by simp
qed

lemma describe_loop_no_sensor:
  assumes "describe_loop junk d n i st = Inr st'" "wf_json C d" "CHR ''T'' \<notin> C"
  shows "st' = st"
  using assms(1)
proof (induction n arbitrary: i)
  case (Suc n)
  then obtain v r where v: "Value_index d i = Inr v" and r: "parse_sensor junk v = Inr r"
    by (auto simp: bind_res_Inr_iff)
  have "wf_json C v"
    using v assms(2)
    by (cases d) (auto simp: Value_index_def Array_index_def split: if_splits)
  from no_key_no_sensor [OF this assms(3), of junk] r have "r = None" by (cases r) auto
  with Suc v r show ?case by simp
qed simp

lemma c_str_subset: "set (c_str s) \<subseteq> set s"
  by (auto simp: c_str_def dest: set_takeWhileD)

lemma getSensors_no_capital:
  assumes "CHR ''T'' \<notin> set description"
    and run: "getSensors junk (JSONSensorsParser_ctor (Static_JSON description data) name) h = Inr (m, p, h')"
  shows "m = [] \<and> jp_ordered p = [] \<and> h' = h"
proof -
  have C: "CHR ''T'' \<notin> set (c_str description)" using assms(1) c_str_subset by blast
  have none: "st' = st"
    if "Deserialize (c_str description) = Inr d" "describe_loop junk d n i st = Inr st'" for d n i st st'
    using describe_loop_no_sensor [OF that(2) _ C] Deserialize_yields [OF that(1)] by blast
  from run show ?thesis
    by (auto simp: getSensors_def JSONSensorsParser_ctor_def Let_def bind_res_Inr_iff
        split: if_splits dest!: none)
qed

end
