(* ===== verification/Sensor_Set.thy ===== *)
theory Sensor_Set
  imports Config Json_Sensors
begin

text \<open>
  The sensors of a node (\<open>daemon/src/SensorSet.cpp\<close>, \<open>daemon/src/SensorSet.h\<close>): built from
  the configuration and the plugins, sampled into the monitoring message, and described in
  pages. The plugins are parameters: what the factories create for a plugin's name.
\<close>

section \<open>Any sensor\<close>

fun is_base :: "isensor \<Rightarrow> base_sensor" where
  "is_base (Bean b) = base_sensor.truncate b"
| "is_base (Plugin p) = base_sensor.truncate p"

fun is_dataType :: "isensor \<Rightarrow> ISensorDataType" where
  "is_dataType (Bean b) = mDataType b"
| "is_dataType (Plugin p) = pDataType p"

fun is_unit :: "isensor \<Rightarrow> ISensorUnit" where
  "is_unit (Bean b) = mUnit b"
| "is_unit (Plugin p) = pUnit p"

fun is_maxDataSize :: "isensor \<Rightarrow> nat" where
  "is_maxDataSize (Bean b) = mMaxDataSize b"
| "is_maxDataSize (Plugin p) = pMaxDataSize p"

text \<open>\<open>getData\<close>: the bytes it writes, its answer, and the sensor afterwards.\<close>

fun is_getData :: "isensor \<Rightarrow> (bytes \<times> bool \<times> isensor) res" where
  "is_getData (Bean b) = bind_res (SensorBean_getData None b) (\<lambda>(d, b'). Inr (d, True, Bean b'))"
| "is_getData (Plugin p) =
     (let (d, ok) = pSamples p (pCalls p) in Inr (d, ok, Plugin (p \<lparr> pCalls := Suc (pCalls p) \<rparr>)))"

section \<open>The set\<close>

record sensor_set =
  mSensorMap :: "(string, nat) std_map"
  mJSONSensorsParsers :: "(string, json_parser) std_map"
  mKnownGroups :: "(string, int) std_map"
  mSize :: nat
  mData :: bytes

type_synonym set_state = "sensor_set \<times> sensor_heap"

text \<open>What the factories create for the name of a plugin, and what \<open>configure\<close> does to the object
  created for that name, which decides the class, and the options.\<close>

record plugins =
  createSensor :: "string \<Rightarrow> plugin_sensor option"
  configureSensor :: "string \<Rightarrow> string \<Rightarrow> plugin_sensor \<Rightarrow> bool \<times> plugin_sensor"
  createSensorProvider :: "string \<Rightarrow> (string, plugin_sensor) std_map option"
  createJSONSensorProvider :: "string \<Rightarrow> json_provider option"

definition addJSONSensorProvider :: "(nat \<Rightarrow> u8) \<Rightarrow> json_provider \<Rightarrow> string \<Rightarrow> set_state
    \<Rightarrow> (bool \<times> set_state) res" where
  "addJSONSensorProvider junk provider name st =
     (let (S, h) = st in
      if map_of (mJSONSensorsParsers S) name \<noteq> None then Inr (False, st)
      else bind_res (getSensors junk (JSONSensorsParser_ctor provider name) h) (\<lambda>(m, p, h').
        Inr (True, S \<lparr> mSensorMap := map_insert_all m (mSensorMap S),
                       mJSONSensorsParsers := map_assign name p (mJSONSensorsParsers S) \<rparr>, h')))"

definition getJSONSensorProvider :: "string \<Rightarrow> sensor_set \<Rightarrow> json_provider option" where
  "getJSONSensorProvider name S = map_option getProvider (map_of (mJSONSensorsParsers S) name)"

text \<open>Replacing the provider's data through the pointer \<open>getJSONSensorProvider\<close> returned.\<close>

definition with_provider :: "string \<Rightarrow> (json_provider \<Rightarrow> json_provider) \<Rightarrow> sensor_set \<Rightarrow> sensor_set" where
  "with_provider name f S = (case map_of (mJSONSensorsParsers S) name of
     None \<Rightarrow> S
   | Some p \<Rightarrow> S \<lparr> mJSONSensorsParsers :=
       map_assign name (p \<lparr> jp_provider := f (jp_provider p) \<rparr>) (mJSONSensorsParsers S) \<rparr>)"

section \<open>The constructor\<close>

definition numbered :: "string \<Rightarrow> nat \<Rightarrow> string" where
  "numbered s i = s @ show_nat (i + 1)"

definition manual_sensor :: "plugins \<Rightarrow> config \<Rightarrow> nat \<Rightarrow> set_state \<Rightarrow> set_state" where
  "manual_sensor env c i st =
     (let pluginName = GetString c ''Sensors'' (numbered ''pluginName'' i) [];
          sensorName = GetString c ''Sensors'' (numbered ''sensorName'' i) [];
          options = GetString c ''Sensors'' (numbered ''options'' i) []
      in if pluginName = [] \<or> sensorName = [] then st
         else if SENSOR_NAME_LENGTH < length sensorName then st
         else case createSensor env pluginName of
             None \<Rightarrow> st
           | Some sensor \<Rightarrow>
               let (ok, sensor') = configureSensor env pluginName options sensor;
                   (S, h) = st; (a, h') = heap_new (Plugin sensor') h
               in if ok then (S \<lparr> mSensorMap := map_assign sensorName a (mSensorMap S) \<rparr>, h')
                  else (S, h'))"

primrec manual_loop :: "plugins \<Rightarrow> config \<Rightarrow> nat \<Rightarrow> nat \<Rightarrow> set_state \<Rightarrow> set_state" where
  "manual_loop env c 0 i st = st"
| "manual_loop env c (Suc n) i st = manual_loop env c n (Suc i) (manual_sensor env c i st)"

text \<open>\<open>std::getline\<close> with a comma until the stream is exhausted.\<close>

function getline_split :: "string \<Rightarrow> string list" where
  "getline_split s =
     (if s = [] then []
      else takeWhile (\<lambda>c. c \<noteq> CHR '','') s
           # getline_split (drop (length (takeWhile (\<lambda>c. c \<noteq> CHR '','') s) + 1) s))"
  by auto
termination
  by (relation "measure length") auto

declare getline_split.simps [simp del]

primrec insert_provided :: "(string \<times> plugin_sensor) list \<Rightarrow> set_state \<Rightarrow> set_state" where
  "insert_provided [] st = st"
| "insert_provided (e # es) st =
     (let (S, h) = st; (a, h') = heap_new (Plugin (snd e)) h
      in insert_provided es (S \<lparr> mSensorMap := map_insert (fst e) a (mSensorMap S) \<rparr>, h'))"

primrec provider_loop :: "plugins \<Rightarrow> string list \<Rightarrow> set_state \<Rightarrow> set_state" where
  "provider_loop env [] st = st"
| "provider_loop env (pluginName # names) st =
     provider_loop env names (case createSensorProvider env pluginName of
         None \<Rightarrow> st | Some m \<Rightarrow> insert_provided m st)"

primrec json_provider_loop :: "plugins \<Rightarrow> (nat \<Rightarrow> u8) \<Rightarrow> string list \<Rightarrow> set_state \<Rightarrow> set_state res" where
  "json_provider_loop env junk [] st = Inr st"
| "json_provider_loop env junk (pluginName # names) st =
     bind_res (case createJSONSensorProvider env pluginName of
         None \<Rightarrow> Inr st
       | Some p \<Rightarrow> bind_res (addJSONSensorProvider junk p pluginName st) (\<lambda>(_, st'). Inr st'))
       (json_provider_loop env junk names)"

primrec sum_sizes :: "nat list \<Rightarrow> sensor_heap \<Rightarrow> nat res" where
  "sum_sizes [] h = Inr 0"
| "sum_sizes (a # as) h = bind_res (heap_get h a) (\<lambda>s.
     bind_res (sum_sizes as h) (\<lambda>n. Inr (is_maxDataSize s + n)))"

definition sensor_set_empty :: sensor_set where
  "sensor_set_empty = \<lparr> mSensorMap = [], mJSONSensorsParsers = [], mKnownGroups = [], mSize = 0, mData = [] \<rparr>"

text \<open>The 16-bit counter of the first loop never reaches a configured count above 65535.\<close>

definition SensorSet_ctor :: "plugins \<Rightarrow> config \<Rightarrow> int \<Rightarrow> (nat \<Rightarrow> u8) \<Rightarrow> sensor_heap \<Rightarrow> set_state res" where
  "SensorSet_ctor env c junk_int junk h =
     (let cnt = GetInt junk_int c ''Sensors'' ''count'' 0 in
      if 65535 < cnt then Inl Diverges
      else let st = manual_loop env c (nat cnt) 0 (sensor_set_empty, h);
               st = provider_loop env (getline_split (GetString c ''Plugins'' ''SensorProviders'' [])) st
           in bind_res (json_provider_loop env junk
                  (getline_split (GetString c ''Plugins'' ''JSONSensorProviders'' [])) st) (\<lambda>(S, h).
              bind_res (sum_sizes (map snd (mSensorMap S)) h) (\<lambda>n.
                Inr (S \<lparr> mSize := sizeof_Monitoring_Data_Header + n,
                         mData := malloc_bytes junk (sizeof_Monitoring_Data_Header + n) \<rparr>, h))))"

section \<open>The monitoring message\<close>

primrec update_parsers :: "(string \<times> json_parser) list \<Rightarrow> sensor_heap
    \<Rightarrow> ((string, json_parser) std_map \<times> sensor_heap) res" where
  "update_parsers [] h = Inr ([], h)"
| "update_parsers (e # es) h =
     bind_res (updateSensors (snd e) h) (\<lambda>(p, h).
     bind_res (update_parsers es h) (\<lambda>(ps, h). Inr ((fst e, p) # ps, h)))"

text \<open>\<open>getData\<close> of one sensor into the message at \<open>offset\<close>; a failed reading is zeroed.\<close>

definition sample_sensor :: "nat \<Rightarrow> nat \<Rightarrow> bytes \<Rightarrow> sensor_heap \<Rightarrow> (bytes \<times> nat \<times> sensor_heap) res" where
  "sample_sensor a off d h =
     bind_res (heap_get h a) (\<lambda>s.
     bind_res (is_getData s) (\<lambda>(b, ret, s').
     bind_res (put_bytes d off b) (\<lambda>d.
     let len = is_maxDataSize s' in
     bind_res (if \<not> ret then put_bytes d off (replicate len 0) else Inr d) (\<lambda>d.
       Inr (d, off + len, heap_put a s' h)))))"

primrec sample_loop :: "nat list \<Rightarrow> nat \<Rightarrow> bytes \<Rightarrow> sensor_heap \<Rightarrow> (bytes \<times> sensor_heap) res" where
  "sample_loop [] off d h = Inr (d, h)"
| "sample_loop (a # as) off d h =
     bind_res (sample_sensor a off d h) (\<lambda>(d, off, h). sample_loop as off d h)"

definition data_header :: "sensor_set \<Rightarrow> bytes \<Rightarrow> bytes res" where
  "data_header S d =
     bind_res (put_bytes d 0 [message_code Monitoring_Data]) (\<lambda>d.
     bind_res (put_bytes d 1 (u16_mem (htons (word_of_nat (mSize S))))) (\<lambda>d.
     bind_res (put_bytes d 6 [0]) (\<lambda>d.
       put_bytes d 4 (u16_mem (htons (word_of_nat (length (mSensorMap S))))))))"

definition getMessage :: "set_state \<Rightarrow> (bytes \<times> set_state) res" where
  "getMessage st =
     (let (S, h) = st in
      bind_res (data_header S (mData S)) (\<lambda>d.
      bind_res (update_parsers (mJSONSensorsParsers S) h) (\<lambda>(ps, h).
      bind_res (sample_loop (map snd (mSensorMap S)) sizeof_Monitoring_Data_Header d h) (\<lambda>(d, h).
        Inr (d, S \<lparr> mJSONSensorsParsers := ps, mData := d \<rparr>, h)))))"

section \<open>Groups\<close>

definition getGroupId :: "string \<Rightarrow> (string, int) std_map \<Rightarrow> u8 \<times> (string, int) std_map" where
  "getGroupId name groups =
     (if c_str name = [] then (0, groups)
      else case map_of groups (c_str name) of
          Some i \<Rightarrow> (word_of_int i, groups)
        | None \<Rightarrow>
            if 255 \<le> length groups then (0, groups)
            else (word_of_nat (length groups + 1),
                  map_assign (c_str name) (uint (word_of_nat (length groups + 1) :: u8)) groups))"

section \<open>Description pages\<close>

definition describe_sensor :: "string \<Rightarrow> isensor \<Rightarrow> u8 \<Rightarrow> Sensor_Description" where
  "describe_sensor name s groupId =
     (let b = is_base s in
      \<lparr> sd_name = strncpy_bytes SENSOR_NAME_LENGTH name,
        sd_dataType = data_type_code (is_dataType s),
        sd_unit = unit_code (is_unit s),
        sd_maxDataSize = htons (word_of_nat (is_maxDataSize s)),
        sd_useLowerThresholds = bool_mem (mUseLowerThresholds b),
        sd_useUpperThresholds = bool_mem (mUseUpperThresholds b),
        sd_lowerCriticalThreshold = mLowerCriticalThreshold b,
        sd_lowerWarningThreshold = mLowerWarningThreshold b,
        sd_upperWarningThreshold = mUpperWarningThreshold b,
        sd_upperCriticalThreshold = mUpperCriticalThreshold b,
        sd_numberOfValues = htons (mNumberOfValues b),
        sd_groupId = groupId,
        sd_renderingType = rendering_code (mRendering b),
        sd_entryLength = word_of_nat sizeof_Sensor_Description \<rparr>)"

text \<open>The loop over the sensors of a page: a missing sensor dereferences the end of the map.\<close>

primrec describe_entries :: "(string \<times> nat) list \<Rightarrow> sensor_heap \<Rightarrow> nat \<Rightarrow> bytes \<Rightarrow> (string, int) std_map
    \<Rightarrow> (bytes \<times> nat \<times> (string, int) std_map) res" where
  "describe_entries [] h off buffer groups = Inr (buffer, off, groups)"
| "describe_entries (e # es) h off buffer groups =
     bind_res (heap_get h (snd e)) (\<lambda>s.
     let (gid, groups') = getGroupId (mGroup (is_base s)) groups in
     bind_res (put_bytes buffer off (enc_Sensor_Description (describe_sensor (fst e) s gid))) (\<lambda>buffer.
       describe_entries es h (off + sizeof_Sensor_Description) buffer groups'))"

text \<open>
  \<open>floor((double)size / 72)\<close> and \<open>ceil((double)count / perPage)\<close> converted to \<open>uint8_t\<close>.
  The quotients are far from the next integer compared with the rounding of the division,
  so floor and ceiling are those of the rational quotient. The conversion goes through a
  32-bit integer on the target: it keeps the low byte, and a value that does not fit (or
  the infinity and NaN of a division by zero) gives 0.
\<close>

definition dbl_to_u8 :: "nat \<Rightarrow> u8" where
  "dbl_to_u8 q = (if q < 2 ^ 31 then word_of_nat q else 0)"

definition sensors_per_page :: "nat \<Rightarrow> u8" where
  "sensors_per_page bufferSize =
     dbl_to_u8 (size_sub bufferSize sizeof_Monitoring_Description_Header div sizeof_Sensor_Description)"

definition page_count :: "u16 \<Rightarrow> u8 \<Rightarrow> u8" where
  "page_count sensorCnt sensorsPerPage =
     (let q = (if sensorsPerPage = 0 then 0
               else dbl_to_u8 ((unat sensorCnt + unat sensorsPerPage - 1) div unat sensorsPerPage))
      in if q < 1 then 1 else q)"

definition sensors_on_page :: "u16 \<Rightarrow> u8 \<Rightarrow> u8 \<Rightarrow> u8 \<Rightarrow> u8 res" where
  "sensors_on_page sensorCnt sensorsPerPage page lastPage =
     (if page < lastPage then Inr sensorsPerPage
      else if sensorsPerPage = 0 then Inl Div_by_zero
      else let r = word_of_nat (unat sensorCnt mod unat sensorsPerPage)
           in Inr (if r = 0 \<and> 0 < sensorCnt then sensorsPerPage else r))"

definition starting_sensor :: "u8 \<Rightarrow> u8 \<Rightarrow> u16" where
  "starting_sensor page sensorsPerPage = word_of_int ((uint page - 1) * uint sensorsPerPage)"

text \<open>The size of the page, the buffer, and the number of pages. \<open>buffer\<close> is what the caller
  passes, \<open>bufferSize\<close> the size it claims.\<close>

definition getDescriptionPage :: "bytes \<Rightarrow> nat \<Rightarrow> u8 \<Rightarrow> set_state
    \<Rightarrow> (nat \<times> bytes \<times> u8 \<times> set_state) res" where
  "getDescriptionPage buffer bufferSize page st =
     (let (S, h) = st;
          sensorCnt = word_of_nat (length (mSensorMap S));
          sensorsPerPage = sensors_per_page bufferSize;
          lastPage = page_count sensorCnt sensorsPerPage
      in bind_res (sensors_on_page sensorCnt sensorsPerPage page lastPage) (\<lambda>sensorsOnPage.
         let startingSensor = starting_sensor page sensorsPerPage in
         if length (mSensorMap S) < unat startingSensor + unat sensorsOnPage then Inl Bad_access
         else
           bind_res (describe_entries
               (take (unat sensorsOnPage) (drop (unat startingSensor) (mSensorMap S)))
               h sizeof_Monitoring_Description_Header buffer (mKnownGroups S)) (\<lambda>(buffer, off, groups).
           bind_res (put_bytes buffer 0 (enc_Monitoring_Description_Header
               \<lparr> mdh_header = \<lparr> mh_type = message_code Monitoring_Description,
                               mh_size = htons (word_of_nat off), mh_version = 0 \<rparr>,
                 currentPage = page, maxPages = lastPage, sensorEntries = sensorsOnPage,
                 startIndex = htons startingSensor \<rparr>)) (\<lambda>buffer.
             Inr (off, buffer, lastPage, S \<lparr> mKnownGroups := groups \<rparr>, h)))))"

section \<open>clear\<close>

definition clear_set :: "set_state \<Rightarrow> set_state res" where
  "clear_set st =
     (let (S, h) = st in
      bind_res (heap_delete_all (map snd (mSensorMap S)) h) (\<lambda>h.
        Inr (S \<lparr> mSensorMap := [], mJSONSensorsParsers := [], mKnownGroups := [] \<rparr>, h)))"

definition SensorSet_dtor :: "set_state \<Rightarrow> sensor_heap res" where
  "SensorSet_dtor st = bind_res (clear_set st) (\<lambda>(S, h). Inr h)"

end
