(* ===== verification/Sensor_Set_Facts.thy ===== *)
theory Sensor_Set_Facts
  imports Sensor_Set
begin

text \<open>
  What \<open>SensorSet\<close> guarantees: group identifiers are unique and stable, the description
  pages partition the sensors, the monitoring message holds every reading at its place and
  stays inside its buffer, and the constructor establishes the invariant of the set.
\<close>

section \<open>Groups\<close>

definition groups_ok :: "(string, int) std_map \<Rightarrow> bool" where
  "groups_ok g \<longleftrightarrow> map_ok g \<and> length g \<le> 255 \<and> distinct (map snd g) \<and>
     (\<forall>(k, i) \<in> set g. 1 \<le> i \<and> i \<le> int (length g))"

lemma length_map_assign:
  "map_of m k = None \<Longrightarrow> length (map_assign k v m) = Suc (length m)"
  by (induction m) (auto split: if_splits)

lemma set_map_assign_new:
  "map_of m k = None \<Longrightarrow> set (map_assign k v m) = insert (k, v) (set m)"
  by (induction m) (auto split: if_splits)

lemma distinct_snd_assign:
  "map_of m k = None \<Longrightarrow> v \<notin> snd ` set m \<Longrightarrow> distinct (map snd m) \<Longrightarrow>
     distinct (map snd (map_assign k v m))"
proof (induction m)
  case (Cons p m)
  obtain l w where p: "p = (l, w)" by force
  have "snd ` set (map_assign k v m) = insert v (snd ` set m)" if "k \<noteq> l"
    using set_map_assign_new [of m k v] Cons.prems(1) that by (simp add: p)
  with Cons show ?case by (auto simp: p split: if_splits)
qed simp

text \<open>The outcomes: no identifier, a known group, a new group.\<close>

lemma uint_new_id: "n < 255 \<Longrightarrow> uint (word_of_nat (n + 1) :: u8) = int n + 1"
  by (simp only: unsigned_of_nat take_bit_eq_mod) simp

lemma getGroupId_cases:
  assumes "getGroupId name g = (i, g')"
  obtains (none) "i = 0" "g' = g" "c_str name = [] \<or> map_of g (c_str name) = None \<and> 255 \<le> length g"
  | (known) j where "c_str name \<noteq> []" "map_of g (c_str name) = Some j" "i = word_of_int j" "g' = g"
  | (new) "c_str name \<noteq> []" "map_of g (c_str name) = None" "length g < 255"
      "i = word_of_nat (length g + 1)" "g' = map_assign (c_str name) (int (length g) + 1) g"
proof (cases "c_str name = []")
  case True
  with assms show thesis by (intro none) (auto simp: getGroupId_def)
next
  case False
  show thesis
  proof (cases "map_of g (c_str name)")
    case (Some j)
    with False assms show thesis by (intro known [of j]) (auto simp: getGroupId_def)
  next
    case None
    show thesis
    proof (cases "255 \<le> length g")
      case True
      with False None assms show thesis by (intro none) (auto simp: getGroupId_def)
    next
      case short: False
      with False None assms uint_new_id [of "length g"] show thesis
        by (intro new) (auto simp: getGroupId_def)
    qed
  qed
qed

lemma getGroupId_ok:
  assumes "groups_ok g" "getGroupId name g = (i, g')"
  shows "groups_ok g'"
  using assms(2)
proof (cases rule: getGroupId_cases)
  case new
  have "int (length g) + 1 \<notin> snd ` set g"
    using assms(1) unfolding groups_ok_def by fastforce
  with assms(1) new distinct_snd_assign [OF new(2) this] show ?thesis
    by (fastforce simp: groups_ok_def length_map_assign set_map_assign_new map_ok_assign)
qed (use assms in simp_all)

lemma getGroupId_known:
  assumes "groups_ok g" "getGroupId name g = (i, g')" "i \<noteq> 0"
  shows "map_of g' (c_str name) = Some (uint i)"
  using assms(2)
proof (cases rule: getGroupId_cases)
  case (known j)
  then have "(c_str name, j) \<in> set g" by (auto dest: map_of_SomeD)
  with assms(1) have "1 \<le> j" "j \<le> 255" unfolding groups_ok_def by fastforce+
  with known show ?thesis by (simp add: uint_word_of_int)
next
  case new
  then show ?thesis using uint_new_id [of "length g"] by (simp add: map_of_assign)
qed (use assms in simp)

lemma getGroupId_stable:
  assumes "getGroupId name g = (i, g')" "map_of g k = Some j"
  shows "map_of g' k = Some j"
  using assms(1)
proof (cases rule: getGroupId_cases)
  case new
  with assms(2) show ?thesis by (auto simp: map_of_assign)
qed (use assms in simp_all)

lemma groups_inj:
  assumes "groups_ok g" "map_of g k = Some i" "map_of g l = Some i"
  shows "k = l"
proof -
  have "(k, i) \<in> set g" "(l, i) \<in> set g" using assms by (auto dest: map_of_SomeD)
  moreover have "inj_on snd (set g)" using assms(1) by (simp add: groups_ok_def distinct_map)
  ultimately have "(k, i) = (l, i)" by (metis inj_onD snd_conv)
  then show ?thesis by simp
qed

section \<open>Pages\<close>

definition page_entries :: "nat \<Rightarrow> nat \<Rightarrow> 'a list \<Rightarrow> 'a list" where
  "page_entries perPage page es = take perPage (drop ((page - 1) * perPage) es)"

lemma pages_prefix:
  "concat (map (\<lambda>p. page_entries s p es) [1..<Suc l]) = take (l * s) es"
proof (induction l)
  case (Suc l)
  have "take (Suc l * s) es = take (l * s) es @ take s (drop (l * s) es)"
    using take_add [of "l * s" s es] by (simp add: add.commute)
  with Suc show ?case by (simp add: page_entries_def)
qed simp

definition pages_needed :: "nat \<Rightarrow> nat \<Rightarrow> nat" where
  "pages_needed perPage n = max 1 ((n + perPage - 1) div perPage)"

lemma pages_needed_enough: "0 < s \<Longrightarrow> n \<le> pages_needed s n * s"
proof -
  assume s: "0 < s"
  have "n + s - 1 < ((n + s - 1) div s) * s + s"
    using s dividend_less_div_times [of s "n + s - 1"] by simp
  then have "n \<le> ((n + s - 1) div s) * s" using s by linarith
  also have "\<dots> \<le> pages_needed s n * s" by (simp add: pages_needed_def)
  finally show ?thesis .
qed

lemma pages_partition:
  "0 < s \<Longrightarrow> concat (map (\<lambda>p. page_entries s p es) [1..<Suc (pages_needed s (length es))]) = es"
  using pages_needed_enough [of s "length es"] by (simp only: pages_prefix take_all)

lemma pages_needed_tight: "0 < s \<Longrightarrow> 1 < p \<Longrightarrow> p \<le> pages_needed s n \<Longrightarrow> (p - 1) * s < n"
proof -
  assume s: "0 < s" and p: "1 < p" "p \<le> pages_needed s n"
  then have "p \<le> (n + s - 1) div s" by (simp add: pages_needed_def max_def split: if_splits)
  then have "p * s \<le> n + s - 1" using s by (simp add: less_eq_div_iff_mult_less_eq)
  with p s show "(p - 1) * s < n" by (cases p) auto
qed

lemma u8_less: "unat (w :: u8) < 256"
proof -
  have "unat w < 2 ^ LENGTH(8)" by (rule unsigned_less)
  then show ?thesis by simp
qed

lemma unat_sensors_per_page:
  assumes "b < 2 ^ 32"
  shows "unat (sensors_per_page b) = (if b < 9 then 0 else (b - 9) div 72 mod 256)"
proof (cases "b < 9")
  case True
  then have "\<not> (2 ^ 64 + b - 9) div 72 < (2 :: nat) ^ 31" by simp
  with True show ?thesis
    by (simp add: sensors_per_page_def dbl_to_u8_def size_sub_def wire_simps)
next
  case False
  have "(b - 9) div 72 < 2 ^ 31" using assms by simp
  with False show ?thesis
    by (simp add: sensors_per_page_def dbl_to_u8_def wire_simps unat_of_nat take_bit_eq_mod)
qed

lemma page_count_needed:
  assumes "n < 65536" "0 < spp" "pages_needed (unat spp) n \<le> 255"
  shows "unat (page_count (word_of_nat n) spp) = pages_needed (unat spp) n"
proof -
  have n: "unat (word_of_nat n :: u16) = n" using assms(1) by (simp add: unat_of_nat take_bit_eq_mod)
  have s: "0 < unat spp" using assms(2) by (simp add: word_less_nat_alt)
  let ?q = "(n + unat spp - 1) div unat spp"
  have q: "?q \<le> 255" using assms(3) by (simp add: pages_needed_def)
  then have u: "unat (word_of_nat ?q :: u8) = ?q" by (simp add: unat_of_nat take_bit_eq_mod)
  show ?thesis
  proof (cases "?q = 0")
    case True
    with s show ?thesis by (auto simp: page_count_def n Let_def pages_needed_def dbl_to_u8_def)
  next
    case False
    with u have "\<not> (word_of_nat ?q :: u8) < 1" by (simp add: word_less_nat_alt)
    with False q u s show ?thesis
      by (auto simp: page_count_def n Let_def pages_needed_def dbl_to_u8_def)
  qed
qed

lemma word_nat_cast: "word_of_nat (unat (w :: 'a::len word)) = w"
  by simp

lemma int_pred_mult: "0 < a \<Longrightarrow> (int a - 1) * int b = int ((a - 1) * b)"
  by (simp add: of_nat_diff)

lemma unat_starting_sensor:
  assumes "0 < page"
  shows "unat (starting_sensor page spp) = (unat page - 1) * unat spp"
proof -
  have p: "unat page \<le> 255" "unat spp \<le> 255"
    using u8_less [of page] u8_less [of spp] by auto
  have "0 < unat page" using assms by (simp add: word_less_nat_alt)
  then have e: "(uint page - 1) * uint spp = int ((unat page - 1) * unat spp)"
    using int_pred_mult [of "unat page" "unat spp"] by simp
  have "(unat page - 1) * unat spp \<le> 254 * 255" using p by (intro mult_le_mono) auto
  then have "(unat page - 1) * unat spp < 65536" by simp
  then show ?thesis
    unfolding starting_sensor_def e of_int_of_nat_eq by (rule unat_u16)
qed

lemma sensors_on_page_length:
  assumes "length es < 65536" "0 < spp" "pages_needed (unat spp) (length es) \<le> 255"
    "1 \<le> unat page" "unat page \<le> pages_needed (unat spp) (length es)"
  defines "cnt \<equiv> word_of_nat (length es)"
  obtains k where "sensors_on_page cnt spp page (page_count cnt spp) = Inr k"
    "unat k = length (page_entries (unat spp) (unat page) es)"
proof -
  let ?s = "unat spp" and ?n = "length es" and ?p = "unat page"
  have s: "0 < ?s" using assms(2) by (simp add: word_less_nat_alt)
  have s': "spp \<noteq> 0" using assms(2) by auto
  have last: "unat (page_count cnt spp) = pages_needed ?s ?n"
    unfolding cnt_def by (rule page_count_needed) (use assms in auto)
  have n: "unat (word_of_nat ?n :: u16) = ?n" using assms(1) by (simp add: unat_of_nat take_bit_eq_mod)
  have len: "length (page_entries ?s ?p es) = min ?s (?n - (?p - 1) * ?s)"
    by (simp add: page_entries_def)
  show thesis
  proof (cases "?p < pages_needed ?s ?n")
    case True
    then have "page < page_count cnt spp" by (simp add: word_less_nat_alt last)
    then have "sensors_on_page cnt spp page (page_count cnt spp) = Inr spp" by (simp add: sensors_on_page_def)
    moreover have "?p * ?s < ?n"
      using pages_needed_tight [OF s, of "Suc ?p" ?n] True assms(4) by simp
    then have "?s \<le> ?n - (?p - 1) * ?s" using assms(4) by (cases ?p) auto
    ultimately show thesis using that [of spp] len by simp
  next
    case False
    with assms(5) have p: "?p = pages_needed ?s ?n" by simp
    have nl: "\<not> page < page_count cnt spp" by (simp add: word_less_nat_alt last p)
    let ?r = "word_of_nat (?n mod ?s) :: u8"
    have "?n mod ?s < 256"
      using s u8_less [of spp] mod_less_divisor [of ?s ?n] by linarith
    then have r: "unat ?r = ?n mod ?s" by (simp add: unat_of_nat take_bit_eq_mod)
    let ?k = "if ?r = 0 \<and> 0 < cnt then spp else ?r"
    have "sensors_on_page cnt spp page (page_count cnt spp) = Inr ?k"
      using nl s' by (simp add: sensors_on_page_def cnt_def n Let_def)
    moreover have "unat ?k = min ?s (?n - (?p - 1) * ?s)"
    proof (cases "?n = 0")
      case True
      then show ?thesis by (simp add: cnt_def)
    next
      case False
      then have c: "0 < cnt" using n by (simp add: cnt_def word_less_nat_alt)
      have lo: "(?p - 1) * ?s < ?n"
        using pages_needed_tight [OF s, of ?p ?n] p False assms(4) by (cases "?p = 1") auto
      have hi: "?n \<le> ?p * ?s" using pages_needed_enough [OF s, of ?n] p by simp
      then have hi': "?n - (?p - 1) * ?s \<le> ?s" using assms(4) by (cases ?p) auto
      have m: "?n mod ?s = (?n - (?p - 1) * ?s) mod ?s"
        using lo by (metis less_imp_le mod_mult_self3 le_add_diff_inverse add.commute)
      show ?thesis
      proof (cases "?n - (?p - 1) * ?s = ?s")
        case True
        then have "?n mod ?s = 0" using m by simp
        with c True hi' r show ?thesis by simp
      next
        case False
        with hi' have "?n mod ?s = ?n - (?p - 1) * ?s" using m by simp
        moreover from this lo have "?r \<noteq> 0" using r by (metis unat_0 zero_less_diff less_irrefl)
        ultimately show ?thesis using r hi' by simp
      qed
    qed
    ultimately show thesis using that len by metis
  qed
qed

section \<open>The bytes of a page\<close>

text \<open>What the entries of a page should be: each sensor's description with the group
  identifiers handed out in order.\<close>

primrec page_bytes :: "(string \<times> nat) list \<Rightarrow> sensor_heap \<Rightarrow> (string, int) std_map \<Rightarrow> bytes" where
  "page_bytes [] h g = []"
| "page_bytes (e # es) h g =
     (let s = the (hobjs h (snd e)); (i, g') = getGroupId (mGroup (is_base s)) g
      in enc_Sensor_Description (describe_sensor (fst e) s i) @ page_bytes es h g')"

primrec page_groups :: "(string \<times> nat) list \<Rightarrow> sensor_heap \<Rightarrow> (string, int) std_map \<Rightarrow> (string, int) std_map" where
  "page_groups [] h g = g"
| "page_groups (e # es) h g =
     page_groups es h (snd (getGroupId (mGroup (is_base (the (hobjs h (snd e))))) g))"

lemma length_describe [simp]:
  "length (enc_Sensor_Description (describe_sensor name s i)) = sizeof_Sensor_Description"
  by (rule length_enc_Sensor_Description) (simp add: describe_sensor_def Let_def)

lemma length_page_bytes [simp]: "length (page_bytes es h g) = sizeof_Sensor_Description * length es"
  by (induction es arbitrary: g) (simp_all add: Let_def case_prod_beta)

lemma page_groups_ok: "groups_ok g \<Longrightarrow> groups_ok (page_groups es h g)"
proof (induction es arbitrary: g)
  case (Cons e es)
  show ?case
    unfolding page_groups.simps
    by (rule Cons.IH, rule getGroupId_ok [OF Cons.prems prod.collapse [symmetric]])
qed simp

lemma overlay_append:
  "off + length a + length b \<le> length buf \<Longrightarrow>
     overlay (overlay buf off a) (off + length a) b = overlay buf off (a @ b)"
  by (simp add: overlay_def ac_simps)

lemma overlay_Nil [simp]: "off \<le> length buf \<Longrightarrow> overlay buf off [] = buf"
  by (simp add: overlay_def)

definition live :: "sensor_heap \<Rightarrow> nat \<Rightarrow> bool" where
  "live h a = (hobjs h a \<noteq> None)"

lemma heap_get_live: "live h a \<Longrightarrow> heap_get h a = Inr (the (hobjs h a))"
  by (auto simp: live_def heap_get_def)

lemma describe_entries_bytes:
  assumes "\<forall>e \<in> set es. live h (snd e)" "off + sizeof_Sensor_Description * length es \<le> length buf"
  shows "describe_entries es h off buf g = Inr (overlay buf off (page_bytes es h g),
    off + sizeof_Sensor_Description * length es, page_groups es h g)"
  using assms
proof (induction es arbitrary: off buf g)
  case (Cons e es)
  let ?s = "the (hobjs h (snd e))"
  obtain i g' where g: "getGroupId (mGroup (is_base ?s)) g = (i, g')" by force
  let ?d = "enc_Sensor_Description (describe_sensor (fst e) ?s i)"
  have len: "off + length ?d + sizeof_Sensor_Description * length es \<le> length buf"
    using Cons.prems(2) by (simp add: wire_simps)
  have "describe_entries es h (off + sizeof_Sensor_Description) (overlay buf off ?d) g' =
    Inr (overlay (overlay buf off ?d) (off + sizeof_Sensor_Description) (page_bytes es h g'),
      off + sizeof_Sensor_Description + sizeof_Sensor_Description * length es, page_groups es h g')"
    using Cons.prems len by (intro Cons.IH) (auto simp: length_overlay)
  moreover have "overlay (overlay buf off ?d) (off + sizeof_Sensor_Description) (page_bytes es h g') =
      overlay buf off (?d @ page_bytes es h g')"
    using overlay_append [of off ?d "page_bytes es h g'" buf] len by simp
  ultimately show ?case
    using Cons.prems len by (simp add: heap_get_live g put_bytes_ok add.assoc)
qed simp

lemma take_length_take: "take (length (take n xs)) xs = take n xs"
  by (cases "n \<le> length xs") auto

definition page_header :: "nat \<Rightarrow> u8 \<Rightarrow> u8 \<Rightarrow> nat \<Rightarrow> nat \<Rightarrow> Monitoring_Description_Header" where
  "page_header sz page pages entries start =
     \<lparr> mdh_header = \<lparr> mh_type = message_code Monitoring_Description, mh_size = htons (word_of_nat sz),
                     mh_version = 0 \<rparr>,
       currentPage = page, maxPages = pages, sensorEntries = word_of_nat entries,
       startIndex = htons (word_of_nat start) \<rparr>"

lemma getDescriptionPage_bytes:
  fixes S h buffer page
  defines "b \<equiv> length buffer" and "es \<equiv> mSensorMap S"
  defines "s \<equiv> (b - 9) div 72 mod 256"
  defines "pages \<equiv> pages_needed s (length es)"
  defines "part \<equiv> page_entries s (unat page) es"
  assumes "9 \<le> b" "b < 2 ^ 32" "0 < s" "length es < 65536" "pages \<le> 255" "1 \<le> unat page" "unat page \<le> pages"
    "\<forall>e \<in> set es. live h (snd e)"
  shows "\<exists>buffer'. getDescriptionPage buffer b page (S, h) =
      Inr (9 + 72 * length part, buffer', word_of_nat pages, S \<lparr> mKnownGroups := page_groups part h (mKnownGroups S) \<rparr>, h)
    \<and> length buffer' = b
    \<and> take (9 + 72 * length part) buffer' =
        enc_Monitoring_Description_Header (page_header (9 + 72 * length part) page (word_of_nat pages)
          (length part) ((unat page - 1) * s)) @ page_bytes part h (mKnownGroups S)"
proof -
  let ?spp = "sensors_per_page b"
  let ?cnt = "word_of_nat (length es) :: u16"
  let ?last = "page_count ?cnt ?spp"
  have spp: "unat ?spp = s" using assms(6,7) by (simp add: unat_sensors_per_page s_def)
  then have pos: "0 < ?spp" using assms(8) by (simp add: word_less_nat_alt)
  have last: "?last = word_of_nat pages"
  proof -
    have "unat ?last = pages"
      using page_count_needed [of "length es" ?spp] assms(9,10) pos by (simp add: spp pages_def)
    then show ?thesis by (metis word_nat_cast)
  qed
  obtain k where k: "sensors_on_page ?cnt ?spp page ?last = Inr k" "unat k = length part"
    using sensors_on_page_length [of es ?spp page] assms(9-12) pos by (auto simp: spp pages_def part_def)
  have start: "unat (starting_sensor page ?spp) = (unat page - 1) * s"
    using unat_starting_sensor [of page ?spp] assms(11) spp by (simp add: word_less_nat_alt)
  have below: "(unat page - 1) * s \<le> length es"
    using pages_needed_tight [of s "unat page" "length es"] assms(8,11,12)
    by (cases "unat page = 1") (auto simp: pages_def)
  have len: "length part = min s (length es - (unat page - 1) * s)"
    by (simp add: part_def page_entries_def)
  have fits: "\<not> length es < unat (starting_sensor page ?spp) + unat k"
    unfolding start k(2) len using below by simp
  have part_eq: "take (unat k) (drop (unat (starting_sensor page ?spp)) es) = part"
    unfolding start k(2) part_def page_entries_def by (rule take_length_take)
  have "72 * length part \<le> 72 * s" by (simp add: len)
  also have "\<dots> \<le> 72 * ((b - 9) div 72)" by (simp add: s_def)
  also have "\<dots> \<le> b - 9" by simp
  finally have room: "9 + 72 * length part \<le> b" using assms(6) by linarith
  let ?bytes = "page_bytes part h (mKnownGroups S)"
  have entries: "describe_entries part h 9 buffer (mKnownGroups S) =
      Inr (overlay buffer 9 ?bytes, 9 + 72 * length part, page_groups part h (mKnownGroups S))"
    using describe_entries_bytes [of part h 9 buffer "mKnownGroups S"] assms(13) room
    by (auto simp: wire_simps part_def page_entries_def b_def dest: in_set_takeD in_set_dropD)
  let ?hdr = "enc_Monitoring_Description_Header (page_header (9 + 72 * length part) page (word_of_nat pages)
      (length part) ((unat page - 1) * s))"
  have hdr: "enc_Monitoring_Description_Header
      \<lparr> mdh_header = \<lparr> mh_type = message_code Monitoring_Description,
          mh_size = htons (word_of_nat (9 + 72 * length part)), mh_version = 0 \<rparr>,
        currentPage = page, maxPages = word_of_nat pages, sensorEntries = k,
        startIndex = htons (starting_sensor page ?spp) \<rparr> = ?hdr"
    unfolding page_header_def using k(2) start by (metis word_nat_cast)
  have room1: "9 + length ?bytes \<le> length buffer" using room by (simp add: wire_simps b_def)
  have lh: "length ?hdr = 9" by (simp add: wire_simps)
  let ?buf = "overlay (overlay buffer 9 ?bytes) 0 ?hdr"
  have put: "put_bytes (overlay buffer 9 ?bytes) 0 ?hdr = Inr ?buf"
    using room1 lh by (simp add: put_bytes_ok length_overlay)
  have "getDescriptionPage buffer b page (S, h) =
      Inr (9 + 72 * length part, ?buf, word_of_nat pages,
        S \<lparr> mKnownGroups := page_groups part h (mKnownGroups S) \<rparr>, h)"
    unfolding getDescriptionPage_def Let_def prod.case es_def [symmetric] k(1) bind_res.simps
    using fits put
    by (simp only: if_False part_eq sizeof_Monitoring_Description_Header_def entries bind_res.simps
        prod.case hdr last)
  moreover have "length ?buf = b" using room1 lh by (simp add: length_overlay b_def)
  moreover have "take (9 + 72 * length part) ?buf = ?hdr @ ?bytes"
    using room1 lh by (simp add: overlay_def wire_simps b_def)
  ultimately show ?thesis by blast
qed

text \<open>A segment without room for one description: the modulo is a division by zero.\<close>

lemma getDescriptionPage_small:
  assumes "b < 81" "page = 1"
  shows "getDescriptionPage buffer b page st = Inl Div_by_zero"
proof -
  have "unat (sensors_per_page b) = 0" using assms(1) by (simp add: unat_sensors_per_page)
  then have "sensors_per_page b = 0" by (simp add: unat_eq_zero)
  then show ?thesis
    using assms(2)
    by (simp add: getDescriptionPage_def Let_def case_prod_beta sensors_on_page_def page_count_def)
qed

section \<open>Sampling\<close>

text \<open>A plugin's \<open>getData\<close> writes at most the bytes it announces.\<close>

fun sensor_ok :: "isensor \<Rightarrow> bool" where
  "sensor_ok (Bean b) = bean_ok b"
| "sensor_ok (Plugin p) = (\<forall>n. length (fst (pSamples p n)) \<le> pMaxDataSize p)"

text \<open>The bytes a sensor leaves in its place, given what was there before.\<close>

fun sample_bytes :: "isensor \<Rightarrow> bytes \<Rightarrow> bytes" where
  "sample_bytes (Bean b) old = mBeanData b"
| "sample_bytes (Plugin p) old =
     (let (d, ok) = pSamples p (pCalls p)
      in if ok then d @ drop (length d) old else replicate (pMaxDataSize p) 0)"

fun sampled :: "isensor \<Rightarrow> isensor" where
  "sampled (Bean b) = Bean b"
| "sampled (Plugin p) = Plugin (p \<lparr> pCalls := Suc (pCalls p) \<rparr>)"

lemma sampled_simps [simp]:
  "is_maxDataSize (sampled s) = is_maxDataSize s" "sensor_ok (sampled s) = sensor_ok s"
  by (cases s; simp)+

definition region :: "nat \<Rightarrow> nat \<Rightarrow> bytes \<Rightarrow> bytes" where
  "region off n d = take n (drop off d)"

lemma region_overlay_same: "off + length b \<le> length d \<Longrightarrow> region off (length b) (overlay d off b) = b"
  by (simp add: region_def overlay_def)

lemma region_overlay_other:
  "off + length b \<le> length d \<Longrightarrow> o' + n \<le> off \<or> off + length b \<le> o' \<Longrightarrow>
     region o' n (overlay d off b) = region o' n d"
proof (elim disjE)
  assume "off + length b \<le> length d" "o' + n \<le> off"
  then show ?thesis by (simp add: region_def take_drop overlay_take)
next
  assume "off + length b \<le> length d" "off + length b \<le> o'"
  then show ?thesis by (simp add: region_def overlay_drop)
qed

lemma length_sample_bytes:
  "sensor_ok s \<Longrightarrow> length old = is_maxDataSize s \<Longrightarrow> length (sample_bytes s old) = is_maxDataSize s"
proof (cases s)
  case (Plugin p)
  assume "sensor_ok s" "length old = is_maxDataSize s"
  with Plugin show ?thesis
    by (cases "pSamples p (pCalls p)") (auto dest: spec [of _ "pCalls p"])
qed (simp add: bean_ok_def)

lemma sample_sensor_bytes:
  assumes "hobjs h a = Some s" "sensor_ok s" "off + is_maxDataSize s \<le> length d"
  shows "sample_sensor a off d h = Inr (overlay d off (sample_bytes s (region off (is_maxDataSize s) d)),
    off + is_maxDataSize s, heap_put a (sampled s) h)"
proof (cases s)
  case (Bean b)
  with assms show ?thesis
    by (simp add: sample_sensor_def heap_get_def SensorBean_getData_def get_bytes_def bean_ok_def
        put_bytes_ok)
next
  case (Plugin p)
  obtain b ok where b: "pSamples p (pCalls p) = (b, ok)" by force
  have len: "length b \<le> pMaxDataSize p"
    using assms(2) Plugin b by (auto dest: spec [of _ "pCalls p"])
  have fit: "off + length b \<le> length d" "off + pMaxDataSize p \<le> length d"
    using len assms(3) Plugin by auto
  have short: "overlay d off b = overlay d off (b @ drop (length b) (region off (pMaxDataSize p) d))"
  proof -
    have "drop (length b) (region off (pMaxDataSize p) d) @ drop (off + pMaxDataSize p) d =
        drop (off + length b) d"
    proof -
      have "drop (length b) (region off (pMaxDataSize p) d) = take (pMaxDataSize p - length b) (drop (off + length b) d)"
        by (simp add: region_def drop_take add.commute)
      moreover have "drop (off + pMaxDataSize p) d = drop (pMaxDataSize p - length b) (drop (off + length b) d)"
        using len by (simp add: add.commute)
      ultimately show ?thesis by (simp only: append_take_drop_id)
    qed
    moreover have "length (b @ drop (length b) (region off (pMaxDataSize p) d)) = pMaxDataSize p"
      using fit len by (simp add: region_def)
    ultimately show ?thesis
      unfolding overlay_def by (metis append.assoc)
  qed
  have zero: "overlay (overlay d off b) off (replicate (pMaxDataSize p) 0) =
      overlay d off (replicate (pMaxDataSize p) 0)"
    using fit len by (simp add: overlay_def add.commute)
  have put: "put_bytes d off b = Inr (overlay d off b)"
    "put_bytes (overlay d off b) off (replicate (pMaxDataSize p) 0) =
       Inr (overlay d off (replicate (pMaxDataSize p) 0))"
    using fit zero by (simp_all add: put_bytes_ok length_overlay)
  show ?thesis
  proof (cases ok)
    case True
    then show ?thesis
      using assms(1) b Plugin put(1) by (simp add: sample_sensor_def heap_get_def Let_def short [symmetric])
  next
    case False
    then show ?thesis
      using assms(1) b Plugin put by (simp add: sample_sensor_def heap_get_def Let_def)
  qed
qed

primrec message_bytes :: "nat list \<Rightarrow> sensor_heap \<Rightarrow> bytes \<Rightarrow> bytes" where
  "message_bytes [] h old = []"
| "message_bytes (a # as) h old =
     (let s = the (hobjs h a); n = is_maxDataSize s
      in sample_bytes s (take n old) @ message_bytes as h (drop n old))"

definition total_size :: "nat list \<Rightarrow> sensor_heap \<Rightarrow> nat" where
  "total_size as h = sum_list (map (\<lambda>a. is_maxDataSize (the (hobjs h a))) as)"

definition sampled_heap :: "nat list \<Rightarrow> sensor_heap \<Rightarrow> sensor_heap" where
  "sampled_heap as h = fold (\<lambda>a h. heap_put a (sampled (the (hobjs h a))) h) as h"

definition ready :: "nat list \<Rightarrow> sensor_heap \<Rightarrow> bool" where
  "ready as h \<longleftrightarrow> distinct as \<and> (\<forall>a \<in> set as. \<exists>s. hobjs h a = Some s \<and> sensor_ok s)"

lemma message_bytes_cong:
  "\<forall>a \<in> set as. hobjs h' a = hobjs h a \<Longrightarrow> message_bytes as h' old = message_bytes as h old"
  by (induction as arbitrary: old) (simp_all add: Let_def)

lemma total_size_cong:
  "\<forall>a \<in> set as. hobjs h' a = hobjs h a \<Longrightarrow> total_size as h' = total_size as h"
  by (simp add: total_size_def cong: map_cong)

lemma sample_loop_bytes:
  assumes "ready as h" "off + total_size as h \<le> length d"
  shows "sample_loop as off d h =
      Inr (overlay d off (message_bytes as h (region off (total_size as h) d)), sampled_heap as h)
    \<and> length (message_bytes as h (region off (total_size as h) d)) = total_size as h"
  using assms
proof (induction as arbitrary: off d h)
  case Nil
  then show ?case by (simp add: total_size_def sampled_heap_def)
next
  case (Cons a as)
  from Cons.prems(1) obtain s where s: "hobjs h a = Some s" "sensor_ok s" and a: "a \<notin> set as"
    by (auto simp: ready_def)
  let ?n = "is_maxDataSize s" and ?h = "heap_put a (sampled s) h"
  have same: "\<forall>x \<in> set as. hobjs ?h x = hobjs h x" using a by (auto simp: heap_put_def)
  have tot: "total_size (a # as) h = ?n + total_size as h" by (simp add: total_size_def s)
  have tot': "total_size as ?h = total_size as h" by (rule total_size_cong [OF same])
  let ?old = "region off ?n d"
  let ?b = "sample_bytes s ?old"
  have lb: "length ?b = ?n"
    using Cons.prems(2) tot by (intro length_sample_bytes s(2)) (simp add: region_def)
  let ?d = "overlay d off ?b"
  have fit: "off + length ?b \<le> length d" using Cons.prems(2) tot lb by simp
  have ld: "length ?d = length d" by (rule length_overlay [OF fit])
  have first: "sample_sensor a off d h = Inr (?d, off + ?n, ?h)"
    by (rule sample_sensor_bytes [OF s]) (use Cons.prems(2) tot in simp)
  have rdy: "ready as ?h" using Cons.prems(1) same by (auto simp: ready_def)
  have fit2: "(off + ?n) + total_size as ?h \<le> length ?d" using Cons.prems(2) tot tot' ld by simp
  note IH = Cons.IH [OF rdy fit2]
  let ?rest = "region (off + ?n) (total_size as h) d"
  have old: "region (off + ?n) (total_size as h) ?d = ?rest"
    by (rule region_overlay_other [OF fit]) (simp add: lb)
  have all: "region off (total_size (a # as) h) d = ?old @ ?rest"
    by (simp add: tot region_def take_add drop_drop add.commute)
  have lo: "length ?old = ?n" using Cons.prems(2) tot by (simp add: region_def)
  have msg: "message_bytes (a # as) h (region off (total_size (a # as) h) d) = ?b @ message_bytes as h ?rest"
    using lo by (simp add: all s Let_def)
  have cong: "message_bytes as ?h x = message_bytes as h x" for x by (rule message_bytes_cong [OF same])
  have lr: "length (message_bytes as h ?rest) = total_size as h" using IH by (simp add: tot' old cong)
  have "overlay ?d (off + ?n) (message_bytes as h ?rest) = overlay d off (?b @ message_bytes as h ?rest)"
    using overlay_append [of off ?b "message_bytes as h ?rest" d] lb lr Cons.prems(2) tot by simp
  moreover have "sampled_heap (a # as) h = sampled_heap as ?h" by (simp add: sampled_heap_def s)
  ultimately show ?case
    using IH first lb lr msg by (simp add: tot' old cong tot)
qed

section \<open>The invariant of the set\<close>

text \<open>
  Every sensor of the map is live, no two entries share one, and the parsers' sensors are
  where they point; the message buffer has the size that was computed when it was built.
\<close>

definition set_ok :: "set_state \<Rightarrow> bool" where
  "set_ok st \<longleftrightarrow> (case st of (S, h) \<Rightarrow>
     heap_ok h \<and> map_ok (mSensorMap S) \<and> map_ok (mJSONSensorsParsers S) \<and> groups_ok (mKnownGroups S)
     \<and> ready (map snd (mSensorMap S)) h \<and> (\<forall>a s. hobjs h a = Some s \<longrightarrow> sensor_ok s)
     \<and> (\<forall>(n, p) \<in> set (mJSONSensorsParsers S). parser_ok p h))"

definition sized :: "set_state \<Rightarrow> bool" where
  "sized st \<longleftrightarrow> (case st of (S, h) \<Rightarrow>
     mSize S = 7 + total_size (map snd (mSensorMap S)) h \<and> length (mData S) = mSize S)"

lemma updateSensors_keeps:
  assumes "updateSensors p h = Inr (p', h')"
  shows "hnext h' = hnext h \<and> (\<forall>a s. hobjs h a = Some s \<longrightarrow> (\<exists>s'. hobjs h' a = Some s' \<and>
      is_maxDataSize s' = is_maxDataSize s \<and> (sensor_ok s \<longrightarrow> sensor_ok s'))) \<and>
    (\<forall>a. hobjs h a = None \<longrightarrow> hobjs h' a = None) \<and> (\<forall>q. parser_ok q h \<longrightarrow> parser_ok q h')
    \<and> (heap_ok h \<longrightarrow> heap_ok h')"
proof -
  define keeps where "keeps x y \<longleftrightarrow> hnext y = hnext x \<and>
    (\<forall>a s. hobjs x a = Some s \<longrightarrow> (\<exists>s'. hobjs y a = Some s' \<and>
      is_maxDataSize s' = is_maxDataSize s \<and> (sensor_ok s \<longrightarrow> sensor_ok s'))) \<and>
    (\<forall>a. hobjs x a = None \<longrightarrow> hobjs y a = None) \<and> (\<forall>q. parser_ok q x \<longrightarrow> parser_ok q y)
    \<and> (heap_ok x \<longrightarrow> heap_ok y)" for x y
  have refl: "keeps x x" for x by (simp add: keeps_def)
  have trans: "keeps x z" if "keeps x y" "keeps y z" for x y z
    using that unfolding keeps_def by (metis (no_types, lifting))
  have one: "keeps x y" if u: "update_sensor v a x = Inr y" for v a x y
    using update_sensor_effect [OF u]
  proof (elim disjE exE conjE)
    fix b d assume "hobjs x a = Some (Bean b)" "length d = length (mBeanData b)"
      and y: "y = heap_put a (Bean (b \<lparr> mBeanData := d \<rparr>)) x"
    then show ?thesis
      using update_sensor_parser_ok [OF u] update_sensor_heap_ok [OF u]
      by (auto simp: keeps_def heap_put_def bean_ok_def)
  qed (simp add: refl)
  have loop: "update_loop data i as x = Inr y \<Longrightarrow> keeps x y" for data i as x y
    by (induction as arbitrary: i x) (auto simp: bind_res_Inr_iff refl dest: one intro: trans)
  have "keeps h h'"
    using assms
    by (auto simp: updateSensors_def Let_def bind_res_Inr_iff refl split: prod.splits if_splits
        dest: loop)
  then show ?thesis by (simp add: keeps_def)
qed

lemma update_parsers_keeps:
  assumes "update_parsers ps h = Inr (ps', h')"
  shows "hnext h' = hnext h \<and> (\<forall>a s. hobjs h a = Some s \<longrightarrow> (\<exists>s'. hobjs h' a = Some s' \<and>
      is_maxDataSize s' = is_maxDataSize s \<and> (sensor_ok s \<longrightarrow> sensor_ok s'))) \<and>
    (\<forall>a. hobjs h a = None \<longrightarrow> hobjs h' a = None) \<and> (\<forall>q. parser_ok q h \<longrightarrow> parser_ok q h')
    \<and> (heap_ok h \<longrightarrow> heap_ok h') \<and> map fst ps' = map fst ps \<and>
    ((\<forall>(n, p) \<in> set ps. parser_ok p h) \<longrightarrow> heap_ok h \<longrightarrow> (\<forall>(n, p) \<in> set ps'. parser_ok p h'))"
  using assms
proof (induction ps arbitrary: h ps')
  case (Cons e ps)
  from Cons.prems obtain p h1 qs where u: "updateSensors (snd e) h = Inr (p, h1)"
    and r: "update_parsers ps h1 = Inr (qs, h')" and ps': "ps' = (fst e, p) # qs"
    by (auto simp: bind_res_Inr_iff)
  note k = updateSensors_keeps [OF u] and IH = Cons.IH [OF r]
  have "parser_ok p h'" if "parser_ok (snd e) h" "heap_ok h"
    using updateSensors_ok [OF u that(2,1)] IH by blast
  then have last: "(\<forall>(n, p) \<in> set (e # ps). parser_ok p h) \<longrightarrow> heap_ok h \<longrightarrow>
      (\<forall>(n, p) \<in> set ps'. parser_ok p h')"
    using k IH by (cases e) (auto simp: ps')
  have objs: "\<exists>s'. hobjs h' a = Some s' \<and> is_maxDataSize s' = is_maxDataSize s \<and> (sensor_ok s \<longrightarrow> sensor_ok s')"
    if "hobjs h a = Some s" for a s
  proof -
    from k that obtain s1 where s1: "hobjs h1 a = Some s1" "is_maxDataSize s1 = is_maxDataSize s"
      "sensor_ok s \<longrightarrow> sensor_ok s1" by blast
    with IH obtain s2 where "hobjs h' a = Some s2" "is_maxDataSize s2 = is_maxDataSize s1"
      "sensor_ok s1 \<longrightarrow> sensor_ok s2" by blast
    with s1 show ?thesis by auto
  qed
  from k IH objs last show ?case by (simp add: ps')
qed simp

section \<open>The message\<close>

definition data_header_bytes :: "nat \<Rightarrow> nat \<Rightarrow> u8 \<Rightarrow> bytes" where
  "data_header_bytes sz cnt version =
     [message_code Monitoring_Data] @ rev (u16_mem (word_of_nat sz)) @ [version]
     @ rev (u16_mem (word_of_nat cnt)) @ [0]"

lemma length_data_header_bytes [simp]: "length (data_header_bytes sz cnt v) = 7"
  by (simp add: data_header_bytes_def)

lemma data_header_ok:
  assumes "7 \<le> length d"
  shows "data_header S d = Inr (data_header_bytes (mSize S) (length (mSensorMap S)) (d ! 3) @ drop 7 d)"
proof -
  obtain a0 a1 a2 a3 a4 a5 a6 r where d: "d = a0 # a1 # a2 # a3 # a4 # a5 # a6 # r"
    using assms by (auto simp: numeral_eq_Suc Suc_le_length_iff)
  obtain x y where s: "u16_mem (htons (word_of_nat (mSize S))) = [x, y]"
    by (simp add: u16_mem_def)
  obtain v w where c: "u16_mem (htons (word_of_nat (length (mSensorMap S)))) = [v, w]"
    by (simp add: u16_mem_def)
  have s': "rev (u16_mem (word_of_nat (mSize S))) = [x, y]" using s by (simp add: u16_mem_htons)
  have c': "rev (u16_mem (word_of_nat (length (mSensorMap S)))) = [v, w]" using c by (simp add: u16_mem_htons)
  show ?thesis
    unfolding data_header_def data_header_bytes_def s c s' c'
    by (simp add: d put_bytes_def overlay_def)
qed

lemma total_size_keeps:
  assumes "ready as h"
    and "\<forall>a s. hobjs h a = Some s \<longrightarrow> (\<exists>s'. hobjs h' a = Some s' \<and>
      is_maxDataSize s' = is_maxDataSize s \<and> (sensor_ok s \<longrightarrow> sensor_ok s'))"
  shows "ready as h' \<and> total_size as h' = total_size as h"
proof
  show "ready as h'" using assms unfolding ready_def by metis
  have "is_maxDataSize (the (hobjs h' a)) = is_maxDataSize (the (hobjs h a))" if "a \<in> set as" for a
    using that assms unfolding ready_def by (metis option.sel)
  then show "total_size as h' = total_size as h" by (simp add: total_size_def cong: map_cong)
qed

lemma sampled_heap_keeps:
  assumes "\<forall>a \<in> set as. hobjs h a \<noteq> None"
  shows "hnext (sampled_heap as h) = hnext h \<and>
    (\<forall>a s. hobjs h a = Some s \<longrightarrow> (\<exists>s'. hobjs (sampled_heap as h) a = Some s' \<and>
      is_maxDataSize s' = is_maxDataSize s \<and> (sensor_ok s \<longrightarrow> sensor_ok s') \<and>
      (\<forall>b. (s' = Bean b) = (s = Bean b)))) \<and>
    (\<forall>a. hobjs h a = None \<longrightarrow> hobjs (sampled_heap as h) a = None)"
  using assms
proof (induction as arbitrary: h)
  case (Cons a as)
  let ?h = "heap_put a (sampled (the (hobjs h a))) h"
  from Cons.prems obtain s0 where s0: "hobjs h a = Some s0" by auto
  have "\<forall>x \<in> set as. hobjs ?h x \<noteq> None" using Cons.prems by (auto simp: heap_put_def)
  note IH = Cons.IH [OF this]
  have b: "(sampled s0 = Bean b) = (s0 = Bean b)" for b by (cases s0) auto
  have e: "sampled_heap (a # as) h = sampled_heap as ?h" by (simp add: sampled_heap_def)
  show ?case
    unfolding e
  proof (intro conjI allI impI)
    show "hnext (sampled_heap as ?h) = hnext h" using IH by (simp add: heap_put_def)
    show "hobjs (sampled_heap as ?h) x = None" if "hobjs h x = None" for x
    proof -
      have "hobjs ?h x = None" using that s0 by (auto simp: heap_put_def)
      with IH show ?thesis by blast
    qed
    fix x s assume x: "hobjs h x = Some s"
    obtain s1 where s1: "hobjs ?h x = Some s1" "is_maxDataSize s1 = is_maxDataSize s"
      "sensor_ok s \<longrightarrow> sensor_ok s1" "\<forall>b. (s1 = Bean b) = (s = Bean b)"
      using x s0 b by (cases "x = a") (auto simp: heap_put_def)
    with IH obtain s2 where "hobjs (sampled_heap as ?h) x = Some s2" "is_maxDataSize s2 = is_maxDataSize s1"
      "sensor_ok s1 \<longrightarrow> sensor_ok s2" "\<forall>b. (s2 = Bean b) = (s1 = Bean b)" by blast
    with s1 show "\<exists>s'. hobjs (sampled_heap as ?h) x = Some s' \<and> is_maxDataSize s' = is_maxDataSize s \<and>
        (sensor_ok s \<longrightarrow> sensor_ok s') \<and> (\<forall>b. (s' = Bean b) = (s = Bean b))" by auto
  qed
qed (simp add: sampled_heap_def)

lemma getMessage_bytes:
  assumes ok: "set_ok (S, h)" and sz: "sized (S, h)"
    and up: "update_parsers (mJSONSensorsParsers S) h = Inr (ps, h1)"
  defines "as \<equiv> map snd (mSensorMap S)"
  defines "msg \<equiv> data_header_bytes (mSize S) (length (mSensorMap S)) (mData S ! 3)
    @ message_bytes as h1 (drop 7 (mData S))"
  shows "getMessage (S, h) = Inr (msg, S \<lparr> mJSONSensorsParsers := ps, mData := msg \<rparr>, sampled_heap as h1)
    \<and> length msg = mSize S"
proof -
  have len: "length (mData S) = 7 + total_size as h" using sz by (simp add: sized_def as_def)
  let ?hd = "data_header_bytes (mSize S) (length (mSensorMap S)) (mData S ! 3)"
  have hl: "length ?hd = 7" by simp
  have hdr: "data_header S (mData S) = Inr (?hd @ drop 7 (mData S))"
    by (rule data_header_ok) (simp add: len)
  have "ready as h" using ok by (simp add: set_ok_def as_def)
  with update_parsers_keeps [OF up] have r: "ready as h1" "total_size as h1 = total_size as h"
    using total_size_keeps [of as h h1] by blast+
  have fit: "7 + total_size as h1 \<le> length (?hd @ drop 7 (mData S))" by (simp add: hl len r)
  have reg: "region 7 (total_size as h1) (?hd @ drop 7 (mData S)) = drop 7 (mData S)"
    by (simp add: region_def hl len r)
  note loop = sample_loop_bytes [OF r(1) fit, unfolded reg]
  have "overlay (?hd @ drop 7 (mData S)) 7 (message_bytes as h1 (drop 7 (mData S))) = msg"
    using loop by (simp add: overlay_def hl len r msg_def)
  with loop have "getMessage (S, h) = Inr (msg, S \<lparr> mJSONSensorsParsers := ps, mData := msg \<rparr>, sampled_heap as h1)"
    by (simp add: getMessage_def hdr up as_def wire_simps)
  moreover have "length msg = mSize S"
    using loop sz r(2) by (simp add: msg_def sized_def as_def)
  ultimately show ?thesis ..
qed

text \<open>Its only faults are those of the JSON data.\<close>

lemma getMessage_faults:
  assumes "set_ok (S, h)" "sized (S, h)" "getMessage (S, h) = Inl e"
  shows "update_parsers (mJSONSensorsParsers S) h = Inl e"
proof (cases "update_parsers (mJSONSensorsParsers S) h")
  case (Inr r)
  with getMessage_bytes [OF assms(1,2)] assms(3) show ?thesis by (cases r) auto
next
  case (Inl f)
  have "data_header S (mData S) = Inr (data_header_bytes (mSize S) (length (mSensorMap S)) (mData S ! 3)
      @ drop 7 (mData S))"
    using assms(2) by (intro data_header_ok) (simp add: sized_def)
  with Inl assms(3) show ?thesis by (simp add: getMessage_def)
qed

section \<open>Keeping the invariant\<close>

lemma parser_ok_mono:
  "parser_ok p h \<Longrightarrow> heap_ok h \<Longrightarrow> \<forall>a < hnext h. hobjs h' a = hobjs h a \<Longrightarrow> parser_ok p h'"
  unfolding parser_ok_def heap_ok_def by fastforce

lemma map_ok_distinct_snd:
  "map_ok m \<Longrightarrow> inj_on snd (set m) \<Longrightarrow> distinct (map snd m)"
  by (metis distinct_map map_ok_distinct)

lemma ready_inj: "ready (map snd m) h \<Longrightarrow> inj_on snd (set m)"
  by (simp add: ready_def distinct_map)

text \<open>A larger map over a heap that only grew.\<close>

lemma set_ok_grow:
  assumes ok: "set_ok (S, h)" and hok: "heap_ok h'"
    and old: "hnext h \<le> hnext h'" "\<forall>a < hnext h. hobjs h' a = hobjs h a"
    and all: "\<forall>a s. hobjs h' a = Some s \<longrightarrow> sensor_ok s"
    and m: "map_ok M" "set M \<subseteq> set new \<union> set (mSensorMap S)"
    and new: "inj_on snd (set new)" "\<forall>(k, a) \<in> set new. hnext h \<le> a \<and> hobjs h' a \<noteq> None"
    and ps: "map_ok ps" "\<forall>(n, p) \<in> set ps. parser_ok p h \<or> parser_ok p h'"
  shows "set_ok (S \<lparr> mSensorMap := M, mJSONSensorsParsers := ps \<rparr>, h')"
proof -
  have h: "heap_ok h" and rdy: "ready (map snd (mSensorMap S)) h" using ok by (simp_all add: set_ok_def)
  have low: "a < hnext h" if "a \<in> snd ` set (mSensorMap S)" for a
    using that rdy h unfolding ready_def heap_ok_def by fastforce
  have "inj_on snd (set new \<union> set (mSensorMap S))"
  proof (rule inj_onI)
    fix x y assume "x \<in> set new \<union> set (mSensorMap S)" "y \<in> set new \<union> set (mSensorMap S)" "snd x = snd y"
    then show "x = y"
      using new low inj_onD [OF new(1)] inj_onD [OF ready_inj [OF rdy]]
      by (cases x; cases y) (fastforce simp: image_iff)
  qed
  then have "distinct (map snd M)" using m by (intro map_ok_distinct_snd) (auto intro: inj_on_subset)
  moreover have "\<exists>s. hobjs h' a = Some s" if a: "a \<in> set (map snd M)" for a
  proof -
    from a m(2) consider "a \<in> snd ` set new" | "a \<in> snd ` set (mSensorMap S)" by auto
    then show ?thesis
    proof cases
      case 1
      with new(2) show ?thesis by auto
    next
      case 2
      with low old(2) rdy show ?thesis unfolding ready_def by fastforce
    qed
  qed
  ultimately have "ready (map snd M) h'" using all unfolding ready_def by blast
  moreover have "\<forall>(n, p) \<in> set ps. parser_ok p h'" using ps(2) parser_ok_mono [OF _ h old(2)] by blast
  ultimately show ?thesis using ok hok all m(1) ps(1) by (simp add: set_ok_def)
qed

lemma set_map_insert_all: "set (map_insert_all other m) \<subseteq> set other \<union> set m"
proof (induction other arbitrary: m)
  case (Cons p other)
  obtain k v where p: "p = (k, v)" by force
  have "set (map_insert_all other (map_insert k v m)) \<subseteq> set other \<union> set (map_insert k v m)"
    by (rule Cons.IH)
  also have "\<dots> \<subseteq> set (p # other) \<union> set m" using set_map_insert [of k v m] by (auto simp: p)
  finally show ?case by (simp add: p)
qed simp

lemma jp_sensors_inj: "parser_ok p h \<Longrightarrow> inj_on snd (set (jp_sensors p))"
proof (rule inj_onI)
  fix x y assume p: "parser_ok p h" and xy: "x \<in> set (jp_sensors p)" "y \<in> set (jp_sensors p)" "snd x = snd y"
  have name: "\<exists>b. hobjs h (snd z) = Some (Bean b) \<and> mName b = fst z" if "z \<in> set (jp_sensors p)" for z
    using p that unfolding parser_ok_def by (cases z) auto
  from name [OF xy(1)] name [OF xy(2)] xy(3) have "fst x = fst y" by auto
  with xy(3) show "x = y" by (simp add: prod_eq_iff)
qed

lemma sensor_ok_grow:
  assumes "\<forall>a s. hobjs h a = Some s \<longrightarrow> sensor_ok s" "heap_ok h'" "\<forall>a < hnext h. hobjs h' a = hobjs h a"
    "\<forall>a p. hobjs h' a = Some (Plugin p) \<longrightarrow> hobjs h a = Some (Plugin p)"
  shows "\<forall>a s. hobjs h' a = Some s \<longrightarrow> sensor_ok s"
proof (intro allI impI)
  fix a s assume s: "hobjs h' a = Some s"
  show "sensor_ok s"
  proof (cases s)
    case (Bean b)
    with s assms(2) show ?thesis by (auto simp: heap_ok_def)
  next
    case (Plugin p)
    with s assms(1,4) show ?thesis by blast
  qed
qed

lemma describe_loop_beans:
  "describe_loop junk d n i (p, h) = Inr (p', h') \<Longrightarrow> heap_ok h \<Longrightarrow> hobjs h' a = Some (Plugin q) \<Longrightarrow>
     hobjs h a = Some (Plugin q)"
proof (induction n arbitrary: i p h)
  case (Suc n)
  from Suc.prems(1) obtain v r where v: "Value_index d i = Inr v" and r: "parse_sensor junk v = Inr r"
    by (auto simp: bind_res_Inr_iff)
  show ?case
  proof (cases r)
    case None
    with Suc v r show ?thesis by simp
  next
    case (Some s)
    let ?h = "h \<lparr> hobjs := (hobjs h)(hnext h \<mapsto> Bean s), hnext := Suc (hnext h) \<rparr>"
    have "parsed_bean s" using parse_sensor_bean r Some by blast
    then have "heap_ok ?h" using Suc.prems(2) by (auto simp: heap_ok_def parsed_bean_def less_Suc_eq)
    with Suc.IH [of "Suc i" _ ?h] Suc.prems v r Some have "hobjs ?h a = Some (Plugin q)"
      by (simp add: heap_new_def)
    then show ?thesis by (auto split: if_splits)
  qed
qed auto

lemma getSensors_plugins:
  "getSensors junk (JSONSensorsParser_ctor prov name) h = Inr (m, p, h') \<Longrightarrow> heap_ok h \<Longrightarrow>
     hobjs h' a = Some (Plugin q) \<Longrightarrow> hobjs h a = Some (Plugin q)"
  by (auto simp: getSensors_def JSONSensorsParser_ctor_def Let_def bind_res_Inr_iff
      split: if_splits dest: describe_loop_beans)

lemma addJSONSensorProvider_ok:
  assumes ok: "set_ok (S, h)" and run: "addJSONSensorProvider junk prov name (S, h) = Inr (b, S', h')"
  shows "set_ok (S', h')"
proof (cases "map_of (mJSONSensorsParsers S) name")
  case (Some q)
  with ok run show ?thesis by (simp add: addJSONSensorProvider_def)
next
  case None
  with run obtain m p where g: "getSensors junk (JSONSensorsParser_ctor prov name) h = Inr (m, p, h')"
    and S': "S' = S \<lparr> mSensorMap := map_insert_all m (mSensorMap S),
        mJSONSensorsParsers := map_assign name p (mJSONSensorsParsers S) \<rparr>"
    by (auto simp: addJSONSensorProvider_def bind_res_Inr_iff)
  have h: "heap_ok h" and ms: "map_ok (mSensorMap S)" "map_ok (mJSONSensorsParsers S)"
    and all: "\<forall>a s. hobjs h a = Some s \<longrightarrow> sensor_ok s"
    and ps: "\<forall>(n, p) \<in> set (mJSONSensorsParsers S). parser_ok p h"
    using ok by (simp_all add: set_ok_def)
  note gs = getSensors_ok [OF g h]
  have new: "\<forall>(k, a) \<in> set m. hnext h \<le> a \<and> hobjs h' a \<noteq> None"
    using gs unfolding parser_ok_def by fastforce
  show ?thesis
    unfolding S'
  proof (rule set_ok_grow [OF ok, where new = m])
    show "\<forall>a s. hobjs h' a = Some s \<longrightarrow> sensor_ok s"
      using sensor_ok_grow [OF all] gs getSensors_plugins [OF g h] by blast
    show "inj_on snd (set m)" using gs jp_sensors_inj by blast
    show "\<forall>(n, p) \<in> set (map_assign name p (mJSONSensorsParsers S)). parser_ok p h \<or> parser_ok p h'"
      using ps gs None by (auto simp: set_map_assign_new)
  qed (use gs new ms set_map_insert_all in auto)
qed

lemma set_ok_new_plugin:
  assumes ok: "set_ok (S, h)" and q: "sensor_ok (Plugin q)"
    and M: "map_ok M" "set M \<subseteq> insert (k, hnext h) (set (mSensorMap S))"
  shows "set_ok (S \<lparr> mSensorMap := M \<rparr>, snd (heap_new (Plugin q) h))"
proof -
  let ?h = "snd (heap_new (Plugin q) h)"
  have h: "heap_ok h" and all: "\<forall>a s. hobjs h a = Some s \<longrightarrow> sensor_ok s"
    and ps: "\<forall>(n, p) \<in> set (mJSONSensorsParsers S). parser_ok p h" "map_ok (mJSONSensorsParsers S)"
    using ok by (simp_all add: set_ok_def)
  have "set_ok (S \<lparr> mSensorMap := M, mJSONSensorsParsers := mJSONSensorsParsers S \<rparr>, ?h)"
  proof (rule set_ok_grow [OF ok, where new = "[(k, hnext h)]"])
    show "heap_ok ?h" using h by (auto simp: heap_new_def heap_ok_def less_Suc_eq)
    show "\<forall>a s. hobjs ?h a = Some s \<longrightarrow> sensor_ok s" using all q by (auto simp: heap_new_def)
  qed (use M ps in \<open>auto simp: heap_new_def\<close>)
  then show ?thesis by simp
qed

text \<open>The plugins keep the contract of \<open>ISensor\<close>: none writes more than it announces.\<close>

definition plugins_ok :: "plugins \<Rightarrow> bool" where
  "plugins_ok env \<longleftrightarrow>
     (\<forall>name p opts. createSensor env name = Some p \<longrightarrow> sensor_ok (Plugin (snd (configureSensor env name opts p)))) \<and>
     (\<forall>name m. createSensorProvider env name = Some m \<longrightarrow> (\<forall>(k, p) \<in> set m. sensor_ok (Plugin p)))"

lemma set_ok_same_map: "set_ok (S, h) \<Longrightarrow> set_ok (S \<lparr> mSensorMap := mSensorMap S \<rparr>, h)"
  by simp

lemma map_assign_subset: "set (map_assign k v m) \<subseteq> insert (k, v) (set m)"
  by (induction m) (auto split: if_splits)

lemma manual_sensor_ok:
  assumes env: "plugins_ok env" and ok: "set_ok st"
  shows "set_ok (manual_sensor env c i st)"
proof (cases st)
  case (Pair S h)
  let ?pn = "GetString c ''Sensors'' (numbered ''pluginName'' i) []"
  let ?opts = "GetString c ''Sensors'' (numbered ''options'' i) []"
  let ?sn = "GetString c ''Sensors'' (numbered ''sensorName'' i) []"
  show ?thesis
  proof (cases "createSensor env ?pn")
    case None
    with ok show ?thesis by (simp add: manual_sensor_def Let_def)
  next
    case (Some q)
    obtain b q' where q': "configureSensor env ?pn ?opts q = (b, q')" by force
    then have sq: "sensor_ok (Plugin q')" using env Some unfolding plugins_ok_def by (metis snd_conv)
    have ms: "map_ok (mSensorMap S)" using ok by (simp add: Pair set_ok_def)
    have "set_ok (S, snd (heap_new (Plugin q') h))"
      using set_ok_new_plugin [OF _ sq, of S h "mSensorMap S" "[]"] ok ms by (auto simp: Pair)
    moreover have "set_ok (S \<lparr> mSensorMap := map_assign ?sn (hnext h) (mSensorMap S) \<rparr>,
        snd (heap_new (Plugin q') h))"
      by (rule set_ok_new_plugin [OF _ sq map_ok_assign [OF ms] map_assign_subset])
         (use ok in \<open>simp add: Pair\<close>)
    ultimately show ?thesis
      using ok Some q' by (simp add: manual_sensor_def Let_def Pair heap_new_def)
  qed
qed

lemma manual_loop_ok: "plugins_ok env \<Longrightarrow> set_ok st \<Longrightarrow> set_ok (manual_loop env c n i st)"
  by (induction n arbitrary: i st) (simp_all add: manual_sensor_ok)

lemma insert_provided_ok:
  "\<forall>(k, p) \<in> set es. sensor_ok (Plugin p) \<Longrightarrow> set_ok st \<Longrightarrow> set_ok (insert_provided es st)"
proof (induction es arbitrary: st)
  case (Cons e es)
  obtain S h where st: "st = (S, h)" by force
  have ms: "map_ok (mSensorMap S)" using Cons.prems(2) by (simp add: st set_ok_def)
  have "sensor_ok (Plugin (snd e))" using Cons.prems(1) by (cases e) auto
  then have "set_ok (S \<lparr> mSensorMap := map_insert (fst e) (hnext h) (mSensorMap S) \<rparr>,
      snd (heap_new (Plugin (snd e)) h))"
    by (intro set_ok_new_plugin [OF _ _ map_ok_insert [OF ms] set_map_insert])
       (use Cons.prems(2) in \<open>simp_all add: st\<close>)
  then show ?case
    using Cons.IH Cons.prems(1) by (simp add: st heap_new_def)
qed simp

lemma provider_loop_ok: "plugins_ok env \<Longrightarrow> set_ok st \<Longrightarrow> set_ok (provider_loop env names st)"
proof (induction names arbitrary: st)
  case (Cons n names)
  have "set_ok (case createSensorProvider env n of None \<Rightarrow> st | Some m \<Rightarrow> insert_provided m st)"
  proof (cases "createSensorProvider env n")
    case (Some m)
    then have "\<forall>(k, p) \<in> set m. sensor_ok (Plugin p)"
      using Cons.prems(1) unfolding plugins_ok_def by blast
    from insert_provided_ok [OF this Cons.prems(2)] Some show ?thesis by simp
  qed (use Cons.prems in simp)
  with Cons show ?case by simp
qed simp

lemma json_provider_loop_ok:
  "json_provider_loop env junk names st = Inr st' \<Longrightarrow> set_ok st \<Longrightarrow> set_ok st'"
proof (induction names arbitrary: st)
  case (Cons n names)
  obtain S h where st: "st = (S, h)" by force
  from Cons.prems(1) obtain st1 where r: "json_provider_loop env junk names st1 = Inr st'"
    and one: "st1 = st \<or> (\<exists>p b. addJSONSensorProvider junk p n st = Inr (b, st1))"
    by (auto simp: bind_res_Inr_iff split: option.splits)
  have "set_ok st1"
    using one Cons.prems(2) addJSONSensorProvider_ok by (cases st1) (auto simp: st)
  from Cons.IH [OF r this] show ?case .
qed simp

lemma sum_sizes_total: "ready as h \<Longrightarrow> sum_sizes as h = Inr (total_size as h)"
  by (induction as) (auto simp: ready_def total_size_def heap_get_def)

lemma SensorSet_ctor_ok:
  assumes env: "plugins_ok env" and h: "heap_ok h" "\<forall>a s. hobjs h a = Some s \<longrightarrow> sensor_ok s"
    and run: "SensorSet_ctor env c j junk h = Inr st"
  shows "set_ok st \<and> sized st"
proof -
  have e: "set_ok (sensor_set_empty, h)"
    using h by (simp add: set_ok_def sensor_set_empty_def groups_ok_def ready_def)
  from run obtain S h' n where j: "json_provider_loop env junk
        (getline_split (GetString c ''Plugins'' ''JSONSensorProviders'' []))
        (provider_loop env (getline_split (GetString c ''Plugins'' ''SensorProviders'' []))
          (manual_loop env c (nat (GetInt j c ''Sensors'' ''count'' 0)) 0 (sensor_set_empty, h))) = Inr (S, h')"
    and n: "sum_sizes (map snd (mSensorMap S)) h' = Inr n"
    and st: "st = (S \<lparr> mSize := 7 + n, mData := malloc_bytes junk (7 + n) \<rparr>, h')"
    by (auto simp: SensorSet_ctor_def Let_def bind_res_Inr_iff wire_simps split: if_splits)
  have ok: "set_ok (S, h')"
    by (rule json_provider_loop_ok [OF j]) (intro provider_loop_ok manual_loop_ok env e)
  then have "ready (map snd (mSensorMap S)) h'" by (simp add: set_ok_def)
  with n have "n = total_size (map snd (mSensorMap S)) h'" by (simp add: sum_sizes_total)
  with ok show ?thesis by (simp add: st set_ok_def sized_def)
qed

lemma parser_ok_sampled:
  assumes "parser_ok p h" "\<forall>a \<in> set as. hobjs h a \<noteq> None"
  shows "parser_ok p (sampled_heap as h)"
proof -
  have "hobjs (sampled_heap as h) a = Some (Bean b)" if "hobjs h a = Some (Bean b)" for a b
  proof -
    from sampled_heap_keeps [OF assms(2)] that obtain s' where
      "hobjs (sampled_heap as h) a = Some s'" "\<forall>b'. (s' = Bean b') = (Bean b = Bean b')" by blast
    then show ?thesis by simp
  qed
  with assms(1) show ?thesis unfolding parser_ok_def by (fastforce split: prod.splits)
qed

lemma getMessage_ok:
  assumes ok: "set_ok (S, h)" and sz: "sized (S, h)" and run: "getMessage (S, h) = Inr (msg, S', h')"
  shows "set_ok (S', h') \<and> sized (S', h') \<and> length msg = mSize S \<and> mSize S' = mSize S
    \<and> mSensorMap S' = mSensorMap S \<and> hnext h' = hnext h"
proof -
  let ?as = "map snd (mSensorMap S)"
  obtain ps h1 where up: "update_parsers (mJSONSensorsParsers S) h = Inr (ps, h1)"
  proof (cases "update_parsers (mJSONSensorsParsers S) h")
    case (Inl e)
    have "data_header S (mData S) = Inr (data_header_bytes (mSize S) (length (mSensorMap S)) (mData S ! 3)
        @ drop 7 (mData S))"
      using sz by (intro data_header_ok) (simp add: sized_def)
    with Inl run show ?thesis by (simp add: getMessage_def)
  qed auto
  note k = update_parsers_keeps [OF up]
  have rdy: "ready ?as h" using ok by (simp add: set_ok_def)
  have k1: "\<forall>a s. hobjs h a = Some s \<longrightarrow> (\<exists>s'. hobjs h1 a = Some s' \<and>
      is_maxDataSize s' = is_maxDataSize s \<and> (sensor_ok s \<longrightarrow> sensor_ok s'))" using k by blast
  have r1: "ready ?as h1" "total_size ?as h1 = total_size ?as h"
    using total_size_keeps [OF rdy k1] by blast+
  have l1: "\<forall>a \<in> set ?as. hobjs h1 a \<noteq> None" using r1(1) unfolding ready_def by fastforce
  note s = sampled_heap_keeps [OF l1]
  have s1: "\<forall>a s. hobjs h1 a = Some s \<longrightarrow> (\<exists>s'. hobjs (sampled_heap ?as h1) a = Some s' \<and>
      is_maxDataSize s' = is_maxDataSize s \<and> (sensor_ok s \<longrightarrow> sensor_ok s'))" using s by blast
  have r2: "ready ?as (sampled_heap ?as h1)" "total_size ?as (sampled_heap ?as h1) = total_size ?as h1"
    using total_size_keeps [OF r1(1) s1] by blast+
  from getMessage_bytes [OF ok sz up] run
  have res: "msg = data_header_bytes (mSize S) (length (mSensorMap S)) (mData S ! 3)
        @ message_bytes ?as h1 (drop 7 (mData S))"
    "S' = S \<lparr> mJSONSensorsParsers := ps, mData := msg \<rparr>" "h' = sampled_heap ?as h1" "length msg = mSize S"
    by auto
  have all: "sensor_ok s'" if s': "hobjs h' a = Some s'" for a s'
  proof (cases "hobjs h a")
    case None
    with k s s' res(3) show ?thesis by (metis option.distinct(1))
  next
    case (Some s0)
    then have "sensor_ok s0" using ok by (auto simp: set_ok_def)
    moreover obtain t where t: "hobjs h1 a = Some t" "sensor_ok s0 \<longrightarrow> sensor_ok t" using k1 Some by blast
    moreover obtain t' where "hobjs h' a = Some t'" "sensor_ok t \<longrightarrow> sensor_ok t'" using s1 t(1) res(3) by blast
    ultimately show ?thesis using s' by simp
  qed
  have hok: "heap_ok h'"
    unfolding heap_ok_def
  proof (intro allI impI conjI)
    fix a s' assume s': "hobjs h' a = Some s'"
    then have "hobjs h1 a \<noteq> None" using s res(3) by (metis option.distinct(1))
    moreover have "heap_ok h1" using ok k by (simp add: set_ok_def)
    ultimately show "a < hnext h'" using s res(3) unfolding heap_ok_def by fastforce
    show "bean_ok b" if "s' = Bean b" for b using all [OF s'] that by simp
  qed
  have "map_ok ps" using ok k by (simp add: set_ok_def map_ok_def)
  moreover have "\<forall>(n, p) \<in> set ps. parser_ok p h'"
  proof -
    have "\<forall>(n, p) \<in> set ps. parser_ok p h1" using ok k by (auto simp: set_ok_def)
    then show ?thesis using parser_ok_sampled [OF _ l1] res(3) by blast
  qed
  ultimately have "set_ok (S', h')" using ok hok all r2(1) res(2,3) by (auto simp: set_ok_def)
  moreover have "sized (S', h')" using sz r1(2) r2(2) res by (simp add: sized_def)
  moreover have "hnext h' = hnext h" using s k res(3) by simp
  ultimately show ?thesis using res by simp
qed

section \<open>A message that outgrew its buffer\<close>

fun exact_sensor :: "isensor \<Rightarrow> bool" where
  "exact_sensor (Bean b) = bean_ok b"
| "exact_sensor (Plugin p) = (\<forall>n. length (fst (pSamples p n)) = pMaxDataSize p)"

lemma exact_sensor_ok: "exact_sensor s \<Longrightarrow> sensor_ok s"
  by (cases s) auto

lemma sample_sensor_overrun:
  assumes "hobjs h a = Some s" "exact_sensor s" "length d < off + is_maxDataSize s"
  shows "sample_sensor a off d h = Inl Bad_access"
proof (cases s)
  case (Bean b)
  with assms show ?thesis
    by (simp add: sample_sensor_def heap_get_def SensorBean_getData_def get_bytes_def bean_ok_def
        put_bytes_def)
next
  case (Plugin p)
  obtain b ok where b: "pSamples p (pCalls p) = (b, ok)" by force
  then have "length b = pMaxDataSize p" using assms(2) Plugin by (auto dest: spec [of _ "pCalls p"])
  with assms b Plugin show ?thesis
    by (simp add: sample_sensor_def heap_get_def put_bytes_def)
qed

lemma sample_loop_overrun:
  assumes "distinct as" "\<forall>a \<in> set as. \<exists>s. hobjs h a = Some s \<and> exact_sensor s"
    "length d < off + total_size as h" "off \<le> length d"
  shows "sample_loop as off d h = Inl Bad_access"
  using assms
proof (induction as arbitrary: off d h)
  case (Cons a as)
  from Cons.prems(2) obtain s where s: "hobjs h a = Some s" "exact_sensor s" by auto
  let ?n = "is_maxDataSize s" and ?h = "heap_put a (sampled s) h"
  have same: "\<forall>x \<in> set as. hobjs ?h x = hobjs h x" using Cons.prems(1) by (auto simp: heap_put_def)
  have tot: "total_size (a # as) h = ?n + total_size as ?h"
    using total_size_cong [OF same] by (simp add: total_size_def s)
  show ?case
  proof (cases "off + ?n \<le> length d")
    case True
    let ?b = "sample_bytes s (region off ?n d)"
    have lb: "length ?b = ?n"
      using True by (intro length_sample_bytes exact_sensor_ok s(2)) (simp add: region_def)
    have "sample_sensor a off d h = Inr (overlay d off ?b, off + ?n, ?h)"
      by (rule sample_sensor_bytes [OF s(1) exact_sensor_ok [OF s(2)] True])
    moreover have "length (overlay d off ?b) = length d" using True lb by (simp add: length_overlay)
    moreover have "sample_loop as (off + ?n) (overlay d off ?b) ?h = Inl Bad_access"
      using Cons.prems same tot True calculation(2) by (intro Cons.IH) auto
    ultimately show ?thesis by simp
  next
    case False
    then show ?thesis by (simp add: sample_sensor_overrun [OF s])
  qed
qed (simp add: total_size_def)

lemma getMessage_overrun:
  assumes "distinct (map snd (mSensorMap S))" "7 \<le> length (mData S)"
    and up: "update_parsers (mJSONSensorsParsers S) h = Inr (ps, h1)"
    and "\<forall>a \<in> snd ` set (mSensorMap S). \<exists>s. hobjs h1 a = Some s \<and> exact_sensor s"
    and "length (mData S) < 7 + total_size (map snd (mSensorMap S)) h1"
  shows "getMessage (S, h) = Inl Bad_access"
proof -
  let ?d = "data_header_bytes (mSize S) (length (mSensorMap S)) (mData S ! 3) @ drop 7 (mData S)"
  have "sample_loop (map snd (mSensorMap S)) 7 ?d h1 = Inl Bad_access"
    using assms by (intro sample_loop_overrun) auto
  with data_header_ok [OF assms(2)] up show ?thesis
    by (simp add: getMessage_def wire_simps)
qed

section \<open>clear\<close>

lemma heap_delete_all_total:
  "distinct as \<Longrightarrow> \<forall>a \<in> set as. hobjs h a \<noteq> None \<Longrightarrow>
     \<exists>h'. heap_delete_all as h = Inr h' \<and> hnext h' = hnext h \<and>
       (\<forall>a. hobjs h' a = (if a \<in> set as then None else hobjs h a))"
proof (induction as arbitrary: h)
  case (Cons a as)
  then obtain s where s: "hobjs h a = Some s" by auto
  let ?h = "h \<lparr> hobjs := (hobjs h)(a := None) \<rparr>"
  have "\<exists>h'. heap_delete_all as ?h = Inr h' \<and> hnext h' = hnext ?h \<and>
      (\<forall>x. hobjs h' x = (if x \<in> set as then None else hobjs ?h x))"
    by (rule Cons.IH) (use Cons.prems in auto)
  then show ?case using s Cons.prems(1) by (auto simp: heap_delete_def)
qed simp

lemma clear_set_total:
  assumes "set_ok (S, h)"
  shows "\<exists>h'. clear_set (S, h) =
    Inr (S \<lparr> mSensorMap := [], mJSONSensorsParsers := [], mKnownGroups := [] \<rparr>, h') \<and>
    (\<forall>a \<in> snd ` set (mSensorMap S). hobjs h' a = None)"
proof -
  have "distinct (map snd (mSensorMap S))" "\<forall>a \<in> set (map snd (mSensorMap S)). hobjs h a \<noteq> None"
    using assms by (auto simp: set_ok_def ready_def)
  from heap_delete_all_total [OF this] show ?thesis by (auto simp: clear_set_def)
qed

end
