(* ===== verification/Sensor_Properties.thy ===== *)
theory Sensor_Properties
  imports Sensor_Set_Facts
begin

text \<open>
  What the sensors promise (\<open>include/BaseSensor.h\<close>, \<open>include/SensorBean.h\<close>,
  \<open>daemon/src/JSONSensorsParser.cpp\<close>, \<open>daemon/src/SensorSet.cpp\<close>): options are found, readings
  arrive as the bytes the receiver expects, descriptions list every sensor exactly once, and
  a sampled message has the announced layout.
\<close>

section \<open>Samples\<close>

definition sample_bean :: "string \<Rightarrow> ISensorDataType \<Rightarrow> nat \<Rightarrow> string \<Rightarrow> sensor_bean" where
  "sample_bean name ty n group_name = SensorBean_ctor (\<lambda>_. 0) name ty n 1 UNIT_DIMENSIONLESS False False 0 0 0 0
     group_name RENDERING_TEXTUAL"

definition sample_heap :: sensor_heap where
  "sample_heap = \<lparr> hobjs = [0 \<mapsto> Bean (sample_bean ''fan'' TYPE_U16 2 ''rack''),
     1 \<mapsto> Bean (sample_bean ''load'' TYPE_FLOAT 8 [])], hnext = 2 \<rparr>"

definition sample_set :: sensor_set where
  "sample_set = \<lparr> mSensorMap = [(''fan'', 0), (''load'', 1)], mJSONSensorsParsers = [], mKnownGroups = [],
     mSize = 17, mData = replicate 17 0 \<rparr>"

lemma sample_bean_simps [simp]:
  "bean_ok (sample_bean name ty n g)" "mMaxDataSize (sample_bean name ty n g) = n"
  "mDataType (sample_bean name ty n g) = ty" "mName (sample_bean name ty n g) = name"
  "length (mBeanData (sample_bean name ty n g)) = n"
  by (simp_all add: sample_bean_def SensorBean_ctor_def bean_ok_def)

lemma sample_total: "total_size [0, 1] sample_heap = 10"
  by (simp add: total_size_def sample_heap_def)

lemma sample_ok: "set_ok (sample_set, sample_heap)"
  by (auto simp: set_ok_def sample_set_def sample_heap_def heap_ok_def map_ok_def groups_ok_def ready_def
      split: if_splits)

lemma sample_sized: "sized (sample_set, sample_heap)"
  using sample_total by (simp add: sized_def sample_set_def)

section \<open>Options and readings\<close>

text \<open>An option of a sensor's option string is found, with its value up to the next space
  or comma, where its name first stands in front of an equals sign, at the start or behind a
  separator.\<close>

theorem option_value_found:
  assumes "options = pre @ name @ ''='' @ val @ post" "name \<noteq> []"
    and "pre = [] \<or> last pre \<in> {CHR '' '', CHR '',''}"
    and "\<forall>c \<in> set val. c \<notin> {CHR '' '', CHR '',''}"
    and "post = [] \<or> hd post \<in> {CHR '' '', CHR '',''}"
    and "\<forall>i < length pre. take (length name + 1) (drop i options) \<noteq> name @ ''=''"
  shows "getOption options name = val"
  using assms by (rule getOption_found)

theorem option_value_found_witness: "getOption ''id=7,port=80 x'' ''port'' = ''80''"
  by (rule option_value_found [of _ "''id=7,''" _ _ "'' x''"]) (auto simp: less_Suc_eq numeral_eq_Suc)

text \<open>An integer reading is sent most significant byte first, cut to the size of the
  sensor: the receiver reads the value modulo \<open>256 ^ size\<close>.\<close>

theorem integer_reading_value:
  assumes "bean_ok s" "mMaxDataSize s \<le> 4"
  shows "\<exists>s'. setData_u32 v s = Inr s' \<and> bean_ok s' \<and> mMaxDataSize s' = mMaxDataSize s \<and>
    big_endian (mBeanData s') = unat v mod 256 ^ mMaxDataSize s"
  using setData_u32_bytes [OF assms, of v] setData_u32_value [OF assms, of v] assms
  by (simp add: bean_ok_def)

theorem integer_reading_value_witness:
  "\<exists>s'. setData_u32 70000 (sample_bean ''fan'' TYPE_U16 2 []) = Inr s' \<and> big_endian (mBeanData s') = 4464"
  using integer_reading_value [of "sample_bean ''fan'' TYPE_U16 2 []" 70000] by auto

text \<open>An integer read for a sensor of eight bytes, a 64-bit counter or a floating point
  value, makes the update read outside the four bytes of the value.\<close>

theorem integer_for_wide_sensor_overruns:
  assumes "hobjs h a = Some (Bean s)" "parsed_bean s" "mDataType s \<in> {TYPE_U64, TYPE_FLOAT}"
  shows "update_sensor (JInt i) a h = Inl Bad_access"
  using assms by (rule update_sensor_overrun)

theorem integer_for_wide_sensor_overruns_witness: "update_sensor (JInt 5) 1 sample_heap = Inl Bad_access"
  by (rule integer_for_wide_sensor_overruns [of _ _ "sample_bean ''load'' TYPE_FLOAT 8 []"])
     (simp_all add: sample_heap_def parsed_bean_def SENSOR_NAME_LENGTH_def)

section \<open>Sensors from JSON\<close>

text \<open>C29: reading a description creates new sensors only: the map holds each name once, every
  sensor it holds was created by this call, owns a buffer of its announced size and has a
  type and size the format allows; no older object is touched.\<close>

theorem described_sensors:
  assumes "getSensors junk (JSONSensorsParser_ctor prov name) h = Inr (m, p, h')" "heap_ok h"
  shows "m = jp_sensors p \<and> parser_ok p h' \<and> heap_ok h' \<and> (\<forall>a \<in> set (jp_ordered p). hnext h \<le> a) \<and>
    (\<forall>a < hnext h. hobjs h' a = hobjs h a)"
  using getSensors_ok [OF assms] by auto

definition sample_description :: string where
  "sample_description = [CHR ''['', CHR ''{''] @ [dquote] @ ''name'' @ [dquote] @ '':'' @ [dquote] @ ''t'' @ [dquote]
     @ '','' @ [dquote] @ ''dataType'' @ [dquote] @ '':'' @ [dquote] @ ''U16'' @ [dquote] @ [CHR ''}'', CHR '']'']"

lemma sample_description_parsed:
  "Deserialize sample_description = Inr (JArr [JObj [(''dataType'', JStr ''U16''), (''name'', JStr ''t'')]])"
  unfolding sample_description_def by code_simp

definition sample_entry :: jvalue where
  "sample_entry = JObj [(''dataType'', JStr ''U16''), (''name'', JStr ''t'')]"

definition sample_entry_parsed :: bool where
  "sample_entry_parsed = (case parse_sensor (\<lambda>_. 0) sample_entry of Inr (Some s) \<Rightarrow> mName s = ''t'' | _ \<Rightarrow> False)"

lemma sample_getSensors:
  "\<exists>m p h'. getSensors (\<lambda>_. 0) (JSONSensorsParser_ctor (Static_JSON sample_description []) nm) heap_empty
     = Inr (m, p, h') \<and> m = [(''t'', 0)]"
proof -
  have sample_entry_parsed by code_simp
  then obtain s where s: "parse_sensor (\<lambda>_. 0) sample_entry = Inr (Some s)" "mName s = ''t''"
    by (auto simp: sample_entry_parsed_def split: sum.splits option.splits)
  have c: "c_str sample_description = sample_description" by code_simp
  have d: "Deserialize sample_description = Inr (JArr [sample_entry])"
    using sample_description_parsed by (simp add: sample_entry_def)
  show ?thesis
    by (simp add: getSensors_def JSONSensorsParser_ctor_def c d Value_index_def Array_index_def s
        heap_new_def heap_empty_def map_insert_def)
qed

theorem described_sensors_witness:
  "\<exists>m p h'. getSensors (\<lambda>_. 0) (JSONSensorsParser_ctor (Static_JSON sample_description []) ''g'') heap_empty
     = Inr (m, p, h') \<and> parser_ok p h' \<and> map snd m = [0]"
proof -
  obtain m p h' where "getSensors (\<lambda>_. 0) (JSONSensorsParser_ctor (Static_JSON sample_description []) ''g'') heap_empty
     = Inr (m, p, h')" "m = [(''t'', 0)]" using sample_getSensors by blast
  moreover have "heap_ok heap_empty" by (simp add: heap_ok_def heap_empty_def)
  ultimately show ?thesis using described_sensors by (metis list.simps(8) list.simps(9) snd_conv)
qed

text \<open>C30: an update stores the value at each position in the sensor of that position in the
  description, and touches no other sensor.\<close>

theorem readings_in_order:
  assumes "getSensorsData (jp_provider p) = (txt, prov)" "txt \<noteq> []" "Deserialize txt = Inr (JArr xs)"
    and "length (jp_ordered p) \<le> length xs" "length (jp_ordered p) \<le> 65536" "distinct (jp_ordered p)"
    and run: "updateSensors p h = Inr (p', h')"
  shows "(\<forall>k < length (jp_ordered p). \<exists>h1. update_sensor (xs ! k) (jp_ordered p ! k) h = Inr h1 \<and>
      hobjs h' (jp_ordered p ! k) = hobjs h1 (jp_ordered p ! k)) \<and>
    (\<forall>a. a \<notin> set (jp_ordered p) \<longrightarrow> hobjs h' a = hobjs h a)"
proof -
  from assms have loop: "update_loop (JArr xs) 0 (jp_ordered p) h = Inr h'"
    by (auto simp: updateSensors_def bind_res_Inr_iff)
  have "update_loop (JArr xs) (word_of_nat 0) (jp_ordered p) h = Inr h'" using loop by simp
  from update_loop_nth [OF this assms(6)] assms(5) update_loop_frame [OF loop] show ?thesis by auto
qed

definition sample_parser :: json_parser where
  "sample_parser = \<lparr> jp_provider = Static_JSON [] ''[300]'', jp_name = ''g'', jp_sensors = [(''fan'', 0)],
     jp_ordered = [0] \<rparr>"

definition sample_updated :: bool where
  "sample_updated = (case updateSensors sample_parser sample_heap of Inl _ \<Rightarrow> False | Inr _ \<Rightarrow> True)"

lemma sample_update: "\<exists>p' h'. updateSensors sample_parser sample_heap = Inr (p', h')"
proof -
  have sample_updated by code_simp
  then show ?thesis by (simp add: sample_updated_def split: sum.splits)
qed

theorem readings_in_order_witness:
  "\<exists>p' h' h1. updateSensors sample_parser sample_heap = Inr (p', h') \<and>
     update_sensor (JInt 300) 0 sample_heap = Inr h1 \<and> hobjs h' 0 = hobjs h1 0 \<and> hobjs h' 1 = hobjs sample_heap 1"
proof -
  obtain p' h' where run: "updateSensors sample_parser sample_heap = Inr (p', h')" using sample_update by blast
  have d: "Deserialize ''[300]'' = Inr (JArr [JInt 300])" by code_simp
  have g: "getSensorsData (jp_provider sample_parser) = (''[300]'', jp_provider sample_parser)"
    by (simp add: sample_parser_def c_str_def)
  from readings_in_order [OF g _ d _ _ _ run] run show ?thesis by (simp add: sample_parser_def)
qed

section \<open>The set\<close>

text \<open>C31: the constructor of the set establishes its invariant, whatever the configuration
  names: every sensor in the map is alive, no object is in it twice, and the message buffer
  is as large as the header and all sensors together.\<close>

theorem constructed_set_ok:
  assumes "plugins_ok env" "heap_ok h" "\<forall>a s. hobjs h a = Some s \<longrightarrow> sensor_ok s"
    and "SensorSet_ctor env c j junk h = Inr st"
  shows "set_ok st \<and> sized st"
  using assms by (rule SensorSet_ctor_ok)

definition no_plugins :: plugins where
  "no_plugins = \<lparr> createSensor = (\<lambda>_. None), configureSensor = (\<lambda>_ _ p. (True, p)),
     createSensorProvider = (\<lambda>_. None), createJSONSensorProvider =
       (\<lambda>name. if name = ''static'' then Some (Static_JSON sample_description []) else None) \<rparr>"

definition plugin_config :: config where
  "plugin_config = \<lparr> cini = \<lparr> ini_content = [\<lparr> sdata = [\<lparr> rcomments = [], rkey = ''JSONSensorProviders'',
       rvalue = ''static'' \<rparr>], scomments = [], sname = ''Plugins'' \<rparr>], gfilename = [], error_msg = None, w_flag = False \<rparr>,
     mNoSaveMode = False, mConfigChanged = False, mListeners = [], mDisableChangeListeners = False \<rparr>"

lemma sample_ctor: "\<exists>st. SensorSet_ctor no_plugins plugin_config 0 (\<lambda>_. 0) heap_empty = Inr st
    \<and> mSensorMap (fst st) = [(''t'', 0)]"
proof -
  obtain m p h' where g: "getSensors (\<lambda>_. 0) (JSONSensorsParser_ctor (Static_JSON sample_description []) ''static'')
      heap_empty = Inr (m, p, h')" "m = [(''t'', 0)]"
    using sample_getSensors [of "''static''"] by blast
  have "heap_ok heap_empty" by (simp add: heap_ok_def heap_empty_def)
  then have "parser_ok p h'" "jp_sensors p = [(''t'', 0)]" using getSensors_ok [OF g(1)] g(2) by auto
  then obtain b where b: "hobjs h' 0 = Some (Bean b)" unfolding parser_ok_def by auto
  have c: "c_str ''Plugins'' = ''Plugins''" "c_str ''Sensors'' = ''Sensors''"
    "c_str ''JSONSensorProviders'' = ''JSONSensorProviders''" "c_str ''SensorProviders'' = ''SensorProviders''"
    "c_str ''count'' = ''count''" by code_simp+
  have v: "GetInt 0 plugin_config ''Sensors'' ''count'' 0 = 0"
    "GetString plugin_config ''Plugins'' ''SensorProviders'' [] = []"
    "GetString plugin_config ''Plugins'' ''JSONSensorProviders'' [] = ''static''"
    by (simp_all add: GetInt_def GetString_def get_value_def get_record_def plugin_config_def c)
  have l: "getline_split [] = []" "getline_split ''static'' = [''static'']"
    by (simp_all add: getline_split.simps)
  show ?thesis
    by (simp add: SensorSet_ctor_def v l no_plugins_def addJSONSensorProvider_def sensor_set_empty_def g
        map_insert_all_def map_insert_def heap_get_def b)
qed

theorem constructed_set_ok_witness:
  "\<exists>st. SensorSet_ctor no_plugins plugin_config 0 (\<lambda>_. 0) heap_empty = Inr st
     \<and> mSensorMap (fst st) = [(''t'', 0)] \<and> set_ok st \<and> sized st"
proof -
  obtain st where run: "SensorSet_ctor no_plugins plugin_config 0 (\<lambda>_. 0) heap_empty = Inr st"
    "mSensorMap (fst st) = [(''t'', 0)]" using sample_ctor by blast
  have "plugins_ok no_plugins" by (simp add: plugins_ok_def no_plugins_def)
  from constructed_set_ok [OF this _ _ run(1)] run show ?thesis by (simp add: heap_ok_def heap_empty_def)
qed

text \<open>C32: group numbers identify groups: two groups with a number have the same one only if
  they have the same name, and a number once given never changes.\<close>

theorem group_ids_identify:
  assumes "groups_ok g" "getGroupId name g = (i, g1)" "getGroupId name' g1 = (j, g2)" "i \<noteq> 0" "j \<noteq> 0"
  shows "(i = j \<longleftrightarrow> c_str name = c_str name') \<and> groups_ok g2 \<and> getGroupId name g2 = (i, g2)"
proof -
  have ok1: "groups_ok g1" by (rule getGroupId_ok [OF assms(1,2)])
  have ok2: "groups_ok g2" by (rule getGroupId_ok [OF ok1 assms(3)])
  have i: "map_of g2 (c_str name) = Some (uint i)"
    using getGroupId_known [OF assms(1,2,4)] getGroupId_stable [OF assms(3)] by blast
  have j: "map_of g2 (c_str name') = Some (uint j)" by (rule getGroupId_known [OF ok1 assms(3,5)])
  have "i = j \<longleftrightarrow> c_str name = c_str name'"
    using groups_inj [OF ok2 i] i j by (metis option.inject word_uint_eqI)
  moreover have "c_str name \<noteq> []" using assms(2,4) by (auto simp: getGroupId_def split: if_splits)
  then have "getGroupId name g2 = (i, g2)" using i by (simp add: getGroupId_def)
  ultimately show ?thesis using ok2 by simp
qed

theorem group_ids_identify_witness:
  "fst (getGroupId ''rack'' []) = 1 \<and> fst (getGroupId ''node'' (snd (getGroupId ''rack'' []))) = 2 \<and>
   fst (getGroupId ''rack'' (snd (getGroupId ''node'' (snd (getGroupId ''rack'' []))))) = 1"
proof -
  have c: "c_str ''rack'' = ''rack''" "c_str ''node'' = ''node''" by code_simp+
  have r: "getGroupId ''rack'' [] = (1, [(''rack'', 1)])" "getGroupId ''node'' [(''rack'', 1)] = (2, [(''node'', 2), (''rack'', 1)])"
    by (simp_all add: getGroupId_def c)
  have "groups_ok []" by (simp add: groups_ok_def map_ok_def)
  from group_ids_identify [OF this r] r show ?thesis by simp
qed

section \<open>Description pages\<close>

text \<open>C8: on every page but possibly the last the description lists as many sensors as fit,
  the pages together list every sensor of the set exactly once and in order, and each page is
  its header, with its size in network order, followed by one entry per sensor.\<close>

theorem description_pages:
  fixes S h buffer
  defines "s \<equiv> (length buffer - 9) div 72 mod 256" and "es \<equiv> mSensorMap S"
  defines "pages \<equiv> pages_needed s (length es)"
  assumes "9 \<le> length buffer" "length buffer < 2 ^ 32" "0 < s" "length es < 65536" "pages \<le> 255"
    and "\<forall>e \<in> set es. live h (snd e)"
  shows "(\<forall>page. 1 \<le> unat page \<and> unat page \<le> pages \<longrightarrow>
      (\<exists>buffer'. getDescriptionPage buffer (length buffer) page (S, h) =
        Inr (9 + 72 * length (page_entries s (unat page) es), buffer', word_of_nat pages,
             S \<lparr> mKnownGroups := page_groups (page_entries s (unat page) es) h (mKnownGroups S) \<rparr>, h)
      \<and> take (9 + 72 * length (page_entries s (unat page) es)) buffer' =
          enc_Monitoring_Description_Header (page_header (9 + 72 * length (page_entries s (unat page) es)) page
            (word_of_nat pages) (length (page_entries s (unat page) es)) ((unat page - 1) * s))
          @ page_bytes (page_entries s (unat page) es) h (mKnownGroups S)))
    \<and> concat (map (\<lambda>p. page_entries s p es) [1..<Suc pages]) = es"
  using assms getDescriptionPage_bytes [of buffer S _ h] pages_partition [of s es]
  unfolding s_def es_def pages_def by blast

theorem description_pages_witness:
  "\<exists>buffer'. getDescriptionPage (replicate 100 0) 100 2 (sample_set, sample_heap) =
     Inr (81, buffer', 2, sample_set \<lparr> mKnownGroups := [] \<rparr>, sample_heap)
   \<and> take 9 buffer' = [1, 0, 81, 0, 2, 2, 1, 0, 1]"
proof -
  have live: "\<forall>e \<in> set (mSensorMap sample_set). live sample_heap (snd e)"
    by (simp add: sample_set_def sample_heap_def live_def)
  have n: "length (mSensorMap sample_set) = 2" by (simp add: sample_set_def)
  have p: "pages_needed 1 2 = 2" by (simp add: pages_needed_def)
  have e: "page_entries 1 2 (mSensorMap sample_set) = [(''load'', 1)]" by (simp add: page_entries_def sample_set_def)
  have g: "page_groups [(''load'', 1)] sample_heap (mKnownGroups sample_set) = []"
    by (simp add: sample_heap_def sample_set_def sample_bean_def SensorBean_ctor_def getGroupId_def c_str_def
        base_sensor.truncate_def)
  from description_pages [of "replicate 100 0" sample_set sample_heap] live n p
  obtain buffer' where b: "getDescriptionPage (replicate 100 0) 100 2 (sample_set, sample_heap) =
     Inr (81, buffer', 2, sample_set \<lparr> mKnownGroups := [] \<rparr>, sample_heap)"
    "take 81 buffer' = enc_Monitoring_Description_Header (page_header 81 2 2 1 1) @ page_bytes [(''load'', 1)] sample_heap (mKnownGroups sample_set)"
    using e g by (auto dest!: spec [of _ "2 :: u8"])
  have "take 9 buffer' = take 9 (take 81 buffer')" by (simp add: min_def)
  also have "\<dots> = enc_Monitoring_Description_Header (page_header 81 2 2 1 1)"
    unfolding b(2) by (simp add: sizeof_Monitoring_Description_Header_def)
  also have "\<dots> = [1, 0, 81, 0, 2, 2, 1, 0, 1]" by code_simp
  finally show ?thesis using b(1) by blast
qed

text \<open>A message area without room for the header and one entry (fewer than 81 bytes) makes
  the computation of the first page divide by zero.\<close>

theorem small_area_divides_by_zero:
  assumes "b < 81"
  shows "getDescriptionPage buffer b 1 st = Inl Div_by_zero"
  using getDescriptionPage_small [OF assms] by simp

theorem small_area_divides_by_zero_witness:
  "getDescriptionPage (replicate 80 0) 80 1 (sample_set, sample_heap) = Inl Div_by_zero"
  by (rule small_area_divides_by_zero) simp

section \<open>The monitoring message\<close>

text \<open>C9: when the JSON updates succeed, the message is complete: the header with size and
  number of sensors in network order, then each sensor's bytes in the order of the names,
  zeros for a reading that failed, and its length is the announced size; the set stays
  well-formed.\<close>

theorem monitoring_message:
  assumes "set_ok (S, h)" "sized (S, h)" "update_parsers (mJSONSensorsParsers S) h = Inr (ps, h1)"
  shows "\<exists>S' h'. getMessage (S, h) = Inr (data_header_bytes (mSize S) (length (mSensorMap S)) (mData S ! 3)
      @ message_bytes (map snd (mSensorMap S)) h1 (drop 7 (mData S)), S', h')
    \<and> length (data_header_bytes (mSize S) (length (mSensorMap S)) (mData S ! 3)
      @ message_bytes (map snd (mSensorMap S)) h1 (drop 7 (mData S))) = mSize S
    \<and> set_ok (S', h') \<and> sized (S', h') \<and> mSensorMap S' = mSensorMap S"
proof -
  note m = getMessage_bytes [OF assms]
  from getMessage_ok [OF assms(1,2) conjunct1 [OF m]] m show ?thesis by blast
qed

theorem monitoring_message_witness:
  "\<exists>S' h'. getMessage (sample_set, sample_heap) =
     Inr ([2, 0, 17, 0, 0, 2, 0, 0, 0, 0, 0, 0, 0, 0, 0, 0, 0], S', h')"
proof -
  have up: "update_parsers (mJSONSensorsParsers sample_set) sample_heap = Inr ([], sample_heap)"
    by (simp add: sample_set_def)
  have h: "data_header_bytes (mSize sample_set) (length (mSensorMap sample_set)) (mData sample_set ! 3) = [2, 0, 17, 0, 0, 2, 0]"
    by code_simp
  have b: "message_bytes (map snd (mSensorMap sample_set)) sample_heap (drop 7 (mData sample_set)) = [0, 0, 0, 0, 0, 0, 0, 0, 0, 0]"
    by code_simp
  from monitoring_message [OF sample_ok sample_sized up] show ?thesis unfolding h b by auto
qed

text \<open>On a well-formed set sampling fails for one reason only: the update of a JSON
  provider's sensors failed.\<close>

theorem message_fault_is_json:
  assumes "set_ok (S, h)" "sized (S, h)" "getMessage (S, h) = Inl e"
  shows "update_parsers (mJSONSensorsParsers S) h = Inl e"
  using assms by (rule getMessage_faults)

definition faulty_set :: sensor_set where
  "faulty_set = sample_set \<lparr> mJSONSensorsParsers := [(''g'', \<lparr> jp_provider = Static_JSON [] ''[7]'', jp_name = ''g'',
     jp_sensors = [(''load'', 1)], jp_ordered = [1] \<rparr>)] \<rparr>"

lemma faulty_ok: "set_ok (faulty_set, sample_heap)"
  using sample_ok
  by (auto simp: set_ok_def faulty_set_def parser_ok_def map_ok_def sample_heap_def parsed_bean_def
      SENSOR_NAME_LENGTH_def)

lemma faulty_update: "update_parsers (mJSONSensorsParsers faulty_set) sample_heap = Inl Bad_access"
proof -
  have d: "Deserialize ''[7]'' = Inr (JArr [JInt 7])" "c_str ''[7]'' = ''[7]''" by code_simp+
  have "update_sensor (JInt 7) 1 sample_heap = Inl Bad_access"
    by (rule update_sensor_overrun [of _ _ "sample_bean ''load'' TYPE_FLOAT 8 []"])
       (simp_all add: sample_heap_def parsed_bean_def SENSOR_NAME_LENGTH_def)
  then show ?thesis
    by (simp add: faulty_set_def updateSensors_def d Value_index_def Array_index_def)
qed

lemma faulty_message: "getMessage (faulty_set, sample_heap) = Inl Bad_access"
proof -
  have "7 \<le> length (mData faulty_set)" by (simp add: faulty_set_def sample_set_def)
  with data_header_ok [of "mData faulty_set" faulty_set] faulty_update show ?thesis
    by (simp add: getMessage_def)
qed

theorem message_fault_is_json_witness:
  "getMessage (faulty_set, sample_heap) = Inl Bad_access \<and>
   update_parsers (mJSONSensorsParsers faulty_set) sample_heap = Inl Bad_access"
proof -
  have sz: "sized (faulty_set, sample_heap)" using sample_sized by (simp add: sized_def faulty_set_def)
  from message_fault_is_json [OF faulty_ok sz faulty_message] faulty_message show ?thesis by blast
qed

text \<open>Sensors added after the start are sampled into the old buffer: a message that became
  larger than it is written past its end.\<close>

theorem late_sensors_overrun:
  assumes "set_ok (S, h)" "7 \<le> length (mData S)" "update_parsers (mJSONSensorsParsers S) h = Inr (ps, h1)"
    and "\<forall>a \<in> snd ` set (mSensorMap S). \<exists>s. hobjs h1 a = Some s \<and> exact_sensor s"
    and "length (mData S) < 7 + total_size (map snd (mSensorMap S)) h1"
  shows "getMessage (S, h) = Inl Bad_access"
  using assms by (intro getMessage_overrun) (auto simp: set_ok_def ready_def)

theorem late_sensors_overrun_witness:
  "getMessage (sample_set \<lparr> mData := replicate 9 0 \<rparr>, sample_heap) = Inl Bad_access"
proof (rule late_sensors_overrun)
  show "set_ok (sample_set \<lparr> mData := replicate 9 0 \<rparr>, sample_heap)"
    using sample_ok by (simp add: set_ok_def)
  show "update_parsers (mJSONSensorsParsers (sample_set \<lparr> mData := replicate 9 0 \<rparr>)) sample_heap = Inr ([], sample_heap)"
    by (simp add: sample_set_def)
  show "\<forall>a \<in> snd ` set (mSensorMap (sample_set \<lparr> mData := replicate 9 0 \<rparr>)). \<exists>s. hobjs sample_heap a = Some s \<and> exact_sensor s"
    by (simp add: sample_set_def sample_heap_def)
  show "length (mData (sample_set \<lparr> mData := replicate 9 0 \<rparr>)) < 7 + total_size (map snd (mSensorMap (sample_set \<lparr> mData := replicate 9 0 \<rparr>))) sample_heap"
    using sample_total by (simp add: sample_set_def)
qed simp

text \<open>Adding a provider under a name that is taken is refused and changes nothing; under a
  new name it keeps the set well-formed.\<close>

theorem adding_providers:
  assumes "set_ok (S, h)" "addJSONSensorProvider junk prov name (S, h) = Inr (added, S', h')"
  shows "set_ok (S', h') \<and> (added \<longleftrightarrow> map_of (mJSONSensorsParsers S) name = None) \<and>
    (\<not> added \<longrightarrow> S' = S \<and> h' = h) \<and> (added \<longrightarrow> getJSONSensorProvider name S' = Some prov)"
proof -
  have ok: "set_ok (S', h')" by (rule addJSONSensorProvider_ok [OF assms])
  show ?thesis
  proof (cases "map_of (mJSONSensorsParsers S) name")
    case None
    then obtain m p where g: "getSensors junk (JSONSensorsParser_ctor prov name) h = Inr (m, p, h')"
      and S': "added" "S' = S \<lparr> mSensorMap := map_insert_all m (mSensorMap S),
        mJSONSensorsParsers := map_assign name p (mJSONSensorsParsers S) \<rparr>"
      using assms(2) by (auto simp: addJSONSensorProvider_def bind_res_Inr_iff)
    have "getProvider p = prov" using getSensors_ok [OF g] assms(1) by (simp add: set_ok_def getProvider_def)
    with ok S' None show ?thesis by (simp add: getJSONSensorProvider_def map_of_assign)
  next
    case (Some q)
    with ok assms(2) show ?thesis by (simp add: addJSONSensorProvider_def)
  qed
qed

theorem adding_providers_witness:
  "addJSONSensorProvider (\<lambda>_. 0) (Static_JSON [] []) ''g'' (faulty_set, sample_heap) = Inr (False, faulty_set, sample_heap)
   \<and> map_of (mJSONSensorsParsers faulty_set) ''g'' \<noteq> None \<and> set_ok (faulty_set, sample_heap)"
proof -
  have r: "addJSONSensorProvider (\<lambda>_. 0) (Static_JSON [] []) ''g'' (faulty_set, sample_heap) = Inr (False, faulty_set, sample_heap)"
    by (simp add: addJSONSensorProvider_def faulty_set_def)
  from adding_providers [OF faulty_ok r] r show ?thesis by blast
qed

text \<open>Clearing frees every sensor of the set once and leaves it empty.\<close>

theorem clear_frees_all:
  assumes "set_ok (S, h)"
  shows "\<exists>h'. clear_set (S, h) =
    Inr (S \<lparr> mSensorMap := [], mJSONSensorsParsers := [], mKnownGroups := [] \<rparr>, h') \<and>
    (\<forall>a \<in> snd ` set (mSensorMap S). hobjs h' a = None)"
  using assms by (rule clear_set_total)

theorem clear_frees_all_witness:
  "\<exists>S' h'. clear_set (sample_set, sample_heap) = Inr (S', h') \<and> hobjs h' 0 = None \<and> hobjs h' 1 = None"
  using clear_frees_all [OF sample_ok] by (auto simp: sample_set_def)

end
