(* ===== verification/Daemon_State.thy ===== *)
theory Daemon_State
  imports Daemon_Msgs
begin

text \<open>
  The daemon object (\<open>daemon/src/Daemon.cpp\<close>, \<open>daemon/src/Daemon.h\<close>) without its main loop:
  its state, the services it offers to plugins, its signal handler, and the accesses to the
  communicator. The communicator is any plugin behind \<open>ICommunicator\<close>
  (\<open>include/object_model.h\<close>); its operations are a record over a state of their own.
\<close>

section \<open>The communicator interface\<close>

text \<open>
  A parameter of a service call: a null pointer, a C string, or the address of an
  \<open>int8_t\<close> with its content. A communicator may call back into the daemon while it reads or
  writes (\<open>CommunicatorTCP\<close> does on a reconnect), so its operations return the calls made.
  \<open>readData offset count\<close> gives the result, the bytes stored from the start of the buffer,
  the calls and the new state; \<open>writeData offset bytes\<close> the result, the calls and the state.
\<close>

datatype service_param = Null_param | Text_param string | Slot_param "8 word"

type_synonym service_call = "string \<times> service_param"

record 'c communicator =
  initInterface :: "'c \<Rightarrow> bool \<times> service_call list \<times> 'c"
  getMaxDataSize :: "'c \<Rightarrow> (nat \<times> service_call list \<times> 'c) res"
  readData :: "nat \<Rightarrow> nat \<Rightarrow> 'c \<Rightarrow> (int \<times> bytes \<times> service_call list \<times> 'c) res"
  writeData :: "nat \<Rightarrow> bytes \<Rightarrow> 'c \<Rightarrow> (int \<times> service_call list \<times> 'c) res"

section \<open>State\<close>

datatype State = State_MonitoringData | State_MonitoringDescription | State_BasicInformation

text \<open>\<open>dWrites\<close> is the history of what was handed to \<open>writeData\<close>: offset and bytes, oldest
  first. No code reads it.\<close>

record 'c daemon =
  mPluginLoggers :: "string list"
  mShutdown :: bool
  mFirstWriteDone :: bool
  mState :: State
  mCurrentPage :: u8
  mComm :: "'c option"
  mSlot :: "8 word"
  dWrites :: "(nat \<times> bytes) list"

definition Daemon_ctor :: "'c daemon" where
  "Daemon_ctor = \<lparr> mPluginLoggers = [], mShutdown = False, mFirstWriteDone = False,
     mState = State_BasicInformation, mCurrentPage = 1, mComm = None, mSlot = 0, dWrites = [] \<rparr>"

definition resetStatemachine :: "'c daemon \<Rightarrow> 'c daemon" where
  "resetStatemachine d = d \<lparr> mState := State_BasicInformation, mCurrentPage := 1, mFirstWriteDone := False \<rparr>"

definition getSlot :: "'c daemon \<Rightarrow> 8 word" where
  "getSlot d = mSlot d"

definition shutdown_daemon :: "'c daemon \<Rightarrow> 'c daemon" where
  "shutdown_daemon d = d \<lparr> mShutdown := True \<rparr>"

text \<open>The pointer to the stored logger is its position in the list.\<close>

definition addPluginLogger :: "string \<Rightarrow> 'c daemon \<Rightarrow> nat \<times> 'c daemon" where
  "addPluginLogger name d =
     (length (mPluginLoggers d), d \<lparr> mPluginLoggers := mPluginLoggers d @ [name] \<rparr>)"

section \<open>Services and signals\<close>

datatype service_result = Null_result | Logger_result nat | Config_result

text \<open>The answer, the parameter as the call leaves it, and the daemon. A null name for the
  logger is a null pointer given to \<open>std::string\<close>.\<close>

definition InvokeService :: "string \<Rightarrow> service_param \<Rightarrow> 'c daemon
    \<Rightarrow> (service_result \<times> service_param \<times> 'c daemon) res" where
  "InvokeService serviceName serviceParams d =
     (if serviceName = ''getLogger'' then
        (case serviceParams of
           Text_param name \<Rightarrow> let (i, d') = addPluginLogger name d in Inr (Logger_result i, serviceParams, d')
         | _ \<Rightarrow> Inl Bad_access)
      else if serviceName = ''getConfig'' then Inr (Config_result, serviceParams, d)
      else if serviceName = ''resetStatemachine'' then Inr (Null_result, serviceParams, resetStatemachine d)
      else if serviceName = ''getSlot'' then
        (case serviceParams of
           Null_param \<Rightarrow> Inr (Null_result, Null_param, d)
         | _ \<Rightarrow> Inr (Null_result, Slot_param (getSlot d), d))
      else Inr (Null_result, serviceParams, d))"

datatype signal = SIGHUP | SIGINT | SIGTERM

fun signal_handler :: "signal \<Rightarrow> 'c daemon \<Rightarrow> 'c daemon" where
  "signal_handler SIGHUP d = d"
| "signal_handler SIGINT d = shutdown_daemon d"
| "signal_handler SIGTERM d = shutdown_daemon d"

primrec serve_all :: "service_call list \<Rightarrow> 'c daemon \<Rightarrow> 'c daemon res" where
  "serve_all [] d = Inr d"
| "serve_all (s # ss) d = bind_res (InvokeService (fst s) (snd s) d) (\<lambda>(_, _, d). serve_all ss d)"

section \<open>Access to the communicator\<close>

text \<open>
  \<open>mComm->readData(offset, buf + at, count)\<close> into a buffer that holds \<open>buf\<close>: bytes stored
  behind its end, like a null communicator, are \<open>Bad_access\<close>.
\<close>

definition comm_read_at :: "'c communicator \<Rightarrow> nat \<Rightarrow> bytes \<Rightarrow> nat \<Rightarrow> nat \<Rightarrow> 'c daemon
    \<Rightarrow> (int \<times> bytes \<times> 'c daemon) res" where
  "comm_read_at ops offset buf at count d =
     (case mComm d of
        None \<Rightarrow> Inl Bad_access
      | Some c \<Rightarrow>
          bind_res (readData ops offset count c) (\<lambda>(r, w, calls, c').
          bind_res (if w = [] then Inr buf else put_bytes buf at w) (\<lambda>buf.
          bind_res (serve_all calls (d \<lparr> mComm := Some c' \<rparr>)) (\<lambda>d. Inr (r, buf, d)))))"

definition comm_read :: "'c communicator \<Rightarrow> nat \<Rightarrow> bytes \<Rightarrow> 'c daemon \<Rightarrow> (int \<times> bytes \<times> 'c daemon) res" where
  "comm_read ops offset buf d = comm_read_at ops offset buf 0 (length buf) d"

text \<open>\<open>mComm->getMaxDataSize()\<close>: a driver may look for its device while it answers.\<close>

definition comm_max_size :: "'c communicator \<Rightarrow> 'c daemon \<Rightarrow> (nat \<times> 'c daemon) res" where
  "comm_max_size ops d =
     (case mComm d of
        None \<Rightarrow> Inl Bad_access
      | Some c \<Rightarrow>
          bind_res (getMaxDataSize ops c) (\<lambda>(n, calls, c').
          bind_res (serve_all calls (d \<lparr> mComm := Some c' \<rparr>)) (\<lambda>d. Inr (n, d))))"

definition comm_write :: "'c communicator \<Rightarrow> nat \<Rightarrow> bytes \<Rightarrow> 'c daemon \<Rightarrow> (int \<times> 'c daemon) res" where
  "comm_write ops offset buf d =
     (case mComm d of
        None \<Rightarrow> Inl Bad_access
      | Some c \<Rightarrow>
          bind_res (writeData ops offset buf c) (\<lambda>(r, calls, c').
          bind_res (serve_all calls (d \<lparr> mComm := Some c', dWrites := dWrites d @ [(offset, buf)] \<rparr>))
            (\<lambda>d. Inr (r, d))))"

definition doRead :: "'c communicator \<Rightarrow> nat \<Rightarrow> bytes \<Rightarrow> 'c daemon \<Rightarrow> (int \<times> bytes \<times> 'c daemon) res" where
  "doRead ops offset buf d = (if mComm d = None then Inr (-1, buf, d) else comm_read ops offset buf d)"

section \<open>What an access keeps\<close>

text \<open>The state machine's page is at least 1; service calls keep it, the slot, the history and
  the connection.\<close>

definition machine_ok :: "'c daemon \<Rightarrow> bool" where
  "machine_ok d \<longleftrightarrow> 1 \<le> mCurrentPage d \<and> (mState d \<noteq> State_MonitoringDescription \<longrightarrow> mCurrentPage d = 1)"

lemma resetStatemachine_simps [simp]:
  "mState (resetStatemachine d) = State_BasicInformation"
  "mCurrentPage (resetStatemachine d) = 1"
  "mFirstWriteDone (resetStatemachine d) = False"
  "mSlot (resetStatemachine d) = mSlot d"
  "mComm (resetStatemachine d) = mComm d"
  "mShutdown (resetStatemachine d) = mShutdown d"
  "dWrites (resetStatemachine d) = dWrites d"
  by (simp_all add: resetStatemachine_def)

lemma machine_ok_reset [simp]: "machine_ok (resetStatemachine d)"
  by (simp add: machine_ok_def)

definition served :: "'c daemon \<Rightarrow> 'c daemon \<Rightarrow> bool" where
  "served d d' \<longleftrightarrow> mSlot d' = mSlot d \<and> dWrites d' = dWrites d \<and> mComm d' = mComm d \<and> mShutdown d' = mShutdown d
     \<and> (mState d' = mState d \<and> mCurrentPage d' = mCurrentPage d \<and> mFirstWriteDone d' = mFirstWriteDone d
        \<or> mState d' = State_BasicInformation \<and> mCurrentPage d' = 1 \<and> \<not> mFirstWriteDone d')"

lemma served_refl [simp]: "served d d"
  by (simp add: served_def)

lemma served_trans: "served d e \<Longrightarrow> served e f \<Longrightarrow> served d f"
  unfolding served_def by (elim conjE disjE) simp_all

lemma served_machine_ok: "served d d' \<Longrightarrow> machine_ok d \<Longrightarrow> machine_ok d'"
  unfolding served_def machine_ok_def by (elim conjE disjE) simp_all

lemma InvokeService_served: "InvokeService n p d = Inr (r, p', d') \<Longrightarrow> served d d'"
  by (auto simp: InvokeService_def addPluginLogger_def served_def split: if_splits service_param.splits)

lemma serve_all_served: "serve_all ss d = Inr d' \<Longrightarrow> served d d'"
  by (induction ss arbitrary: d)
     (auto simp: bind_res_Inr_iff intro: served_trans dest!: InvokeService_served)

lemma serve_all_keeps:
  "serve_all ss d = Inr d' \<Longrightarrow>
     mSlot d' = mSlot d \<and> dWrites d' = dWrites d \<and> mComm d' = mComm d \<and> mShutdown d' = mShutdown d
     \<and> (mCurrentPage d' = mCurrentPage d \<or> mCurrentPage d' = 1) \<and> (machine_ok d \<longrightarrow> machine_ok d')"
  using serve_all_served [of ss d d'] served_machine_ok [of d d'] by (auto simp: served_def)

lemma serve_all_no_calls: "serve_all [] d = Inr d"
  by simp

text \<open>Asking for the slot changes nothing.\<close>

definition harmless :: "service_call \<Rightarrow> bool" where
  "harmless s \<longleftrightarrow> fst s = ''getSlot''"

lemma serve_all_harmless: "\<forall>x \<in> set calls. harmless x \<Longrightarrow> serve_all calls d = Inr d"
  by (induction calls) (auto simp: harmless_def InvokeService_def split: service_param.splits)

text \<open>Reading changes neither the history nor the slot, and keeps the machine well-formed.\<close>

lemma machine_ok_comm [simp]: "machine_ok (d \<lparr> mComm := c \<rparr>) = machine_ok d"
  "machine_ok (d \<lparr> dWrites := w \<rparr>) = machine_ok d"
  by (simp_all add: machine_ok_def)

lemma comm_read_at_keeps:
  assumes "comm_read_at ops off buf at n d = Inr (r, buf', d')"
  shows "length buf' = length buf \<and> mSlot d' = mSlot d \<and> dWrites d' = dWrites d \<and> mShutdown d' = mShutdown d
    \<and> mComm d \<noteq> None \<and> mComm d' \<noteq> None \<and> (mCurrentPage d' = mCurrentPage d \<or> mCurrentPage d' = 1)
    \<and> (machine_ok d \<longrightarrow> machine_ok d')"
proof -
  from assms obtain c where c: "mComm d = Some c" by (auto simp: comm_read_at_def split: option.splits)
  from assms c obtain r0 w calls c' where b: "(if w = [] then Inr buf else put_bytes buf at w) = Inr buf'"
    and s: "serve_all calls (d \<lparr> mComm := Some c' \<rparr>) = Inr d'"
    by (auto simp: comm_read_at_def bind_res_Inr_iff)
  from b have "length buf' = length buf" by (auto dest: put_bytes_InrD split: if_splits)
  with serve_all_keeps [OF s] c show ?thesis by auto
qed

lemma comm_write_keeps:
  assumes "comm_write ops off buf d = Inr (r, d')"
  shows "mSlot d' = mSlot d \<and> dWrites d' = dWrites d @ [(off, buf)] \<and> mShutdown d' = mShutdown d
    \<and> mComm d \<noteq> None \<and> mComm d' \<noteq> None \<and> (mCurrentPage d' = mCurrentPage d \<or> mCurrentPage d' = 1)
    \<and> (machine_ok d \<longrightarrow> machine_ok d')"
proof -
  from assms obtain c where c: "mComm d = Some c" by (auto simp: comm_write_def split: option.splits)
  from assms c obtain calls c' where s: "serve_all calls (d \<lparr> mComm := Some c', dWrites := dWrites d @ [(off, buf)] \<rparr>) = Inr d'"
    by (auto simp: comm_write_def bind_res_Inr_iff)
  show ?thesis using serve_all_keeps [OF s] c by auto
qed

lemma comm_max_size_keeps:
  assumes "comm_max_size ops d = Inr (n, d')"
  shows "mSlot d' = mSlot d \<and> dWrites d' = dWrites d \<and> mShutdown d' = mShutdown d
    \<and> mComm d \<noteq> None \<and> mComm d' \<noteq> None \<and> (mCurrentPage d' = mCurrentPage d \<or> mCurrentPage d' = 1)
    \<and> (machine_ok d \<longrightarrow> machine_ok d')"
proof -
  from assms obtain c where c: "mComm d = Some c" by (auto simp: comm_max_size_def split: option.splits)
  from assms c obtain calls c' where s: "serve_all calls (d \<lparr> mComm := Some c' \<rparr>) = Inr d'"
    by (auto simp: comm_max_size_def bind_res_Inr_iff)
  show ?thesis using serve_all_keeps [OF s] c by auto
qed

section \<open>Contracts of a communicator\<close>

text \<open>
  A communicator that shows a memory: what it reads are the bytes of that memory, and neither a
  read nor the question for its size changes it or calls back. \<open>mem\<close> is its content, if it is
  connected.
\<close>

locale memory_view =
  fixes ops :: "'c communicator" and mem :: "'c \<Rightarrow> bytes option"
  assumes read: "mem c = Some m \<Longrightarrow> off + n \<le> length m \<Longrightarrow> 0 < n \<Longrightarrow>
    \<exists>r. r \<noteq> 0 \<and> readData ops off n c = Inr (r, take n (drop off m), [], c)"
  and max_size: "mem c = Some m \<Longrightarrow> \<exists>n. getMaxDataSize ops c = Inr (n, [], c)"
begin

lemma comm_max_size_mem:
  assumes "mComm d = Some c" "mem c = Some m"
  shows "\<exists>n. comm_max_size ops d = Inr (n, d)"
proof -
  have "d \<lparr> mComm := Some c \<rparr> = d" using assms(1) by (cases d) simp
  with max_size [OF assms(2)] assms(1) show ?thesis by (auto simp: comm_max_size_def)
qed

lemma comm_read_mem:
  assumes "mComm d = Some c" "mem c = Some m" "off + length buf \<le> length m" "buf \<noteq> []"
  shows "\<exists>r. r \<noteq> 0 \<and> comm_read ops off buf d = Inr (r, take (length buf) (drop off m), d)"
proof -
  obtain r where r: "r \<noteq> 0" "readData ops off (length buf) c = Inr (r, take (length buf) (drop off m), [], c)"
    using read [OF assms(2,3)] assms(4) by auto
  have "d \<lparr> mComm := Some c \<rparr> = d" using assms(1) by (cases d) simp
  moreover have "put_bytes buf 0 (take (length buf) (drop off m)) = Inr (take (length buf) (drop off m))"
    using assms(3) by (simp add: put_bytes_def overlay_def)
  moreover have "take (length buf) (drop off m) \<noteq> []" using assms(3,4) by (cases buf) auto
  ultimately show ?thesis using r assms by (auto simp: comm_read_def comm_read_at_def)
qed

lemma doRead_mem:
  assumes "mComm d = Some c" "mem c = Some m" "off + length buf \<le> length m" "buf \<noteq> []"
  shows "\<exists>r. r \<noteq> 0 \<and> doRead ops off buf d = Inr (r, take (length buf) (drop off m), d)"
  using comm_read_mem [OF assms] assms(1) by (simp add: doRead_def)

end

text \<open>
  A device also accepts writes that lie in its memory. In a mailbox at \<open>mo\<close> of \<open>cap\<close> bytes
  the reader takes every message at once: after a write of a message that announces at most
  \<open>cap\<close> bytes, the type byte is 0 again. While it writes, a device may ask for the slot.
  \<open>agrees\<close> relates the history of the writes to what the device has made of them.
\<close>

definition announced :: "bytes \<Rightarrow> nat" where
  "announced b = unat (htons (u16_load (b ! 1) (b ! 2)))"

definition mailbox_free :: "nat \<Rightarrow> nat \<Rightarrow> bytes \<Rightarrow> bool" where
  "mailbox_free mo cap m \<longleftrightarrow> 4 \<le> cap \<and> mo + cap \<le> length m \<and> m ! mo = 0 \<and> announced (drop mo m) \<le> cap"

definition fair_message :: "nat \<Rightarrow> bytes \<Rightarrow> bool" where
  "fair_message cap b \<longleftrightarrow> b = [] \<or> 4 \<le> length b \<and> length b \<le> cap \<and> announced b \<le> cap"

locale mailbox = memory_view +
  fixes mo :: nat and cap :: nat and agrees :: "(nat \<times> bytes) list \<Rightarrow> 'c \<Rightarrow> bool"
  assumes write_free: "mem c = Some m \<Longrightarrow> mailbox_free mo cap m \<Longrightarrow> agrees h c \<Longrightarrow> fair_message cap b \<Longrightarrow>
    \<exists>r calls c' m'. writeData ops mo b c = Inr (r, calls, c') \<and> (\<forall>x \<in> set calls. harmless x)
      \<and> mem c' = Some m' \<and> mailbox_free mo cap m' \<and> agrees (h @ [(mo, b)]) c'"
begin

lemma comm_write_mailbox:
  assumes "mComm d = Some c" "mem c = Some m" "mailbox_free mo cap m" "agrees (dWrites d) c" "fair_message cap b"
  shows "\<exists>r c' m'. comm_write ops mo b d = Inr (r, d \<lparr> mComm := Some c', dWrites := dWrites d @ [(mo, b)] \<rparr>)
    \<and> mem c' = Some m' \<and> mailbox_free mo cap m' \<and> agrees (dWrites d @ [(mo, b)]) c'"
proof -
  obtain r calls c' m' where "writeData ops mo b c = Inr (r, calls, c')" "\<forall>x \<in> set calls. harmless x"
    "mem c' = Some m'" "mailbox_free mo cap m'" "agrees (dWrites d @ [(mo, b)]) c'"
    using write_free [OF assms(2-5)] by blast
  with assms(1) have "comm_write ops mo b d = Inr (r, d \<lparr> mComm := Some c', dWrites := dWrites d @ [(mo, b)] \<rparr>)"
    by (simp add: comm_write_def serve_all_harmless)
  with \<open>mem c' = Some m'\<close> \<open>mailbox_free mo cap m'\<close> \<open>agrees (dWrites d @ [(mo, b)]) c'\<close> show ?thesis by blast
qed

lemma header_of_free:
  assumes "mComm d = Some c" "mem c = Some m" "mailbox_free mo cap m" "length buf = 4"
  shows "\<exists>r b. r \<noteq> 0 \<and> comm_read ops mo buf d = Inr (r, b, d) \<and> length b = 4 \<and> b ! 0 = 0 \<and> announced b \<le> cap"
proof -
  have len: "mo + length buf \<le> length m" using assms(3,4) by (simp add: mailbox_free_def)
  have f: "take 4 (drop mo m) ! 0 = 0" "announced (take 4 (drop mo m)) \<le> cap" "length (take 4 (drop mo m)) = 4"
    using assms(3) by (auto simp: mailbox_free_def announced_def)
  have ne: "buf \<noteq> []" using assms(4) by auto
  from comm_read_mem [OF assms(1,2) len ne] f show ?thesis by (metis assms(4))
qed

end

end
