(* ===== verification/Node.thy ===== *)
theory Node
  imports Sensor_Set Daemon_State
begin

text \<open>
  The node the daemon runs on (\<open>daemon/src/Node.cpp\<close>, \<open>daemon/src/Node.h\<close>): its network
  adapters, the basic information block, the commands it executes, and the monitoring data
  of the baseboard it shows to telnet clients. The operating system is a record of the
  answers of its calls; uninitialised memory is a parameter called \<open>junk\<close>.
\<close>

section \<open>The operating system\<close>

text \<open>
  One entry of \<open>SIOCGIFCONF\<close>: the interface flags, or \<open>None\<close> when \<open>SIOCGIFFLAGS\<close> fails, and
  likewise the hardware address (\<open>sa_data\<close>), the address and the netmask (\<open>sin_addr\<close>).
\<close>

record iface =
  if_flags :: "u16 option"
  if_hwaddr :: "bytes option"
  if_addr :: "bytes option"
  if_netmask :: "bytes option"

record host =
  sock :: int
  if_conf :: "iface list option"
  host_name :: string
  system :: "string \<Rightarrow> int"

definition IFF_LOOPBACK :: u16 where "IFF_LOOPBACK = 8"

section \<open>Adapters\<close>

record AdapterInfo =
  ipAddress :: bytes
  netMask :: bytes
  macAddress :: bytes

text \<open>\<open>Node::AdapterInfo()\<close> is value-initialised.\<close>

definition AdapterInfo_zero :: AdapterInfo where
  "AdapterInfo_zero = \<lparr> ipAddress = replicate 16 0, netMask = replicate 4 0, macAddress = replicate 6 0 \<rparr>"

definition adapter_of :: "AdapterInfo \<Rightarrow> iface \<Rightarrow> AdapterInfo" where
  "adapter_of junk i =
     (let info = (case if_hwaddr i of None \<Rightarrow> junk | Some m \<Rightarrow> junk \<lparr> macAddress := take 6 m \<rparr>);
          info = (case if_addr i of None \<Rightarrow> info | Some a \<Rightarrow> info \<lparr> ipAddress := overlay (ipAddress info) 0 (take 4 a) \<rparr>)
      in (case if_netmask i of None \<Rightarrow> info | Some n \<Rightarrow> info \<lparr> netMask := take 4 n \<rparr>))"

primrec collect_adapters :: "AdapterInfo \<Rightarrow> iface list \<Rightarrow> AdapterInfo list" where
  "collect_adapters junk [] = []"
| "collect_adapters junk (i # is) =
     (case if_flags i of
        None \<Rightarrow> collect_adapters junk is
      | Some f \<Rightarrow> if f AND IFF_LOOPBACK = 0 then adapter_of junk i # collect_adapters junk is
                  else collect_adapters junk is)"

definition getNetworkAdapters :: "AdapterInfo \<Rightarrow> host \<Rightarrow> AdapterInfo list" where
  "getNetworkAdapters junk os =
     (if sock os = -1 then []
      else case if_conf os of None \<Rightarrow> [] | Some is \<Rightarrow> collect_adapters junk is)"

text \<open>The vendor prefix \<open>CHRISTMANN_MAC_1\<close> to \<open>CHRISTMANN_MAC_4\<close>.\<close>

definition christmann :: "AdapterInfo \<Rightarrow> bool" where
  "christmann a \<longleftrightarrow> macAddress a ! 0 = 0x70 \<and> macAddress a ! 1 = 0xB3 \<and> macAddress a ! 2 = 0xD5
     \<and> macAddress a ! 3 = 0x56"

definition mac_odd :: "AdapterInfo \<Rightarrow> bool" where
  "mac_odd a \<longleftrightarrow> macAddress a ! 5 AND 1 = 1"

text \<open>The counters of the two functions are 8 bits wide.\<close>

primrec scan_others :: "AdapterInfo list \<Rightarrow> u8 \<Rightarrow> AdapterInfo \<Rightarrow> u8 \<times> AdapterInfo" where
  "scan_others [] n prev = (n, prev)"
| "scan_others (a # as) n prev =
     (if christmann a then scan_others as (n + 1) prev else scan_others as n a)"

primrec scan_own :: "AdapterInfo list \<Rightarrow> u8 \<Rightarrow> AdapterInfo \<Rightarrow> u8 \<times> AdapterInfo" where
  "scan_own [] n prev = (n, prev)"
| "scan_own (a # as) n prev =
     (if christmann a then scan_own as (n + 1) a else scan_own as n prev)"

primrec first_with :: "(AdapterInfo \<Rightarrow> bool) \<Rightarrow> AdapterInfo list \<Rightarrow> AdapterInfo" where
  "first_with P [] = AdapterInfo_zero"
| "first_with P (a # as) = (if P a then a else first_with P as)"

definition getManagementAdapter :: "AdapterInfo \<Rightarrow> AdapterInfo list \<Rightarrow> AdapterInfo" where
  "getManagementAdapter junk adapters =
     (if length adapters = 1 then AdapterInfo_zero
      else if 2 \<le> length adapters then
        let (n, other) = scan_others adapters 0 junk in
        if n = 1 then other
        else if 1 < n then first_with (\<lambda>a. christmann a \<and> mac_odd a) adapters
        else hd adapters
      else AdapterInfo_zero)"

definition getComputeAdapter :: "AdapterInfo \<Rightarrow> AdapterInfo list \<Rightarrow> AdapterInfo" where
  "getComputeAdapter junk adapters =
     (if length adapters = 1 then hd adapters
      else if 2 \<le> length adapters then
        let (n, own) = scan_own adapters 0 junk in
        if n = 1 then own
        else if 1 < n then first_with (\<lambda>a. christmann a \<and> \<not> mac_odd a) adapters
        else AdapterInfo_zero
      else AdapterInfo_zero)"

text \<open>\<open>gethostname(name, 255)\<close> into a zeroed array of 256.\<close>

definition getHostName :: "host \<Rightarrow> string" where
  "getHostName os = c_str (take 255 (host_name os))"

section \<open>The node\<close>

datatype NodeType = NODE_APALIS | NODE_CXP

record node =
  mBaseboardID :: u8
  mNodeSlot :: u8
  mID :: string
  mSensors :: set_state
  mNodeType :: NodeType
  mMonitoringDataOffset :: u16

text \<open>The constructor builds the sensors; \<open>mMonitoringDataOffset\<close> keeps whatever was in memory.
  The rest of it is logging.\<close>

definition Node_ctor :: "plugins \<Rightarrow> config \<Rightarrow> int \<Rightarrow> (nat \<Rightarrow> u8) \<Rightarrow> u16 \<Rightarrow> sensor_heap
    \<Rightarrow> string \<Rightarrow> u8 \<Rightarrow> u8 \<Rightarrow> NodeType \<Rightarrow> node res" where
  "Node_ctor env c junk_int junk junk_off h node_id bid slot type =
     bind_res (SensorSet_ctor env c junk_int junk h) (\<lambda>st.
       Inr \<lparr> mBaseboardID = bid, mNodeSlot = slot, mID = node_id, mSensors = st, mNodeType = type,
             mMonitoringDataOffset = junk_off \<rparr>)"

definition Node_dtor :: "node \<Rightarrow> sensor_heap res" where
  "Node_dtor nd = SensorSet_dtor (mSensors nd)"

text \<open>\<open>shutdown\<close> and \<open>executeCommand\<close> return their answer and the command lines given to
  \<open>system\<close>.\<close>

definition shutdown_node :: "host \<Rightarrow> bool \<Rightarrow> string \<times> string list" where
  "shutdown_node os poweroff =
     (let cmd = (if poweroff then ''shutdown -P now'' else ''reboot'')
      in (if system os cmd \<noteq> 0 then ''failed'' else ''success'', [cmd]))"

definition executeCommand :: "host \<Rightarrow> string \<Rightarrow> string \<Rightarrow> string \<times> string list" where
  "executeCommand os command parameters =
     (if command = ''shutdown'' then shutdown_node os True
      else if command = ''reboot'' then shutdown_node os False
      else (''Unknown command'', []))"

section \<open>The basic information block\<close>

definition DAEMON_VERSION :: bytes where "DAEMON_VERSION = [3, 0, 0]"

text \<open>\<open>None\<close> is a null buffer. The version byte of the header is not written.\<close>

definition getBasicInformationBlock :: "AdapterInfo \<Rightarrow> host \<Rightarrow> bytes option \<Rightarrow> nat
    \<Rightarrow> (nat \<times> bytes option) res" where
  "getBasicInformationBlock junk os buffer bufferSize =
     (if bufferSize < sizeof_Basic_Information_Block then Inr (0, buffer)
      else case buffer of
        None \<Rightarrow> Inl Bad_access
      | Some b \<Rightarrow>
          let adapters = getNetworkAdapters junk os;
              management = getManagementAdapter junk adapters;
              compute = getComputeAdapter junk adapters
          in bind_res (put_bytes b 0 [message_code Basic_Information]) (\<lambda>b.
             bind_res (put_bytes b 1 (u16_mem (htons (word_of_nat sizeof_Basic_Information_Block)))) (\<lambda>b.
             bind_res (put_bytes b 4 DAEMON_VERSION) (\<lambda>b.
             bind_res (put_bytes b 13 (take 16 (ipAddress management))) (\<lambda>b.
             bind_res (put_bytes b 29 (take 4 (netMask management))) (\<lambda>b.
             bind_res (put_bytes b 7 (take 6 (macAddress management))) (\<lambda>b.
             bind_res (put_bytes b 39 (take 16 (ipAddress compute))) (\<lambda>b.
             bind_res (put_bytes b 55 (take 4 (netMask compute))) (\<lambda>b.
             bind_res (put_bytes b 33 (take 6 (macAddress compute))) (\<lambda>b.
             bind_res (put_bytes b 59 (strncpy_bytes HOSTNAME_LENGTH (getHostName os))) (\<lambda>b.
               Inr (sizeof_Basic_Information_Block, Some b))))))))))))"

section \<open>Monitoring data\<close>

text \<open>The test value is stored little-endian on the target, so the value is returned as it is.\<close>

definition fromLitteEndian :: "u16 \<Rightarrow> u16" where
  "fromLitteEndian value =
     (if u32_mem 0x01020304 ! 0 = 1
      then push_bit 8 (value AND 0xff) OR drop_bit 8 (value AND 0xff00) else value)"

text \<open>
  The search for a chunk, its loop written with the possibility not to end: \<open>pos\<close> is 16 bits
  wide, and a chunk whose length brings it back to an earlier position repeats for ever.
\<close>

partial_function (option) chunk_loop :: "'c communicator \<Rightarrow> bytes \<Rightarrow> Daemon_Header \<Rightarrow> u8 \<Rightarrow> u16 \<Rightarrow> 'c daemon
    \<Rightarrow> (u16 \<times> 'c daemon) res option" where
  [code]: "chunk_loop ops junk hdr type pos d =
     (case doRead ops (unat pos) junk d of
        Inl e \<Rightarrow> Some (Inl e)
      | Inr (r, b, d) \<Rightarrow>
          if r = 0 then Some (Inr (0, d))
          else let ch = dec_Chunk_Header b in
               if chunkType ch = type then Some (Inr (pos + word_of_nat sizeof_Chunk_Header, d))
               else let pos' = pos + (word_of_nat sizeof_Chunk_Header + ch_length ch) in
                    if pos' < dynamicAreaOffset hdr then chunk_loop ops junk hdr type pos' d
                    else Some (Inr (0, d)))"

definition findHeaderDataChunkOffset :: "'c communicator \<Rightarrow> (nat \<Rightarrow> u8) \<Rightarrow> u8 \<Rightarrow> 'c daemon
    \<Rightarrow> (u16 \<times> 'c daemon) res option" where
  "findHeaderDataChunkOffset ops junk type d =
     (case doRead ops 0 (malloc_bytes junk sizeof_Daemon_Header) d of
        Inl e \<Rightarrow> Some (Inl e)
      | Inr (r, b, d) \<Rightarrow>
          if r = 0 then Some (Inr (0, d))
          else let hdr = dec_Daemon_Header b in
               if dh_version hdr < 3 then
                 Some (Inr (if type = CHUNK_TYPE_MONITORING then 9 else 0, d))
               else chunk_loop ops (malloc_bytes junk sizeof_Chunk_Header) hdr type (chunksOffset hdr) d)"

definition crlf :: string where "crlf = [CHR 0x0D, CHR 0x0A]"

definition quoted :: "string \<Rightarrow> string" where
  "quoted s = CHR 0x22 # s @ [CHR 0x22]"

text \<open>One line \<open>{"name": N, "value": v / 1000.0, "unit": U},\<close>.\<close>

definition milli_line :: "string \<Rightarrow> u16 \<Rightarrow> string \<Rightarrow> string" where
  "milli_line name v unit = ''{'' @ quoted ''name'' @ '': '' @ quoted name @ '', '' @ quoted ''value'' @ '': ''
     @ show_dbl (dbl_of_ratio False (unat (fromLitteEndian v)) 1000) @ '', '' @ quoted ''unit'' @ '': ''
     @ quoted unit @ ''},'' @ crlf"

fun comma_join :: "string list \<Rightarrow> string" where
  "comma_join [] = []"
| "comma_join [x] = x"
| "comma_join (x # y # xs) = x @ '', '' @ comma_join (y # xs)"

text \<open>The source file is encoded in ISO 8859-1: the degree sign is the single byte B0. The
  index \<open>2 + mSlot\<close> of the currents is not checked against their number.\<close>

definition monitoring_json :: "NodeType \<Rightarrow> u8 \<Rightarrow> bytes \<Rightarrow> string res" where
  "monitoring_json type slot mon =
     bind_res (BB_current mon (2 + unat slot)) (\<lambda>node_current.
     bind_res (BB_current mon 1) (\<lambda>peg_current.
     bind_res (BB_voltage mon 0) (\<lambda>supply.
     bind_res (get_bytes mon 46 5) (\<lambda>temps.
       Inr (''['' @ crlf
         @ milli_line ''nodeCurrent'' node_current ''A''
         @ (if type = NODE_CXP then milli_line ''pegCurrent'' peg_current ''A'' else [])
         @ milli_line ''12vSupply'' supply ''V''
         @ ''{'' @ quoted ''name'' @ '': '' @ quoted ''temperatures'' @ '', '' @ quoted ''values'' @ '': [''
         @ comma_join (map (\<lambda>t. show_nat (unat t)) temps)
         @ ''], '' @ quoted ''unit'' @ '': '' @ quoted [CHR 0xB0, CHR ''C''] @ ''}'' @ crlf
         @ '']'' @ crlf)))))"

text \<open>Any result of \<open>doRead\<close> but 0 counts as success, also -1 of a missing communicator.\<close>

definition read_monitoring :: "'c communicator \<Rightarrow> (nat \<Rightarrow> u8) \<Rightarrow> node \<Rightarrow> 'c daemon
    \<Rightarrow> (string \<times> node \<times> 'c daemon) res" where
  "read_monitoring ops junk nd d =
     (if mMonitoringDataOffset nd = 0 then Inr ([], nd, d)
      else bind_res (doRead ops (unat (mMonitoringDataOffset nd)) (malloc_bytes junk sizeof_BB_Monitoring) d)
        (\<lambda>(r, mon, d).
          if r = 0 then Inr ([], nd, d)
          else bind_res (monitoring_json (mNodeType nd) (mNodeSlot nd) mon) (\<lambda>s. Inr (s, nd, d))))"

definition getJSONMonitoringData :: "'c communicator \<Rightarrow> (nat \<Rightarrow> u8) \<Rightarrow> node \<Rightarrow> 'c daemon
    \<Rightarrow> (string \<times> node \<times> 'c daemon) res option" where
  "getJSONMonitoringData ops junk nd d =
     (if mMonitoringDataOffset nd = 0 then
        case findHeaderDataChunkOffset ops junk CHUNK_TYPE_MONITORING d of
          None \<Rightarrow> None
        | Some (Inl e) \<Rightarrow> Some (Inl e)
        | Some (Inr (offset, d)) \<Rightarrow>
            Some (read_monitoring ops junk
                    (if 2 < offset then nd \<lparr> mMonitoringDataOffset := offset - 2 \<rparr> else nd) d)
      else Some (read_monitoring ops junk nd d))"

end
