(* ===== verification/Node_Facts.thy ===== *)
theory Node_Facts
  imports Node
begin

text \<open>
  What the node promises: the two adapters it reports are never the same one, the layout of
  the basic information block, and the search for a chunk of the memory header: where it
  ends it finds the first chunk of the kind, and a chunk length can make it run for ever.
\<close>

section \<open>Adapters\<close>

lemma scan_own_eq:
  "scan_own as n p = (n + word_of_nat (length (filter christmann as)),
     if filter christmann as = [] then p else last (filter christmann as))"
  by (induction as arbitrary: n p) auto

lemma scan_others_eq:
  "scan_others as n p = (n + word_of_nat (length (filter christmann as)),
     if filter (\<lambda>a. \<not> christmann a) as = [] then p else last (filter (\<lambda>a. \<not> christmann a) as))"
  by (induction as arbitrary: n p) auto

lemma first_with_cases: "first_with P as = AdapterInfo_zero \<and> (\<forall>a \<in> set as. \<not> P a)
    \<or> P (first_with P as) \<and> first_with P as \<in> set as"
  by (induction as) auto

lemma counter_exact: "n < 256 \<Longrightarrow> unat (word_of_nat n :: u8) = n"
  by (simp add: unat_of_nat take_bit_nat_eq_self)

lemma filter_both: "length (filter P xs) < length xs \<Longrightarrow> filter (\<lambda>x. \<not> P x) xs \<noteq> []"
  using sum_length_filter_compl [of P xs] by auto

lemma last_filter: "filter P xs \<noteq> [] \<Longrightarrow> last (filter P xs) \<in> set xs \<and> P (last (filter P xs))"
  using last_in_set [of "filter P xs"] by auto

text \<open>The compute adapter, on each branch.\<close>

lemma getComputeAdapter_cases:
  assumes "2 \<le> length as" "length as < 256"
  shows "length (filter christmann as) = 0 \<Longrightarrow> getComputeAdapter junk as = AdapterInfo_zero"
    and "length (filter christmann as) = 1 \<Longrightarrow> getComputeAdapter junk as = hd (filter christmann as)"
    and "2 \<le> length (filter christmann as) \<Longrightarrow>
      getComputeAdapter junk as = first_with (\<lambda>a. christmann a \<and> \<not> mac_odd a) as"
proof -
  let ?n = "length (filter christmann as)"
  have n: "unat (word_of_nat ?n :: u8) = ?n"
    using assms(2) length_filter_le [of christmann as] by (intro counter_exact) linarith
  have one: "word_of_nat ?n = (1 :: u8) \<longleftrightarrow> ?n = 1" using n by (metis unsigned_1 of_nat_1)
  have gt: "(1 :: u8) < word_of_nat ?n \<longleftrightarrow> 1 < ?n" by (simp only: word_less_nat_alt n unsigned_1)
  note d = getComputeAdapter_def scan_own_eq Let_def
  show "?n = 0 \<Longrightarrow> getComputeAdapter junk as = AdapterInfo_zero" using assms(1) by (simp add: d)
  show "?n = 1 \<Longrightarrow> getComputeAdapter junk as = hd (filter christmann as)"
    using assms(1) by (auto simp: d length_Suc_conv)
  show "2 \<le> ?n \<Longrightarrow> getComputeAdapter junk as = first_with (\<lambda>a. christmann a \<and> \<not> mac_odd a) as"
    using assms(1) one gt by (auto simp: d)
qed

lemma getManagementAdapter_cases:
  assumes "2 \<le> length as" "length as < 256"
  shows "length (filter christmann as) = 0 \<Longrightarrow> getManagementAdapter junk as = hd as"
    and "length (filter christmann as) = 1 \<Longrightarrow>
      getManagementAdapter junk as = last (filter (\<lambda>a. \<not> christmann a) as)"
    and "2 \<le> length (filter christmann as) \<Longrightarrow>
      getManagementAdapter junk as = first_with (\<lambda>a. christmann a \<and> mac_odd a) as"
proof -
  let ?n = "length (filter christmann as)"
  have n: "unat (word_of_nat ?n :: u8) = ?n"
    using assms(2) length_filter_le [of christmann as] by (intro counter_exact) linarith
  have one: "word_of_nat ?n = (1 :: u8) \<longleftrightarrow> ?n = 1" using n by (metis unsigned_1 of_nat_1)
  have gt: "(1 :: u8) < word_of_nat ?n \<longleftrightarrow> 1 < ?n" by (simp only: word_less_nat_alt n unsigned_1)
  note d = getManagementAdapter_def scan_others_eq Let_def
  show "?n = 0 \<Longrightarrow> getManagementAdapter junk as = hd as" using assms(1) by (simp add: d)
  show "?n = 1 \<Longrightarrow> getManagementAdapter junk as = last (filter (\<lambda>a. \<not> christmann a) as)"
    using assms(1) filter_both [of christmann as] by (auto simp: d)
  show "2 \<le> ?n \<Longrightarrow> getManagementAdapter junk as = first_with (\<lambda>a. christmann a \<and> mac_odd a) as"
    using assms(1) one gt by (auto simp: d)
qed

lemma adapters_differ:
  assumes "length as < 256" "getComputeAdapter junk as = getManagementAdapter junk as"
  shows "getComputeAdapter junk as = AdapterInfo_zero"
proof (cases "2 \<le> length as")
  case False
  with assms(2) show ?thesis by (auto simp: getComputeAdapter_def getManagementAdapter_def)
next
  case True
  note c = getComputeAdapter_cases [OF True assms(1), of junk]
  note m = getManagementAdapter_cases [OF True assms(1), of junk]
  consider "length (filter christmann as) = 0" | "length (filter christmann as) = 1"
    | "2 \<le> length (filter christmann as)" by linarith
  then show ?thesis
  proof cases
    case 2
    have "christmann (hd (filter christmann as))" using 2 by (auto simp: length_Suc_conv filter_eq_Cons_iff)
    moreover have "\<not> christmann (last (filter (\<lambda>a. \<not> christmann a) as))"
      using last_filter [OF filter_both [of christmann as]] 2 True by auto
    ultimately show ?thesis using c(2) m(2) 2 assms(2) by auto
  next
    case 3
    then show ?thesis
      using c(3) m(3) assms(2) first_with_cases [of "\<lambda>a. christmann a \<and> \<not> mac_odd a" as]
        first_with_cases [of "\<lambda>a. christmann a \<and> mac_odd a" as] by auto
  qed (use c(1) in auto)
qed

text \<open>The kernel's buffer of 1024 bytes holds 25 interfaces, and none is counted twice.\<close>

lemma length_getNetworkAdapters:
  "if_conf os = Some is \<Longrightarrow> length (getNetworkAdapters junk os) \<le> length is"
proof -
  have "length (collect_adapters junk is) \<le> length is"
    by (induction "is") (auto split: option.splits)
  then show "if_conf os = Some is \<Longrightarrow> ?thesis" by (simp add: getNetworkAdapters_def)
qed

definition adapter_ok :: "AdapterInfo \<Rightarrow> bool" where
  "adapter_ok a \<longleftrightarrow> length (ipAddress a) = 16 \<and> length (netMask a) = 4 \<and> length (macAddress a) = 6"

definition iface_ok :: "iface \<Rightarrow> bool" where
  "iface_ok i \<longleftrightarrow> (\<forall>m. if_hwaddr i = Some m \<longrightarrow> 6 \<le> length m) \<and> (\<forall>a. if_addr i = Some a \<longrightarrow> length a = 4)
     \<and> (\<forall>n. if_netmask i = Some n \<longrightarrow> length n = 4)"

definition host_ok :: "host \<Rightarrow> bool" where
  "host_ok os \<longleftrightarrow> (\<forall>is. if_conf os = Some is \<longrightarrow> length is \<le> 25 \<and> (\<forall>i \<in> set is. iface_ok i))"

lemma adapter_of_ok: "adapter_ok junk \<Longrightarrow> iface_ok i \<Longrightarrow> adapter_ok (adapter_of junk i)"
  by (auto simp: adapter_ok_def iface_ok_def adapter_of_def Let_def length_overlay split: option.splits)

lemma getNetworkAdapters_ok:
  assumes "adapter_ok junk" "host_ok os"
  shows "length (getNetworkAdapters junk os) \<le> 25" "\<forall>a \<in> set (getNetworkAdapters junk os). adapter_ok a"
proof -
  show "length (getNetworkAdapters junk os) \<le> 25"
    using assms(2) length_getNetworkAdapters [of os _ junk]
    by (cases "if_conf os") (fastforce simp: host_ok_def getNetworkAdapters_def)+
  have "\<forall>i \<in> set is. iface_ok i \<Longrightarrow> \<forall>a \<in> set (collect_adapters junk is). adapter_ok a" for "is"
    by (induction "is") (auto simp: adapter_of_ok assms(1) split: option.splits)
  then show "\<forall>a \<in> set (getNetworkAdapters junk os). adapter_ok a"
    using assms(2) by (cases "if_conf os") (simp_all add: getNetworkAdapters_def host_ok_def, blast)
qed

lemma adapter_zero_ok [simp]: "adapter_ok AdapterInfo_zero"
  by (simp add: adapter_ok_def AdapterInfo_zero_def)

lemma scans_ok:
  assumes "adapter_ok junk" "\<forall>a \<in> set as. adapter_ok a"
  shows "adapter_ok (getManagementAdapter junk as)" "adapter_ok (getComputeAdapter junk as)"
proof -
  have f: "adapter_ok (first_with P as)" for P
    using first_with_cases [of P as] assms(2) by auto
  have h: "2 \<le> length as \<Longrightarrow> adapter_ok (hd as)" "length as = Suc 0 \<Longrightarrow> adapter_ok (hd as)"
    using assms(2) by (cases as; simp)+
  have o: "adapter_ok (snd (scan_others as n junk))" "adapter_ok (snd (scan_own as n junk))" for n
    using assms last_filter [of christmann as] last_filter [of "\<lambda>a. \<not> christmann a" as]
    by (auto simp: scan_others_eq scan_own_eq)
  show "adapter_ok (getManagementAdapter junk as)"
    using f h o(1) [of 0] by (auto simp: getManagementAdapter_def Let_def split: prod.splits)
  show "adapter_ok (getComputeAdapter junk as)"
    using f h o(2) [of 0] by (auto simp: getComputeAdapter_def Let_def split: prod.splits)
qed

section \<open>The basic information block\<close>

lemma put_bytes_skip:
  "length p \<le> off \<Longrightarrow> put_bytes (p @ q) off bs = bind_res (put_bytes q (off - length p) bs) (\<lambda>b. Inr (p @ b))"
  by (auto simp: put_bytes_def overlay_def)

lemma put_bytes_skip1: "0 < off \<Longrightarrow> put_bytes (x # q) off bs = bind_res (put_bytes q (off - 1) bs) (\<lambda>b. Inr (x # b))"
  using put_bytes_skip [of "[x]" off q bs] by simp

lemma put_bytes_here: "length q = length bs \<Longrightarrow> put_bytes (q @ r) 0 bs = Inr (bs @ r)"
  by (simp add: put_bytes_def overlay_def)

definition interface_bytes :: "AdapterInfo \<Rightarrow> bytes" where
  "interface_bytes a = macAddress a @ ipAddress a @ netMask a"

lemma pieces11:
  "map f ps = [a, b, c, d, e, g, h, i, j, k, l] \<Longrightarrow> \<exists>x1 x2 x3 x4 x5 x6 x7 x8 x9 x10 x11.
     ps = [x1, x2, x3, x4, x5, x6, x7, x8, x9, x10, x11] \<and> f x1 = a \<and> f x2 = b \<and> f x3 = c \<and> f x4 = d
     \<and> f x5 = e \<and> f x6 = g \<and> f x7 = h \<and> f x8 = i \<and> f x9 = j \<and> f x10 = k \<and> f x11 = l"
  by (auto simp: map_eq_Cons_conv)

text \<open>The block: type, size in network order, the version byte as it was, the daemon's version,
  the two adapters and the padded host name.\<close>

definition information_bytes :: "u8 \<Rightarrow> AdapterInfo \<Rightarrow> AdapterInfo \<Rightarrow> string \<Rightarrow> bytes" where
  "information_bytes version management compute name =
     [message_code Basic_Information] @ rev (u16_mem (word_of_nat sizeof_Basic_Information_Block)) @ [version]
     @ DAEMON_VERSION @ interface_bytes management @ interface_bytes compute
     @ strncpy_bytes HOSTNAME_LENGTH name"

lemma split_pieces: "sum_list ns \<le> length b \<Longrightarrow> \<exists>ps r. b = concat ps @ r \<and> map length ps = ns"
proof (induction ns arbitrary: b)
  case (Cons n ns)
  then have "sum_list ns \<le> length (drop n b)" by simp
  from Cons.IH [OF this] obtain ps r where "drop n b = concat ps @ r" "map length ps = ns" by blast
  moreover have "b = take n b @ drop n b" "length (take n b) = n" using Cons.prems by simp_all
  ultimately have "b = concat (take n b # ps) @ r \<and> map length (take n b # ps) = n # ns" by simp
  then show ?case by (intro exI [of _ "take n b # ps"] exI [of _ r])
qed simp

lemma getBasicInformationBlock_bytes:
  assumes len: "315 \<le> length b" and os: "adapter_ok junk" "host_ok os"
  defines "as \<equiv> getNetworkAdapters junk os"
  shows "getBasicInformationBlock junk os (Some b) (length b) = Inr (315, Some
      (information_bytes (b ! 3) (getManagementAdapter junk as) (getComputeAdapter junk as) (getHostName os)
        @ drop 315 b))"
proof -
  have "sum_list [1, 2, 1, 3, 6, 16, 4, 6, 16, 4, 256] \<le> length b" using len by simp
  from split_pieces [OF this] obtain ps r where ps: "b = concat ps @ r" "map length ps = [1, 2, 1, 3, 6, 16, 4, 6, 16, 4, 256]"
    by (elim exE conjE)
  then obtain t sz v dv m1 i1 n1 m2 i2 n2 hn where p: "ps = [t, sz, v, dv, m1, i1, n1, m2, i2, n2, hn]"
    and l: "length t = 1" "length sz = 2" "length v = 1" "length dv = 3" "length m1 = 6" "length i1 = 16"
      "length n1 = 4" "length m2 = 6" "length i2 = 16" "length n2 = 4" "length hn = 256"
    using pieces11 [OF ps(2)] by (elim exE conjE)
  have s: "b = t @ sz @ v @ dv @ m1 @ i1 @ n1 @ m2 @ i2 @ n2 @ hn @ r" by (simp add: ps(1) p)
  let ?m = "getManagementAdapter junk as" and ?c = "getComputeAdapter junk as"
  have "adapter_ok ?m" "adapter_ok ?c"
    using scans_ok [OF os(1)] getNetworkAdapters_ok [OF os] by (simp_all add: as_def)
  then have a: "length (ipAddress ?m) = 16" "length (netMask ?m) = 4" "length (macAddress ?m) = 6"
    "length (ipAddress ?c) = 16" "length (netMask ?c) = 4" "length (macAddress ?c) = 6"
    by (simp_all add: adapter_ok_def)
  have h: "length (strncpy_bytes 256 (getHostName os)) = 256" by simp
  obtain v0 where v0: "v = [v0]" using l(3) by (auto simp: length_Suc_conv)
  have b3: "b ! 3 = v0" using l s v0 by (simp add: nth_append)
  have d: "drop 315 b = r" using l s by simp
  have ver: "length DAEMON_VERSION = 3" by (simp add: DAEMON_VERSION_def)
  have sz': "u16_mem (htons x) = rev (u16_mem x)" for x by (rule u16_mem_htons)
  have run: "getBasicInformationBlock junk os (Some b) (length b) = Inr (315, Some
    ([message_code Basic_Information] @ u16_mem (htons (word_of_nat 315)) @ v @ DAEMON_VERSION
      @ macAddress ?m @ ipAddress ?m @ netMask ?m @ macAddress ?c @ ipAddress ?c @ netMask ?c
      @ strncpy_bytes 256 (getHostName os) @ r))"
    using len
    by (simp only: getBasicInformationBlock_def wire_simps as_def [symmetric] Let_def option.case s)
       (simp add: put_bytes_skip put_bytes_skip1 put_bytes_here l a h ver)
  show ?thesis
    unfolding run information_bytes_def interface_bytes_def b3 d v0 sz' by (simp add: wire_simps)
qed

section \<open>Chunks\<close>

text \<open>A chunk in memory is its kind, the length of its payload and the payload; the area of
  chunks is their concatenation. \<open>chunk_offset\<close> is the position of the payload of the first
  chunk of a kind, 0 if there is none.\<close>

definition enc_chunk :: "u8 \<times> bytes \<Rightarrow> bytes" where
  "enc_chunk c = [fst c] @ u16_mem (word_of_nat (length (snd c))) @ snd c"

fun chunk_offset :: "u8 \<Rightarrow> (u8 \<times> bytes) list \<Rightarrow> nat \<Rightarrow> nat" where
  "chunk_offset type [] pos = 0"
| "chunk_offset type (c # cs) pos =
     (if fst c = type then pos + 3 else chunk_offset type cs (pos + 3 + length (snd c)))"

lemma length_enc_chunk [simp]: "length (enc_chunk c) = 3 + length (snd c)"
  by (simp add: enc_chunk_def)

lemma dec_enc_chunk: "dec_Chunk_Header (take 3 (enc_chunk c @ r)) = \<lparr> chunkType = fst c, ch_length = word_of_nat (length (snd c)) \<rparr>"
  by (simp add: enc_chunk_def dec_Chunk_Header_def u16_mem_def)

lemma dec_Chunk_Header_mem: "dec_Chunk_Header (take 3 ([t] @ u16_mem n @ r)) = \<lparr> chunkType = t, ch_length = n \<rparr>"
  by (simp add: dec_Chunk_Header_def u16_mem_def)

lemma u16_add_nat:
  "unat pos + n < 65536 \<Longrightarrow> unat ((pos :: u16) + word_of_nat n) = unat pos + n"
proof -
  assume lt: "unat pos + n < 65536"
  then have "unat (word_of_nat n :: u16) = n" by (simp add: unat_of_nat take_bit_nat_eq_self)
  with lt show ?thesis using unat_add_lem [of pos "word_of_nat n"] by simp
qed

context memory_view
begin

lemma doRead_chunk:
  assumes "mComm d = Some c" "mem c = Some m" "drop off m = enc_chunk x @ r" "length junk = 3"
  shows "\<exists>q b. q \<noteq> 0 \<and> doRead ops off junk d = Inr (q, b, d) \<and> chunkType (dec_Chunk_Header b) = fst x
    \<and> ch_length (dec_Chunk_Header b) = word_of_nat (length (snd x))"
proof -
  have "length (drop off m) = 3 + length (snd x) + length r" using assms(3) by simp
  then have len: "off + length junk \<le> length m" using assms(4) by simp
  have ne: "junk \<noteq> []" using assms(4) by auto
  obtain q where q: "q \<noteq> 0" "doRead ops off junk d = Inr (q, take 3 (drop off m), d)"
    using doRead_mem [OF assms(1,2) len ne] assms(4) by metis
  have "dec_Chunk_Header (take 3 (drop off m)) = \<lparr> chunkType = fst x, ch_length = word_of_nat (length (snd x)) \<rparr>"
    using dec_enc_chunk assms(3) by metis
  with q show ?thesis by auto
qed

lemma chunk_loop_area:
  assumes d: "mComm d = Some c" "mem c = Some m" and junk: "length junk = 3"
    and area: "drop (unat pos) m = concat (map enc_chunk cs) @ r" "cs \<noteq> []"
    and stop: "unat (dynamicAreaOffset hdr) = unat pos + length (concat (map enc_chunk cs))"
  shows "chunk_loop ops junk hdr type pos d = Some (Inr (word_of_nat (chunk_offset type cs (unat pos)), d))"
  using area stop
proof (induction cs arbitrary: pos)
  case (Cons x xs)
  let ?n = "length (snd x)" and ?rest = "concat (map enc_chunk xs)"
  let ?next = "pos + (word_of_nat sizeof_Chunk_Header + word_of_nat ?n)"
  have dr: "drop (unat pos) m = enc_chunk x @ ?rest @ r" using Cons.prems(1) by simp
  obtain q b where b: "q \<noteq> 0" "doRead ops (unat pos) junk d = Inr (q, b, d)"
    "chunkType (dec_Chunk_Header b) = fst x" "ch_length (dec_Chunk_Header b) = word_of_nat ?n"
    using doRead_chunk [OF d dr junk] by blast
  have lt: "unat (dynamicAreaOffset hdr) < 65536"
    using unsigned_less [of "dynamicAreaOffset hdr"] by simp
  have fits: "unat pos + (3 + ?n) < 65536" using Cons.prems(3) lt by simp
  have nx: "?next = pos + word_of_nat (3 + ?n)" by (simp add: wire_simps)
  have un: "unat ?next = unat pos + 3 + ?n" unfolding nx using u16_add_nat [OF fits] by simp
  show ?case
  proof (cases "fst x = type")
    case True
    then show ?thesis using b by (simp add: chunk_loop.simps [of ops junk hdr type pos] wire_simps)
  next
    case False
    show ?thesis
    proof (cases xs)
      case Nil
      then have "\<not> ?next < dynamicAreaOffset hdr"
        using Cons.prems(3) un by (simp add: word_less_nat_alt)
      with False b Nil show ?thesis by (simp add: chunk_loop.simps [of ops junk hdr type pos] Let_def)
    next
      case (Cons y ys)
      then have lt': "?next < dynamicAreaOffset hdr"
        using Cons.prems(3) un by (simp add: word_less_nat_alt)
      have "drop (unat ?next) m = drop (3 + ?n) (drop (unat pos) m)"
        unfolding un by (simp add: add.commute add.left_commute)
      then have "drop (unat ?next) m = ?rest @ r" using dr by simp
      moreover have "unat (dynamicAreaOffset hdr) = unat ?next + length ?rest"
        using Cons.prems(3) un by simp
      ultimately have "chunk_loop ops junk hdr type ?next d =
          Some (Inr (word_of_nat (chunk_offset type xs (unat ?next)), d))"
        using Cons.IH [of ?next] Cons by blast
      with False b lt' un show ?thesis by (simp add: chunk_loop.simps [of ops junk hdr type pos] Let_def)
    qed
  qed
qed simp

lemma chunk_loop_hangs:
  assumes d: "mComm d = Some c" "mem c = Some m" and junk: "length junk = 3"
    and stuck: "drop (unat pos) m = [other] @ u16_mem 65533 @ r" "other \<noteq> type" "pos < dynamicAreaOffset hdr"
  shows "chunk_loop ops junk hdr type pos d = None"
proof -
  have len: "unat pos + length junk \<le> length m"
  proof -
    have "length (drop (unat pos) m) = 3 + length r" using stuck(1) by simp
    then show ?thesis using junk by simp
  qed
  have ne: "junk \<noteq> []" using junk by auto
  obtain q where q: "q \<noteq> 0" "doRead ops (unat pos) junk d = Inr (q, take 3 (drop (unat pos) m), d)"
    using doRead_mem [OF d len ne] junk by metis
  have ch: "dec_Chunk_Header (take 3 (drop (unat pos) m)) = \<lparr> chunkType = other, ch_length = 65533 \<rparr>"
    using dec_Chunk_Header_mem [of other 65533 r] unfolding stuck(1) .
  have same: "pos + (word_of_nat sizeof_Chunk_Header + 65533) = pos" by (simp add: wire_simps)
  have ends: "chunk_loop ops' junk' hdr' type' pos' d' = Some y \<Longrightarrow>
      \<not> (ops' = ops \<and> junk' = junk \<and> hdr' = hdr \<and> type' = type \<and> pos' = pos \<and> d' = d)"
    for ops' :: "'c communicator" and junk' hdr' type' pos' d' y
  proof (erule chunk_loop.raw_induct [rotated], goal_cases)
    case (1 f ops' junk' hdr' type' pos' d' y)
    show ?case
    proof
      assume eq: "ops' = ops \<and> junk' = junk \<and> hdr' = hdr \<and> type' = type \<and> pos' = pos \<and> d' = d"
      with 1(2) q ch same stuck(2,3) have "f ops junk hdr type pos d = Some y" by (simp add: Let_def)
      from 1(1) [OF this] show False by simp
    qed
  qed
  then have "chunk_loop ops junk hdr type pos d \<noteq> Some y" for y
    using ends [of ops junk hdr type pos d y] by blast
  then show ?thesis by (cases "chunk_loop ops junk hdr type pos d") blast+
qed

end

end
