(* ===== verification/Communicator_Dummy.thy ===== *)
theory Communicator_Dummy
  imports Daemon_State
begin

text \<open>
  The communicator plugin for tests without a baseboard
  (\<open>plugins/CommunicatorDummy/src/CommunicatorDummy.cpp\<close>): a block of memory with a header,
  whose messages count as processed as soon as they are written. It provides the contracts
  of the communicator interface.
\<close>

definition MEMORY_SIZE :: nat where [wire_simps]: "MEMORY_SIZE = 4096"
definition SLOTS :: nat where [wire_simps]: "SLOTS = 4"

record dummy_comm =
  dData :: "bytes option"

definition CommunicatorDummy_ctor :: dummy_comm where
  "CommunicatorDummy_ctor = \<lparr> dData = None \<rparr>"

text \<open>The header; its reserved byte is never written (\<open>junk\<close>).\<close>

definition dummy_header :: "u8 \<Rightarrow> Daemon_Header" where
  "dummy_header junk = \<lparr> magic = bytes_of ''RECS'', dh_size = word_of_nat MEMORY_SIZE, baseboardID = 1,
     maxSlots = word_of_nat SLOTS, dh_version = 3, dh_reserved = junk,
     chunksOffset = word_of_nat sizeof_Daemon_Header, dynamicAreaOffset = word_of_nat sizeof_Daemon_Header \<rparr>"

definition dummy_initInterface :: "u8 \<Rightarrow> dummy_comm \<Rightarrow> bool \<times> service_call list \<times> dummy_comm" where
  "dummy_initInterface junk c =
     (True, [], c \<lparr> dData := Some (overlay (replicate MEMORY_SIZE 0) 0 (enc_Daemon_Header (dummy_header junk))) \<rparr>)"

text \<open>The clipped length wraps around when the offset is behind the memory.\<close>

definition clip :: "nat \<Rightarrow> nat \<Rightarrow> nat" where
  "clip offset count = (if MEMORY_SIZE < (offset + count) mod 2 ^ 64 then size_sub MEMORY_SIZE offset else count)"

definition dummy_readData :: "nat \<Rightarrow> nat \<Rightarrow> dummy_comm \<Rightarrow> (int \<times> bytes \<times> service_call list \<times> dummy_comm) res" where
  "dummy_readData offset count c =
     (case dData c of
        None \<Rightarrow> Inr (-3, [], [], c)
      | Some m \<Rightarrow> bind_res (get_bytes m offset (clip offset count)) (\<lambda>b.
          Inr (int (clip offset count), b, [], c)))"

primrec mark_processed :: "nat \<Rightarrow> bytes \<Rightarrow> bytes" where
  "mark_processed 0 m = m"
| "mark_processed (Suc i) m =
     (let messageOffset = sizeof_Daemon_Header;
          messageMaxSize = (MEMORY_SIZE - messageOffset) div SLOTS
      in (mark_processed i m) [messageOffset + i * messageMaxSize := 0])"

definition parseData :: "bytes \<Rightarrow> bytes" where
  "parseData m = mark_processed SLOTS m"

definition dummy_writeData :: "nat \<Rightarrow> bytes \<Rightarrow> dummy_comm \<Rightarrow> (int \<times> service_call list \<times> dummy_comm) res" where
  "dummy_writeData offset b c =
     (case dData c of
        None \<Rightarrow> Inr (-3, [], c)
      | Some m \<Rightarrow>
          let n = clip offset (length b) in
          bind_res (get_bytes b 0 n) (\<lambda>src.
          bind_res (put_bytes m offset src) (\<lambda>m. Inr (int n, [], c \<lparr> dData := Some (parseData m) \<rparr>))))"

definition dummy_ops :: "u8 \<Rightarrow> dummy_comm communicator" where
  "dummy_ops junk = \<lparr> initInterface = dummy_initInterface junk, getMaxDataSize = (\<lambda>c. Inr (MEMORY_SIZE, [], c)),
     readData = dummy_readData, writeData = dummy_writeData \<rparr>"

text \<open>The memory of an initialised dummy.\<close>

definition dummy_mem :: "dummy_comm \<Rightarrow> bytes option" where
  "dummy_mem c = (case dData c of None \<Rightarrow> None | Some m \<Rightarrow> if length m = MEMORY_SIZE then Some m else None)"

text \<open>The message area of slot \<open>i\<close>.\<close>

definition dummy_slot :: "nat \<Rightarrow> nat" where
  "dummy_slot i = 14 + i * 1020"

lemma clip_inside: "offset + count \<le> MEMORY_SIZE \<Longrightarrow> clip offset count = count"
  by (simp add: clip_def MEMORY_SIZE_def)

lemma length_mark_processed [simp]: "length (mark_processed n m) = length m"
  by (induction n) (simp_all add: Let_def)

lemma mark_processed_Suc: "mark_processed (Suc i) m = (mark_processed i m) [dummy_slot i := 0]"
  by (simp add: Let_def wire_simps dummy_slot_def)

lemma mark_processed_nth:
  "length m = MEMORY_SIZE \<Longrightarrow> n \<le> 4 \<Longrightarrow> k < MEMORY_SIZE \<Longrightarrow>
     mark_processed n m ! k = (if \<exists>i < n. k = dummy_slot i then 0 else m ! k)"
proof (induction n)
  case (Suc n)
  then have IH: "mark_processed n m ! k = (if \<exists>i < n. k = dummy_slot i then 0 else m ! k)" by simp
  have "k < length (mark_processed n m)" using Suc.prems by (simp only: length_mark_processed)
  then have "mark_processed (Suc n) m ! k = (if k = dummy_slot n then 0 else mark_processed n m ! k)"
    unfolding mark_processed_Suc by (cases "k = dummy_slot n") simp_all
  also have "\<dots> = (if \<exists>i < Suc n. k = dummy_slot i then 0 else m ! k)"
    unfolding IH by (auto simp only: less_Suc_eq split: if_splits)
  finally show ?case .
qed (simp only: mark_processed.simps not_less0, simp)

lemma dummy_slot_inj: "k \<le> 3 \<Longrightarrow> dummy_slot i + k = dummy_slot j \<Longrightarrow> k = 0"
proof -
  assume "k \<le> 3" "dummy_slot i + k = dummy_slot j"
  then have "(i * 1020 + k) mod 1020 = j * 1020 mod 1020" by (simp add: dummy_slot_def)
  with \<open>k \<le> 3\<close> show "k = 0" by simp
qed

lemma parseData_nth:
  assumes "length m = MEMORY_SIZE" "i < 4"
  shows "parseData m ! dummy_slot i = 0" "parseData m ! (dummy_slot i + 1) = m ! (dummy_slot i + 1)"
    "parseData m ! (dummy_slot i + 2) = m ! (dummy_slot i + 2)"
proof -
  have lt: "dummy_slot i + 2 < MEMORY_SIZE" using assms(2) by (auto simp: dummy_slot_def wire_simps)
  have "\<not> (\<exists>j < 4. dummy_slot i + 1 = dummy_slot j)" "\<not> (\<exists>j < 4. dummy_slot i + 2 = dummy_slot j)"
    using dummy_slot_inj [of 1 i] dummy_slot_inj [of 2 i] by auto
  with lt assms mark_processed_nth [of m 4] show
    "parseData m ! dummy_slot i = 0" "parseData m ! (dummy_slot i + 1) = m ! (dummy_slot i + 1)"
    "parseData m ! (dummy_slot i + 2) = m ! (dummy_slot i + 2)"
    by (auto simp: parseData_def SLOTS_def)
qed

interpretation dummy_memory: memory_view "dummy_ops junk" dummy_mem
proof
  fix c m and off n :: nat
  assume m: "dummy_mem c = Some m" "off + n \<le> length m" "0 < n"
  then have "dData c = Some m" "length m = MEMORY_SIZE"
    by (auto simp: dummy_mem_def split: option.splits if_splits)
  with m show "\<exists>r. r \<noteq> 0 \<and> readData (dummy_ops junk) off n c = Inr (r, take n (drop off m), [], c)"
    by (auto simp: dummy_ops_def dummy_readData_def clip_inside get_bytes_ok)
qed (simp add: dummy_ops_def)

lemma dummy_write_free:
  assumes i: "i < 4" and c: "dummy_mem c = Some m" and free: "mailbox_free (dummy_slot i) 1020 m"
    and b: "fair_message 1020 b"
  shows "\<exists>r c' m'. writeData (dummy_ops junk) (dummy_slot i) b c = Inr (r, [], c') \<and> dummy_mem c' = Some m'
    \<and> mailbox_free (dummy_slot i) 1020 m'"
proof -
  let ?o = "dummy_slot i" and ?m = "overlay m (dummy_slot i) b"
  have m: "dData c = Some m" "length m = MEMORY_SIZE"
    using c by (auto simp: dummy_mem_def split: option.splits if_splits)
  have fits: "?o + 1020 \<le> MEMORY_SIZE" using i by (auto simp: dummy_slot_def wire_simps)
  moreover have lb: "length b \<le> 1020" using b by (auto simp: fair_message_def)
  ultimately have w: "writeData (dummy_ops junk) ?o b c = Inr (int (length b), [], c \<lparr> dData := Some (parseData ?m) \<rparr>)"
    using m by (simp add: dummy_ops_def dummy_writeData_def Let_def clip_inside get_bytes_ok put_bytes_ok)
  have len: "length ?m = MEMORY_SIZE" using m fits lb by (simp add: length_overlay)
  have "announced (drop ?o ?m) \<le> 1020"
  proof (cases "b = []")
    case True
    then show ?thesis using free by (simp add: overlay_def mailbox_free_def)
  next
    case False
    then have "4 \<le> length b" "announced b \<le> 1020" using b by (auto simp: fair_message_def)
    moreover have "drop ?o ?m = b @ drop (?o + length b) m"
      using m fits by (simp add: overlay_def)
    ultimately show ?thesis by (simp add: announced_def nth_append)
  qed
  then have "announced (drop ?o (parseData ?m)) \<le> 1020"
    using parseData_nth [OF len i] len fits by (simp add: announced_def parseData_def)
  then have "mailbox_free ?o 1020 (parseData ?m)"
    using parseData_nth(1) [OF len i] len fits by (simp add: mailbox_free_def parseData_def)
  with w len show ?thesis by (auto simp: dummy_mem_def parseData_def)
qed

lemma dummy_write_mailbox:
  assumes "i < 4" "dummy_mem c = Some m" "mailbox_free (dummy_slot i) 1020 m" "fair_message 1020 b"
  shows "\<exists>r calls c' m'. writeData (dummy_ops junk) (dummy_slot i) b c = Inr (r, calls, c')
    \<and> (\<forall>x \<in> set calls. harmless x) \<and> dummy_mem c' = Some m' \<and> mailbox_free (dummy_slot i) 1020 m'"
  using dummy_write_free [OF assms, of junk] by (metis empty_iff list.set(1))

text \<open>Each of the four message areas of the dummy is such a mailbox.\<close>

interpretation dummy_mailbox0: mailbox "dummy_ops junk" dummy_mem "dummy_slot 0" 1020 "\<lambda>_ _. True"
  by unfold_locales (simp only: simp_thms, rule dummy_write_mailbox; simp)

interpretation dummy_mailbox1: mailbox "dummy_ops junk" dummy_mem "dummy_slot 1" 1020 "\<lambda>_ _. True"
  by unfold_locales (simp only: simp_thms, rule dummy_write_mailbox; simp)

interpretation dummy_mailbox2: mailbox "dummy_ops junk" dummy_mem "dummy_slot 2" 1020 "\<lambda>_ _. True"
  by unfold_locales (simp only: simp_thms, rule dummy_write_mailbox; simp)

interpretation dummy_mailbox3: mailbox "dummy_ops junk" dummy_mem "dummy_slot 3" 1020 "\<lambda>_ _. True"
  by unfold_locales (simp only: simp_thms, rule dummy_write_mailbox; simp)

end
