(* ===== verification/Node_Properties.thy ===== *)
theory Node_Properties
  imports Node_Facts Communicator_Dummy
begin

text \<open>
  What the node promises (\<open>daemon/src/Node.cpp\<close>): the adapters it reports, the bytes of the
  basic information block, the search for the monitoring data of the baseboard, and the
  commands it runs. The searches are stated for every communicator that shows a memory and
  witnessed on the dummy communicator.
\<close>

text \<open>C33: the compute adapter and the management adapter that are reported are never the same
  network interface: where both functions return the same, they return the empty adapter.
  Of two or more interfaces exactly one of which has the vendor's MAC prefix, that one is
  the compute adapter and the last other one the management adapter.\<close>

theorem adapters_are_different:
  assumes "length as < 256"
  shows "(getComputeAdapter junk as = getManagementAdapter junk as \<longrightarrow> getComputeAdapter junk as = AdapterInfo_zero) \<and>
    (2 \<le> length as \<and> length (filter christmann as) = 1 \<longrightarrow>
       getComputeAdapter junk as = hd (filter christmann as) \<and>
       getManagementAdapter junk as = last (filter (\<lambda>a. \<not> christmann a) as))"
  using adapters_differ [OF assms] getComputeAdapter_cases(2) [OF _ assms] getManagementAdapter_cases(2) [OF _ assms]
  by blast

definition sample_nic :: "u8 \<Rightarrow> u8 \<Rightarrow> AdapterInfo" where
  "sample_nic b n = \<lparr> ipAddress = [192, 168, 0, n] @ replicate 12 0, netMask = [255, 255, 255, 0],
     macAddress = [b, 0xB3, 0xD5, 0x56, 0, n] \<rparr>"

theorem adapters_are_different_witness:
  "getComputeAdapter AdapterInfo_zero [sample_nic 0x70 2, sample_nic 0 3] = sample_nic 0x70 2 \<and>
   getManagementAdapter AdapterInfo_zero [sample_nic 0x70 2, sample_nic 0 3] = sample_nic 0 3"
  using adapters_are_different [of "[sample_nic 0x70 2, sample_nic 0 3]" AdapterInfo_zero]
  by (simp add: christmann_def sample_nic_def)

text \<open>C34: the basic information block is 315 bytes: type and size, a version byte that keeps
  whatever the buffer held, the daemon's version, MAC, address and netmask of the management
  and of the compute adapter, and the host name padded with zeros; what follows in the buffer
  is not touched. A smaller buffer is refused.\<close>

theorem information_block_layout:
  assumes "adapter_ok junk" "host_ok os"
  shows "(315 \<le> length b \<longrightarrow> getBasicInformationBlock junk os (Some b) (length b) = Inr (315, Some
      (information_bytes (b ! 3) (getManagementAdapter junk (getNetworkAdapters junk os))
         (getComputeAdapter junk (getNetworkAdapters junk os)) (getHostName os) @ drop 315 b))) \<and>
    (length b < 315 \<longrightarrow> getBasicInformationBlock junk os (Some b) (length b) = Inr (0, Some b))"
  using getBasicInformationBlock_bytes [OF _ assms, of b]
  by (simp add: getBasicInformationBlock_def sizeof_Basic_Information_Block_def)

definition sample_host :: host where
  "sample_host = \<lparr> sock = 3, if_conf = Some [\<lparr> if_flags = Some 9, if_hwaddr = None, if_addr = None, if_netmask = None \<rparr>],
     host_name = ''node1'', system = (\<lambda>_. 0) \<rparr>"

theorem information_block_layout_witness:
  "\<exists>b. getBasicInformationBlock AdapterInfo_zero sample_host (Some (replicate 400 1)) 400 = Inr (315, Some b) \<and>
     take 7 b = [5, 1, 59, 1, 3, 0, 0] \<and> length b = 400"
proof -
  have ok: "host_ok sample_host" by (simp add: host_ok_def sample_host_def iface_ok_def)
  have n: "getNetworkAdapters AdapterInfo_zero sample_host = []"
    by (simp add: getNetworkAdapters_def sample_host_def IFF_LOOPBACK_def)
  have m: "getManagementAdapter AdapterInfo_zero [] = AdapterInfo_zero" "getComputeAdapter AdapterInfo_zero [] = AdapterInfo_zero"
    by (simp_all add: getManagementAdapter_def getComputeAdapter_def)
  have t: "take 7 (information_bytes 1 AdapterInfo_zero AdapterInfo_zero nm @ r) = [5, 1, 59, 1, 3, 0, 0]" for nm r
    by (simp add: information_bytes_def DAEMON_VERSION_def u16_mem_def wire_simps)
  have l: "length (information_bytes 1 AdapterInfo_zero AdapterInfo_zero nm) = 315" for nm
    by (simp add: information_bytes_def DAEMON_VERSION_def wire_simps interface_bytes_def AdapterInfo_zero_def)
  show ?thesis
    using information_block_layout [OF adapter_zero_ok ok, of "replicate 400 1"] t l
    by (simp add: n m del: append_assoc)
qed

section \<open>Chunks\<close>

lemma findHeaderDataChunkOffset_mem:
  assumes "memory_view ops mem" "mComm d = Some c" "mem c = Some (enc_Daemon_Header hdr @ m)"
    and "length (magic hdr) = 4" "3 \<le> dh_version hdr"
  shows "findHeaderDataChunkOffset ops junk type d = chunk_loop ops (malloc_bytes junk 3) hdr type (chunksOffset hdr) d"
proof -
  have len: "0 + length (malloc_bytes junk 14) \<le> length (enc_Daemon_Header hdr @ m)"
    using assms(4) by (simp add: sizeof_Daemon_Header_def)
  have ne: "malloc_bytes junk 14 \<noteq> []" by (simp add: malloc_bytes_def)
  obtain q where q: "q \<noteq> 0" "doRead ops 0 (malloc_bytes junk 14) d = Inr (q, enc_Daemon_Header hdr, d)"
    using memory_view.doRead_mem [OF assms(1-3) len ne] assms(4) by (auto simp: sizeof_Daemon_Header_def)
  have h: "dec_Daemon_Header (enc_Daemon_Header hdr) = hdr"
    using dec_enc_Daemon_Header [OF assms(4), of "[]"] by simp
  have v: "\<not> dh_version hdr < 3" using assms(5) by (simp add: not_less)
  from q h v show ?thesis by (simp add: findHeaderDataChunkOffset_def wire_simps)
qed

text \<open>On a memory whose header leads to an area of chunks, the search ends and returns the
  position behind the header of the first chunk of the kind, or 0 if the area has none.\<close>

theorem chunk_search:
  assumes "memory_view ops mem" "mComm d = Some c" "mem c = Some (enc_Daemon_Header hdr @ m)"
    and "length (magic hdr) = 4" "3 \<le> dh_version hdr" "cs \<noteq> []"
    and "drop (unat (chunksOffset hdr)) (enc_Daemon_Header hdr @ m) = concat (map enc_chunk cs) @ r"
    and "unat (dynamicAreaOffset hdr) = unat (chunksOffset hdr) + length (concat (map enc_chunk cs))"
  shows "findHeaderDataChunkOffset ops junk type d =
    Some (Inr (word_of_nat (chunk_offset type cs (unat (chunksOffset hdr))), d))"
  unfolding findHeaderDataChunkOffset_mem [OF assms(1-5)]
  by (rule memory_view.chunk_loop_area [OF assms(1-3) _ assms(7,6,8)]) simp

definition chunk_header :: "u16 \<Rightarrow> Daemon_Header" where
  "chunk_header dyn = \<lparr> magic = bytes_of ''RECS'', dh_size = 4096, baseboardID = 1, maxSlots = 4, dh_version = 3,
     dh_reserved = 0, chunksOffset = 14, dynamicAreaOffset = dyn \<rparr>"

definition chunk_daemon :: "bytes \<Rightarrow> dummy_comm daemon" where
  "chunk_daemon m = Daemon_ctor \<lparr> mComm := Some \<lparr> dData = Some m \<rparr> \<rparr>"

lemma chunk_header_simps [simp]:
  "length (magic (chunk_header dyn)) = 4" "length (enc_Daemon_Header (chunk_header dyn)) = 14"
  "dh_version (chunk_header dyn) = 3" "chunksOffset (chunk_header dyn) = 14" "dynamicAreaOffset (chunk_header dyn) = dyn"
  by (simp_all add: chunk_header_def enc_Daemon_Header_def bytes_of_def)

theorem chunk_search_witness:
  "findHeaderDataChunkOffset (dummy_ops 0) (\<lambda>_. 0) 1
     (chunk_daemon (enc_Daemon_Header (chunk_header 24) @ concat (map enc_chunk [(9, [5]), (1, [6, 7, 8])]) @ replicate 4072 0))
   = Some (Inr (21, chunk_daemon (enc_Daemon_Header (chunk_header 24)
       @ concat (map enc_chunk [(9, [5]), (1, [6, 7, 8])]) @ replicate 4072 0)))"
  using chunk_search [OF dummy_memory.memory_view_axioms, of "chunk_daemon (enc_Daemon_Header (chunk_header 24)
      @ concat (map enc_chunk [(9, [5]), (1, [6, 7, 8])]) @ replicate 4072 0)" _ "chunk_header 24"
      "concat (map enc_chunk [(9, [5]), (1, [6, 7, 8])]) @ replicate 4072 0" "[(9, [5]), (1, [6, 7, 8])]" "replicate 4072 0" 0 "\<lambda>_. 0" 1]
  by (simp add: chunk_daemon_def dummy_mem_def wire_simps)

text \<open>A chunk that announces 65533 bytes brings the 16-bit position back to where it was:
  the search never ends.\<close>

theorem chunk_search_hangs:
  assumes "memory_view ops mem" "mComm d = Some c" "mem c = Some (enc_Daemon_Header hdr @ m)"
    and "length (magic hdr) = 4" "3 \<le> dh_version hdr" "other \<noteq> type" "chunksOffset hdr < dynamicAreaOffset hdr"
    and "drop (unat (chunksOffset hdr)) (enc_Daemon_Header hdr @ m) = [other] @ u16_mem 65533 @ r"
  shows "findHeaderDataChunkOffset ops junk type d = None"
  unfolding findHeaderDataChunkOffset_mem [OF assms(1-5)]
  by (rule memory_view.chunk_loop_hangs [OF assms(1-3) _ assms(8,6,7)]) simp

theorem chunk_search_hangs_witness:
  "findHeaderDataChunkOffset (dummy_ops 0) (\<lambda>_. 0) 1
     (chunk_daemon (enc_Daemon_Header (chunk_header 24) @ [9] @ u16_mem 65533 @ replicate 4079 0)) = None"
  using chunk_search_hangs [OF dummy_memory.memory_view_axioms, of "chunk_daemon (enc_Daemon_Header (chunk_header 24)
      @ [9] @ u16_mem 65533 @ replicate 4079 0)" _ "chunk_header 24" "[9] @ u16_mem 65533 @ replicate 4079 0" 9 1 "replicate 4079 0" 0 "\<lambda>_. 0"]
  by (simp add: chunk_daemon_def dummy_mem_def wire_simps)

end
