(* ===== verification/Signature.thy ===== *)
theory Signature
  imports Prelude
begin

text \<open>
  The signature of commands (\<open>daemon/src/Signature.cpp\<close>, \<open>daemon/src/Signature.h\<close>): the key the
  daemon is built with and the check of a message. OpenSSL is a record of its calls over a
  type of keys; nothing is assumed about them.
\<close>

text \<open>\<open>d2i_RSAPublicKey\<close> with the result wrapped by \<open>EVP_PKEY_assign_RSA\<close>, the creation of the
  digest context, and the three steps of a verification: \<open>Final\<close> sees the key, the data given
  to \<open>Update\<close> and the signature.\<close>

record 'k evp =
  d2i_RSAPublicKey :: "bytes \<Rightarrow> 'k option"
  EVP_PKEY_assign_RSA :: "'k \<Rightarrow> int"
  EVP_MD_CTX_create :: bool
  EVP_DigestVerifyInit :: "'k \<Rightarrow> int"
  EVP_DigestVerifyUpdate :: "'k \<Rightarrow> bytes \<Rightarrow> int"
  EVP_DigestVerifyFinal :: "'k \<Rightarrow> bytes \<Rightarrow> bytes \<Rightarrow> int"

definition publicKeyData :: bytes where
  "publicKeyData = [
     0x30, 0x81, 0x89, 0x02, 0x81, 0x81, 0x00, 0xa9, 0x93, 0x56, 0x24, 0x80, 0x36, 0x5e, 0x63, 0x87,
     0x9a, 0x3f, 0x27, 0xe5, 0xac, 0x9b, 0xa4, 0x47, 0x48, 0x3a, 0x8b, 0x5b, 0x62, 0x76, 0x41, 0x71,
     0x5f, 0xf5, 0xec, 0xe4, 0x0e, 0xa1, 0x2d, 0x3d, 0x7f, 0x14, 0x75, 0x31, 0x90, 0x0d, 0x28, 0xef,
     0x30, 0x5e, 0xb0, 0xa3, 0xff, 0x8a, 0x0c, 0x5c, 0xd0, 0x16, 0x53, 0x36, 0x58, 0x60, 0x0f, 0xfe,
     0x3d, 0xf0, 0xe2, 0xe0, 0x6f, 0x7f, 0xf8, 0x9b, 0x0c, 0x7a, 0xa2, 0xb7, 0xdf, 0x24, 0x62, 0x32,
     0x0f, 0xd2, 0x2e, 0xc3, 0x17, 0xeb, 0xea, 0x44, 0x80, 0xe6, 0xa7, 0xea, 0xb1, 0x1b, 0x0b, 0xb5,
     0x15, 0xda, 0x63, 0x91, 0xc2, 0xe4, 0x95, 0xea, 0x08, 0x7f, 0xb8, 0x3c, 0xc2, 0xf4, 0x79, 0xba,
     0xbf, 0xd0, 0xc2, 0x3b, 0x93, 0x7b, 0x7a, 0x44, 0xe7, 0xfd, 0x15, 0x8a, 0x93, 0x09, 0xaf, 0x40,
     0xf2, 0xbd, 0x57, 0x63, 0xbf, 0x60, 0x39, 0x02, 0x03, 0x01, 0x00, 0x01 ]"

text \<open>\<open>None\<close>: the constructor returned early and left the context or the key pointer
  uninitialised, or the context is null.\<close>

definition Signature_ctor :: "'k evp \<Rightarrow> 'k option" where
  "Signature_ctor ssl =
     (case d2i_RSAPublicKey ssl publicKeyData of
        None \<Rightarrow> None
      | Some key \<Rightarrow> if EVP_PKEY_assign_RSA ssl key = 0 then None
                    else if \<not> EVP_MD_CTX_create ssl then None
                    else Some key)"

definition checkSignature :: "'k evp \<Rightarrow> 'k option \<Rightarrow> bytes \<Rightarrow> bytes \<Rightarrow> bool res" where
  "checkSignature ssl sig data signature =
     (case sig of
        None \<Rightarrow> Inl Bad_access
      | Some key \<Rightarrow>
          if EVP_DigestVerifyInit ssl key \<noteq> 1 then Inr False
          else if EVP_DigestVerifyUpdate ssl key data \<noteq> 1 then Inr False
          else Inr (EVP_DigestVerifyFinal ssl key data signature = 1))"

text \<open>A message counts as signed only if the last step of the verification says so.\<close>

lemma checkSignature_verified:
  "checkSignature ssl sig data signature = Inr True \<Longrightarrow>
     \<exists>key. sig = Some key \<and> EVP_DigestVerifyFinal ssl key data signature = 1"
  by (auto simp: checkSignature_def split: option.splits if_splits)

lemma length_publicKeyData: "length publicKeyData = 140"
  by (simp add: publicKeyData_def)

end
