(* ===== verification/Telnet_Server.thy ===== *)
theory Telnet_Server
  imports Node
begin

text \<open>
  The command line server (\<open>daemon/src/network/TelnetServer.cpp\<close>): a client's lines and the
  commands they name. Each command works on the node and the daemon at once; the sockets are
  lists of what \<open>recv\<close> returns, and every reply is one string handed to \<open>sendData\<close>.
\<close>

section \<open>Reading a line\<close>

text \<open>\<open>receiveData\<close> returns the \<open>ssize_t\<close> of \<open>recv\<close> as a \<open>size_t\<close>: its test \<open>\<le> 0\<close> sees the end of
  the stream (0), and takes an error (-1) for success, with the character left as it was. A
  script that has run out is the end of the stream.\<close>

datatype received = Byte char | Closed | Failed

definition BUFFER_LENGTH :: nat where "BUFFER_LENGTH = 1024"

text \<open>\<open>c\<close> is the character variable; \<open>None\<close> is the result -1, \<open>Some\<close> the line and what is
  left of the stream. A carriage return does not count.\<close>

fun readline_loop :: "nat \<Rightarrow> char \<Rightarrow> received list \<Rightarrow> (string \<times> received list) option" where
  "readline_loop n c input =
     (if n = 0 \<or> c = CHR 0x0A then Some ([], input)
      else case input of
          [] \<Rightarrow> None
        | Closed # rest \<Rightarrow> None
        | Failed # rest \<Rightarrow>
            if c = CHR 0x0D then readline_loop n c rest
            else map_option (\<lambda>(l, r). (c # l, r)) (readline_loop (n - 1) c rest)
        | Byte b # rest \<Rightarrow>
            if b = CHR 0x0D then readline_loop n b rest
            else if b = CHR 0x0A then readline_loop n b rest
            else map_option (\<lambda>(l, r). (b # l, r)) (readline_loop (n - 1) b rest))"

declare readline_loop.simps [simp del]

definition readline :: "nat \<Rightarrow> received list \<Rightarrow> (string \<times> received list) option" where
  "readline len input = readline_loop len CHR 0x00 input"

section \<open>Commands\<close>

definition lower :: "string \<Rightarrow> string" where
  "lower s = map tolower s"

text \<open>The group name and the rest of a line after the second space.\<close>

definition split_command :: "string \<Rightarrow> (string \<times> string) option" where
  "split_command cmd =
     (case find_idx (\<lambda>c. c = CHR '' '') cmd of
        None \<Rightarrow> None
      | Some first \<Rightarrow>
          (case find_from (\<lambda>c. c = CHR '' '') (first + 1) cmd of
             None \<Rightarrow> None
           | Some second \<Rightarrow>
               Some (take (second - first - 1) (drop (first + 1) cmd), drop (second + 1) cmd)))"

definition add_sensors :: "(nat \<Rightarrow> u8) \<Rightarrow> string \<Rightarrow> node \<Rightarrow> 'c daemon
    \<Rightarrow> (string list \<times> node \<times> 'c daemon) res" where
  "add_sensors junk cmd nd d =
     (case split_command cmd of
        None \<Rightarrow> Inr ([''Invalid parameters, expected addsensors <group name> <JSON data>'' @ [CHR 0x0A]], nd, d)
      | Some (name, description) \<Rightarrow>
          bind_res (addJSONSensorProvider junk (StaticJSONSensorProvider_ctor description) name (mSensors nd))
            (\<lambda>(added, st).
              if added then Inr ([], nd \<lparr> mSensors := st \<rparr>, resetStatemachine d)
              else Inr ([''Could not add sensors group '' @ [CHR 0x27] @ name @ [CHR 0x27]
                         @ '', group already exists!'' @ [CHR 0x0A]], nd \<lparr> mSensors := st \<rparr>, d)))"

fun is_static :: "json_provider \<Rightarrow> bool" where
  "is_static (Static_JSON description data) = True"
| "is_static (Plugin_JSON description replies n) = False"

definition update_sensors :: "string \<Rightarrow> node \<Rightarrow> string list \<times> node" where
  "update_sensors cmd nd =
     (case split_command cmd of
        None \<Rightarrow> ([''Invalid parameters, expected updatesensors <group name> <JSON data>'' @ [CHR 0x0A]], nd)
      | Some (name, data) \<Rightarrow>
          let (S, h) = mSensors nd;
              failure = (\<lambda>why. [''Could not update sensors group '' @ [CHR 0x27] @ name @ [CHR 0x27] @ why @ [CHR 0x0A]])
          in (case getJSONSensorProvider name S of
                None \<Rightarrow> (failure '', group does not exist!'', nd)
              | Some provider \<Rightarrow>
                  if is_static provider
                  then ([], nd \<lparr> mSensors := (with_provider name (updateSensorsData data) S, h) \<rparr>)
                  else (failure '', group was not added via this interface!'', nd)))"

text \<open>One line of a client: the replies, whether the connection goes on, and the state. The
  outer option is the search for the monitoring data that may never end.\<close>

definition command_line :: "'c communicator \<Rightarrow> (nat \<Rightarrow> u8) \<Rightarrow> string \<Rightarrow> node \<Rightarrow> 'c daemon
    \<Rightarrow> (string list \<times> bool \<times> node \<times> 'c daemon) res option" where
  "command_line ops junk text nd d =
     (let cmd = lower (c_str text) in
      if cmd = ''getnodeid'' then Some (Inr ([mID nd], True, nd, d))
      else if take 7 cmd = ''monitor'' then
        map_option (\<lambda>r. bind_res r (\<lambda>(s, nd, d). Inr ([s], True, nd, d))) (getJSONMonitoringData ops junk nd d)
      else if take 11 cmd = ''addsensors '' then
        Some (bind_res (add_sensors junk cmd nd d) (\<lambda>(out, nd, d). Inr (out, True, nd, d)))
      else if take 14 cmd = ''updatesensors '' then
        (let (out, nd) = update_sensors cmd nd in Some (Inr (out, True, nd, d)))
      else if cmd = ''exit'' then Some (Inr ([''Closing connection'' @ [CHR 0x0A]], False, nd, d))
      else Some (Inr ([''Unknown command'' @ [CHR 0x0A]], True, nd, d)))"

section \<open>A client\<close>

text \<open>The loop of \<open>execute\<close>: it reads lines until the end of the stream or \<open>exit\<close>. \<open>fuel\<close> bounds
  the number of lines; a script of \<open>n\<close> receptions has at most \<open>n\<close> of them.\<close>

primrec client_loop :: "nat \<Rightarrow> 'c communicator \<Rightarrow> (nat \<Rightarrow> u8) \<Rightarrow> received list \<Rightarrow> node \<Rightarrow> 'c daemon
    \<Rightarrow> (string list \<times> node \<times> 'c daemon) res option" where
  "client_loop 0 ops junk input nd d = Some (Inl Out_of_fuel)"
| "client_loop (Suc fuel) ops junk input nd d =
     (case readline (BUFFER_LENGTH - 1) input of
        None \<Rightarrow> Some (Inr ([], nd, d))
      | Some (text, rest) \<Rightarrow>
          (case command_line ops junk text nd d of
             None \<Rightarrow> None
           | Some (Inl e) \<Rightarrow> Some (Inl e)
           | Some (Inr (out, go, nd, d)) \<Rightarrow>
               if go then map_option (\<lambda>r. bind_res r (\<lambda>(out', nd, d). Inr (out @ out', nd, d)))
                        (client_loop fuel ops junk rest nd d)
               else Some (Inr (out, nd, d))))"

definition client_execute :: "'c communicator \<Rightarrow> (nat \<Rightarrow> u8) \<Rightarrow> received list \<Rightarrow> node \<Rightarrow> 'c daemon
    \<Rightarrow> (string list \<times> node \<times> 'c daemon) res option" where
  "client_execute ops junk input nd d = client_loop (Suc (length input)) ops junk input nd d"

section \<open>Facts\<close>

text \<open>A line that was read took something from the stream.\<close>

lemma readline_loop_shorter:
  "readline_loop n c input = Some (l, rest) \<Longrightarrow> length rest \<le> length input"
proof (induction n c input arbitrary: l rest rule: readline_loop.induct)
  case (1 n c input)
  show ?case
  proof (cases "n = 0 \<or> c = CHR 0x0A")
    case True
    with "1.prems" show ?thesis by (simp add: readline_loop.simps [of n c])
  next
    case False
    show ?thesis
    proof (cases input)
      case (Cons a as)
      with "1.prems" "1.IH" False show ?thesis
        by (cases a) (fastforce simp: readline_loop.simps [of n c] split: if_splits)+
    qed (use "1.prems" False in \<open>simp add: readline_loop.simps [of n c]\<close>)
  qed
qed

lemma readline_shorter:
  assumes "readline n input = Some (l, rest)" "0 < n"
  shows "length rest < length input"
proof (cases input)
  case Nil
  with assms show ?thesis by (simp add: readline_def readline_loop.simps [of n "CHR 0x00"])
next
  case (Cons a as)
  have "readline_loop n' c' as = Some (l', rest) \<Longrightarrow> length rest \<le> length as" for n' c' l'
    by (rule readline_loop_shorter)
  with assms Cons show ?thesis
    by (cases a) (fastforce simp: readline_def readline_loop.simps [of n "CHR 0x00"] less_Suc_eq_le split: if_splits)+
qed

lemma client_loop_more_fuel:
  "length input < f \<Longrightarrow> length input < g \<Longrightarrow> client_loop f ops junk input nd d = client_loop g ops junk input nd d"
proof (induction f arbitrary: g input nd d)
  case (Suc f)
  from Suc.prems(2) obtain g' where g: "g = Suc g'" by (cases g) simp_all
  show ?case
  proof (cases "readline (BUFFER_LENGTH - 1) input")
    case (Some p)
    obtain ln rest where p: "p = (ln, rest)" by force
    have "length rest < length input"
      by (rule readline_shorter [OF Some [unfolded p]]) (simp add: BUFFER_LENGTH_def)
    then have eq: "client_loop f ops junk rest nd d = client_loop g' ops junk rest nd d" for nd d
      using Suc.prems g by (intro Suc.IH) simp_all
    show ?thesis by (simp only: g client_loop.simps Some p option.case prod.case eq)
  qed (simp add: g)
qed simp

text \<open>Lower-casing the line turns the key \<open>dataType\<close> of a description into \<open>datatype\<close>: no
  command changes the sensors of the node.\<close>

lemma tolower_no_capital: "tolower c \<noteq> CHR ''T''"
proof
  assume t: "tolower c = CHR ''T''"
  have v: "char_val CHR ''T'' = 84" by (simp add: char_val_def)
  show False
  proof (cases "65 \<le> char_val c \<and> char_val c \<le> 90")
    case True
    then have "(of_char (char_of (char_val c + 32) :: char) :: nat) = char_val c + 32" by simp
    moreover have "char_of (char_val c + 32) = CHR ''T''" using t True by (simp add: tolower_def)
    then have "(of_char (char_of (char_val c + 32) :: char) :: nat) = 84" by simp
    ultimately show False using True by linarith
  next
    case False
    with t v show False by (auto simp: tolower_def)
  qed
qed

lemma lower_no_capital: "CHR ''T'' \<notin> set (lower s)"
  using tolower_no_capital by (auto simp: lower_def) metis

lemma split_command_subset: "split_command s = Some (name, r) \<Longrightarrow> set r \<subseteq> set s"
  by (auto simp: split_command_def split: option.splits dest: in_set_dropD)

lemma add_sensors_none:
  assumes "CHR ''T'' \<notin> set cmd" "add_sensors junk cmd nd d = Inr (out, nd', d')"
  shows "mSensorMap (fst (mSensors nd')) = mSensorMap (fst (mSensors nd)) \<and> mID nd' = mID nd
    \<and> mData (fst (mSensors nd')) = mData (fst (mSensors nd)) \<and> mSize (fst (mSensors nd')) = mSize (fst (mSensors nd))"
proof (cases "split_command cmd")
  case None
  with assms show ?thesis by (simp add: add_sensors_def)
next
  case (Some p)
  obtain name r where p: "p = (name, r)" by force
  obtain S h where st: "mSensors nd = (S, h)" by force
  have noT: "CHR ''T'' \<notin> set r" using split_command_subset Some p assms(1) by blast
  show ?thesis
    using assms(2) Some p st
    by (auto simp: add_sensors_def addJSONSensorProvider_def bind_res_Inr_iff StaticJSONSensorProvider_ctor_def
        map_insert_all_def split: if_splits dest!: getSensors_no_capital [OF noT])
qed

end
