(* ===== verification/Daemon_Loop.thy ===== *)
theory Daemon_Loop
  imports Node_Facts Signature Telnet_Server "HOL-Library.Signed_Division"
begin

text \<open>
  The main loop of the daemon (\<open>Daemon::run\<close> in \<open>daemon/src/Daemon.cpp\<close>): the message area of
  the module in the shared memory, the commands read from it, the messages written to it, the
  wait between two updates, and the end of the program.
\<close>

section \<open>The world and the local variables\<close>

text \<open>
  What the loop calls outside the daemon: the communicator, OpenSSL, the operating system,
  \<open>malloc\<close> (whether a request of a size succeeds) and \<open>gettimeofday\<close> (seconds and microseconds
  of the n-th call). \<open>w_junk\<close>, \<open>w_junk_adapter\<close> and \<open>w_junk_time\<close> are uninitialised memory.
\<close>

record ('c, 'k) world =
  w_ops :: "'c communicator"
  w_ssl :: "'k evp"
  w_host :: host
  w_malloc :: "nat \<Rightarrow> bool"
  w_clock :: "nat \<Rightarrow> int \<times> int"
  w_junk :: "nat \<Rightarrow> u8"
  w_junk_adapter :: AdapterInfo
  w_junk_time :: "int \<times> int"

text \<open>The variables of \<open>run\<close> that no iteration changes.\<close>

record 'k run_vars =
  messageOffset :: nat
  messageMaxSize :: nat
  sensorSize :: nat
  updateInterval :: int
  v_signature :: "'k option"

text \<open>The state of the program between two statements of the loop; \<open>s_ticks\<close> counts the calls
  of \<open>gettimeofday\<close>, \<open>s_sleeps\<close> those of \<open>usleep\<close>, and \<open>s_system\<close> is the history of the command
  lines given to \<open>system\<close>.\<close>

record 'c session =
  s_daemon :: "'c daemon"
  s_node :: node
  s_exitAfter :: int
  s_lastLoopTime :: "int \<times> int"
  s_ticks :: nat
  s_sleeps :: nat
  s_system :: "string list"

definition malloc_ptr :: "('c, 'k) world \<Rightarrow> nat \<Rightarrow> bytes option" where
  "malloc_ptr w n = (if w_malloc w n then Some (malloc_bytes (w_junk w) n) else None)"

text \<open>A null pointer has no bytes to access.\<close>

definition ptr_bytes :: "bytes option \<Rightarrow> bytes" where
  "ptr_bytes p = (case p of None \<Rightarrow> [] | Some b \<Rightarrow> b)"

section \<open>Commands\<close>

definition strlen_at :: "bytes \<Rightarrow> nat \<Rightarrow> nat res" where
  "strlen_at b i = (case find_idx (\<lambda>x. x = 0) (drop i b) of None \<Rightarrow> Inl Bad_access | Some n \<Rightarrow> Inr n)"

text \<open>\<open>header->baseboard == node->getBaseboardID() && header->slot == node->getSlot()\<close>\<close>

definition addressed :: "node \<Rightarrow> bytes \<Rightarrow> bool res" where
  "addressed nd data = bind_res (get_byte data 4) (\<lambda>b.
     if b \<noteq> mBaseboardID nd then Inr False
     else bind_res (get_byte data 5) (\<lambda>slot. Inr (slot = mNodeSlot nd)))"

text \<open>The signature is cut out of the message before the rest is checked against it. The result
  is the list of command lines executed.\<close>

definition run_command :: "('c, 'k) world \<Rightarrow> 'k run_vars \<Rightarrow> bytes \<Rightarrow> string list res" where
  "run_command w v data =
     bind_res (get_bytes data 74 SIGNATURE_LENGTH) (\<lambda>cmdSignature.
     bind_res (put_bytes data 74 (replicate SIGNATURE_LENGTH 0)) (\<lambda>data.
     bind_res (checkSignature (w_ssl w) (v_signature v) data cmdSignature) (\<lambda>verified.
     if \<not> verified then Inr []
     else
       bind_res (strlen_at data 10) (\<lambda>n.
       bind_res (get_bytes data 202 2) (\<lambda>pl.
       let commandLen = min COMMAND_MAX_LENGTH n;
           parametersLen = min (unat (htons (u16_load (pl ! 0) (pl ! 1)))) (min (length data) (messageMaxSize v))
       in bind_res (get_bytes data 10 commandLen) (\<lambda>command.
          bind_res (get_bytes data sizeof_Command_Header parametersLen) (\<lambda>parameters.
            Inr (snd (executeCommand (w_host w) (string_of command) (string_of parameters))))))))))"

text \<open>\<open>msg\<close> is the header read before, \<open>msgSize\<close> the size it announces: the rest of the message
  is read behind the first four bytes of the buffer.\<close>

definition handle_command :: "('c, 'k) world \<Rightarrow> 'k run_vars \<Rightarrow> bytes \<Rightarrow> nat \<Rightarrow> 'c session \<Rightarrow> 'c session res" where
  "handle_command w v msg msgSize s =
     (case malloc_ptr w msgSize of
        None \<Rightarrow> Inr s
      | Some data \<Rightarrow>
          bind_res (comm_read_at (w_ops w) ((messageOffset v + sizeof_Message_Header) mod 2 ^ 64) data
              sizeof_Message_Header (size_sub msgSize sizeof_Message_Header) (s_daemon s)) (\<lambda>(read, data, d).
          if read = 0 then Inr (s \<lparr> s_daemon := d \<rparr>)
          else
            bind_res (put_bytes data 0 msg) (\<lambda>data.
            bind_res (addressed (s_node s) data) (\<lambda>mine.
            bind_res (if mine then run_command w v data else Inr []) (\<lambda>cmds.
            bind_res (comm_write (w_ops w) (messageOffset v) [message_code Empty_Message] d) (\<lambda>(_, d).
              Inr (s \<lparr> s_daemon := d, s_system := s_system s @ cmds \<rparr>)))))))"

section \<open>Messages\<close>

definition write_information :: "('c, 'k) world \<Rightarrow> 'k run_vars \<Rightarrow> 'c session \<Rightarrow> 'c session res" where
  "write_information w v s =
     bind_res (getBasicInformationBlock (w_junk_adapter w) (w_host w) (malloc_ptr w (messageMaxSize v))
         (messageMaxSize v)) (\<lambda>(size, desc).
     bind_res (get_bytes (ptr_bytes desc) 0 size) (\<lambda>b.
     bind_res (comm_write (w_ops w) (messageOffset v) b (s_daemon s)) (\<lambda>(_, d).
       Inr (s \<lparr> s_daemon := d \<lparr> mState := State_MonitoringDescription \<rparr> \<rparr>))))"

definition write_data :: "('c, 'k) world \<Rightarrow> 'k run_vars \<Rightarrow> 'c session \<Rightarrow> 'c session res" where
  "write_data w v s =
     bind_res (getMessage (mSensors (s_node s))) (\<lambda>(m, st).
     bind_res (get_bytes m 0 (sensorSize v)) (\<lambda>b.
     bind_res (comm_write (w_ops w) (messageOffset v) b (s_daemon s)) (\<lambda>(_, d).
       Inr (s \<lparr> s_daemon := d, s_node := (s_node s) \<lparr> mSensors := st \<rparr> \<rparr>))))"

definition next_page :: "u8 \<Rightarrow> 'c daemon \<Rightarrow> 'c daemon" where
  "next_page pages d =
     (let page = mCurrentPage d + 1
      in if pages < page then d \<lparr> mCurrentPage := 1, mState := State_MonitoringData \<rparr>
         else d \<lparr> mCurrentPage := page \<rparr>)"

definition write_page :: "('c, 'k) world \<Rightarrow> 'k run_vars \<Rightarrow> 'c session \<Rightarrow> 'c session res" where
  "write_page w v s =
     bind_res (getDescriptionPage (ptr_bytes (malloc_ptr w (messageMaxSize v))) (messageMaxSize v)
         (mCurrentPage (s_daemon s)) (mSensors (s_node s))) (\<lambda>(size, desc, pages, st).
     bind_res (get_bytes desc 0 size) (\<lambda>b.
     bind_res (comm_write (w_ops w) (messageOffset v) b (s_daemon s)) (\<lambda>(_, d).
       Inr (s \<lparr> s_daemon := next_page pages d, s_node := (s_node s) \<lparr> mSensors := st \<rparr> \<rparr>))))"

fun write_next :: "State \<Rightarrow> ('c, 'k) world \<Rightarrow> 'k run_vars \<Rightarrow> 'c session \<Rightarrow> 'c session res" where
  "write_next State_BasicInformation w v s = write_information w v s"
| "write_next State_MonitoringData w v s = write_data w v s"
| "write_next State_MonitoringDescription w v s = write_page w v s"

section \<open>One iteration\<close>

definition is_pending :: "u8 \<Rightarrow> bool" where
  "is_pending t \<longleftrightarrow> t = message_code Monitoring_Description \<or> t = message_code Basic_Information
     \<or> t = message_code Command_Result"

definition loop_body :: "('c, 'k) world \<Rightarrow> 'k run_vars \<Rightarrow> 'c session \<Rightarrow> 'c session res" where
  "loop_body w v s =
     bind_res (comm_read (w_ops w) (messageOffset v) (malloc_bytes (w_junk w) sizeof_Message_Header) (s_daemon s))
       (\<lambda>(read, msg, d).
        let s = s \<lparr> s_daemon := d \<rparr>; hdr = dec_Message_Header msg; msgSize = unat (htons (mh_size hdr))
        in if read = 0 then Inr s
           else if messageMaxSize v < msgSize then Inr s
           else if mh_type hdr = message_code Command then handle_command w v msg msgSize s
           else if is_pending (mh_type hdr) \<and> mFirstWriteDone d then Inr s
           else bind_res (write_next (mState d) w v s) (\<lambda>s.
             Inr (s \<lparr> s_daemon := (s_daemon s) \<lparr> mFirstWriteDone := True \<rparr> \<rparr>)))"

text \<open>The milliseconds between two times, converted to a 32-bit \<open>int\<close>; division truncates.\<close>

definition loop_time :: "int \<times> int \<Rightarrow> int \<times> int \<Rightarrow> int" where
  "loop_time start now =
     sint (word_of_int ((fst now - fst start) * 1000 + (snd now - snd start) sdiv 1000) :: 32 word)"

text \<open>The \<open>for\<close> loop with \<open>n\<close> rounds left: the last time read, the calls of \<open>gettimeofday\<close> and of
  \<open>usleep\<close>. Without a round \<open>endTime\<close> keeps what was in memory.\<close>

fun wait_loop :: "(nat \<Rightarrow> int \<times> int) \<Rightarrow> int \<times> int \<Rightarrow> int \<Rightarrow> nat \<Rightarrow> nat \<Rightarrow> int \<times> int
    \<Rightarrow> (int \<times> int) \<times> nat \<times> nat" where
  "wait_loop clock start interval 0 ticks endTime = (endTime, ticks, 0)"
| "wait_loop clock start interval (Suc n) ticks endTime =
     (let now = clock ticks
      in if loop_time start now < interval
         then (let (e, t, k) = wait_loop clock start interval n (Suc ticks) now in (e, t, Suc k))
         else (now, Suc ticks, 0))"

text \<open>\<open>(updateInterval / 100) * 2\<close> rounds; a negative number is none.\<close>

definition wait_rounds :: "int \<Rightarrow> nat" where
  "wait_rounds interval = nat (interval sdiv 100 * 2)"

definition wait_update :: "('c, 'k) world \<Rightarrow> 'k run_vars \<Rightarrow> 'c session \<Rightarrow> 'c session" where
  "wait_update w v s =
     (let (e, t, k) = wait_loop (w_clock w) (s_lastLoopTime s) (updateInterval v)
          (wait_rounds (updateInterval v)) (s_ticks s) (w_junk_time w)
      in s \<lparr> s_lastLoopTime := e, s_ticks := t, s_sleeps := s_sleeps s + k \<rparr>)"

definition count_down :: "'c session \<Rightarrow> 'c session" where
  "count_down s =
     (if 0 < s_exitAfter s
      then let n = s_exitAfter s - 1
           in s \<lparr> s_exitAfter := n,
                  s_daemon := (if n = 0 then (s_daemon s) \<lparr> mShutdown := True \<rparr> else s_daemon s) \<rparr>
      else s)"

definition iteration :: "('c, 'k) world \<Rightarrow> 'k run_vars \<Rightarrow> 'c session \<Rightarrow> 'c session res" where
  "iteration w v s = bind_res (loop_body w v s) (\<lambda>s. Inr (count_down (wait_update w v s)))"

text \<open>The loop when nothing else runs; \<open>None\<close> is a loop that never ends.\<close>

partial_function (option) run_loop :: "('c, 'k) world \<Rightarrow> 'k run_vars \<Rightarrow> 'c session \<Rightarrow> 'c session res option" where
  [code]: "run_loop w v s =
     (if mShutdown (s_daemon s) then Some (Inr s)
      else case iteration w v s of Inl e \<Rightarrow> Some (Inl e) | Inr s' \<Rightarrow> run_loop w v s')"

text \<open>The statements behind the loop: the last message is the description of an empty set. The
  loggers are cleared; \<open>mComm\<close> is deleted and keeps its value.\<close>

definition finish :: "('c, 'k) world \<Rightarrow> 'k run_vars \<Rightarrow> 'c session \<Rightarrow> (sensor_heap \<times> 'c session) res" where
  "finish w v s =
     bind_res (clear_set (mSensors (s_node s))) (\<lambda>st.
     bind_res (getDescriptionPage (ptr_bytes (malloc_ptr w (messageMaxSize v))) (messageMaxSize v) 1 st)
       (\<lambda>(size, desc, pages, st).
     bind_res (get_bytes desc 0 size) (\<lambda>b.
     bind_res (comm_write (w_ops w) (messageOffset v) b (s_daemon s)) (\<lambda>(_, d).
     bind_res (Node_dtor ((s_node s) \<lparr> mSensors := st \<rparr>)) (\<lambda>h.
       Inr (h, s \<lparr> s_daemon := d \<lparr> mPluginLoggers := [] \<rparr>, s_node := (s_node s) \<lparr> mSensors := st \<rparr> \<rparr>))))))"

end
