(* ===== verification/Daemon_Start.thy ===== *)
theory Daemon_Start
  imports Daemon_Loop
begin

text \<open>
  The start of \<open>Daemon::run\<close> (\<open>daemon/src/Daemon.cpp\<close>): the communicators, the header of the
  shared memory, the slot of the module, its message area, the node, and the values the main
  loop begins with. Every failure ends the program with -1.
\<close>

section \<open>The world of the start\<close>

text \<open>
  The factories (a null pointer is \<open>None\<close>; of a slot detector only its answer is used), the
  sensor plugins, and what uninitialised integers hold.
\<close>

record 'c factories =
  createCommunicator :: "string \<Rightarrow> 'c option"
  createSlotDetector :: "string \<Rightarrow> 8 word option"
  f_plugins :: plugins
  f_junk_int :: int
  f_junk_offset :: u16

section \<open>Reading the memory header\<close>

text \<open>\<open>comm->initInterface()\<close>, with the services the communicator calls.\<close>

definition init_comm :: "('c, 'k) world \<Rightarrow> 'c \<Rightarrow> 'c daemon \<Rightarrow> (bool \<times> 'c \<times> 'c daemon) res" where
  "init_comm w c d =
     (let (ok, calls, c') = initInterface (w_ops w) c
      in bind_res (serve_all calls d) (\<lambda>d. Inr (ok, c', d)))"

definition valid_magic :: "Daemon_Header \<Rightarrow> bool" where
  "valid_magic hdr \<longleftrightarrow> magic hdr = bytes_of ''RECS''"

text \<open>The header through the current communicator; \<open>None\<close> if the read returns 0 or the magic
  is wrong.\<close>

definition read_header :: "('c, 'k) world \<Rightarrow> 'c daemon \<Rightarrow> (Daemon_Header option \<times> 'c daemon) res" where
  "read_header w d =
     bind_res (comm_read (w_ops w) 0 (malloc_bytes (w_junk w) sizeof_Daemon_Header) d) (\<lambda>(read, b, d).
       let hdr = dec_Daemon_Header b
       in Inr (if read \<noteq> 0 \<and> valid_magic hdr then Some hdr else None, d))"

text \<open>The separate communicator of the baseboard: it is asked for its header and deleted. No
  service looks at \<open>mComm\<close>, which it occupies here for its reads.\<close>

definition baseboard_header :: "('c, 'k) world \<Rightarrow> 'c factories \<Rightarrow> string \<Rightarrow> 'c daemon
    \<Rightarrow> (Daemon_Header option \<times> 'c daemon) res" where
  "baseboard_header w f name d =
     (case createCommunicator f name of
        None \<Rightarrow> Inr (None, d)
      | Some c \<Rightarrow>
          bind_res (init_comm w c d) (\<lambda>(ok, c, d).
          if \<not> ok then Inr (None, d)
          else bind_res (read_header w (d \<lparr> mComm := Some c \<rparr>)) (\<lambda>(hdr, d). Inr (hdr, d \<lparr> mComm := None \<rparr>))))"

section \<open>Slot, name and message area\<close>

text \<open>\<open>None\<close>: the detector is missing or answers a negative number. A configured slot is cut to
  eight bits and not checked.\<close>

definition determine_slot :: "'c factories \<Rightarrow> config \<Rightarrow> 8 word option" where
  "determine_slot f cfg =
     (let name = GetString cfg ''Slot'' ''slotPluginName'' []
      in if name \<noteq> []
         then (case createSlotDetector f name of
                 None \<Rightarrow> None
               | Some slot \<Rightarrow> if sint slot < 0 then None else Some slot)
         else Some (word_of_int (GetInt (f_junk_int f) cfg ''Slot'' ''defaultSlot'' 0)))"

text \<open>The number of the baseboard, unless its highest bit marks it as not set, and the name.\<close>

definition node_name :: "Daemon_Header \<Rightarrow> 8 word \<Rightarrow> u8 \<times> string" where
  "node_name bb slot =
     (if baseboardID bb AND 0x80 = 0
      then (baseboardID bb, show_nat (unat (baseboardID bb))
              @ (if 1 < maxSlots bb then CHR ''-'' # show_int (sint slot + 1) else []))
      else (0, []))"

text \<open>Offset and size of the module's area, computed in \<open>size_t\<close>; the slot is signed.\<close>

definition message_area :: "Daemon_Header \<Rightarrow> 8 word \<Rightarrow> nat \<times> nat" where
  "message_area hdr slot =
     (let off = (if dh_version hdr < 3 then 9 + sizeof_BB_Monitoring else unat (dynamicAreaOffset hdr));
          size = size_sub (unat (dh_size hdr)) off
      in if 1 < maxSlots hdr
         then let part = size div unat (maxSlots hdr)
              in (nat ((int off + sint slot * int part) mod 2 ^ 64), part)
         else (off, size))"

section \<open>The start\<close>

definition MAX_UPDATEINTERVAL :: int where "MAX_UPDATEINTERVAL = 30000"

text \<open>From the node on: the size check, the key, and the first values of the loop.\<close>

definition start_node :: "('c, 'k) world \<Rightarrow> 'c factories \<Rightarrow> config \<Rightarrow> int \<Rightarrow> sensor_heap \<Rightarrow> Daemon_Header
    \<Rightarrow> nat \<times> nat \<Rightarrow> 'c daemon \<Rightarrow> ('k run_vars \<times> 'c session) option res" where
  "start_node w f cfg exitAfter h bb area d =
     (let (bid, name) = node_name bb (mSlot d);
          type = (if maxSlots bb = 4 then NODE_APALIS else NODE_CXP)
      in bind_res (Node_ctor (f_plugins f) cfg (f_junk_int f) (w_junk w) (f_junk_offset f) h
             name bid (mSlot d) type) (\<lambda>nd.
         let size = mSize (fst (mSensors nd));
             interval = GetInt (f_junk_int f) cfg ''Update'' ''updateInterval'' 1000
         in if snd area < size then Inr None
            else Inr (Some
              (\<lparr> messageOffset = fst area, messageMaxSize = snd area, sensorSize = size,
                 updateInterval = (if MAX_UPDATEINTERVAL < interval then MAX_UPDATEINTERVAL else interval),
                 v_signature = Signature_ctor (w_ssl w) \<rparr>,
               \<lparr> s_daemon = resetStatemachine (d \<lparr> mShutdown := False \<rparr>), s_node = nd, s_exitAfter = exitAfter,
                 s_lastLoopTime = w_clock w 0, s_ticks = 1, s_sleeps = 0, s_system = [] \<rparr>))))"

text \<open>With the communicator connected: the size, which is only logged, header, slot and area.\<close>

definition start_connected :: "('c, 'k) world \<Rightarrow> 'c factories \<Rightarrow> config \<Rightarrow> int \<Rightarrow> sensor_heap
    \<Rightarrow> Daemon_Header option \<Rightarrow> 'c daemon \<Rightarrow> ('k run_vars \<times> 'c session) option res" where
  "start_connected w f cfg exitAfter h bb d =
     bind_res (comm_max_size (w_ops w) d) (\<lambda>(size, d).
     bind_res (read_header w d) (\<lambda>(hdr, d).
       case hdr of
         None \<Rightarrow> Inr None
       | Some hdr \<Rightarrow>
           let bb = (case bb of None \<Rightarrow> hdr | Some b \<Rightarrow> b)
           in if maxSlots bb = 0 then Inr None
              else (case determine_slot f cfg of
                      None \<Rightarrow> Inr None
                    | Some slot \<Rightarrow>
                        let area = message_area hdr slot
                        in if snd area < sizeof_Message_Header then Inr None
                           else start_node w f cfg exitAfter h bb area (d \<lparr> mSlot := slot \<rparr>))))"

text \<open>The result is what the loop begins with, or \<open>None\<close> for the return value -1.\<close>

definition start :: "('c, 'k) world \<Rightarrow> 'c factories \<Rightarrow> config \<Rightarrow> int \<Rightarrow> sensor_heap \<Rightarrow> 'c daemon
    \<Rightarrow> ('k run_vars \<times> 'c session) option res" where
  "start w f cfg exitAfter h d =
     (let name = GetString cfg ''Comm'' ''PluginName'' [];
          bbName = GetString cfg ''Comm'' ''BaseboardPluginName'' []
      in if name = [] then Inr None
         else
           bind_res (if bbName = [] then Inr (None, d) else baseboard_header w f bbName d) (\<lambda>(bb, d).
           if bbName \<noteq> [] \<and> bb = None then Inr None
           else (case createCommunicator f name of
                   None \<Rightarrow> Inr None
                 | Some c \<Rightarrow>
                     bind_res (init_comm w c d) (\<lambda>(ok, c, d).
                     if \<not> ok then Inr None
                     else start_connected w f cfg exitAfter h bb (d \<lparr> mComm := Some c \<rparr>)))))"

text \<open>The program behind the loading of the plugins: the return value and what \<open>run\<close> left, unless the
  loop never ends.\<close>

definition run_from :: "('c, 'k) world \<Rightarrow> 'c factories \<Rightarrow> config \<Rightarrow> int \<Rightarrow> sensor_heap \<Rightarrow> 'c daemon
    \<Rightarrow> (int \<times> 'c session option) res option" where
  "run_from w f cfg exitAfter h d =
     (case start w f cfg exitAfter h d of
        Inl e \<Rightarrow> Some (Inl e)
      | Inr None \<Rightarrow> Some (Inr (-1, None))
      | Inr (Some (v, s)) \<Rightarrow>
          map_option (\<lambda>r. bind_res r (\<lambda>s. bind_res (finish w v s) (\<lambda>(h, s). Inr (0, Some s))))
            (run_loop w v s))"

text \<open>The whole program on plugins that asked for no logger.\<close>

definition run_daemon :: "('c, 'k) world \<Rightarrow> 'c factories \<Rightarrow> config \<Rightarrow> int \<Rightarrow> sensor_heap
    \<Rightarrow> (int \<times> 'c session option) res option" where
  "run_daemon w f cfg exitAfter h = run_from w f cfg exitAfter h Daemon_ctor"

end
