(* ===== verification/Telnet_Facts.thy ===== *)
theory Telnet_Facts
  imports Telnet_Server Node_Facts Sensor_Set_Facts
begin

text \<open>
  What a client of the command line server (\<open>daemon/src/network/TelnetServer.cpp\<close>) cannot
  change: reads leave the history of writes, the slot and the connection alone, and no command
  touches the sensors of the node.
\<close>

section \<open>Reading through the daemon\<close>

definition kept :: "'c daemon \<Rightarrow> 'c daemon \<Rightarrow> bool" where
  "kept d d' \<longleftrightarrow> mSlot d' = mSlot d \<and> dWrites d' = dWrites d \<and> mShutdown d' = mShutdown d
     \<and> (mComm d \<noteq> None \<longrightarrow> mComm d' \<noteq> None) \<and> (machine_ok d \<longrightarrow> machine_ok d')
     \<and> (mCurrentPage d' = mCurrentPage d \<or> mCurrentPage d' = 1)"

lemma kept_refl [simp]: "kept d d"
  by (simp add: kept_def)

lemma kept_trans: "kept d e \<Longrightarrow> kept e f \<Longrightarrow> kept d f"
  by (auto simp: kept_def)

lemma kept_reset [simp]: "kept d (resetStatemachine d)"
  by (simp add: kept_def)

lemma comm_read_at_kept: "comm_read_at ops off buf at n d = Inr (r, buf', d') \<Longrightarrow> kept d d'"
  using comm_read_at_keeps [of ops off buf at n d r buf' d'] by (simp add: kept_def)

lemma comm_read_kept: "comm_read ops off buf d = Inr (r, buf', d') \<Longrightarrow> kept d d'"
  unfolding comm_read_def by (rule comm_read_at_kept)

lemma doRead_kept: "doRead ops off buf d = Inr (r, buf', d') \<Longrightarrow> kept d d'"
  by (auto simp: doRead_def split: if_splits dest: comm_read_kept)

lemma chunk_loop_kept:
  assumes "chunk_loop ops junk hdr type pos d = Some (Inr (n, d'))"
  shows "kept d d'"
proof -
  have "chunk_loop ops junk hdr type pos d = Some y \<Longrightarrow> \<forall>n d'. y = Inr (n, d') \<longrightarrow> kept d d'" for y
  proof (erule chunk_loop.raw_induct [rotated], goal_cases)
    case (1 f ops junk hdr type pos d y)
    show ?case
    proof (cases "doRead ops (unat pos) junk d")
      case (Inl e)
      with 1(2) show ?thesis by auto
    next
      case (Inr x)
      obtain r b e where x: "x = (r, b, e)" by (metis prod_cases3)
      have k: "kept d e" using doRead_kept Inr x by blast
      show ?thesis
        using 1 Inr x k by (auto simp: Let_def split: if_splits intro: kept_trans)
    qed
  qed
  with assms show ?thesis by blast
qed

lemma findHeaderDataChunkOffset_kept:
  assumes "findHeaderDataChunkOffset ops junk type d = Some (Inr (n, d'))"
  shows "kept d d'"
proof (cases "doRead ops 0 (malloc_bytes junk sizeof_Daemon_Header) d")
  case (Inl e)
  with assms show ?thesis by (simp add: findHeaderDataChunkOffset_def)
next
  case (Inr x)
  obtain r b e where x: "x = (r, b, e)" by (metis prod_cases3)
  have k: "kept d e" using doRead_kept Inr x by blast
  show ?thesis
    using assms Inr x k
    by (auto simp: findHeaderDataChunkOffset_def Let_def split: if_splits dest: chunk_loop_kept intro: kept_trans)
qed

text \<open>What a client leaves alone of the node.\<close>

definition same_sensors :: "node \<Rightarrow> node \<Rightarrow> bool" where
  "same_sensors nd nd' \<longleftrightarrow> mBaseboardID nd' = mBaseboardID nd \<and> mNodeSlot nd' = mNodeSlot nd \<and> mID nd' = mID nd
     \<and> snd (mSensors nd') = snd (mSensors nd) \<and> mSensorMap (fst (mSensors nd')) = mSensorMap (fst (mSensors nd))
     \<and> mSize (fst (mSensors nd')) = mSize (fst (mSensors nd)) \<and> mData (fst (mSensors nd')) = mData (fst (mSensors nd))
     \<and> (set_ok (mSensors nd) \<longrightarrow> set_ok (mSensors nd'))"

lemma same_sensors_refl [simp]: "same_sensors nd nd"
  by (simp add: same_sensors_def)

lemma same_sensors_trans: "same_sensors a b \<Longrightarrow> same_sensors b c \<Longrightarrow> same_sensors a c"
  by (simp add: same_sensors_def)

lemma same_sensors_offset [simp]: "same_sensors nd (nd \<lparr> mMonitoringDataOffset := x \<rparr>)"
  by (simp add: same_sensors_def)

lemma read_monitoring_kept:
  "read_monitoring ops junk nd d = Inr (s, nd', d') \<Longrightarrow> nd' = nd \<and> kept d d'"
  by (auto simp: read_monitoring_def bind_res_Inr_iff split: if_splits dest: doRead_kept)

lemma getJSONMonitoringData_kept:
  assumes "getJSONMonitoringData ops junk nd d = Some (Inr (s, nd', d'))"
  shows "same_sensors nd nd' \<and> kept d d'"
proof (cases "mMonitoringDataOffset nd = 0")
  case True
  with assms obtain off e where f: "findHeaderDataChunkOffset ops junk CHUNK_TYPE_MONITORING d = Some (Inr (off, e))"
    by (auto simp: getJSONMonitoringData_def split: option.splits sum.splits)
  with assms True have "read_monitoring ops junk
      (if 2 < off then nd \<lparr> mMonitoringDataOffset := off - 2 \<rparr> else nd) e = Inr (s, nd', d')"
    by (simp add: getJSONMonitoringData_def)
  from read_monitoring_kept [OF this] findHeaderDataChunkOffset_kept [OF f] show ?thesis
    by (cases "2 < off") (auto intro: kept_trans)
next
  case False
  with assms have "read_monitoring ops junk nd d = Inr (s, nd', d')" by (simp add: getJSONMonitoringData_def)
  from read_monitoring_kept [OF this] show ?thesis by simp
qed

section \<open>Commands\<close>

lemma add_sensors_kept:
  assumes "CHR ''T'' \<notin> set cmd" "add_sensors junk cmd nd d = Inr (out, nd', d')"
  shows "same_sensors nd nd' \<and> kept d d'"
proof (cases "split_command cmd")
  case None
  with assms show ?thesis by (simp add: add_sensors_def)
next
  case (Some p)
  obtain name r where p: "p = (name, r)" by force
  obtain S h where st: "mSensors nd = (S, h)" by force
  have noT: "CHR ''T'' \<notin> set r" using split_command_subset Some p assms(1) by blast
  obtain added S' h' where a: "addJSONSensorProvider junk (StaticJSONSensorProvider_ctor r) name (S, h) = Inr (added, S', h')"
    and nd': "nd' = nd \<lparr> mSensors := (S', h') \<rparr>" "kept d d'"
    using assms(2) Some p st by (auto simp: add_sensors_def bind_res_Inr_iff split: if_splits)
  have "h' = h \<and> mSensorMap S' = mSensorMap S \<and> mSize S' = mSize S \<and> mData S' = mData S"
    using a by (auto simp: addJSONSensorProvider_def bind_res_Inr_iff StaticJSONSensorProvider_ctor_def
        map_insert_all_def split: if_splits dest!: getSensors_no_capital [OF noT])
  with addJSONSensorProvider_ok [OF _ a] nd' st show ?thesis by (simp add: same_sensors_def)
qed

lemma with_provider_ok: "set_ok (S, h) \<Longrightarrow> set_ok (with_provider name f S, h)"
proof (cases "map_of (mJSONSensorsParsers S) name")
  case (Some p)
  assume ok: "set_ok (S, h)"
  let ?p = "p \<lparr> jp_provider := f (jp_provider p) \<rparr>"
  have "(name, p) \<in> set (mJSONSensorsParsers S)" using Some by (rule map_of_SomeD)
  with ok have "parser_ok p h" by (auto simp: set_ok_def)
  then have "parser_ok ?p h" by (simp add: parser_ok_def)
  with ok have "\<forall>(n, q) \<in> set (map_assign name ?p (mJSONSensorsParsers S)). parser_ok q h"
    using map_assign_subset [of name ?p "mJSONSensorsParsers S"] unfolding set_ok_def by blast
  with ok Some show ?thesis by (simp add: set_ok_def with_provider_def map_ok_assign)
qed (simp add: with_provider_def)

lemma with_provider_simps [simp]:
  "mSensorMap (with_provider name f S) = mSensorMap S" "mSize (with_provider name f S) = mSize S"
  "mData (with_provider name f S) = mData S"
  by (simp_all add: with_provider_def split: option.split)

lemma update_sensors_kept: "update_sensors cmd nd = (out, nd') \<Longrightarrow> same_sensors nd nd'"
  by (auto simp: update_sensors_def same_sensors_def Let_def with_provider_ok
      split: option.splits prod.splits if_splits)

lemma command_line_kept:
  assumes "command_line ops junk ln nd d = Some (Inr (out, go, nd', d'))"
  shows "same_sensors nd nd' \<and> kept d d'"
proof -
  let ?cmd = "lower (c_str ln)"
  consider "nd' = nd" "d' = d" | s where "getJSONMonitoringData ops junk nd d = Some (Inr (s, nd', d'))"
    | "add_sensors junk ?cmd nd d = Inr (out, nd', d')" | out where "update_sensors ?cmd nd = (out, nd')" "d' = d"
    using assms
    by (auto simp: command_line_def Let_def bind_res_Inr_iff split: if_splits prod.splits)
  then show ?thesis
  proof cases
    case 1
    then show ?thesis by simp
  next
    case 2
    then show ?thesis by (rule getJSONMonitoringData_kept)
  next
    case 3
    show ?thesis by (rule add_sensors_kept [OF lower_no_capital 3])
  next
    case 4
    then show ?thesis using update_sensors_kept by simp
  qed
qed

lemma client_loop_kept:
  "client_loop fuel ops junk input nd d = Some (Inr (out, nd', d')) \<Longrightarrow> same_sensors nd nd' \<and> kept d d'"
proof (induction fuel arbitrary: input nd d out)
  case (Suc fuel)
  show ?case
  proof (cases "readline (BUFFER_LENGTH - 1) input")
    case None
    with Suc.prems show ?thesis by simp
  next
    case (Some p)
    obtain ln rest where p: "p = (ln, rest)" by force
    obtain o1 go nd1 d1 where c: "command_line ops junk ln nd d = Some (Inr (o1, go, nd1, d1))"
      using Suc.prems Some p by (auto split: option.splits sum.splits)
    note k = command_line_kept [OF c]
    show ?thesis
    proof (cases go)
      case True
      with Suc.prems Some p c obtain o2 where "client_loop fuel ops junk rest nd1 d1 = Some (Inr (o2, nd', d'))"
        by (auto simp: bind_res_Inr_iff)
      from Suc.IH [OF this] k show ?thesis by (blast intro: same_sensors_trans kept_trans)
    next
      case False
      with Suc.prems Some p c k show ?thesis by simp
    qed
  qed
qed simp

end
