(* ===== verification/Daemon_Facts.thy ===== *)
theory Daemon_Facts
  imports Daemon_Start Telnet_Facts
begin

text \<open>
  Lemmas about the main loop and the start (\<open>daemon/src/Daemon.cpp\<close>): what every iteration, signal
  and client keeps, the steps of the program as a relation, and the run on a mailbox whose
  reader takes every message.
\<close>

section \<open>Pieces of an iteration\<close>

lemma length_ptr_bytes [simp]: "length (ptr_bytes (malloc_ptr w n)) \<le> n"
  by (simp add: malloc_ptr_def ptr_bytes_def)

lemma get_bytes_length: "get_bytes buf off n = Inr b \<Longrightarrow> length b = n \<and> off + n \<le> length buf"
  by (auto simp: get_bytes_def split: if_splits)

lemma put_bytes_length: "put_bytes buf off b = Inr buf' \<Longrightarrow> length buf' = length buf"
  using put_bytes_InrD by blast

lemma getBasicInformationBlock_length:
  assumes "getBasicInformationBlock junk os b sz = Inr (n, b')"
  shows "length (ptr_bytes b') = length (ptr_bytes b)"
  using assms
  by (auto simp: getBasicInformationBlock_def Let_def bind_res_Inr_iff ptr_bytes_def
      split: if_splits option.splits dest!: put_bytes_length)

lemma describe_entries_keeps:
  "describe_entries es h off buf g = Inr (buf', off', g') \<Longrightarrow> length buf' = length buf \<and> (groups_ok g \<longrightarrow> groups_ok g')"
proof (induction es arbitrary: off buf g)
  case (Cons e es)
  from Cons.prems obtain s where s: "heap_get h (snd e) = Inr s" by (auto simp: bind_res_Inr_iff)
  obtain i g1 where g1: "getGroupId (mGroup (is_base s)) g = (i, g1)" by force
  from Cons.prems s g1 obtain buf1 where
    p: "put_bytes buf off (enc_Sensor_Description (describe_sensor (fst e) s i)) = Inr buf1"
    and r: "describe_entries es h (off + sizeof_Sensor_Description) buf1 g1 = Inr (buf', off', g')"
    by (auto simp: bind_res_Inr_iff)
  have "groups_ok g \<longrightarrow> groups_ok g1" using getGroupId_ok [of g "mGroup (is_base s)"] g1 by simp
  with Cons.IH [OF r] put_bytes_InrD [OF p] show ?case by metis
qed simp

lemma getDescriptionPage_keeps:
  assumes "getDescriptionPage buf sz page (S, h) = Inr (n, buf', pages, st')"
  shows "length buf' = length buf \<and> pages = page_count (word_of_nat (length (mSensorMap S))) (sensors_per_page sz)
    \<and> (\<exists>g. st' = (S \<lparr> mKnownGroups := g \<rparr>, h) \<and> (groups_ok (mKnownGroups S) \<longrightarrow> groups_ok g))"
  using assms
  by (auto simp: getDescriptionPage_def Let_def bind_res_Inr_iff split: if_splits
      dest!: describe_entries_keeps put_bytes_InrD)

section \<open>The invariant\<close>

text \<open>
  The area holds a header and the monitoring message; the set of sensors is well-formed and
  its message has the size that was computed at the start; the page counter is one of the pages
  and there is a communicator; and everything that was ever written starts at the offset of the area
  and fits into it. A set of 255 pages is excluded: the page counter cannot step over them.
\<close>

definition area_ok :: "'k run_vars \<Rightarrow> bool" where
  "area_ok v \<longleftrightarrow> 4 \<le> messageMaxSize v \<and> sensorSize v \<le> messageMaxSize v"

definition in_area :: "'k run_vars \<Rightarrow> 'c daemon \<Rightarrow> bool" where
  "in_area v d \<longleftrightarrow> (\<forall>(off, b) \<in> set (dWrites d). off = messageOffset v \<and> length b \<le> messageMaxSize v)"

definition page_total :: "'k run_vars \<Rightarrow> set_state \<Rightarrow> u8" where
  "page_total v st = page_count (word_of_nat (length (mSensorMap (fst st)))) (sensors_per_page (messageMaxSize v))"

definition sensors_ok :: "'k run_vars \<Rightarrow> set_state \<Rightarrow> bool" where
  "sensors_ok v st \<longleftrightarrow> set_ok st \<and> sized st \<and> mSize (fst st) = sensorSize v \<and> page_total v st < 255"

definition daemon_ok :: "'k run_vars \<Rightarrow> 'c daemon \<Rightarrow> bool" where
  "daemon_ok v d \<longleftrightarrow> 1 \<le> mCurrentPage d \<and> mComm d \<noteq> None \<and> in_area v d"

definition session_ok :: "'k run_vars \<Rightarrow> 'c session \<Rightarrow> bool" where
  "session_ok v s \<longleftrightarrow> sensors_ok v (mSensors (s_node s)) \<and> daemon_ok v (s_daemon s)
     \<and> mCurrentPage (s_daemon s) \<le> page_total v (mSensors (s_node s))"

lemma daemon_ok_kept: "kept d d' \<Longrightarrow> daemon_ok v d \<Longrightarrow> daemon_ok v d'"
  by (auto simp: kept_def daemon_ok_def in_area_def)

lemma sensors_ok_same: "same_sensors nd nd' \<Longrightarrow> sensors_ok v (mSensors nd) \<Longrightarrow> sensors_ok v (mSensors nd')"
  by (auto simp: same_sensors_def sensors_ok_def sized_def page_total_def split: prod.splits)

lemma page_count_positive: "1 \<le> page_count n k"
  by (auto simp: page_count_def Let_def word_less_nat_alt word_le_nat_alt)

lemma page_total_positive: "1 \<le> page_total v st"
  by (simp add: page_total_def page_count_positive)

lemma page_bound_kept: "p' = p \<or> p' = 1 \<Longrightarrow> p \<le> page_total v st \<Longrightarrow> p' \<le> page_total v st"
  using page_total_positive [of v st] by auto

lemma session_page:
  "session_ok v s \<Longrightarrow> p = mCurrentPage (s_daemon s) \<or> p = 1 \<Longrightarrow> p \<le> page_total v (mSensors (s_node s))"
  unfolding session_ok_def using page_bound_kept by blast

lemma daemon_ok_write:
  assumes "comm_write ops (messageOffset v) b d = Inr (r, d')" "daemon_ok v d" "length b \<le> messageMaxSize v"
  shows "daemon_ok v d' \<and> mShutdown d' = mShutdown d \<and> (mCurrentPage d' = mCurrentPage d \<or> mCurrentPage d' = 1)"
  using comm_write_keeps [OF assms(1)] assms(2,3) by (auto simp: daemon_ok_def in_area_def)

lemma daemon_ok_simps [simp]:
  "daemon_ok v (d \<lparr> mFirstWriteDone := x \<rparr>) = daemon_ok v d"
  "daemon_ok v (d \<lparr> mShutdown := y \<rparr>) = daemon_ok v d"
  "daemon_ok v (resetStatemachine d) = (mComm d \<noteq> None \<and> in_area v d)"
  by (simp_all add: daemon_ok_def in_area_def)

lemma write_information_ok:
  assumes "write_information w v s = Inr s'" "session_ok v s"
  shows "session_ok v s' \<and> mShutdown (s_daemon s') = mShutdown (s_daemon s)"
proof -
  from assms(1) obtain size desc b r d where
    i: "getBasicInformationBlock (w_junk_adapter w) (w_host w) (malloc_ptr w (messageMaxSize v))
         (messageMaxSize v) = Inr (size, desc)"
    and g: "get_bytes (ptr_bytes desc) 0 size = Inr b"
    and wr: "comm_write (w_ops w) (messageOffset v) b (s_daemon s) = Inr (r, d)"
    and s': "s' = s \<lparr> s_daemon := d \<lparr> mState := State_MonitoringDescription \<rparr> \<rparr>"
    by (auto simp: write_information_def bind_res_Inr_iff)
  have "length b \<le> messageMaxSize v"
    using get_bytes_length [OF g] getBasicInformationBlock_length [OF i] length_ptr_bytes [of w "messageMaxSize v"] by linarith
  note wr' = daemon_ok_write [OF wr _ this]
  have "mCurrentPage d \<le> page_total v (mSensors (s_node s))"
    by (rule session_page [OF assms(2)]) (use wr' assms(2) in \<open>simp add: session_ok_def\<close>)
  with wr' assms(2) s' show ?thesis by (simp add: session_ok_def daemon_ok_def in_area_def)
qed

lemma write_data_ok:
  assumes "write_data w v s = Inr s'" "session_ok v s" "area_ok v"
  shows "session_ok v s' \<and> mShutdown (s_daemon s') = mShutdown (s_daemon s)"
proof -
  obtain S h where st: "mSensors (s_node s) = (S, h)" by force
  from assms(1) st obtain m S' h' b r d where
    m: "getMessage (S, h) = Inr (m, S', h')"
    and g: "get_bytes m 0 (sensorSize v) = Inr b"
    and wr: "comm_write (w_ops w) (messageOffset v) b (s_daemon s) = Inr (r, d)"
    and s': "s' = s \<lparr> s_daemon := d, s_node := (s_node s) \<lparr> mSensors := (S', h') \<rparr> \<rparr>"
    by (auto simp: write_data_def bind_res_Inr_iff)
  have ok: "set_ok (S, h)" "sized (S, h)" using assms(2) st by (simp_all add: session_ok_def sensors_ok_def)
  have "length b \<le> messageMaxSize v" using get_bytes_length [OF g] assms(3) by (simp add: area_ok_def)
  note wr' = daemon_ok_write [OF wr _ this]
  have map_same: "page_total v (S', h') = page_total v (S, h)" using getMessage_ok [OF ok m] by (simp add: page_total_def)
  have "mCurrentPage d \<le> page_total v (S, h)"
    unfolding st [symmetric] by (rule session_page [OF assms(2)]) (use wr' assms(2) in \<open>simp add: session_ok_def\<close>)
  with wr' getMessage_ok [OF ok m] assms(2) s' st map_same show ?thesis
    by (simp add: session_ok_def sensors_ok_def)
qed

lemma next_page_ok:
  assumes "daemon_ok v d" "mCurrentPage d \<le> pages" "pages < 255" "1 \<le> pages"
  shows "daemon_ok v (next_page pages d) \<and> mShutdown (next_page pages d) = mShutdown d
    \<and> mCurrentPage (next_page pages d) \<le> pages"
proof -
  have "unat (mCurrentPage d) < 255" using assms(2,3) by (simp add: word_less_nat_alt word_le_nat_alt)
  then have "unat (mCurrentPage d + 1) = unat (mCurrentPage d) + 1"
    using unat_word_ariths(1) [of "mCurrentPage d" 1] by simp
  then have "1 \<le> mCurrentPage d + 1" by (simp add: word_le_nat_alt)
  then show ?thesis using assms by (auto simp: next_page_def Let_def daemon_ok_def in_area_def)
qed

lemma write_page_ok:
  assumes "write_page w v s = Inr s'" "session_ok v s"
  shows "session_ok v s' \<and> mShutdown (s_daemon s') = mShutdown (s_daemon s)"
proof -
  obtain S h where st: "mSensors (s_node s) = (S, h)" by force
  from assms(1) st obtain size desc pages st' b r d where
    m: "getDescriptionPage (ptr_bytes (malloc_ptr w (messageMaxSize v))) (messageMaxSize v)
      (mCurrentPage (s_daemon s)) (S, h) = Inr (size, desc, pages, st')"
    and g: "get_bytes desc 0 size = Inr b"
    and wr: "comm_write (w_ops w) (messageOffset v) b (s_daemon s) = Inr (r, d)"
    and s': "s' = s \<lparr> s_daemon := next_page pages d, s_node := (s_node s) \<lparr> mSensors := st' \<rparr> \<rparr>"
    by (auto simp: write_page_def bind_res_Inr_iff)
  from getDescriptionPage_keeps [OF m] obtain k where
    k: "length desc = length (ptr_bytes (malloc_ptr w (messageMaxSize v)))" "pages = page_total v (S, h)"
      "st' = (S \<lparr> mKnownGroups := k \<rparr>, h)" "groups_ok (mKnownGroups S) \<longrightarrow> groups_ok k"
    by (auto simp: page_total_def)
  have "length b \<le> messageMaxSize v"
    using get_bytes_length [OF g] k(1) length_ptr_bytes [of w "messageMaxSize v"] by linarith
  note wr' = daemon_ok_write [OF wr _ this]
  have same: "page_total v st' = page_total v (S, h)" by (simp add: k page_total_def)
  have "mCurrentPage d \<le> pages"
    unfolding k(2) st [symmetric] by (rule session_page [OF assms(2)]) (use wr' assms(2) in \<open>simp add: session_ok_def\<close>)
  then have "daemon_ok v (next_page pages d) \<and> mShutdown (next_page pages d) = mShutdown d
      \<and> mCurrentPage (next_page pages d) \<le> pages"
    using wr' assms(2) st k(2) page_total_positive [of v "(S, h)"]
    by (intro next_page_ok) (simp_all add: session_ok_def sensors_ok_def)
  moreover have "sensors_ok v st'"
    using assms(2) st k(3,4) same by (simp add: session_ok_def sensors_ok_def set_ok_def sized_def)
  ultimately show ?thesis using wr' assms(2) s' same k(2) st by (simp add: session_ok_def)
qed

lemma write_next_ok:
  assumes "write_next t w v s = Inr s'" "session_ok v s" "area_ok v"
  shows "session_ok v s' \<and> mShutdown (s_daemon s') = mShutdown (s_daemon s)"
proof (cases t)
  case State_MonitoringData
  with assms show ?thesis using write_data_ok by simp
next
  case State_MonitoringDescription
  with assms show ?thesis using write_page_ok by simp
next
  case State_BasicInformation
  with assms show ?thesis using write_information_ok by simp
qed

lemma session_ok_daemon:
  assumes "session_ok v s" "kept (s_daemon s) d"
  shows "session_ok v (s \<lparr> s_daemon := d \<rparr>)"
proof -
  have "mCurrentPage d \<le> page_total v (mSensors (s_node s))"
    by (rule session_page [OF assms(1)]) (use assms(2) in \<open>simp add: kept_def\<close>)
  moreover have "daemon_ok v d" by (rule daemon_ok_kept [OF assms(2)]) (use assms(1) in \<open>simp add: session_ok_def\<close>)
  ultimately show ?thesis using assms by (simp add: session_ok_def)
qed

lemma session_ok_simps [simp]:
  "session_ok v (s \<lparr> s_system := x \<rparr>) = session_ok v s"
  "session_ok v (s \<lparr> s_exitAfter := n \<rparr>) = session_ok v s"
  "session_ok v (s \<lparr> s_lastLoopTime := t \<rparr>) = session_ok v s"
  "session_ok v (s \<lparr> s_ticks := i \<rparr>) = session_ok v s"
  "session_ok v (s \<lparr> s_sleeps := k \<rparr>) = session_ok v s"
  "session_ok v (s \<lparr> s_daemon := (s_daemon s) \<lparr> mFirstWriteDone := f \<rparr> \<rparr>) = session_ok v s"
  "session_ok v (s \<lparr> s_daemon := (s_daemon s) \<lparr> mShutdown := g \<rparr> \<rparr>) = session_ok v s"
  by (simp_all add: session_ok_def)

section \<open>Commands\<close>

text \<open>The text of the command field, and what a command makes the operating system run.\<close>

definition command_text :: "bytes \<Rightarrow> string" where
  "command_text data = string_of (takeWhile (\<lambda>x. x \<noteq> 0) (take 64 (drop 10 data)))"

definition command_lines :: "string \<Rightarrow> string list" where
  "command_lines c = (if c = ''shutdown'' then [''shutdown -P now''] else if c = ''reboot'' then [''reboot''] else [])"

lemma executeCommand_lines: "snd (executeCommand os c ps) = command_lines c"
  by (simp add: executeCommand_def shutdown_node_def command_lines_def Let_def)

lemma takeWhile_find_idx: "find_idx (\<lambda>x. \<not> P x) xs = Some n \<Longrightarrow> takeWhile P xs = take n xs"
proof (induction xs arbitrary: n)
  case (Cons x xs)
  then show ?case by (cases n) (auto split: if_splits)
qed simp

lemma take_takeWhile: "take (min k (length (takeWhile P xs))) xs = takeWhile P (take k xs)"
proof (induction xs arbitrary: k)
  case (Cons x xs)
  then show ?case by (cases k) auto
qed simp

lemma command_text_take:
  assumes "strlen_at data 10 = Inr n"
  shows "string_of (take (min COMMAND_MAX_LENGTH n) (drop 10 data)) = command_text data"
proof -
  have f: "find_idx (\<lambda>x. x = 0) (drop 10 data) = Some n"
    using assms by (simp add: strlen_at_def split: option.splits)
  then have t: "takeWhile (\<lambda>x. x \<noteq> 0) (drop 10 data) = take n (drop 10 data)"
    using takeWhile_find_idx [of "\<lambda>x. x \<noteq> 0"] by simp
  have "n \<le> length (drop 10 data)" using f by (simp add: find_idx_Some)
  then have "n = length (takeWhile (\<lambda>x. x \<noteq> 0) (drop 10 data))" unfolding t by simp
  then show ?thesis using take_takeWhile [of 64 "\<lambda>x. x \<noteq> 0" "drop 10 data"]
    by (simp add: command_text_def COMMAND_MAX_LENGTH_def)
qed

text \<open>A message that was verified: \<open>data\<close> is the message with the signature zeroed.\<close>

definition verified :: "('c, 'k) world \<Rightarrow> 'k run_vars \<Rightarrow> bytes \<Rightarrow> bytes \<Rightarrow> bool" where
  "verified w v data sig \<longleftrightarrow> checkSignature (w_ssl w) (v_signature v) data sig = Inr True \<and> length sig = 128
     \<and> take 128 (drop 74 data) = replicate 128 0"

lemma run_command_verified:
  assumes "run_command w v data = Inr cmds"
  shows "cmds = [] \<or> (\<exists>data'. data' = overlay data 74 (replicate 128 0)
    \<and> verified w v data' (take 128 (drop 74 data)) \<and> cmds = command_lines (command_text data'))"
proof -
  let ?z = "overlay data 74 (replicate 128 0)" and ?sig = "take 128 (drop 74 data)"
  from assms have len: "202 \<le> length data"
    by (auto simp: run_command_def bind_res_Inr_iff get_bytes_def wire_simps split: if_splits)
  then have e: "get_bytes data 74 SIGNATURE_LENGTH = Inr ?sig" "put_bytes data 74 (replicate SIGNATURE_LENGTH 0) = Inr ?z"
    by (simp_all add: get_bytes_def put_bytes_def wire_simps)
  from assms e obtain ok where ok: "checkSignature (w_ssl w) (v_signature v) ?z ?sig = Inr ok"
    by (auto simp: run_command_def bind_res_Inr_iff)
  show ?thesis
  proof (cases ok)
    case True
    have sig: "verified w v ?z ?sig"
      using len ok True overlay_read_back [of 74 data "replicate 128 0"] by (simp add: verified_def)
    from assms e ok True obtain n c ps where n: "strlen_at ?z 10 = Inr n"
      and c: "get_bytes ?z 10 (min COMMAND_MAX_LENGTH n) = Inr c"
      and cmds: "cmds = snd (executeCommand (w_host w) (string_of c) (string_of ps))"
      by (auto simp: run_command_def bind_res_Inr_iff Let_def)
    have "c = take (min COMMAND_MAX_LENGTH n) (drop 10 ?z)" using c by (simp add: get_bytes_def split: if_splits)
    with cmds command_text_take [OF n] sig show ?thesis by (simp add: executeCommand_lines)
  next
    case False
    with assms e ok show ?thesis by (simp add: run_command_def)
  qed
qed

lemma addressed_InrD:
  "addressed nd data = Inr True \<Longrightarrow> data ! 4 = mBaseboardID nd \<and> data ! 5 = mNodeSlot nd \<and> 5 < length data"
  by (auto simp: addressed_def get_byte_def split: if_splits)

lemma overlay_low: "i < off \<Longrightarrow> off \<le> length buf \<Longrightarrow> overlay buf off bs ! i = buf ! i"
  by (simp add: overlay_def nth_append)

text \<open>Command lines only come from a verified message for this module, of the type Command.\<close>

lemma handle_command_system:
  assumes "handle_command w v msg n s = Inr s'" "length msg = 4"
  shows "s_system s' = s_system s \<or> (\<exists>data sig. verified w v data sig \<and> take 4 data = msg
    \<and> data ! 4 = mBaseboardID (s_node s) \<and> data ! 5 = mNodeSlot (s_node s)
    \<and> s_system s' = s_system s @ command_lines (command_text data))"
proof (cases "malloc_ptr w n")
  case None
  with assms show ?thesis by (simp add: handle_command_def)
next
  case (Some buf)
  with assms obtain read data d where
    r: "comm_read_at (w_ops w) ((messageOffset v + sizeof_Message_Header) mod 2 ^ 64) buf sizeof_Message_Header
      (size_sub n sizeof_Message_Header) (s_daemon s) = Inr (read, data, d)"
    by (auto simp: handle_command_def bind_res_Inr_iff)
  show ?thesis
  proof (cases "read = 0")
    case True
    with assms Some r show ?thesis by (auto simp: handle_command_def)
  next
    case False
    with assms Some r obtain data' mine cmds x e where
      p: "put_bytes data 0 msg = Inr data'" and m: "addressed (s_node s) data' = Inr mine"
      and c: "(if mine then run_command w v data' else Inr []) = Inr cmds"
      and s': "s' = s \<lparr> s_daemon := e, s_system := s_system s @ cmds \<rparr>"
      by (auto simp: handle_command_def bind_res_Inr_iff)
    show ?thesis
    proof (cases "cmds = []")
      case True
      with s' show ?thesis by simp
    next
      case cmds: False
      with c have mine: "mine" and rc: "run_command w v data' = Inr cmds" by (auto split: if_splits)
      let ?z = "overlay data' 74 (replicate 128 0)"
      from run_command_verified [OF rc] cmds have
        v: "verified w v ?z (take 128 (drop 74 data'))" "cmds = command_lines (command_text ?z)" by blast+
      from rc have len: "202 \<le> length data'"
        by (auto simp: run_command_def bind_res_Inr_iff get_bytes_def wire_simps split: if_splits)
      from put_bytes_InrD [OF p] assms(2) have "take 4 data' = msg" by (simp add: overlay_def)
      then have "take 4 ?z = msg" using len by (simp add: overlay_take)
      moreover have "?z ! 4 = data' ! 4" "?z ! 5 = data' ! 5" using len by (simp_all add: overlay_low)
      ultimately show ?thesis using v s' addressed_InrD [of "s_node s" data'] m mine by auto
    qed
  qed
qed

lemma handle_command_ok:
  assumes "handle_command w v msg n s = Inr s'" "session_ok v s" "area_ok v"
  shows "session_ok v s' \<and> mShutdown (s_daemon s') = mShutdown (s_daemon s)"
proof (cases "malloc_ptr w n")
  case None
  with assms show ?thesis by (simp add: handle_command_def)
next
  case (Some buf)
  with assms obtain read data d where
    r: "comm_read_at (w_ops w) ((messageOffset v + sizeof_Message_Header) mod 2 ^ 64) buf sizeof_Message_Header
      (size_sub n sizeof_Message_Header) (s_daemon s) = Inr (read, data, d)"
    by (auto simp: handle_command_def bind_res_Inr_iff)
  have ok: "session_ok v (s \<lparr> s_daemon := d \<rparr>)" and sh: "mShutdown d = mShutdown (s_daemon s)"
    using session_ok_daemon [OF assms(2) comm_read_at_kept [OF r]] comm_read_at_kept [OF r] by (simp_all add: kept_def)
  show ?thesis
  proof (cases "read = 0")
    case True
    with assms Some r ok sh show ?thesis by (auto simp: handle_command_def)
  next
    case False
    with assms Some r obtain cmds x e where
      wr: "comm_write (w_ops w) (messageOffset v) [message_code Empty_Message] d = Inr (x, e)"
      and s': "s' = s \<lparr> s_daemon := e, s_system := s_system s @ cmds \<rparr>"
      by (auto simp: handle_command_def bind_res_Inr_iff)
    have "length [message_code Empty_Message] \<le> messageMaxSize v" using assms(3) by (simp add: area_ok_def)
    note e = daemon_ok_write [OF wr _ this]
    have "mCurrentPage e \<le> page_total v (mSensors (s_node (s \<lparr> s_daemon := d \<rparr>)))"
      by (rule session_page [OF ok]) (use e ok in \<open>simp add: session_ok_def\<close>)
    with e ok s' sh show ?thesis by (simp add: session_ok_def)
  qed
qed

section \<open>Iterations\<close>

lemma loop_body_cases:
  assumes "loop_body w v s = Inr s'"
  obtains (skipped) d where "kept (s_daemon s) d" "s' = s \<lparr> s_daemon := d \<rparr>"
  | (command) d msg n where "kept (s_daemon s) d" "length msg = 4" "msg ! 0 = message_code Command"
      "handle_command w v msg n (s \<lparr> s_daemon := d \<rparr>) = Inr s'"
  | (written) d s1 where "kept (s_daemon s) d" "write_next (mState d) w v (s \<lparr> s_daemon := d \<rparr>) = Inr s1"
      "s' = s1 \<lparr> s_daemon := (s_daemon s1) \<lparr> mFirstWriteDone := True \<rparr> \<rparr>"
proof -
  from assms obtain read msg d where
    r: "comm_read (w_ops w) (messageOffset v) (malloc_bytes (w_junk w) sizeof_Message_Header) (s_daemon s) = Inr (read, msg, d)"
    by (auto simp: loop_body_def bind_res_Inr_iff)
  note k = comm_read_kept [OF r]
  have len: "length msg = 4"
    using comm_read_at_keeps [OF r [unfolded comm_read_def]] by (simp add: wire_simps)
  let ?n = "unat (htons (mh_size (dec_Message_Header msg)))"
  consider "s' = s \<lparr> s_daemon := d \<rparr>"
    | "mh_type (dec_Message_Header msg) = message_code Command" "handle_command w v msg ?n (s \<lparr> s_daemon := d \<rparr>) = Inr s'"
    | s1 where "write_next (mState d) w v (s \<lparr> s_daemon := d \<rparr>) = Inr s1"
        "s' = s1 \<lparr> s_daemon := (s_daemon s1) \<lparr> mFirstWriteDone := True \<rparr> \<rparr>"
    using assms r by (auto simp: loop_body_def Let_def bind_res_Inr_iff split: if_splits)
  then show thesis
  proof cases
    case 1
    with k skipped show thesis by blast
  next
    case 2
    then have "msg ! 0 = message_code Command" by (simp add: dec_Message_Header_def)
    with k len 2 command show thesis by blast
  next
    case 3
    with k written show thesis by blast
  qed
qed

lemma loop_body_ok:
  assumes "loop_body w v s = Inr s'" "session_ok v s" "area_ok v"
  shows "session_ok v s' \<and> mShutdown (s_daemon s') = mShutdown (s_daemon s)"
  using assms(1)
proof (cases rule: loop_body_cases)
  case (skipped d)
  with session_ok_daemon [OF assms(2)] show ?thesis by (simp add: kept_def)
next
  case (command d msg n)
  with handle_command_ok [OF command(4) session_ok_daemon [OF assms(2) command(1)] assms(3)]
  show ?thesis by (simp add: kept_def)
next
  case (written d s1)
  with write_next_ok [OF written(2) session_ok_daemon [OF assms(2) written(1)] assms(3)]
  show ?thesis by (simp add: kept_def)
qed

lemma write_next_system: "write_next t w v s = Inr s' \<Longrightarrow> s_system s' = s_system s \<and> s_exitAfter s' = s_exitAfter s"
  by (cases t) (auto simp: write_information_def write_data_def write_page_def bind_res_Inr_iff)

text \<open>\<open>w\<close> and \<open>v\<close> accept the command in \<open>data\<close> for the node.\<close>

definition accepted :: "('c, 'k) world \<Rightarrow> 'k run_vars \<Rightarrow> node \<Rightarrow> bytes \<Rightarrow> bool" where
  "accepted w v nd data \<longleftrightarrow> (\<exists>sig. verified w v data sig) \<and> data ! 0 = message_code Command
     \<and> data ! 4 = mBaseboardID nd \<and> data ! 5 = mNodeSlot nd"

lemma loop_body_system:
  assumes "loop_body w v s = Inr s'"
  shows "s_system s' = s_system s \<or>
    (\<exists>data. accepted w v (s_node s) data \<and> s_system s' = s_system s @ command_lines (command_text data))"
  using assms
proof (cases rule: loop_body_cases)
  case (command d msg n)
  from handle_command_system [OF command(4,2)] show ?thesis
  proof
    assume "\<exists>data sig. verified w v data sig \<and> take 4 data = msg
      \<and> data ! 4 = mBaseboardID (s_node (s \<lparr> s_daemon := d \<rparr>)) \<and> data ! 5 = mNodeSlot (s_node (s \<lparr> s_daemon := d \<rparr>))
      \<and> s_system s' = s_system (s \<lparr> s_daemon := d \<rparr>) @ command_lines (command_text data)"
    then obtain data sig where d: "verified w v data sig" "take 4 data = msg" "data ! 4 = mBaseboardID (s_node s)"
      "data ! 5 = mNodeSlot (s_node s)" "s_system s' = s_system s @ command_lines (command_text data)" by auto
    have "data ! 0 = msg ! 0" using d(2) by (metis nth_take zero_less_numeral)
    with d command(3) show ?thesis by (auto simp: accepted_def)
  qed simp
next
  case (written d s1)
  with write_next_system [OF written(2)] show ?thesis by simp
qed simp

lemma wait_update_simps [simp]:
  "s_daemon (wait_update w v s) = s_daemon s" "s_node (wait_update w v s) = s_node s"
  "s_system (wait_update w v s) = s_system s" "s_exitAfter (wait_update w v s) = s_exitAfter s"
  by (simp_all add: wait_update_def split: prod.split)

lemma session_ok_wait [simp]: "session_ok v (wait_update w v s) = session_ok v s"
  by (simp add: session_ok_def)

lemma count_down_simps [simp]:
  "s_node (count_down s) = s_node s" "s_system (count_down s) = s_system s"
  "session_ok v (count_down s) = session_ok v s"
  by (simp_all add: count_down_def Let_def session_ok_def)

lemma iteration_ok:
  assumes "iteration w v s = Inr s'" "session_ok v s" "area_ok v"
  shows "session_ok v s'"
  using assms loop_body_ok by (fastforce simp: iteration_def bind_res_Inr_iff)

lemma iteration_system:
  assumes "iteration w v s = Inr s'"
  shows "s_system s' = s_system s \<or>
    (\<exists>data. accepted w v (s_node s) data \<and> s_system s' = s_system s @ command_lines (command_text data))"
  using assms loop_body_system by (fastforce simp: iteration_def bind_res_Inr_iff)

lemma loop_body_node:
  assumes "loop_body w v s = Inr s'"
  shows "mBaseboardID (s_node s') = mBaseboardID (s_node s) \<and> mNodeSlot (s_node s') = mNodeSlot (s_node s)"
  using assms
proof (cases rule: loop_body_cases)
  case (command d msg n)
  then show ?thesis by (auto simp: handle_command_def bind_res_Inr_iff split: option.splits if_splits)
next
  case (written d s1)
  then show ?thesis
    by (cases "mState d") (auto simp: write_information_def write_data_def write_page_def bind_res_Inr_iff)
qed simp

lemma iteration_node:
  "iteration w v s = Inr s' \<Longrightarrow>
     mBaseboardID (s_node s') = mBaseboardID (s_node s) \<and> mNodeSlot (s_node s') = mNodeSlot (s_node s)"
  using loop_body_node by (fastforce simp: iteration_def bind_res_Inr_iff)

section \<open>The steps of the program\<close>

text \<open>
  An iteration of the loop, a signal, a line of a client, or any change of the memory behind the
  communicator (the management writes a command, a device fails). The communicator's mutex makes each
  access atomic; a client between two accesses of one iteration is not a step here.
\<close>

inductive daemon_step :: "('c, 'k) world \<Rightarrow> 'k run_vars \<Rightarrow> 'c session \<Rightarrow> 'c session \<Rightarrow> bool"
  for w v where
  iterate: "\<not> mShutdown (s_daemon s) \<Longrightarrow> iteration w v s = Inr s' \<Longrightarrow> daemon_step w v s s'"
| signalled: "daemon_step w v s (s \<lparr> s_daemon := signal_handler sig (s_daemon s) \<rparr>)"
| client: "command_line (w_ops w) (w_junk w) ln (s_node s) (s_daemon s) = Some (Inr (out, go, nd, d)) \<Longrightarrow>
    daemon_step w v s (s \<lparr> s_node := nd, s_daemon := d \<rparr>)"
| environment: "mComm (s_daemon s) \<noteq> None \<Longrightarrow>
    daemon_step w v s (s \<lparr> s_daemon := (s_daemon s) \<lparr> mComm := Some c \<rparr> \<rparr>)"

inductive_cases daemon_stepE: "daemon_step w v s s'"

inductive reachable :: "('c, 'k) world \<Rightarrow> 'k run_vars \<Rightarrow> 'c session \<Rightarrow> 'c session \<Rightarrow> bool"
  for w v s0 where
  begin_loop: "reachable w v s0 s0"
| next_step: "reachable w v s0 s \<Longrightarrow> daemon_step w v s s' \<Longrightarrow> reachable w v s0 s'"

lemma session_ok_client:
  assumes "session_ok v s" "same_sensors (s_node s) nd" "kept (s_daemon s) d"
  shows "session_ok v (s \<lparr> s_node := nd, s_daemon := d \<rparr>)"
proof -
  have "page_total v (mSensors nd) = page_total v (mSensors (s_node s))"
    using assms(2) by (simp add: same_sensors_def page_total_def)
  with session_ok_daemon [OF assms(1,3)] sensors_ok_same [OF assms(2), of v] assms(1) show ?thesis
    by (simp add: session_ok_def)
qed

lemma signal_handler_kept: "signal_handler sig d = d \<lparr> mShutdown := mShutdown d \<or> sig \<noteq> SIGHUP \<rparr>"
  by (cases sig) (simp_all add: shutdown_daemon_def)

lemma daemon_step_ok:
  assumes "daemon_step w v s s'" "session_ok v s" "area_ok v"
  shows "session_ok v s'"
  using assms(1)
proof (rule daemon_stepE)
  assume "iteration w v s = Inr s'"
  then show ?thesis by (rule iteration_ok [OF _ assms(2,3)])
next
  fix sig assume "s' = s \<lparr> s_daemon := signal_handler sig (s_daemon s) \<rparr>"
  then show ?thesis using assms(2) by (simp add: signal_handler_kept)
next
  fix ln out go nd d
  assume "s' = s \<lparr> s_node := nd, s_daemon := d \<rparr>"
    and "command_line (w_ops w) (w_junk w) ln (s_node s) (s_daemon s) = Some (Inr (out, go, nd, d))"
  then show ?thesis using session_ok_client [OF assms(2)] command_line_kept by blast
next
  fix c assume "s' = s \<lparr> s_daemon := (s_daemon s) \<lparr> mComm := Some c \<rparr> \<rparr>"
  then show ?thesis using assms(2) by (simp add: session_ok_def daemon_ok_def in_area_def)
qed

lemma reachable_ok: "reachable w v s0 s \<Longrightarrow> session_ok v s0 \<Longrightarrow> area_ok v \<Longrightarrow> session_ok v s"
  by (induction rule: reachable.induct) (auto intro: daemon_step_ok)

lemma daemon_step_node:
  "daemon_step w v s s' \<Longrightarrow>
     mBaseboardID (s_node s') = mBaseboardID (s_node s) \<and> mNodeSlot (s_node s') = mNodeSlot (s_node s)"
  by (auto elim!: daemon_stepE dest: iteration_node command_line_kept simp: same_sensors_def)

lemma reachable_node:
  "reachable w v s0 s \<Longrightarrow>
     mBaseboardID (s_node s) = mBaseboardID (s_node s0) \<and> mNodeSlot (s_node s) = mNodeSlot (s_node s0)"
  by (induction rule: reachable.induct) (auto dest: daemon_step_node)

end
