(* ===== verification/Daemon_Start_Facts.thy ===== *)
theory Daemon_Start_Facts
  imports Daemon_Facts
begin

text \<open>
  Lemmas about the start, the end and the pauses of the main loop (\<open>daemon/src/Daemon.cpp\<close>):
  a start that succeeds establishes the invariant, the message areas of the slots are
  disjoint, a limited number of iterations ends, and the wait is bounded.
\<close>

section \<open>The start establishes the invariant\<close>

lemma serve_all_kept: "serve_all ss d = Inr d' \<Longrightarrow> kept d d'"
  using serve_all_keeps [of ss d d'] by (simp add: kept_def)

lemma init_comm_kept: "init_comm w c d = Inr (ok, c', d') \<Longrightarrow> kept d d'"
  by (auto simp: init_comm_def bind_res_Inr_iff split: prod.splits dest: serve_all_kept)

lemma read_header_kept: "read_header w d = Inr (hdr, d') \<Longrightarrow> kept d d'"
  by (auto simp: read_header_def bind_res_Inr_iff Let_def dest: comm_read_kept)

lemma comm_max_size_kept: "comm_max_size ops d = Inr (n, d') \<Longrightarrow> kept d d'"
  using comm_max_size_keeps [of ops d n d'] by (simp add: kept_def)

lemma baseboard_header_writes: "baseboard_header w f name d = Inr (hdr, d') \<Longrightarrow> dWrites d' = dWrites d"
  by (auto simp: baseboard_header_def bind_res_Inr_iff kept_def split: option.splits if_splits
      dest!: init_comm_kept read_header_kept)

text \<open>What holds when the loop begins.\<close>

definition begun :: "('c, 'k) world \<Rightarrow> int \<Rightarrow> 'k run_vars \<Rightarrow> 'c session \<Rightarrow> bool" where
  "begun w n v s \<longleftrightarrow> area_ok v \<and> set_ok (mSensors (s_node s)) \<and> sized (mSensors (s_node s))
     \<and> mSize (fst (mSensors (s_node s))) = sensorSize v \<and> mComm (s_daemon s) \<noteq> None \<and> dWrites (s_daemon s) = []
     \<and> mState (s_daemon s) = State_BasicInformation \<and> mCurrentPage (s_daemon s) = 1
     \<and> \<not> mFirstWriteDone (s_daemon s) \<and> \<not> mShutdown (s_daemon s) \<and> s_system s = [] \<and> s_exitAfter s = n
     \<and> updateInterval v \<le> 30000 \<and> v_signature v = Signature_ctor (w_ssl w)"

lemma start_node_begun:
  assumes "start_node w f cfg n h bb area d = Inr (Some (v, s))" "4 \<le> snd area" "mComm d \<noteq> None" "dWrites d = []"
    and "plugins_ok (f_plugins f)" "heap_ok h" "\<forall>a s. hobjs h a = Some s \<longrightarrow> sensor_ok s"
  shows "begun w n v s"
proof -
  obtain bid name where nn: "node_name bb (mSlot d) = (bid, name)" by force
  from assms(1) nn obtain st where st: "SensorSet_ctor (f_plugins f) cfg (f_junk_int f) (w_junk w) h = Inr st"
    and le: "mSize (fst st) \<le> snd area"
    and v: "messageMaxSize v = snd area" "sensorSize v = mSize (fst st)" "v_signature v = Signature_ctor (w_ssl w)"
      "updateInterval v \<le> 30000"
    and s: "mSensors (s_node s) = st" "s_daemon s = resetStatemachine (d \<lparr> mShutdown := False \<rparr>)" "s_system s = []"
      "s_exitAfter s = n"
    by (auto simp: start_node_def Node_ctor_def Let_def bind_res_Inr_iff MAX_UPDATEINTERVAL_def split: if_splits)
  from SensorSet_ctor_ok [OF assms(5-7) st] have "set_ok st" "sized st" by simp_all
  with assms(2-4) le v s show ?thesis by (simp add: begun_def area_ok_def)
qed

lemma start_connected_begun:
  assumes "start_connected w f cfg n h bb d = Inr (Some (v, s))" "mComm d \<noteq> None" "dWrites d = []"
    and "plugins_ok (f_plugins f)" "heap_ok h" "\<forall>a s. hobjs h a = Some s \<longrightarrow> sensor_ok s"
  shows "begun w n v s"
proof -
  from assms(1) obtain k e0 where m: "comm_max_size (w_ops w) d = Inr (k, e0)"
    by (auto simp: start_connected_def bind_res_Inr_iff)
  with assms(1) obtain q e where r: "read_header w e0 = Inr (q, e)"
    by (auto simp: start_connected_def bind_res_Inr_iff)
  with assms(1) m obtain hdr where q: "q = Some hdr" by (cases q) (simp_all add: start_connected_def)
  let ?b = "case bb of None \<Rightarrow> hdr | Some b \<Rightarrow> b"
  from assms(1) m r q obtain slot where slot: "determine_slot f cfg = Some slot"
    by (cases "determine_slot f cfg") (simp_all add: start_connected_def Let_def split: if_splits)
  from assms(1) m r q slot have
    a: "4 \<le> snd (message_area hdr slot)" and
    n: "start_node w f cfg n h ?b (message_area hdr slot) (e \<lparr> mSlot := slot \<rparr>) = Inr (Some (v, s))"
    by (simp_all add: start_connected_def Let_def wire_simps split: if_splits)
  have "mComm e \<noteq> None" "dWrites e = []" using comm_max_size_kept [OF m] read_header_kept [OF r] assms(2,3) by (simp_all add: kept_def)
  then show ?thesis by (intro start_node_begun [OF n a]) (use assms in simp_all)
qed

lemma start_begun:
  assumes "start w f cfg n h d = Inr (Some (v, s))" "dWrites d = []"
    and "plugins_ok (f_plugins f)" "heap_ok h" "\<forall>a s. hobjs h a = Some s \<longrightarrow> sensor_ok s"
  shows "begun w n v s"
proof -
  let ?bb = "GetString cfg ''Comm'' ''BaseboardPluginName'' []"
  from assms(1) obtain bb e where
    b: "(if ?bb = [] then Inr (None, d) else baseboard_header w f ?bb d) = Inr (bb, e)"
    by (auto simp: start_def Let_def bind_res_Inr_iff split: if_splits)
  from assms(1) b obtain c c' g where
    i: "init_comm w c e = Inr (True, c', g)"
    and r: "start_connected w f cfg n h bb (g \<lparr> mComm := Some c' \<rparr>) = Inr (Some (v, s))"
    by (auto simp: start_def Let_def bind_res_Inr_iff split: if_splits option.splits)
  have "dWrites e = []" using b assms(2) baseboard_header_writes [of w f ?bb d bb e] by (auto split: if_splits)
  then have "dWrites g = []" using init_comm_kept [OF i] by (simp add: kept_def)
  then show ?thesis by (intro start_connected_begun [OF r]) (use assms in simp_all)
qed

lemma begun_ok:
  "begun w n v s \<Longrightarrow> page_total v (mSensors (s_node s)) < 255 \<Longrightarrow> area_ok v \<and> session_ok v s"
  using page_total_positive by (simp add: begun_def session_ok_def sensors_ok_def daemon_ok_def in_area_def)

section \<open>Message areas\<close>

text \<open>A header whose dynamic area lies inside the memory and which has at least two slots.\<close>

definition area_start :: "Daemon_Header \<Rightarrow> nat" where
  "area_start hdr = (if dh_version hdr < 3 then 66 else unat (dynamicAreaOffset hdr))"

definition area_part :: "Daemon_Header \<Rightarrow> nat" where
  "area_part hdr = (unat (dh_size hdr) - area_start hdr) div unat (maxSlots hdr)"

lemma message_area_slot:
  assumes "1 < maxSlots hdr" "area_start hdr \<le> unat (dh_size hdr)" "0 \<le> sint slot"
  shows "message_area hdr slot = (area_start hdr + nat (sint slot) * area_part hdr, area_part hdr)"
proof -
  have part: "area_part hdr \<le> unat (dh_size hdr)"
    unfolding area_part_def by (meson div_le_dividend diff_le_self le_trans)
  have "unat (dh_size hdr) < 2 ^ LENGTH(16)" "unat (dynamicAreaOffset hdr) < 2 ^ LENGTH(16)"
    by (rule unsigned_less)+
  then have b: "unat (dh_size hdr) < 2 ^ 16" "area_start hdr < 2 ^ 17" "sint slot < 2 ^ 7"
    using sint_lt [of slot]
    by (simp_all add: area_start_def)
  have "sint slot * int (area_part hdr) \<le> 2 ^ 7 * 2 ^ 16"
    using assms(3) b part by (intro mult_mono) auto
  then have "int (area_start hdr) + sint slot * int (area_part hdr) < 2 ^ 64" using b(2) by simp
  moreover have "0 \<le> int (area_start hdr) + sint slot * int (area_part hdr)" using assms(3) by simp
  ultimately have "(int (area_start hdr) + sint slot * int (area_part hdr)) mod 2 ^ 64
      = int (area_start hdr) + sint slot * int (area_part hdr)" by simp
  moreover have "nat (int (area_start hdr) + sint slot * int (area_part hdr))
      = area_start hdr + nat (sint slot) * area_part hdr"
    using assms(3) by (simp add: nat_add_distrib nat_mult_distrib)
  moreover have "(if dh_version hdr < 3 then 9 + sizeof_BB_Monitoring else unat (dynamicAreaOffset hdr)) = area_start hdr"
    by (simp add: area_start_def wire_simps)
  ultimately show ?thesis
    using assms(1) by (simp only: message_area_def Let_def size_sub_ok [OF assms(2)] area_part_def [symmetric] if_True)
qed

lemma areas_disjoint:
  assumes "1 < maxSlots hdr" "area_start hdr \<le> unat (dh_size hdr)"
    and "0 \<le> sint i" "sint i < sint j" "sint j < uint (maxSlots hdr)"
  shows "fst (message_area hdr i) + snd (message_area hdr i) \<le> fst (message_area hdr j)
    \<and> fst (message_area hdr j) + snd (message_area hdr j) \<le> unat (dh_size hdr)
    \<and> area_start hdr \<le> fst (message_area hdr i)"
proof -
  let ?p = "area_part hdr" and ?i = "nat (sint i)" and ?j = "nat (sint j)"
  have "Suc ?i \<le> ?j" using assms(3,4) by simp
  then have ij: "Suc ?i * ?p \<le> ?j * ?p" by (rule mult_le_mono1)
  have "?j < nat (uint (maxSlots hdr))" using assms(3-5) by linarith
  then have "Suc ?j \<le> unat (maxSlots hdr)" by (simp only: unat_eq_nat_uint Suc_le_eq)
  then have "Suc ?j * ?p \<le> unat (maxSlots hdr) * ?p" by (rule mult_le_mono1)
  also have "\<dots> \<le> unat (dh_size hdr) - area_start hdr" by (simp add: area_part_def)
  finally have "area_start hdr + Suc ?j * ?p \<le> unat (dh_size hdr)" using assms(2) by simp
  moreover have "0 \<le> sint j" using assms(3,4) by simp
  ultimately show ?thesis
    unfolding message_area_slot [OF assms(1-3)] message_area_slot [OF assms(1,2) \<open>0 \<le> sint j\<close>] fst_conv snd_conv
    using ij unfolding mult_Suc by linarith
qed

section \<open>The end of the loop\<close>

lemma loop_body_exitAfter:
  assumes "loop_body w v s = Inr s'"
  shows "s_exitAfter s' = s_exitAfter s"
  using assms
proof (cases rule: loop_body_cases)
  case (command d msg n)
  then show ?thesis by (auto simp: handle_command_def bind_res_Inr_iff split: option.splits if_splits)
next
  case (written d s1)
  with write_next_system [OF written(2)] show ?thesis by simp
qed simp

lemma iteration_countdown:
  assumes "iteration w v s = Inr s'" "0 < s_exitAfter s"
  shows "s_exitAfter s' = s_exitAfter s - 1 \<and> (s_exitAfter s = 1 \<longrightarrow> mShutdown (s_daemon s'))"
  using assms loop_body_exitAfter
  by (fastforce simp: iteration_def bind_res_Inr_iff count_down_def Let_def)

text \<open>At most \<open>n\<close> iterations of the loop.\<close>

primrec iterations :: "nat \<Rightarrow> ('c, 'k) world \<Rightarrow> 'k run_vars \<Rightarrow> 'c session \<Rightarrow> 'c session res" where
  "iterations 0 w v s = Inr s"
| "iterations (Suc n) w v s =
     (if mShutdown (s_daemon s) then Inr s else bind_res (iteration w v s) (iterations n w v))"

text \<open>With a positive count the loop ends: it is that many iterations, or fewer if one sets the
  shutdown flag.\<close>

lemma run_loop_iterations:
  "0 < s_exitAfter s \<Longrightarrow> run_loop w v s = Some (iterations (nat (s_exitAfter s)) w v s)"
proof (induction "nat (s_exitAfter s)" arbitrary: s rule: less_induct)
  case less
  obtain k where k: "nat (s_exitAfter s) = Suc k" using less.prems by (cases "nat (s_exitAfter s)") simp_all
  show ?case
  proof (cases "mShutdown (s_daemon s) \<or> (\<exists>e. iteration w v s = Inl e)")
    case True
    then show ?thesis unfolding k by (subst run_loop.simps) auto
  next
    case False
    then obtain s' where i: "iteration w v s = Inr s'" by (cases "iteration w v s") auto
    note c = iteration_countdown [OF i less.prems]
    have "run_loop w v s' = Some (iterations k w v s')"
    proof (cases "s_exitAfter s = 1")
      case True
      with c k have "mShutdown (s_daemon s')" "k = 0" by simp_all
      then show ?thesis by (subst run_loop.simps) simp
    next
      case other: False
      with c less.prems k have "nat (s_exitAfter s') = k" "0 < s_exitAfter s'" by simp_all
      with less.hyps [of s'] k show ?thesis by simp
    qed
    with False i show ?thesis unfolding k by (subst run_loop.simps) simp
  qed
qed

text \<open>Every state the loop passes is reachable.\<close>

lemma reachable_step_first:
  assumes "daemon_step w v s s'" "reachable w v s' t"
  shows "reachable w v s t"
  using assms(2,1)
proof (induction rule: reachable.induct)
  case begin_loop
  then show ?case by (blast intro: reachable.intros)
next
  case (next_step t u)
  then show ?case by (blast intro: reachable.intros)
qed

lemma run_loop_reachable:
  assumes "run_loop w v s = Some (Inr s')"
  shows "reachable w v s s' \<and> mShutdown (s_daemon s')"
proof -
  have "run_loop w v s = Some y \<Longrightarrow> \<forall>s'. y = Inr s' \<longrightarrow> reachable w v s s' \<and> mShutdown (s_daemon s')" for y
  proof (erule run_loop.raw_induct [rotated], goal_cases)
    case (1 f w v s y)
    show ?case
    proof (cases "mShutdown (s_daemon s)")
      case True
      with 1(2) show ?thesis by (auto intro: begin_loop)
    next
      case False
      show ?thesis
      proof (cases "iteration w v s")
        case (Inl e)
        with False 1(2) show ?thesis by auto
      next
        case (Inr s1)
        with False 1(2) have "f w v s1 = Some y" by simp
        from 1(1) [OF this] iterate [OF False Inr] show ?thesis by (blast intro: reachable_step_first)
      qed
    qed
  qed
  with assms show ?thesis by blast
qed

section \<open>The wait\<close>

lemma wait_loop_bound:
  "wait_loop clock since interval n ticks endTime = (e, t, k) \<Longrightarrow> k \<le> n \<and> t \<le> ticks + n \<and> k \<le> t - ticks \<and> ticks \<le> t"
proof (induction n arbitrary: ticks endTime e t k)
  case (Suc n)
  show ?case
  proof (cases "loop_time since (clock ticks) < interval")
    case True
    obtain e' t' k' where w: "wait_loop clock since interval n (Suc ticks) (clock ticks) = (e', t', k')" by (metis prod_cases3)
    from Suc.IH [OF w] Suc.prems True w show ?thesis by (auto simp: Let_def)
  next
    case False
    with Suc.prems show ?thesis by (auto simp: Let_def)
  qed
qed simp

text \<open>The wait ends early only when the interval has passed since the last update.\<close>

lemma wait_loop_early:
  "wait_loop clock since interval n ticks endTime = (e, t, k) \<Longrightarrow> k < n \<Longrightarrow> interval \<le> loop_time since e"
proof (induction n arbitrary: ticks endTime e t k)
  case (Suc n)
  show ?case
  proof (cases "loop_time since (clock ticks) < interval")
    case True
    obtain e' t' k' where w: "wait_loop clock since interval n (Suc ticks) (clock ticks) = (e', t', k')" by (metis prod_cases3)
    from Suc.IH [OF w] Suc.prems True w show ?thesis by (auto simp: Let_def)
  next
    case False
    with Suc.prems show ?thesis by (auto simp: Let_def)
  qed
qed simp

lemma wait_rounds_bound: "0 \<le> interval \<Longrightarrow> 100 * int (wait_rounds interval) \<le> 2 * interval"
  by (cases "interval = 0") (simp_all add: wait_rounds_def signed_divide_int_def)

end
