(* ===== verification/Run_Ends.thy ===== *)
theory Run_Ends
  imports Daemon_Start_Facts
begin

text \<open>
  Which statements of the daemon return (\<open>daemon/src/Daemon.cpp\<close> and all it calls): a result is
  a value or the fault of an access, of a conversion or of a division, never a loop that goes
  on for ever. Two loops of the code may, both over a 16-bit counter: that of the configured
  sensors and that of the sensors of a JSON description. The communicator is a parameter, so
  that its operations return is a hypothesis.
\<close>

section \<open>Results that are no result\<close>

definition hangs :: "'a res \<Rightarrow> bool" where
  "hangs r \<longleftrightarrow> r = Inl Diverges \<or> r = Inl Out_of_fuel"

named_theorems returning

lemma hangs_simps [returning]:
  "hangs (Inr x) = False" "hangs (Inl e) = (e = Diverges \<or> e = Out_of_fuel)"
  "hangs (bind_res r f) \<longleftrightarrow> hangs r \<or> (\<exists>x. r = Inr x \<and> hangs (f x))"
  "hangs (if P then a else b) = (if P then hangs a else hangs b)"
  by (auto simp: hangs_def bind_res_Inl_iff)

lemma hangs_case [returning]:
  "hangs (case_option a g o1) = case_option (hangs a) (\<lambda>x. hangs (g x)) o1"
  "hangs (case_prod k p) = case_prod (\<lambda>x y. hangs (k x y)) p"
  by (simp_all split: option.split prod.split)

lemma buffers_return [returning]:
  "\<not> hangs (get_byte b i)" "\<not> hangs (get_bytes b i n)" "\<not> hangs (put_bytes b i x)" "\<not> hangs (strlen_at b i)"
  by (simp_all add: get_byte_def get_bytes_def put_bytes_def strlen_at_def returning split: option.split)

section \<open>The JSON parser\<close>

lemma scanners_return:
  "substr p n s \<noteq> Inl Diverges" "unescape s \<noteq> Inl Diverges" "GetEndOfArrayOrObj s stk \<noteq> Inl Diverges"
  "pop_expected t r \<noteq> Inl Diverges"
proof -
  show "substr p n s \<noteq> Inl Diverges" for p n s by (simp add: substr_def)
  then show "unescape s \<noteq> Inl Diverges"
    by (induction s rule: unescape.induct) (auto simp: bind_res_Inl_iff)
  have "end_scan oc p i q stk s \<noteq> Inl Diverges" for oc p i q stk s
    by (induction oc p i q stk s rule: end_scan.induct) (auto split: list.splits)
  then show "GetEndOfArrayOrObj s stk \<noteq> Inl Diverges"
    by (simp add: GetEndOfArrayOrObj_def split: list.splits)
  show "pop_expected t r \<noteq> Inl Diverges"
    by (auto simp: pop_expected_def split: prod.splits list.splits)
qed

lemma containers_return:
  assumes "\<And>str stk. dv str stk \<noteq> Inl Diverges"
  shows "DeserializeArray dv str stk \<noteq> Inl Diverges" "DeserializeObj dv str stk \<noteq> Inl Diverges"
    "DeserializeInternal dv str stk \<noteq> Inl Diverges"
proof -
  have "array_loop dv n a str stk \<noteq> Inl Diverges" for n a str stk
    using assms by (induction n arbitrary: a str stk) (auto simp: bind_res_Inl_iff split: prod.splits)
  then show a: "DeserializeArray dv str stk \<noteq> Inl Diverges" for str stk
    by (auto simp: DeserializeArray_def Let_def bind_res_Inl_iff scanners_return simp del: array_loop.simps)
  have "object_loop dv n obj str stk \<noteq> Inl Diverges" for n obj str stk
    using assms by (induction n arbitrary: obj str stk) (auto simp: bind_res_Inl_iff split: option.splits prod.splits)
  then show o: "DeserializeObj dv str stk \<noteq> Inl Diverges" for str stk
    by (auto simp: DeserializeObj_def Let_def bind_res_Inl_iff scanners_return simp del: object_loop.simps)
  from a o show "DeserializeInternal dv str stk \<noteq> Inl Diverges"
    by (auto simp: DeserializeInternal_def Let_def bind_res_Inl_iff scanners_return)
qed

lemma DeserializeValue_returns: "DeserializeValue n str stk \<noteq> Inl Diverges"
proof (induction n arbitrary: str stk)
  case (Suc n)
  note c = containers_return [OF Suc.IH]
  show ?case
    by (auto simp: Let_def bind_res_Inl_iff UnescapeJSONString_def c scanners_return split: option.splits)
qed simp

lemma Deserialize_returns [returning]: "\<not> hangs (Deserialize str)"
proof -
  have "Deserialize str \<noteq> Inl Diverges"
    by (auto simp: Deserialize_def bind_res_Inl_iff containers_return [OF DeserializeValue_returns]
        simp del: DeserializeValue.simps)
  with Deserialize_answers show ?thesis by (simp add: hangs_def)
qed

section \<open>Sensors\<close>

lemma heap_returns [returning]:
  "\<not> hangs (heap_get h a)" "\<not> hangs (heap_bean h a)" "\<not> hangs (heap_delete a h)" "\<not> hangs (heap_delete_all as h)"
proof -
  show "\<not> hangs (heap_get h a)" "\<not> hangs (heap_bean h a)"
    by (simp_all add: heap_get_def heap_bean_def returning split: option.split isensor.split)
  show d: "\<not> hangs (heap_delete a h)" for a h by (simp add: heap_delete_def returning split: option.split)
  show "\<not> hangs (heap_delete_all as h)" by (induction as arbitrary: h) (simp_all add: returning d)
qed

lemma values_return [returning]:
  "\<not> hangs (Value_index v i)" "\<not> hangs (Value_key v k)" "\<not> hangs (ToInt v)" "\<not> hangs (ToDouble v)" "\<not> hangs (ToString v)"
  by (simp_all add: Value_index_def Value_key_def Array_index_def ToInt_def ToDouble_def ToString_def returning Let_def
      split: prod.split)

lemma beans_return [returning]:
  "\<not> hangs (setData_string t s)" "\<not> hangs (setData_u32 x s)" "\<not> hangs (setData_double y s)" "\<not> hangs (is_getData q)"
  by (simp_all add: setData_string_def setData_u32_def setData_double_def returning Let_def)
    (cases q, simp_all add: SensorBean_getData_def returning split: prod.split)

lemma fields_return [returning]:
  "\<not> hangs (field m k)" "\<not> hangs (field_string m k)" "\<not> hangs (sensor_type m k)" "\<not> hangs (sensor_unit m)"
  "\<not> hangs (sensor_thresholds m k)" "\<not> hangs (sensor_values m)" "\<not> hangs (sensor_group m)"
proof -
  show f: "\<not> hangs (field m k)" for k by (simp add: field_def returning split: prod.split)
  then show s: "\<not> hangs (field_string m k)" for k by (simp add: field_string_def returning)
  show "\<not> hangs (sensor_type m k)" "\<not> hangs (sensor_unit m)" "\<not> hangs (sensor_thresholds m k)" "\<not> hangs (sensor_values m)"
    "\<not> hangs (sensor_group m)"
    by (simp_all add: sensor_type_def sensor_unit_def sensor_thresholds_def sensor_values_def sensor_group_def returning f s)
qed

lemma parse_sensor_returns [returning]: "\<not> hangs (parse_sensor junk v)"
  by (auto simp: parse_sensor_def returning Let_def split: option.splits prod.splits)

lemma describe_loop_returns [returning]: "\<not> hangs (describe_loop junk d n i st)"
  by (induction n arbitrary: i st) (auto simp: returning Let_def split: option.splits prod.splits)

text \<open>The loop over a description ends if that has less than 65536 elements.\<close>

definition few_described :: "json_provider \<Rightarrow> bool" where
  "few_described p \<longleftrightarrow> (\<forall>d. Deserialize (getSensorsDescription p) = Inr d \<longrightarrow> Value_size d < 65536)"

lemma getSensors_returns:
  assumes "few_described (jp_provider p)"
  shows "\<not> hangs (getSensors junk p h)"
  using assms by (auto simp: getSensors_def returning Let_def few_described_def split: prod.splits)

lemma updates_return [returning]:
  "\<not> hangs (update_sensor v a h)" "\<not> hangs (update_loop d i as h)" "\<not> hangs (updateSensors p h)" "\<not> hangs (update_parsers es h)"
proof -
  show u: "\<not> hangs (update_sensor v a h)" for v a h
    by (simp add: update_sensor_def store_reading_def returning)
  show l: "\<not> hangs (update_loop d i as h)" for d i as h
    by (induction as arbitrary: i h) (simp_all add: returning u)
  show p: "\<not> hangs (updateSensors p h)" for p h
    by (auto simp: updateSensors_def returning l Let_def split: prod.splits)
  show "\<not> hangs (update_parsers es h)"
    by (induction es arbitrary: h) (auto simp: returning p split: prod.splits)
qed

section \<open>The set of sensors\<close>

lemma getMessage_returns [returning]: "\<not> hangs (getMessage st)"
proof -
  have s: "\<not> hangs (sample_sensor a off d h)" for a off d h
    by (auto simp: sample_sensor_def returning Let_def split: prod.splits)
  have "\<not> hangs (sample_loop as off d h)" for as off d h
    by (induction as arbitrary: off d h) (auto simp: returning s split: prod.splits)
  then show ?thesis by (auto simp: getMessage_def data_header_def returning split: prod.splits)
qed

lemma getDescriptionPage_returns [returning]: "\<not> hangs (getDescriptionPage b n p st)"
proof -
  have "\<not> hangs (describe_entries es h off b g)" for es h off b g
    by (induction es arbitrary: off b g) (auto simp: returning split: prod.splits)
  then show ?thesis
    by (auto simp: getDescriptionPage_def sensors_on_page_def returning Let_def split: prod.splits)
qed

lemma clear_set_returns [returning]: "\<not> hangs (clear_set st)" "\<not> hangs (SensorSet_dtor st)" "\<not> hangs (Node_dtor nd)"
  by (auto simp: clear_set_def SensorSet_dtor_def Node_dtor_def returning split: prod.splits)

definition returning_plugins :: "plugins \<Rightarrow> bool" where
  "returning_plugins env \<longleftrightarrow> (\<forall>name p. createJSONSensorProvider env name = Some p \<longrightarrow> few_described p)"

lemma SensorSet_ctor_returns:
  assumes "GetInt junk_int c ''Sensors'' ''count'' 0 \<le> 65535" "returning_plugins env"
  shows "\<not> hangs (SensorSet_ctor env c junk_int junk h)"
proof -
  have a: "\<not> hangs (addJSONSensorProvider junk p name st)" if "few_described p" for p name st
    using that getSensors_returns [of "JSONSensorsParser_ctor p name"]
    by (auto simp: addJSONSensorProvider_def JSONSensorsParser_ctor_def returning split: prod.splits)
  have j: "\<not> hangs (json_provider_loop env junk names st)" for names st
    using assms(2) a by (induction names arbitrary: st)
      (auto simp: returning returning_plugins_def split: option.splits prod.splits)
  have "\<not> hangs (sum_sizes as h)" for as h by (induction as) (simp_all add: returning)
  with j assms(1) show ?thesis by (auto simp: SensorSet_ctor_def returning Let_def split: prod.splits)
qed

text \<open>More sensors than the counter can count: the constructor never returns.\<close>

lemma SensorSet_ctor_hangs:
  "65535 < GetInt junk_int c ''Sensors'' ''count'' 0 \<Longrightarrow> hangs (SensorSet_ctor env c junk_int junk h)"
  by (simp add: SensorSet_ctor_def returning)

section \<open>The loop\<close>

definition returning_ops :: "'c communicator \<Rightarrow> bool" where
  "returning_ops ops \<longleftrightarrow> (\<forall>c. \<not> hangs (getMaxDataSize ops c)) \<and> (\<forall>off n c. \<not> hangs (readData ops off n c))
     \<and> (\<forall>off b c. \<not> hangs (writeData ops off b c))"

lemma serve_all_returns [returning]: "\<not> hangs (serve_all calls d)"
proof (induction calls arbitrary: d)
  case (Cons s calls)
  have "\<not> hangs (InvokeService n p d)" for n p
    by (auto simp: InvokeService_def returning split: service_param.split prod.split)
  with Cons.IH show ?case by (auto simp: returning split: prod.splits)
qed (simp add: returning)

lemma comm_returns:
  assumes "returning_ops ops"
  shows "\<not> hangs (comm_read_at ops off b at n d)" "\<not> hangs (comm_read ops off b d)" "\<not> hangs (comm_write ops off b d)"
    "\<not> hangs (comm_max_size ops d)"
  using assms by (auto simp: comm_read_at_def comm_read_def comm_write_def comm_max_size_def returning_ops_def returning
      split: option.splits prod.splits)

lemma information_returns [returning]: "\<not> hangs (getBasicInformationBlock j os b n)"
  by (auto simp: getBasicInformationBlock_def returning Let_def split: option.splits)

lemma handle_command_returns:
  assumes "returning_ops (w_ops w)"
  shows "\<not> hangs (handle_command w v msg n s)"
proof -
  have "\<not> hangs (checkSignature e k d g)" for e k d g by (simp add: checkSignature_def returning split: option.split)
  then have "\<not> hangs (run_command w v data)" for data by (auto simp: run_command_def returning Let_def)
  with comm_returns [OF assms] show ?thesis
    by (auto simp: handle_command_def addressed_def returning split: option.splits prod.splits)
qed

lemma loop_body_returns:
  assumes "returning_ops (w_ops w)"
  shows "\<not> hangs (loop_body w v s)"
proof -
  note c = comm_returns [OF assms]
  have "\<not> hangs (write_next t w v s)" for t s
    by (cases t) (auto simp: write_information_def write_data_def write_page_def returning c split: prod.splits)
  with c handle_command_returns [OF assms] show ?thesis
    by (auto simp: loop_body_def returning Let_def split: prod.splits)
qed

lemma iteration_returns:
  assumes "returning_ops (w_ops w)"
  shows "\<not> hangs (iteration w v s)"
  using loop_body_returns [OF assms] by (auto simp: iteration_def returning)

lemma finish_returns:
  assumes "returning_ops (w_ops w)"
  shows "\<not> hangs (finish w v s)"
  using comm_returns [OF assms] by (auto simp: finish_def returning split: prod.splits)

section \<open>The start\<close>

lemma start_returns:
  assumes "returning_ops (w_ops w)" "GetInt (f_junk_int f) cfg ''Sensors'' ''count'' 0 \<le> 65535" "returning_plugins (f_plugins f)"
  shows "\<not> hangs (start w f cfg n h d)"
proof -
  note c = comm_returns [OF assms(1)]
  have i: "\<not> hangs (init_comm w k e)" for k e by (auto simp: init_comm_def returning split: prod.splits)
  have r: "\<not> hangs (read_header w e)" for e by (auto simp: read_header_def returning c Let_def split: prod.splits)
  have b: "\<not> hangs (baseboard_header w f name e)" for name e
    by (auto simp: baseboard_header_def returning i r split: option.splits prod.splits)
  have "\<not> hangs (start_node w f cfg n h bb area e)" for bb area e
    using SensorSet_ctor_returns [OF assms(2,3)]
    by (auto simp: start_node_def Node_ctor_def returning Let_def split: prod.splits)
  then have "\<not> hangs (start_connected w f cfg n h bb e)" for bb e
    by (auto simp: start_connected_def returning c r Let_def split: option.splits prod.splits)
  then show ?thesis
    by (auto simp: start_def returning b i Let_def split: option.splits prod.splits)
qed

end
