(* ===== verification/Daemon_Progress.thy ===== *)
theory Daemon_Progress
  imports Daemon_Start_Facts
begin

text \<open>
  The run of the main loop (\<open>daemon/src/Daemon.cpp\<close>) on a communicator whose reader takes every
  message at once: the basic information block, every page of the description, then data.
  The lemmas are stated for any \<open>mailbox\<close>; the dummy communicator provides one per slot.
\<close>

section \<open>The messages expected\<close>

text \<open>The pages of a description, with the group numbers handed out from one to the next.\<close>

primrec description_messages :: "nat \<Rightarrow> nat \<Rightarrow> (string \<times> nat) list \<Rightarrow> sensor_heap \<Rightarrow> (string, int) std_map
    \<Rightarrow> nat list \<Rightarrow> bytes list" where
  "description_messages pages s es h g [] = []"
| "description_messages pages s es h g (p # ps) =
     (let part = page_entries s p es
      in (enc_Monitoring_Description_Header (page_header (9 + 72 * length part) (word_of_nat p) (word_of_nat pages)
            (length part) ((p - 1) * s)) @ page_bytes part h g)
         # description_messages pages s es h (page_groups part h g) ps)"

text \<open>Descriptions per page and number of pages in an area.\<close>

definition per_page :: "nat \<Rightarrow> nat" where
  "per_page cap = (cap - 9) div 72 mod 256"

definition page_number :: "nat \<Rightarrow> sensor_set \<Rightarrow> nat" where
  "page_number cap S = pages_needed (per_page cap) (length (mSensorMap S))"

text \<open>A set that can be described in an area of \<open>cap\<close> bytes: room for at least one entry, fewer
  than 255 pages, and every sensor alive.\<close>

definition describable :: "nat \<Rightarrow> set_state \<Rightarrow> bool" where
  "describable cap st \<longleftrightarrow> (case st of (S, h) \<Rightarrow>
     9 \<le> cap \<and> cap < 65536 \<and> 0 < per_page cap \<and> length (mSensorMap S) < 65536 \<and> page_number cap S < 255
     \<and> (\<forall>e \<in> set (mSensorMap S). live h (snd e)))"

text \<open>The world and the variables belong to the mailbox, and the calls of the system work.\<close>

definition runs_on :: "'c communicator \<Rightarrow> nat \<Rightarrow> nat \<Rightarrow> ('c, 'k) world \<Rightarrow> 'k run_vars \<Rightarrow> bool" where
  "runs_on ops mo cap w v \<longleftrightarrow> w_ops w = ops \<and> messageOffset v = mo \<and> messageMaxSize v = cap \<and> w_malloc w cap
     \<and> adapter_ok (w_junk_adapter w) \<and> host_ok (w_host w)"

definition information_message :: "('c, 'k) world \<Rightarrow> nat \<Rightarrow> bytes" where
  "information_message w cap =
     (if cap < 315 then []
      else let as = getNetworkAdapters (w_junk_adapter w) (w_host w)
           in information_bytes (w_junk w 3) (getManagementAdapter (w_junk_adapter w) as)
                (getComputeAdapter (w_junk_adapter w) as) (getHostName (w_host w)))"

definition free_box :: "('c \<Rightarrow> bytes option) \<Rightarrow> nat \<Rightarrow> nat \<Rightarrow> ((nat \<times> bytes) list \<Rightarrow> 'c \<Rightarrow> bool) \<Rightarrow> 'c daemon \<Rightarrow> bool" where
  "free_box mem mo cap agrees d \<longleftrightarrow>
     (\<exists>c m. mComm d = Some c \<and> mem c = Some m \<and> mailbox_free mo cap m \<and> agrees (dWrites d) c)"

lemma free_box_simps [simp]:
  "free_box mem mo cap agrees (d \<lparr> mState := t \<rparr>) = free_box mem mo cap agrees d"
  "free_box mem mo cap agrees (d \<lparr> mCurrentPage := p \<rparr>) = free_box mem mo cap agrees d"
  "free_box mem mo cap agrees (d \<lparr> mFirstWriteDone := f \<rparr>) = free_box mem mo cap agrees d"
  "free_box mem mo cap agrees (d \<lparr> mShutdown := g \<rparr>) = free_box mem mo cap agrees d"
  by (simp_all add: free_box_def)

section \<open>Sizes that are announced\<close>

lemma announced_rev: "announced ([t] @ rev (u16_mem x) @ r) = unat x"
proof -
  have "rev (u16_mem x) = u16_mem (htons x)" by (simp add: u16_mem_htons)
  then show ?thesis by (simp add: announced_def u16_mem_def)
qed

lemma announced_header: "announced (enc_Message_Header h @ r) = unat (htons (mh_size h))"
  by (simp add: announced_def enc_Message_Header_def u16_mem_def)

lemma announced_page:
  "n < 65536 \<Longrightarrow> announced (enc_Monitoring_Description_Header (page_header n p q e s) @ r) = n"
  by (simp add: enc_Monitoring_Description_Header_def page_header_def announced_header unat_u16)

lemma announced_information: "announced (information_bytes ver a b nm) = 315"
  using announced_rev [of _ "315 :: u16"] by (simp add: information_bytes_def wire_simps)

lemma length_information:
  "adapter_ok a \<Longrightarrow> adapter_ok b \<Longrightarrow> length (information_bytes ver a b nm) = 315"
  by (simp add: information_bytes_def adapter_ok_def DAEMON_VERSION_def wire_simps interface_bytes_def)

lemma iterations_add:
  "iterations m w v s = Inr t \<Longrightarrow> iterations (m + n) w v s = iterations n w v t"
proof (induction m arbitrary: s)
  case (Suc m)
  show ?case
  proof (cases "mShutdown (s_daemon s)")
    case True
    with Suc.prems have "t = s" by simp
    with True show ?thesis by (cases n) simp_all
  next
    case False
    with Suc.prems obtain s1 where "iteration w v s = Inr s1" "iterations m w v s1 = Inr t"
      by (auto simp: bind_res_Inr_iff)
    with Suc.IH False show ?thesis by simp
  qed
qed simp

lemma describable_groups [simp]:
  "describable cap (S \<lparr> mKnownGroups := g \<rparr>, h) = describable cap (S, h)"
  "page_number cap (S \<lparr> mKnownGroups := g \<rparr>) = page_number cap S"
  by (simp_all add: describable_def page_number_def)

lemma next_page_number:
  assumes "k \<le> n" "n < 255" "mCurrentPage d = word_of_nat k"
  shows "next_page (word_of_nat n) d = (if k = n then d \<lparr> mCurrentPage := 1, mState := State_MonitoringData \<rparr>
    else d \<lparr> mCurrentPage := word_of_nat (Suc k) \<rparr>)"
proof -
  have "mCurrentPage d + 1 = word_of_nat (Suc k)" using assms(3) by (simp add: add.commute)
  moreover have "unat (word_of_nat (Suc k) :: u8) = Suc k" "unat (word_of_nat n :: u8) = n"
    using assms(1,2) by (simp_all only: unat_of_nat take_bit_eq_mod) simp_all
  then have "(word_of_nat n :: u8) < word_of_nat (Suc k) \<longleftrightarrow> n < Suc k"
    by (simp only: word_less_nat_alt)
  moreover have "n < Suc k \<longleftrightarrow> k = n" using assms(1) by auto
  ultimately show ?thesis by (simp only: next_page_def Let_def)
qed

text \<open>Without a limit, the end of an iteration changes only the times.\<close>

lemma iteration_plain:
  assumes "loop_body w v s = Inr s1" "s_exitAfter s \<le> 0"
  shows "iteration w v s = Inr (wait_update w v s1)"
  using assms loop_body_exitAfter [OF assms(1)] by (simp add: iteration_def count_down_def)

section \<open>One iteration on a free mailbox\<close>

context mailbox
begin

lemma write_free_box:
  assumes "free_box mem mo cap agrees d" "fair_message cap b"
  shows "\<exists>r c. comm_write ops mo b d = Inr (r, d \<lparr> mComm := Some c, dWrites := dWrites d @ [(mo, b)] \<rparr>)
    \<and> free_box mem mo cap agrees (d \<lparr> mComm := Some c, dWrites := dWrites d @ [(mo, b)] \<rparr>)"
proof -
  from assms(1) obtain c m where "mComm d = Some c" "mem c = Some m" "mailbox_free mo cap m" "agrees (dWrites d) c"
    by (auto simp: free_box_def)
  from comm_write_mailbox [OF this assms(2)] show ?thesis by (fastforce simp: free_box_def)
qed

lemma loop_body_free:
  assumes "free_box mem mo cap agrees (s_daemon s)" "runs_on ops mo cap w v"
  shows "loop_body w v s = bind_res (write_next (mState (s_daemon s)) w v s) (\<lambda>s.
    Inr (s \<lparr> s_daemon := (s_daemon s) \<lparr> mFirstWriteDone := True \<rparr> \<rparr>))"
proof -
  from assms(1) obtain c m where c: "mComm (s_daemon s) = Some c" "mem c = Some m" "mailbox_free mo cap m"
    by (auto simp: free_box_def)
  have "length (malloc_bytes (w_junk w) sizeof_Message_Header) = 4" by (simp add: wire_simps)
  from header_of_free [OF c this] obtain r b where
    b: "r \<noteq> 0" "comm_read ops mo (malloc_bytes (w_junk w) sizeof_Message_Header) (s_daemon s) = Inr (r, b, s_daemon s)"
      "b ! 0 = 0" "announced b \<le> cap" by blast
  have "s \<lparr> s_daemon := s_daemon s \<rparr> = s" by simp
  then show ?thesis
    using b assms(2)
    by (simp add: loop_body_def runs_on_def dec_Message_Header_def announced_def is_pending_def Let_def)
qed

lemma write_information_free:
  assumes "free_box mem mo cap agrees (s_daemon s)" "runs_on ops mo cap w v"
  shows "\<exists>c. write_information w v s = Inr (s \<lparr> s_daemon := (s_daemon s) \<lparr> mComm := Some c,
      dWrites := dWrites (s_daemon s) @ [(mo, information_message w cap)], mState := State_MonitoringDescription \<rparr> \<rparr>)
    \<and> free_box mem mo cap agrees ((s_daemon s) \<lparr> mComm := Some c, dWrites := dWrites (s_daemon s) @ [(mo, information_message w cap)] \<rparr>)"
proof -
  let ?buf = "malloc_bytes (w_junk w) cap" and ?msg = "information_message w cap"
  let ?as = "getNetworkAdapters (w_junk_adapter w) (w_host w)"
  have os: "adapter_ok (w_junk_adapter w)" "host_ok (w_host w)" using assms(2) by (simp_all add: runs_on_def)
  have "adapter_ok (getManagementAdapter (w_junk_adapter w) ?as)" "adapter_ok (getComputeAdapter (w_junk_adapter w) ?as)"
    using scans_ok [OF os(1)] getNetworkAdapters_ok [OF os] by simp_all
  then have len: "length ?msg = (if cap < 315 then 0 else 315)"
    by (simp add: information_message_def Let_def length_information)
  have fair: "fair_message cap ?msg"
    using len by (cases "cap < 315") (simp_all add: fair_message_def information_message_def Let_def announced_information)
  obtain rest where g: "getBasicInformationBlock (w_junk_adapter w) (w_host w) (Some ?buf) cap = Inr (length ?msg, Some (?msg @ rest))"
  proof (cases "cap < 315")
    case True
    with that [of ?buf] show thesis by (simp add: getBasicInformationBlock_def wire_simps information_message_def)
  next
    case False
    then have l: "315 \<le> length ?buf" by simp
    have "?buf ! 3 = w_junk w 3" using False by (simp add: malloc_bytes_def)
    with that getBasicInformationBlock_bytes [OF l os] False len show thesis
      by (simp add: information_message_def Let_def)
  qed
  have p: "malloc_ptr w cap = Some ?buf" using assms(2) by (simp add: malloc_ptr_def runs_on_def)
  from write_free_box [OF assms(1) fair] obtain r c where
    wr: "comm_write ops mo ?msg (s_daemon s) = Inr (r, (s_daemon s) \<lparr> mComm := Some c, dWrites := dWrites (s_daemon s) @ [(mo, ?msg)] \<rparr>)"
    "free_box mem mo cap agrees ((s_daemon s) \<lparr> mComm := Some c, dWrites := dWrites (s_daemon s) @ [(mo, ?msg)] \<rparr>)" by blast
  have "get_bytes (?msg @ rest) 0 (length ?msg) = Inr ?msg" by (simp add: get_bytes_def)
  with g p wr assms(2) show ?thesis
    by (auto simp: write_information_def runs_on_def ptr_bytes_def)
qed

lemma write_page_free:
  fixes s S h k
  defines "part \<equiv> page_entries (per_page cap) k (mSensorMap S)" and "d \<equiv> s_daemon s"
  defines "msg \<equiv> enc_Monitoring_Description_Header (page_header (9 + 72 * length part) (word_of_nat k)
      (word_of_nat (page_number cap S)) (length part) ((k - 1) * per_page cap)) @ page_bytes part h (mKnownGroups S)"
  assumes free: "free_box mem mo cap agrees d" and on: "runs_on ops mo cap w v"
    and st: "mSensors (s_node s) = (S, h)" and ok: "describable cap (S, h)"
    and k: "mCurrentPage d = word_of_nat k" "1 \<le> k" "k \<le> page_number cap S"
  shows "\<exists>c. write_page w v s = Inr (s \<lparr> s_daemon := next_page (word_of_nat (page_number cap S))
          (d \<lparr> mComm := Some c, dWrites := dWrites d @ [(mo, msg)] \<rparr>),
        s_node := (s_node s) \<lparr> mSensors := (S \<lparr> mKnownGroups := page_groups part h (mKnownGroups S) \<rparr>, h) \<rparr> \<rparr>)
    \<and> free_box mem mo cap agrees (d \<lparr> mComm := Some c, dWrites := dWrites d @ [(mo, msg)] \<rparr>)"
proof -
  let ?buf = "malloc_bytes (w_junk w) cap" and ?p = "word_of_nat k :: u8"
  note o = ok [unfolded describable_def prod.case]
  have k255: "k < 255" using o k(3) by linarith
  then have up: "unat ?p = k" by (simp add: unat_of_nat take_bit_eq_mod)
  have n: "length part \<le> per_page cap" by (simp add: part_def page_entries_def)
  have "72 * per_page cap \<le> 72 * ((cap - 9) div 72)" by (simp add: per_page_def)
  also have "\<dots> \<le> cap - 9" by simp
  finally have room: "9 + 72 * length part \<le> cap" using n o by linarith
  have "\<exists>buf'. getDescriptionPage ?buf (length ?buf) ?p (S, h) =
      Inr (9 + 72 * length part, buf', word_of_nat (page_number cap S),
        S \<lparr> mKnownGroups := page_groups part h (mKnownGroups S) \<rparr>, h)
    \<and> length buf' = length ?buf \<and> take (9 + 72 * length part) buf' = msg"
    using getDescriptionPage_bytes [of ?buf S ?p h] o k up
    by (simp add: part_def msg_def per_page_def page_number_def)
  then obtain buf' where g: "getDescriptionPage ?buf cap ?p (S, h) =
      Inr (9 + 72 * length part, buf', word_of_nat (page_number cap S),
        S \<lparr> mKnownGroups := page_groups part h (mKnownGroups S) \<rparr>, h)"
    "length buf' = cap" "take (9 + 72 * length part) buf' = msg" by auto
  have len: "length msg = 9 + 72 * length part" unfolding g(3) [symmetric] using g(2) room by simp
  have "announced msg = 9 + 72 * length part"
    unfolding msg_def using room o by (intro announced_page) linarith
  then have fair: "fair_message cap msg" using len room by (simp add: fair_message_def)
  have b: "get_bytes buf' 0 (9 + 72 * length part) = Inr msg" using g room by (simp add: get_bytes_def)
  have m: "malloc_ptr w cap = Some ?buf" using on by (simp add: malloc_ptr_def runs_on_def)
  from write_free_box [OF free fair] obtain r c where
    wr: "comm_write ops mo msg d = Inr (r, d \<lparr> mComm := Some c, dWrites := dWrites d @ [(mo, msg)] \<rparr>)"
    "free_box mem mo cap agrees (d \<lparr> mComm := Some c, dWrites := dWrites d @ [(mo, msg)] \<rparr>)" by blast
  from on have on': "w_ops w = ops" "messageOffset v = mo" "messageMaxSize v = cap" by (simp_all add: runs_on_def)
  have "write_page w v s = Inr (s \<lparr> s_daemon := next_page (word_of_nat (page_number cap S))
          (d \<lparr> mComm := Some c, dWrites := dWrites d @ [(mo, msg)] \<rparr>),
        s_node := (s_node s) \<lparr> mSensors := (S \<lparr> mKnownGroups := page_groups part h (mKnownGroups S) \<rparr>, h) \<rparr> \<rparr>)"
    unfolding write_page_def on' st m k(1) ptr_bytes_def option.case g(1) bind_res.simps prod.case b
      d_def [symmetric] wr(1) by simp
  with wr(2) show ?thesis by blast
qed

text \<open>From page \<open>k\<close> of the description to the data.\<close>

lemma pages_free:
  assumes on: "runs_on ops mo cap w v"
  shows "free_box mem mo cap agrees (s_daemon s) \<Longrightarrow> mSensors (s_node s) = (S, h) \<Longrightarrow> describable cap (S, h) \<Longrightarrow>
    \<not> mShutdown (s_daemon s) \<Longrightarrow> s_exitAfter s \<le> 0 \<Longrightarrow> mState (s_daemon s) = State_MonitoringDescription \<Longrightarrow>
    mCurrentPage (s_daemon s) = word_of_nat k \<Longrightarrow> 1 \<le> k \<Longrightarrow> page_number cap S = k + j \<Longrightarrow>
    \<exists>t. iterations (Suc j) w v s = Inr t \<and> mState (s_daemon t) = State_MonitoringData \<and> mCurrentPage (s_daemon t) = 1
      \<and> free_box mem mo cap agrees (s_daemon t) \<and> \<not> mShutdown (s_daemon t)
      \<and> dWrites (s_daemon t) = dWrites (s_daemon s) @ map (Pair mo) (description_messages (page_number cap S)
          (per_page cap) (mSensorMap S) h (mKnownGroups S) [k..<Suc (k + j)])"
proof (induction j arbitrary: s S k)
  case (Suc j)
  let ?g = "page_groups (page_entries (per_page cap) k (mSensorMap S)) h (mKnownGroups S)"
  have kn: "k \<le> page_number cap S" "page_number cap S < 255" "k \<noteq> page_number cap S"
    using Suc.prems(3,9) by (simp_all add: describable_def)
  from write_page_free [OF Suc.prems(1) on Suc.prems(2,3,7,8) kn(1)] obtain c msg where
    wp: "write_page w v s = Inr (s \<lparr> s_daemon := next_page (word_of_nat (page_number cap S))
          ((s_daemon s) \<lparr> mComm := Some c, dWrites := dWrites (s_daemon s) @ [(mo, msg)] \<rparr>),
        s_node := (s_node s) \<lparr> mSensors := (S \<lparr> mKnownGroups := ?g \<rparr>, h) \<rparr> \<rparr>)"
    and fb: "free_box mem mo cap agrees ((s_daemon s) \<lparr> mComm := Some c, dWrites := dWrites (s_daemon s) @ [(mo, msg)] \<rparr>)"
    and msg: "description_messages (page_number cap S) (per_page cap) (mSensorMap S) h (mKnownGroups S) (k # ps)
      = msg # description_messages (page_number cap S) (per_page cap) (mSensorMap S) h ?g ps" for ps
    by (auto simp: Let_def)
  let ?d = "(s_daemon s) \<lparr> mComm := Some c, dWrites := dWrites (s_daemon s) @ [(mo, msg)],
    mCurrentPage := word_of_nat (Suc k), mFirstWriteDone := True \<rparr>"
  let ?s1 = "s \<lparr> s_daemon := ?d, s_node := (s_node s) \<lparr> mSensors := (S \<lparr> mKnownGroups := ?g \<rparr>, h) \<rparr> \<rparr>"
  have "loop_body w v s = Inr ?s1"
    using loop_body_free [OF Suc.prems(1) on] wp Suc.prems(6,7) kn by (simp add: next_page_number)
  from iteration_plain [OF this Suc.prems(5)] have it: "iteration w v s = Inr (wait_update w v ?s1)" .
  have "\<exists>t. iterations (Suc j) w v (wait_update w v ?s1) = Inr t \<and> mState (s_daemon t) = State_MonitoringData
      \<and> mCurrentPage (s_daemon t) = 1 \<and> free_box mem mo cap agrees (s_daemon t) \<and> \<not> mShutdown (s_daemon t)
      \<and> dWrites (s_daemon t) = dWrites (s_daemon (wait_update w v ?s1)) @ map (Pair mo)
          (description_messages (page_number cap (S \<lparr> mKnownGroups := ?g \<rparr>)) (per_page cap)
            (mSensorMap (S \<lparr> mKnownGroups := ?g \<rparr>)) h (mKnownGroups (S \<lparr> mKnownGroups := ?g \<rparr>)) [Suc k..<Suc (Suc k + j)])"
    by (rule Suc.IH) (use Suc.prems fb in simp_all)
  then obtain t where t: "iterations (Suc j) w v (wait_update w v ?s1) = Inr t" "mState (s_daemon t) = State_MonitoringData"
    "mCurrentPage (s_daemon t) = 1" "free_box mem mo cap agrees (s_daemon t)" "\<not> mShutdown (s_daemon t)"
    "dWrites (s_daemon t) = dWrites (s_daemon s) @ [(mo, msg)] @ map (Pair mo)
       (description_messages (page_number cap S) (per_page cap) (mSensorMap S) h ?g [Suc k..<Suc (Suc k + j)])"
    by auto
  have "[k..<Suc (k + Suc j)] = k # [Suc k..<Suc (Suc k + j)]" by (simp add: upt_conv_Cons)
  with t it Suc.prems(4) msg show ?case by (intro exI [of _ t]) simp
next
  case 0
  let ?g = "page_groups (page_entries (per_page cap) k (mSensorMap S)) h (mKnownGroups S)"
  have kn: "k = page_number cap S" "k \<le> page_number cap S" "page_number cap S < 255"
    using 0(3,9) by (simp_all add: describable_def)
  from write_page_free [OF 0(1) on 0(2,3,7,8) kn(2)] obtain c msg where
    wp: "write_page w v s = Inr (s \<lparr> s_daemon := next_page (word_of_nat (page_number cap S))
          ((s_daemon s) \<lparr> mComm := Some c, dWrites := dWrites (s_daemon s) @ [(mo, msg)] \<rparr>),
        s_node := (s_node s) \<lparr> mSensors := (S \<lparr> mKnownGroups := ?g \<rparr>, h) \<rparr> \<rparr>)"
    and fb: "free_box mem mo cap agrees ((s_daemon s) \<lparr> mComm := Some c, dWrites := dWrites (s_daemon s) @ [(mo, msg)] \<rparr>)"
    and msg: "description_messages (page_number cap S) (per_page cap) (mSensorMap S) h (mKnownGroups S) [k] = [msg]"
    by (auto simp: Let_def)
  have np: "next_page (word_of_nat (page_number cap S))
      ((s_daemon s) \<lparr> mComm := Some c, dWrites := dWrites (s_daemon s) @ [(mo, msg)] \<rparr>)
    = (s_daemon s) \<lparr> mComm := Some c, dWrites := dWrites (s_daemon s) @ [(mo, msg)],
        mCurrentPage := 1, mState := State_MonitoringData \<rparr>"
    using 0(7) kn by (subst next_page_number [of k]) simp_all
  let ?d = "(s_daemon s) \<lparr> mComm := Some c, dWrites := dWrites (s_daemon s) @ [(mo, msg)],
    mCurrentPage := 1, mState := State_MonitoringData, mFirstWriteDone := True \<rparr>"
  let ?s1 = "s \<lparr> s_daemon := ?d, s_node := (s_node s) \<lparr> mSensors := (S \<lparr> mKnownGroups := ?g \<rparr>, h) \<rparr> \<rparr>"
  have "loop_body w v s = Inr ?s1"
    using loop_body_free [OF 0(1) on] wp 0(6) by (simp add: np)
  from iteration_plain [OF this 0(5)] have it: "iteration w v s = Inr (wait_update w v ?s1)" .
  show ?case
    using it 0(4) fb msg by (intro exI [of _ "wait_update w v ?s1"]) simp
qed

text \<open>From the start of the state machine: information, pages, data.\<close>

lemma announcements_free:
  assumes on: "runs_on ops mo cap w v" and free: "free_box mem mo cap agrees (s_daemon s)"
    and st: "mSensors (s_node s) = (S, h)" "describable cap (S, h)"
    and d: "\<not> mShutdown (s_daemon s)" "s_exitAfter s \<le> 0" "mState (s_daemon s) = State_BasicInformation"
      "mCurrentPage (s_daemon s) = 1"
  shows "\<exists>t. iterations (1 + page_number cap S) w v s = Inr t \<and> mState (s_daemon t) = State_MonitoringData
      \<and> mCurrentPage (s_daemon t) = 1 \<and> free_box mem mo cap agrees (s_daemon t) \<and> \<not> mShutdown (s_daemon t)
      \<and> dWrites (s_daemon t) = dWrites (s_daemon s) @ map (Pair mo) (information_message w cap
          # description_messages (page_number cap S) (per_page cap) (mSensorMap S) h (mKnownGroups S)
              [1..<Suc (page_number cap S)])"
proof -
  let ?i = "information_message w cap"
  from write_information_free [OF free on] obtain c where
    wi: "write_information w v s = Inr (s \<lparr> s_daemon := (s_daemon s) \<lparr> mComm := Some c,
      dWrites := dWrites (s_daemon s) @ [(mo, ?i)], mState := State_MonitoringDescription \<rparr> \<rparr>)"
    and fb: "free_box mem mo cap agrees ((s_daemon s) \<lparr> mComm := Some c, dWrites := dWrites (s_daemon s) @ [(mo, ?i)] \<rparr>)" by blast
  let ?s1 = "s \<lparr> s_daemon := (s_daemon s) \<lparr> mComm := Some c, dWrites := dWrites (s_daemon s) @ [(mo, ?i)],
      mState := State_MonitoringDescription, mFirstWriteDone := True \<rparr> \<rparr>"
  have "loop_body w v s = Inr ?s1" using loop_body_free [OF free on] wi d(3) by simp
  from iteration_plain [OF this d(2)] have it: "iteration w v s = Inr (wait_update w v ?s1)" .
  have one: "1 \<le> page_number cap S" by (simp add: page_number_def pages_needed_def)
  then have n: "page_number cap S = 1 + (page_number cap S - 1)" "Suc (page_number cap S - 1) = page_number cap S" by simp_all
  have "\<exists>t. iterations (Suc (page_number cap S - 1)) w v (wait_update w v ?s1) = Inr t
      \<and> mState (s_daemon t) = State_MonitoringData \<and> mCurrentPage (s_daemon t) = 1
      \<and> free_box mem mo cap agrees (s_daemon t) \<and> \<not> mShutdown (s_daemon t)
      \<and> dWrites (s_daemon t) = dWrites (s_daemon (wait_update w v ?s1)) @ map (Pair mo) (description_messages
          (page_number cap S) (per_page cap) (mSensorMap S) h (mKnownGroups S) [1..<Suc (1 + (page_number cap S - 1))])"
    by (rule pages_free [OF on, where k = 1]) (use fb st d n in simp_all)
  then show ?thesis using it d(1) n by auto
qed

end

end
