(* ===== verification/Program_Entry.thy ===== *)
theory Program_Entry
  imports Daemon_Start
begin

text \<open>
  The program's command line (\<open>daemon/src/main.cpp\<close>).
\<close>

text \<open>The number of iterations, or \<open>None\<close> for the help text. A last argument \<open>-exitAfter\<close> moves
  the iterator to the end, and the loop's increment behind it.\<close>

fun parse_args :: "string list \<Rightarrow> int \<Rightarrow> int option res" where
  "parse_args [] exitAfter = Inr (Some exitAfter)"
| "parse_args (arg # args) exitAfter =
     (if arg = ''-h'' \<or> arg = ''--help'' then Inr None
      else if arg = ''-exitAfter'' then
        (case args of
           [] \<Rightarrow> Inl Bad_access
         | n # rest \<Rightarrow> parse_args rest
             (case istream_int int_min int_max n of (Some v, _) \<Rightarrow> v | (None, _) \<Rightarrow> exitAfter))
      else parse_args args exitAfter)"

text \<open>The value the process ends with.\<close>

definition main_program :: "('c, 'k) world \<Rightarrow> 'c factories \<Rightarrow> config \<Rightarrow> sensor_heap \<Rightarrow> string list
    \<Rightarrow> int res option" where
  "main_program w f cfg h args =
     (case parse_args args 0 of
        Inl e \<Rightarrow> Some (Inl e)
      | Inr None \<Rightarrow> Some (Inr 0)
      | Inr (Some n) \<Rightarrow> map_option (\<lambda>r. bind_res r (\<lambda>(code, _). Inr code)) (run_daemon w f cfg n h))"

end
