(* ===== verification/Daemon_Properties.thy ===== *)
theory Daemon_Properties
  imports Run_Ends Daemon_Progress Communicator_Dummy Program_Entry Sensor_Properties
begin

text \<open>
  What the daemon promises (\<open>daemon/src/Daemon.cpp\<close>, \<open>daemon/src/network/TelnetServer.cpp\<close>,
  \<open>daemon/src/main.cpp\<close>): where it writes, which commands it runs, what it announces, when it
  ends, and what its clients can do.
\<close>

section \<open>Samples\<close>

definition sample_evp :: "unit evp" where
  "sample_evp = \<lparr> d2i_RSAPublicKey = (\<lambda>_. Some ()), EVP_PKEY_assign_RSA = (\<lambda>_. 1), EVP_MD_CTX_create = True,
     EVP_DigestVerifyInit = (\<lambda>_. 1), EVP_DigestVerifyUpdate = (\<lambda>_ _. 1),
     EVP_DigestVerifyFinal = (\<lambda>_ _ sig. if sig = replicate 128 7 then 1 else 0) \<rparr>"

definition quiet_host :: host where
  "quiet_host = \<lparr> sock = -1, if_conf = None, host_name = ''node1'', system = (\<lambda>_. 0) \<rparr>"

definition sample_world :: "(dummy_comm, unit) world" where
  "sample_world = \<lparr> w_ops = dummy_ops 0, w_ssl = sample_evp, w_host = quiet_host, w_malloc = (\<lambda>_. True),
     w_clock = (\<lambda>n. (int n, 0)), w_junk = (\<lambda>_. 0), w_junk_adapter = AdapterInfo_zero, w_junk_time = (0, 0) \<rparr>"

definition sample_factories :: "dummy_comm factories" where
  "sample_factories = \<lparr> createCommunicator = (\<lambda>name. if name = ''dummy'' then Some CommunicatorDummy_ctor else None),
     createSlotDetector = (\<lambda>_. None), f_plugins = \<lparr> createSensor = (\<lambda>_. None), configureSensor = (\<lambda>_ _ p. (True, p)),
       createSensorProvider = (\<lambda>_. None), createJSONSensorProvider = (\<lambda>_. None) \<rparr>,
     f_junk_int = 0, f_junk_offset = 0 \<rparr>"

definition sample_config :: config where
  "sample_config = \<lparr> cini = \<lparr> ini_content = [\<lparr> sdata = [\<lparr> rcomments = [], rkey = ''PluginName'',
       rvalue = ''dummy'' \<rparr>], scomments = [], sname = ''Comm'' \<rparr>], gfilename = [], error_msg = None, w_flag = False \<rparr>,
     mNoSaveMode = False, mConfigChanged = False, mListeners = [], mDisableChangeListeners = False \<rparr>"

definition sample_vars :: "unit run_vars" where
  "sample_vars = \<lparr> messageOffset = 14, messageMaxSize = 1020, sensorSize = 7, updateInterval = 1000,
     v_signature = Some () \<rparr>"

definition sample_memory :: "bytes \<Rightarrow> bytes" where
  "sample_memory area = enc_Daemon_Header (dummy_header 0) @ area @ replicate (4082 - length area) 0"

text \<open>The state in which the loop begins: no sensors, the dummy communicator with \<open>area\<close> in the
  first message area.\<close>

definition sample_session :: "bytes \<Rightarrow> int \<Rightarrow> dummy_comm session" where
  "sample_session area n = \<lparr> s_daemon = Daemon_ctor \<lparr> mComm := Some \<lparr> dData = Some (sample_memory area) \<rparr> \<rparr>,
     s_node = \<lparr> mBaseboardID = 1, mNodeSlot = 0, mID = ''1-1'',
       mSensors = (sensor_set_empty \<lparr> mSize := 7, mData := replicate 7 0 \<rparr>, heap_empty),
       mNodeType = NODE_APALIS, mMonitoringDataOffset = 0 \<rparr>,
     s_exitAfter = n, s_lastLoopTime = (0, 0), s_ticks = 1, s_sleeps = 0, s_system = [] \<rparr>"

lemma dummy_header_simps: "magic (dummy_header 0) = bytes_of ''RECS''" "length (enc_Daemon_Header (dummy_header 0)) = 14"
  "maxSlots (dummy_header 0) = 4" "dh_version (dummy_header 0) = 3" "baseboardID (dummy_header 0) = 1"
  "dh_size (dummy_header 0) = 4096" "dynamicAreaOffset (dummy_header 0) = 14"
  by (simp_all add: dummy_header_def wire_simps enc_Daemon_Header_def bytes_of_def)

lemma sample_config_values:
  "GetString sample_config ''Comm'' ''PluginName'' [] = ''dummy''"
  "GetString sample_config ''Comm'' ''BaseboardPluginName'' [] = []"
  "GetString sample_config ''Slot'' ''slotPluginName'' [] = []"
  "GetInt 0 sample_config ''Slot'' ''defaultSlot'' 0 = 0"
  "GetInt 0 sample_config ''Sensors'' ''count'' 0 = 0"
  "GetString sample_config ''Plugins'' ''SensorProviders'' [] = []"
  "GetString sample_config ''Plugins'' ''JSONSensorProviders'' [] = []"
  "GetInt 0 sample_config ''Update'' ''updateInterval'' 1000 = 1000"
proof -
  have c: "c_str ''Comm'' = ''Comm''" "c_str ''PluginName'' = ''PluginName''" "c_str ''BaseboardPluginName'' = ''BaseboardPluginName''"
    "c_str ''Slot'' = ''Slot''" "c_str ''slotPluginName'' = ''slotPluginName''" "c_str ''defaultSlot'' = ''defaultSlot''"
    "c_str ''Plugins'' = ''Plugins''" "c_str ''Sensors'' = ''Sensors''" "c_str ''Update'' = ''Update''" by code_simp+
  show
    "GetString sample_config ''Comm'' ''PluginName'' [] = ''dummy''"
    "GetString sample_config ''Comm'' ''BaseboardPluginName'' [] = []"
    "GetString sample_config ''Slot'' ''slotPluginName'' [] = []"
    "GetInt 0 sample_config ''Slot'' ''defaultSlot'' 0 = 0"
    "GetInt 0 sample_config ''Sensors'' ''count'' 0 = 0"
    "GetString sample_config ''Plugins'' ''SensorProviders'' [] = []"
    "GetString sample_config ''Plugins'' ''JSONSensorProviders'' [] = []"
    "GetInt 0 sample_config ''Update'' ''updateInterval'' 1000 = 1000"
    by (simp_all add: GetInt_def GetString_def get_value_def get_record_def sample_config_def c)
qed

lemma sample_node: "start_node sample_world sample_factories sample_config n heap_empty (dummy_header 0) (14, 1020)
    (Daemon_ctor \<lparr> mComm := c \<rparr>) = Inr (Some (sample_vars, (sample_session [] n) \<lparr> s_daemon := Daemon_ctor \<lparr> mComm := c \<rparr> \<rparr>))"
proof -
  have "show_nat 1 = ''1''" by code_simp
  then have nm: "node_name (dummy_header 0) 0 = (1, ''1-1'')"
    by (simp add: node_name_def dummy_header_simps show_int_def)
  have g: "getline_split [] = []" by (simp add: getline_split.simps)
  have m: "malloc_bytes (\<lambda>_. 0) 7 = replicate 7 0" by (simp add: malloc_bytes_def numeral_eq_Suc)
  have st: "SensorSet_ctor (f_plugins sample_factories) sample_config 0 (\<lambda>_. 0) heap_empty
      = Inr (sensor_set_empty \<lparr> mSize := 7, mData := replicate 7 0 \<rparr>, heap_empty)"
    using m by (simp add: SensorSet_ctor_def sample_config_values g sensor_set_empty_def wire_simps)
  have d: "mSlot (Daemon_ctor \<lparr> mComm := c \<rparr>) = 0" by (simp add: Daemon_ctor_def)
  have f: "f_junk_int sample_factories = 0" "f_junk_offset sample_factories = 0" by (simp_all add: sample_factories_def)
  have w: "w_junk sample_world = (\<lambda>_. 0)" "w_ssl sample_world = sample_evp" "w_clock sample_world 0 = (0, 0)"
    by (simp_all add: sample_world_def)
  have sig: "Signature_ctor sample_evp = Some ()" by (simp add: Signature_ctor_def sample_evp_def)
  show ?thesis
    by (simp add: start_node_def d nm dummy_header_simps Node_ctor_def f w st sample_config_values sig
        MAX_UPDATEINTERVAL_def sample_vars_def sample_session_def resetStatemachine_def Daemon_ctor_def)
qed

lemma dummy_header_read:
  assumes "length r = 4082"
  shows "read_header sample_world (d \<lparr> mComm := Some \<lparr> dData = Some (enc_Daemon_Header (dummy_header 0) @ r) \<rparr> \<rparr>)
    = Inr (Some (dummy_header 0), d \<lparr> mComm := Some \<lparr> dData = Some (enc_Daemon_Header (dummy_header 0) @ r) \<rparr> \<rparr>)"
proof -
  let ?m = "enc_Daemon_Header (dummy_header 0) @ r" and ?c = "\<lparr> dData = Some (enc_Daemon_Header (dummy_header 0) @ r) \<rparr>"
  have "dummy_mem ?c = Some ?m" using assms by (simp add: dummy_mem_def dummy_header_simps wire_simps)
  moreover have "0 + length (malloc_bytes (\<lambda>_. 0) 14) \<le> length ?m" using assms by (simp add: dummy_header_simps)
  moreover have "malloc_bytes (\<lambda>_. 0) 14 \<noteq> []" by (simp add: malloc_bytes_def)
  ultimately obtain q where q: "q \<noteq> 0"
    "comm_read (dummy_ops 0) 0 (malloc_bytes (\<lambda>_. 0) 14) (d \<lparr> mComm := Some ?c \<rparr>) =
       Inr (q, take 14 (drop 0 ?m), d \<lparr> mComm := Some ?c \<rparr>)"
    using dummy_memory.comm_read_mem [of "d \<lparr> mComm := Some ?c \<rparr>" ?c ?m 0 "malloc_bytes (\<lambda>_. 0) 14" 0] by auto
  have "dec_Daemon_Header (take 14 ?m) = dummy_header 0"
    using dec_enc_Daemon_Header [of "dummy_header 0" "[]"] by (simp add: dummy_header_simps bytes_of_def)
  with q show ?thesis
    by (simp add: read_header_def sample_world_def wire_simps valid_magic_def dummy_header_simps)
qed

lemma sample_start: "start sample_world sample_factories sample_config n heap_empty Daemon_ctor
    = Inr (Some (sample_vars, sample_session [] n))"
proof -
  let ?h = "enc_Daemon_Header (dummy_header 0)"
  have m: "overlay (replicate MEMORY_SIZE 0) 0 ?h = sample_memory []"
    by (simp add: overlay_def sample_memory_def wire_simps dummy_header_simps)
  have i: "init_comm sample_world CommunicatorDummy_ctor Daemon_ctor = Inr (True, \<lparr> dData = Some (sample_memory []) \<rparr>, Daemon_ctor)"
    by (simp add: init_comm_def sample_world_def dummy_ops_def dummy_initInterface_def CommunicatorDummy_ctor_def m)
  have r: "read_header sample_world (d \<lparr> mComm := Some \<lparr> dData = Some (sample_memory []) \<rparr> \<rparr>)
      = Inr (Some (dummy_header 0), d \<lparr> mComm := Some \<lparr> dData = Some (sample_memory []) \<rparr> \<rparr>)" for d
    using dummy_header_read [of "replicate 4082 0" d] by (simp add: sample_memory_def)
  have mx: "comm_max_size (w_ops sample_world) (d \<lparr> mComm := Some c \<rparr>) = Inr (MEMORY_SIZE, d \<lparr> mComm := Some c \<rparr>)" for d c
    by (simp add: comm_max_size_def sample_world_def dummy_ops_def)
  have a: "message_area (dummy_header 0) 0 = (14, 1020)"
    by (simp add: message_area_def dummy_header_simps)
  have sl: "determine_slot sample_factories sample_config = Some 0"
    by (simp add: determine_slot_def sample_config_values sample_factories_def)
  have d: "(Daemon_ctor \<lparr> mComm := c \<rparr>) \<lparr> mSlot := 0 \<rparr> = Daemon_ctor \<lparr> mComm := c \<rparr>" for c :: "dummy_comm option"
    by (simp add: Daemon_ctor_def)
  have cc: "createCommunicator sample_factories ''dummy'' = Some CommunicatorDummy_ctor"
    by (simp add: sample_factories_def)
  have "start_connected sample_world sample_factories sample_config n heap_empty None
      (Daemon_ctor \<lparr> mComm := Some \<lparr> dData = Some (sample_memory []) \<rparr> \<rparr>) = Inr (Some (sample_vars, sample_session [] n))"
    by (simp add: start_connected_def mx r dummy_header_simps sl a d sample_node wire_simps) (simp add: sample_session_def)
  then show ?thesis
    by (simp add: start_def sample_config_values cc i)
qed

lemma sample_world_simps [simp]: "w_ops sample_world = dummy_ops 0" "w_ssl sample_world = sample_evp"
  "w_malloc sample_world n" "w_junk sample_world = (\<lambda>_. 0)" "w_host sample_world = quiet_host"
  "w_junk_adapter sample_world = AdapterInfo_zero"
  by (simp_all add: sample_world_def)

lemma sample_vars_simps [simp]: "messageOffset sample_vars = 14" "messageMaxSize sample_vars = 1020"
  "sensorSize sample_vars = 7" "updateInterval sample_vars = 1000" "v_signature sample_vars = Some ()"
  by (simp_all add: sample_vars_def)

lemma sample_plugins_ok: "plugins_ok (f_plugins sample_factories)" "heap_ok heap_empty"
  "\<forall>a s. hobjs heap_empty a = Some s \<longrightarrow> sensor_ok s"
  by (simp_all add: plugins_ok_def sample_factories_def heap_ok_def heap_empty_def)

section \<open>Announcing the sensors\<close>

lemma iterations_reachable: "iterations n w v s = Inr t \<Longrightarrow> reachable w v s t"
proof (induction n arbitrary: s)
  case 0
  then show ?case by (simp add: begin_loop)
next
  case (Suc n)
  show ?case
  proof (cases "mShutdown (s_daemon s)")
    case True
    with Suc.prems show ?thesis by (simp add: begin_loop)
  next
    case False
    with Suc.prems obtain s1 where i: "iteration w v s = Inr s1" "iterations n w v s1 = Inr t"
      by (auto simp: bind_res_Inr_iff)
    from reachable_step_first [OF iterate [OF False i(1)] Suc.IH [OF i(2)]] show ?thesis .
  qed
qed

text \<open>C3: when the reader of the message area takes every message, the daemon first sends the
  basic information block, then every page of the sensor description once and in order, and
  then goes over to monitoring data.\<close>

theorem announces_all_pages:
  assumes "mailbox ops mem mo cap agrees" "runs_on ops mo cap w v" "free_box mem mo cap agrees (s_daemon s)"
    and "mSensors (s_node s) = (S, h)" "describable cap (S, h)"
    and "\<not> mShutdown (s_daemon s)" "s_exitAfter s \<le> 0" "mState (s_daemon s) = State_BasicInformation"
    and "mCurrentPage (s_daemon s) = 1"
  shows "\<exists>t. iterations (1 + page_number cap S) w v s = Inr t \<and> mState (s_daemon t) = State_MonitoringData \<and>
    dWrites (s_daemon t) = dWrites (s_daemon s) @ map (Pair mo) (information_message w cap
      # description_messages (page_number cap S) (per_page cap) (mSensorMap S) h (mKnownGroups S)
          [1..<Suc (page_number cap S)])"
  using mailbox.announcements_free [OF assms] by blast

lemma sample_runs_on: "runs_on (dummy_ops 0) (dummy_slot 0) 1020 sample_world sample_vars"
  by (simp add: runs_on_def dummy_slot_def host_ok_def quiet_host_def)

lemma sample_free: "free_box dummy_mem (dummy_slot 0) 1020 (\<lambda>_ _. True) (s_daemon (sample_session [] n))"
  by (simp add: free_box_def sample_session_def dummy_mem_def sample_memory_def wire_simps mailbox_free_def
      dummy_slot_def dummy_header_simps nth_append announced_def u16_load_def htons_def)

lemma sample_session_simps [simp]:
  "mSensors (s_node (sample_session area n)) = (sensor_set_empty \<lparr> mSize := 7, mData := replicate 7 0 \<rparr>, heap_empty)"
  "\<not> mShutdown (s_daemon (sample_session area n))" "mState (s_daemon (sample_session area n)) = State_BasicInformation"
  "mCurrentPage (s_daemon (sample_session area n)) = 1" "s_exitAfter (sample_session area n) = n"
  "dWrites (s_daemon (sample_session area n)) = []" "s_system (sample_session area n) = []"
  by (simp_all add: sample_session_def Daemon_ctor_def)

lemma sample_describable:
  "describable 1020 (sensor_set_empty \<lparr> mSize := 7, mData := replicate 7 0 \<rparr>, heap_empty)"
  "page_number 1020 (sensor_set_empty \<lparr> mSize := 7, mData := replicate 7 0 \<rparr>) = 1" "per_page 1020 = 14"
  by (simp_all add: describable_def page_number_def per_page_def sensor_set_empty_def pages_needed_def)

lemma sample_messages:
  "description_messages 1 14 (mSensorMap (sensor_set_empty \<lparr> mSize := 7, mData := replicate 7 0 \<rparr>)) heap_empty
     (mKnownGroups (sensor_set_empty \<lparr> mSize := 7, mData := replicate 7 0 \<rparr>)) [1..<Suc 1] = [[1, 0, 9, 0, 1, 1, 0, 0, 0]]"
proof -
  have "enc_Monitoring_Description_Header (page_header 9 1 1 0 0) = [1, 0, 9, 0, 1, 1, 0, 0, 0]" by code_simp
  then show ?thesis by (simp add: page_entries_def sensor_set_empty_def)
qed

lemma sample_two: "1 + (1 :: nat) = 2"
  by simp

lemma sample_run:
  "\<exists>t. iterations 2 sample_world sample_vars (sample_session [] 0) = Inr t \<and>
     dWrites (s_daemon t) = [(14, information_message sample_world 1020), (14, [1, 0, 9, 0, 1, 1, 0, 0, 0])]"
proof -
  from mailbox.announcements_free [OF dummy_mailbox0.mailbox_axioms sample_runs_on sample_free sample_session_simps(1)
      sample_describable(1) sample_session_simps(2) _ sample_session_simps(3,4)]
  show ?thesis
    unfolding sample_describable(2,3) sample_two sample_messages by (fastforce simp: dummy_slot_def)
qed

theorem announces_all_pages_witness:
  "\<exists>t. iterations 2 sample_world sample_vars (sample_session [] 0) = Inr t \<and>
     mState (s_daemon t) = State_MonitoringData \<and>
     dWrites (s_daemon t) = [(14, information_message sample_world 1020), (14, [1, 0, 9, 0, 1, 1, 0, 0, 0])]"
proof -
  from announces_all_pages [OF dummy_mailbox0.mailbox_axioms sample_runs_on sample_free sample_session_simps(1)
      sample_describable(1) sample_session_simps(2) _ sample_session_simps(3,4)]
  show ?thesis
    unfolding sample_describable(2,3) sample_two sample_messages by (fastforce simp: dummy_slot_def)
qed

section \<open>Where the daemon writes\<close>

lemma Daemon_ctor_writes: "dWrites Daemon_ctor = []"
  by (simp add: Daemon_ctor_def)

text \<open>C2: from a start that succeeds, whatever the order of iterations, signals and client
  commands, everything written to the shared memory starts at the offset of the module's area
  and fits into it; the sensors stay well-formed with the size computed at the start, and the
  page counter stays between the first and the last page.\<close>

theorem writes_stay_in_area:
  assumes "start w f cfg n h Daemon_ctor = Inr (Some (v, s0))"
    and "plugins_ok (f_plugins f)" "heap_ok h" "\<forall>a x. hobjs h a = Some x \<longrightarrow> sensor_ok x"
    and "page_total v (mSensors (s_node s0)) < 255" "reachable w v s0 s"
  shows "(\<forall>(off, b) \<in> set (dWrites (s_daemon s)). off = messageOffset v \<and> length b \<le> messageMaxSize v) \<and>
    set_ok (mSensors (s_node s)) \<and> sized (mSensors (s_node s)) \<and>
    mSize (fst (mSensors (s_node s))) = sensorSize v \<and> sensorSize v \<le> messageMaxSize v \<and>
    1 \<le> mCurrentPage (s_daemon s) \<and> mCurrentPage (s_daemon s) \<le> page_total v (mSensors (s_node s))"
proof -
  from start_begun [OF assms(1) Daemon_ctor_writes assms(2-4)] have b: "area_ok v \<and> session_ok v s0"
    by (rule begun_ok) (rule assms(5))
  with reachable_ok [OF assms(6)] have "session_ok v s" by simp
  with b show ?thesis by (simp add: session_ok_def sensors_ok_def daemon_ok_def in_area_def area_ok_def)
qed

lemma sample_pages: "page_total sample_vars (mSensors (s_node (sample_session [] n))) < 255"
proof -
  have "page_count 0 k = 1" for k by (cases "k = 0") (simp_all add: page_count_def dbl_to_u8_def unat_gt_0 Let_def)
  then show ?thesis by (simp add: page_total_def sensor_set_empty_def)
qed

theorem writes_stay_in_area_witness:
  "\<exists>s. reachable sample_world sample_vars (sample_session [] 0) s \<and> length (dWrites (s_daemon s)) = 2 \<and>
    (\<forall>(off, b) \<in> set (dWrites (s_daemon s)). off = 14 \<and> length b \<le> 1020) \<and> set_ok (mSensors (s_node s))"
proof -
  obtain t where t: "iterations 2 sample_world sample_vars (sample_session [] 0) = Inr t"
    "dWrites (s_daemon t) = [(14, information_message sample_world 1020), (14, [1, 0, 9, 0, 1, 1, 0, 0, 0])]"
    using sample_run by blast
  have r: "reachable sample_world sample_vars (sample_session [] 0) t" by (rule iterations_reachable [OF t(1)])
  note k = writes_stay_in_area [OF sample_start sample_plugins_ok sample_pages r]
  have "length (dWrites (s_daemon t)) = 2" unfolding t(2) by simp
  with r k show ?thesis unfolding sample_vars_simps by blast
qed

section \<open>Commands\<close>

lemma start_system:
  assumes "start w f cfg n h d = Inr (Some (v, s))"
  shows "s_system s = [] \<and> v_signature v = Signature_ctor (w_ssl w) \<and> s_exitAfter s = n"
proof -
  have node: "start_node w f cfg n h bb area d = Inr (Some (v, s)) \<Longrightarrow>
      s_system s = [] \<and> v_signature v = Signature_ctor (w_ssl w) \<and> s_exitAfter s = n" for bb area d
    by (auto simp: start_node_def Let_def bind_res_Inr_iff split: prod.splits if_splits)
  have conn: "start_connected w f cfg n h bb d = Inr (Some (v, s)) \<Longrightarrow>
      s_system s = [] \<and> v_signature v = Signature_ctor (w_ssl w) \<and> s_exitAfter s = n" for bb d
    by (auto simp: start_connected_def Let_def bind_res_Inr_iff split: option.splits if_splits dest: node)
  from assms show ?thesis
    by (auto simp: start_def Let_def bind_res_Inr_iff split: option.splits if_splits dest: conn)
qed

lemma daemon_step_system:
  "daemon_step w v s s' \<Longrightarrow> s_system s' = s_system s \<or>
     (\<exists>data. accepted w v (s_node s) data \<and> s_system s' = s_system s @ command_lines (command_text data))"
  by (auto elim!: daemon_stepE dest: iteration_system)

text \<open>C1: every command line the daemon ever gives to the operating system is the one of a
  command message whose signature was verified with the built-in key and whose baseboard and
  slot are those of this node.\<close>

theorem only_verified_commands_run:
  assumes "start w f cfg n h Daemon_ctor = Inr (Some (v, s0))" "reachable w v s0 s" "line \<in> set (s_system s)"
  shows "\<exists>data sig key. Signature_ctor (w_ssl w) = Some key \<and> EVP_DigestVerifyFinal (w_ssl w) key data sig = 1
    \<and> data ! 0 = message_code Command \<and> data ! 4 = mBaseboardID (s_node s0) \<and> data ! 5 = mNodeSlot (s_node s0)
    \<and> line \<in> set (command_lines (command_text data))"
proof -
  have none: "s_system s0 = []" and key: "v_signature v = Signature_ctor (w_ssl w)"
    using start_system [OF assms(1)] by simp_all
  have "\<forall>line \<in> set (s_system s). \<exists>data. accepted w v (s_node s0) data \<and> line \<in> set (command_lines (command_text data))"
    using assms(2)
  proof (induction rule: reachable.induct)
    case begin_loop
    show ?case by (simp add: none)
  next
    case (next_step s s')
    have "accepted w v (s_node s) data = accepted w v (s_node s0) data" for data
      using reachable_node [OF next_step.hyps(1)] by (simp add: accepted_def)
    with daemon_step_system [OF next_step.hyps(2)] next_step.IH show ?case by auto
  qed
  with assms(3) obtain data sig where d: "verified w v data sig" "data ! 0 = message_code Command"
    "data ! 4 = mBaseboardID (s_node s0)" "data ! 5 = mNodeSlot (s_node s0)" "line \<in> set (command_lines (command_text data))"
    by (auto simp: accepted_def)
  from d(1) checkSignature_verified obtain k where "v_signature v = Some k" "EVP_DigestVerifyFinal (w_ssl w) k data sig = 1"
    unfolding verified_def by blast
  moreover from this key have "Signature_ctor (w_ssl w) = Some k" by simp
  ultimately show ?thesis using d by blast
qed

section \<open>A command on a memory\<close>

definition command_verified :: "('c, 'k) world \<Rightarrow> 'k run_vars \<Rightarrow> bytes \<Rightarrow> bool res" where
  "command_verified w v data =
     checkSignature (w_ssl w) (v_signature v) (overlay data 74 (replicate 128 0)) (take 128 (drop 74 data))"

definition parameters_length :: "bytes \<Rightarrow> nat" where
  "parameters_length data = unat (htons (u16_load (data ! 202) (data ! 203)))"

lemma strlen_command:
  assumes "204 \<le> length data"
  shows "\<exists>n. strlen_at (overlay data 74 (replicate 128 0)) 10 = Inr n \<and> n \<le> 64"
proof -
  let ?z = "overlay data 74 (replicate 128 0)"
  have len: "length ?z = length data" using assms by (simp add: length_overlay)
  have z: "drop 10 ?z ! 64 = 0" using assms len by (simp add: overlay_def nth_append)
  have "64 < length (drop 10 ?z)" using assms len by simp
  then have "drop 10 ?z ! 64 \<in> set (drop 10 ?z)" by (rule nth_mem)
  then have "0 \<in> set (drop 10 ?z)" unfolding z .
  then obtain n where n: "find_idx (\<lambda>x. x = 0) (drop 10 ?z) = Some n"
    by (cases "find_idx (\<lambda>x. x = 0) (drop 10 ?z)") auto
  then have "\<forall>j < n. drop 10 ?z ! j \<noteq> 0" by (simp add: find_idx_Some)
  with z have "n \<le> 64" by (metis not_le)
  with n show ?thesis by (simp add: strlen_at_def)
qed

lemma run_command_complete:
  assumes "204 \<le> length data" "length data \<le> messageMaxSize v"
  shows "run_command w v data = bind_res (command_verified w v data) (\<lambda>ok.
    if \<not> ok then Inr []
    else if length data - 204 < parameters_length data then Inl Bad_access
    else Inr (command_lines (command_text (overlay data 74 (replicate 128 0)))))"
proof -
  let ?z = "overlay data 74 (replicate 128 0)"
  have len: "length ?z = length data" using assms(1) by (simp add: length_overlay)
  have e: "get_bytes data 74 SIGNATURE_LENGTH = Inr (take 128 (drop 74 data))"
    "put_bytes data 74 (replicate SIGNATURE_LENGTH 0) = Inr ?z"
    using assms(1) by (simp_all add: get_bytes_def put_bytes_def wire_simps)
  obtain n where n: "strlen_at ?z 10 = Inr n" "n \<le> 64" using strlen_command [OF assms(1)] by blast
  have c: "get_bytes ?z 10 (min COMMAND_MAX_LENGTH n) = Inr (take (min COMMAND_MAX_LENGTH n) (drop 10 ?z))"
    using assms(1) len n(2) by (simp add: get_bytes_def)
  have pl: "get_bytes ?z 202 2 = Inr (take 2 (drop 202 ?z))" using assms(1) len by (simp add: get_bytes_def)
  have "?z ! 202 = data ! 202" "?z ! 203 = data ! 203" using assms(1) by (simp_all add: overlay_def nth_append)
  moreover have "drop 202 ?z ! 0 = ?z ! 202" "drop 202 ?z ! Suc 0 = ?z ! 203" using assms(1) len by simp_all
  ultimately have p: "unat (htons (u16_load (drop 202 ?z ! 0) (drop 202 ?z ! Suc 0))) = parameters_length data"
    by (simp add: parameters_length_def)
  have over: "get_bytes ?z 204 (min (parameters_length data) (min (length data) (messageMaxSize v))) =
      (if length data - 204 < parameters_length data then Inl Bad_access
       else Inr (take (parameters_length data) (drop 204 ?z)))"
    using assms len by (auto simp: get_bytes_def min_def)
  show ?thesis
  proof (cases "command_verified w v data")
    case (Inl f)
    then show ?thesis by (simp add: run_command_def e command_verified_def)
  next
    case (Inr ok)
    show ?thesis
      using n(1) c over
      by (cases ok) (simp_all add: run_command_def e Inr [unfolded command_verified_def] Inr Let_def pl p len
          sizeof_Command_Header_def executeCommand_lines command_text_take)
  qed
qed

lemma read_message:
  assumes "memory_view ops mem" "mComm d = Some c" "mem c = Some m" "4 < n" "mo + n \<le> length m" "length m < 2 ^ 64"
  shows "\<exists>r. r \<noteq> 0 \<and> comm_read_at ops ((mo + 4) mod 2 ^ 64) (malloc_bytes junk n) 4 (size_sub n 4) d
    = Inr (r, take 4 (malloc_bytes junk n) @ take (n - 4) (drop (mo + 4) m), d)"
proof -
  let ?w = "take (n - 4) (drop (mo + 4) m)"
  have o: "(mo + 4) mod 2 ^ 64 = mo + 4" using assms(4-6) by (intro mod_less) linarith
  have fit: "mo + 4 + (n - 4) \<le> length m" "0 < n - 4" using assms(4,5) by simp_all
  from memory_view.read [OF assms(1,3) fit] obtain r where
    r: "r \<noteq> 0" "readData ops (mo + 4) (n - 4) c = Inr (r, ?w, [], c)" by blast
  have l: "length ?w = n - 4" "?w \<noteq> []" using assms(4,5) by auto
  have d: "d \<lparr> mComm := Some c \<rparr> = d" using assms(2) by (cases d) simp
  have "put_bytes (malloc_bytes junk n) 4 ?w = Inr (take 4 (malloc_bytes junk n) @ ?w)"
    using l assms(4) by (simp add: put_bytes_def overlay_def)
  with r l d assms(2,4) show ?thesis unfolding o by (auto simp: comm_read_at_def)
qed

lemma command_outcome:
  assumes "memory_view (w_ops w) mem" "mComm (s_daemon s) = Some c" "mem c = Some m" "length m < 2 ^ 64"
    and "n = announced (drop (messageOffset v) m)" "204 \<le> n" "n \<le> messageMaxSize v"
    and "messageOffset v + n \<le> length m" "m ! messageOffset v = message_code Command" "w_malloc w n"
    and "data = take n (drop (messageOffset v) m)" "command_verified w v data = Inr ok"
  shows "loop_body w v s =
    (let mine = (data ! 4 = mBaseboardID (s_node s) \<and> data ! 5 = mNodeSlot (s_node s)) in
     if mine \<and> ok \<and> n - 204 < parameters_length data then Inl Bad_access
     else bind_res (comm_write (w_ops w) (messageOffset v) [0] (s_daemon s)) (\<lambda>(_, d).
       Inr (s \<lparr> s_daemon := d, s_system := s_system s @
         (if mine \<and> ok then command_lines (command_text (overlay data 74 (replicate 128 0))) else []) \<rparr>)))"
proof -
  let ?mo = "messageOffset v" and ?hd = "take 4 (drop (messageOffset v) m)"
  have ne: "malloc_bytes (w_junk w) 4 \<noteq> []" by (simp add: malloc_bytes_def)
  have fit: "?mo + length (malloc_bytes (w_junk w) 4) \<le> length m" using assms(6,8) by simp
  from memory_view.comm_read_mem [OF assms(1-3) fit ne] obtain q where
    q: "q \<noteq> 0" "comm_read (w_ops w) ?mo (malloc_bytes (w_junk w) 4) (s_daemon s) = Inr (q, ?hd, s_daemon s)" by auto
  have len: "length data = n" "length ?hd = 4" using assms(6,8,11) by simp_all
  have ty: "mh_type (dec_Message_Header ?hd) = message_code Command"
    using assms(6,8,9) by (simp add: dec_Message_Header_def)
  have sz: "unat (htons (mh_size (dec_Message_Header ?hd))) = n"
    using assms(5) by (simp add: dec_Message_Header_def announced_def)
  have four: "4 < n" using assms(6) by simp
  from read_message [OF assms(1-3) four assms(8,4), of "w_junk w"] obtain r where
    r: "r \<noteq> 0" "comm_read_at (w_ops w) ((?mo + 4) mod 2 ^ 64) (malloc_bytes (w_junk w) n) 4 (size_sub n 4) (s_daemon s)
      = Inr (r, take 4 (malloc_bytes (w_junk w) n) @ take (n - 4) (drop (?mo + 4) m), s_daemon s)" by blast
  have "?hd @ take (n - 4) (drop (?mo + 4) m) = data"
    using take_add [of 4 "n - 4" "drop ?mo m"] four assms(11) by (simp add: add.commute)
  then have p: "put_bytes (take 4 (malloc_bytes (w_junk w) n) @ take (n - 4) (drop (?mo + 4) m)) 0 ?hd = Inr data"
    using len four by (simp add: put_bytes_def overlay_def)
  have a: "addressed (s_node s) data = Inr (data ! 4 = mBaseboardID (s_node s) \<and> data ! 5 = mNodeSlot (s_node s))"
    using len assms(6) by (simp add: addressed_def get_byte_def)
  have run: "run_command w v data = (if \<not> ok then Inr []
    else if n - 204 < parameters_length data then Inl Bad_access
    else Inr (command_lines (command_text (overlay data 74 (replicate 128 0)))))"
    using run_command_complete [of data v w] len assms(6,7,12) by simp
  have m: "malloc_ptr w n = Some (malloc_bytes (w_junk w) n)" using assms(10) by (simp add: malloc_ptr_def)
  have h: "loop_body w v s = handle_command w v ?hd n s"
    using q ty sz assms(7) by (simp add: loop_body_def sizeof_Message_Header_def)
  show ?thesis
    unfolding h handle_command_def m option.case sizeof_Message_Header_def r(2) bind_res.simps prod.case
    using r(1) by (simp add: p a run)
qed

text \<open>C5: the effect of a complete command message in the area: if it is for this module and its
  signature is right, the command in it is run, and in every case the area is marked empty. Only a
  verified message that claims more parameters than it has makes the daemon read behind its
  copy of it.\<close>

theorem command_effect:
  assumes "memory_view (w_ops w) mem" "mComm (s_daemon s) = Some c" "mem c = Some m" "length m < 2 ^ 64"
    and "n = announced (drop (messageOffset v) m)" "204 \<le> n" "n \<le> messageMaxSize v"
    and "messageOffset v + n \<le> length m" "m ! messageOffset v = message_code Command" "w_malloc w n"
    and "data = take n (drop (messageOffset v) m)" "command_verified w v data = Inr ok"
  shows "loop_body w v s =
    (let mine = (data ! 4 = mBaseboardID (s_node s) \<and> data ! 5 = mNodeSlot (s_node s)) in
     if mine \<and> ok \<and> n - 204 < parameters_length data then Inl Bad_access
     else bind_res (comm_write (w_ops w) (messageOffset v) [0] (s_daemon s)) (\<lambda>(_, d).
       Inr (s \<lparr> s_daemon := d, s_system := s_system s @
         (if mine \<and> ok then command_lines (command_text (overlay data 74 (replicate 128 0))) else []) \<rparr>)))"
  using assms by (rule command_outcome)

definition shutdown_message :: bytes where
  "shutdown_message = [3, 0, 204, 0, 1, 0, 0, 0, 0, 0] @ bytes_of ''shutdown'' @ replicate 56 0 @ replicate 128 7 @ [0, 0]"

lemma shutdown_message_facts:
  "length shutdown_message = 204" "take 4 shutdown_message = [3, 0, 204, 0]" "shutdown_message ! 4 = 1"
  "shutdown_message ! 5 = 0" "parameters_length shutdown_message = 0"
  "take 128 (drop 74 shutdown_message) = replicate 128 7"
  "command_text (overlay shutdown_message 74 (replicate 128 0)) = ''shutdown''"
  by code_simp+

lemma sample_area:
  assumes "length area = 204"
  shows "drop 14 (sample_memory area) = area @ replicate 3878 0" "length (sample_memory area) = 4096"
    "take 204 (drop 14 (sample_memory area)) = area" "sample_memory area ! 14 = area ! 0"
    "announced (drop 14 (sample_memory area)) = announced (take 4 area)"
  using assms by (simp_all add: sample_memory_def dummy_header_simps nth_append announced_def)

lemma sample_comm [simp]: "mComm (s_daemon (sample_session area n)) = Some \<lparr> dData = Some (sample_memory area) \<rparr>"
  "mBaseboardID (s_node (sample_session area n)) = 1" "mNodeSlot (s_node (sample_session area n)) = 0"
  by (simp_all add: sample_session_def)

lemma dummy_write_some:
  assumes "mComm d = Some \<lparr> dData = Some m \<rparr>" "length m = 4096"
  shows "\<exists>r d'. comm_write (dummy_ops 0) 14 [0] d = Inr (r, d')"
  using assms by (simp add: comm_write_def dummy_ops_def dummy_writeData_def Let_def clip_def wire_simps
      get_bytes_def put_bytes_def)

lemma sample_command_holds:
  "memory_view (w_ops sample_world) dummy_mem"
  "dummy_mem \<lparr> dData = Some (sample_memory shutdown_message) \<rparr> = Some (sample_memory shutdown_message)"
  "length (sample_memory shutdown_message) < 2 ^ 64"
  "204 = announced (drop (messageOffset sample_vars) (sample_memory shutdown_message))"
  "messageOffset sample_vars + 204 \<le> length (sample_memory shutdown_message)"
  "sample_memory shutdown_message ! messageOffset sample_vars = message_code Command"
  "shutdown_message = take 204 (drop (messageOffset sample_vars) (sample_memory shutdown_message))"
  "command_verified sample_world sample_vars shutdown_message = Inr True"
proof -
  note f = shutdown_message_facts and a = sample_area [OF shutdown_message_facts(1)]
  show "memory_view (w_ops sample_world) dummy_mem" using dummy_memory.memory_view_axioms by simp
  show "dummy_mem \<lparr> dData = Some (sample_memory shutdown_message) \<rparr> = Some (sample_memory shutdown_message)"
    using a(2) by (simp add: dummy_mem_def wire_simps)
  have "announced (drop 14 (sample_memory shutdown_message)) = 204" unfolding a(5) f(2) by code_simp
  then show "204 = announced (drop (messageOffset sample_vars) (sample_memory shutdown_message))" by simp
  show "sample_memory shutdown_message ! messageOffset sample_vars = message_code Command"
    using a(4) by (simp add: shutdown_message_def)
  show "command_verified sample_world sample_vars shutdown_message = Inr True"
    by (simp add: command_verified_def f(6) checkSignature_def sample_evp_def)
qed (use sample_area [OF shutdown_message_facts(1)] in simp_all)

definition sample_shutdown :: "dummy_comm daemon \<Rightarrow> dummy_comm session" where
  "sample_shutdown d = (sample_session shutdown_message 0) \<lparr> s_daemon := d, s_system := [''shutdown -P now''] \<rparr>"

lemma sample_command_outcome:
  "\<exists>d. (let mine = (shutdown_message ! 4 = mBaseboardID (s_node (sample_session shutdown_message 0))
       \<and> shutdown_message ! 5 = mNodeSlot (s_node (sample_session shutdown_message 0))) in
     if mine \<and> True \<and> 204 - 204 < parameters_length shutdown_message then Inl Bad_access
     else bind_res (comm_write (w_ops sample_world) (messageOffset sample_vars) [0] (s_daemon (sample_session shutdown_message 0)))
       (\<lambda>(_, d). Inr ((sample_session shutdown_message 0) \<lparr> s_daemon := d, s_system := s_system (sample_session shutdown_message 0) @
         (if mine \<and> True then command_lines (command_text (overlay shutdown_message 74 (replicate 128 0))) else []) \<rparr>)))
    = Inr (sample_shutdown d)"
proof -
  obtain r d where "comm_write (dummy_ops 0) 14 [0] (s_daemon (sample_session shutdown_message 0)) = Inr (r, d)"
    using dummy_write_some [OF sample_comm(1) sample_area(2) [OF shutdown_message_facts(1)]] by blast
  with shutdown_message_facts show ?thesis
    by (intro exI [of _ d]) (simp add: command_lines_def sample_shutdown_def)
qed

theorem command_effect_witness:
  "\<exists>d. loop_body sample_world sample_vars (sample_session shutdown_message 0) = Inr (sample_shutdown d)"
proof -
  note h = sample_command_holds
  obtain d where d: "loop_body sample_world sample_vars (sample_session shutdown_message 0) = Inr (sample_shutdown d)"
    using sample_command_outcome
      command_effect [OF h(1) sample_comm(1) h(2-4) _ _ h(5,6) _ h(7,8)] by auto
  then show ?thesis ..
qed

lemma sample_iteration:
  "\<exists>s. iteration sample_world sample_vars (sample_session shutdown_message 0) = Inr s \<and> s_system s = [''shutdown -P now'']"
proof -
  note h = sample_command_holds
  obtain d where "loop_body sample_world sample_vars (sample_session shutdown_message 0) = Inr (sample_shutdown d)"
    using sample_command_outcome
      command_outcome [OF h(1) sample_comm(1) h(2-4) _ _ h(5,6) _ h(7,8)] by auto
  from iteration_plain [OF this] show ?thesis by (simp add: sample_shutdown_def)
qed

lemma sample_reachable:
  "\<exists>s. reachable sample_world sample_vars (sample_session [] 0) s \<and> s_system s = [''shutdown -P now'']"
proof -
  have "sample_session shutdown_message 0 = (sample_session [] 0) \<lparr> s_daemon :=
      (s_daemon (sample_session [] 0)) \<lparr> mComm := Some \<lparr> dData = Some (sample_memory shutdown_message) \<rparr> \<rparr> \<rparr>"
    by (simp add: sample_session_def)
  then have a: "daemon_step sample_world sample_vars (sample_session [] 0) (sample_session shutdown_message 0)"
    using environment [of "sample_session [] 0"] by simp
  obtain s where s: "iteration sample_world sample_vars (sample_session shutdown_message 0) = Inr s"
    "s_system s = [''shutdown -P now'']" using sample_iteration by blast
  have "daemon_step sample_world sample_vars (sample_session shutdown_message 0) s"
    by (rule iterate [OF sample_session_simps(2) s(1)])
  with a s(2) show ?thesis by (blast intro: reachable.intros)
qed

theorem only_verified_commands_run_witness:
  "\<exists>s data sig. reachable sample_world sample_vars (sample_session [] 0) s \<and> s_system s = [''shutdown -P now''] \<and>
     EVP_DigestVerifyFinal sample_evp () data sig = 1 \<and> data ! 4 = 1 \<and> data ! 5 = 0 \<and> command_text data = ''shutdown''"
proof -
  obtain s where s: "reachable sample_world sample_vars (sample_session [] 0) s" "s_system s = [''shutdown -P now'']"
    using sample_reachable by blast
  then have "''shutdown -P now'' \<in> set (s_system s)" by simp
  from only_verified_commands_run [OF sample_start s(1) this] obtain data sig where
    "EVP_DigestVerifyFinal sample_evp () data sig = 1" "data ! 4 = 1" "data ! 5 = 0"
    "''shutdown -P now'' \<in> set (command_lines (command_text data))" by auto
  moreover from this(4) have "command_text data = ''shutdown''" by (auto simp: command_lines_def split: if_splits)
  ultimately show ?thesis using s by blast
qed

section \<open>Waiting for the reader\<close>

lemma header_read:
  assumes "memory_view (w_ops w) mem" "mComm (s_daemon s) = Some c" "mem c = Some m" "messageOffset v + 4 \<le> length m"
  shows "\<exists>q msg. q \<noteq> 0 \<and> mh_type (dec_Message_Header msg) = m ! messageOffset v
    \<and> unat (htons (mh_size (dec_Message_Header msg))) = announced (drop (messageOffset v) m)
    \<and> comm_read (w_ops w) (messageOffset v) (malloc_bytes (w_junk w) sizeof_Message_Header) (s_daemon s) = Inr (q, msg, s_daemon s)"
proof -
  have ne: "malloc_bytes (w_junk w) 4 \<noteq> []" by (simp add: malloc_bytes_def)
  have fit: "messageOffset v + length (malloc_bytes (w_junk w) 4) \<le> length m" using assms(4) by simp
  from memory_view.comm_read_mem [OF assms(1-3) fit ne] obtain q where
    "q \<noteq> 0" "comm_read (w_ops w) (messageOffset v) (malloc_bytes (w_junk w) 4) (s_daemon s)
      = Inr (q, take 4 (drop (messageOffset v) m), s_daemon s)" by auto
  moreover have "mh_type (dec_Message_Header (take 4 (drop (messageOffset v) m))) = m ! messageOffset v"
    "unat (htons (mh_size (dec_Message_Header (take 4 (drop (messageOffset v) m))))) = announced (drop (messageOffset v) m)"
    using assms(4) by (simp_all add: dec_Message_Header_def announced_def)
  ultimately show ?thesis unfolding sizeof_Message_Header_def by blast
qed

lemma write_next_once:
  "write_next t w v s = Inr s' \<Longrightarrow> \<exists>b. dWrites (s_daemon s') = dWrites (s_daemon s) @ [(messageOffset v, b)]"
  by (cases t) (auto simp: write_information_def write_data_def write_page_def bind_res_Inr_iff next_page_def Let_def
      dest!: comm_write_keeps)

text \<open>What an iteration may change while the loop waits: the times, the counter and the shutdown flag.\<close>

definition idle :: "'c session \<Rightarrow> 'c session \<Rightarrow> bool" where
  "idle s t \<longleftrightarrow> s_node t = s_node s \<and> s_system t = s_system s \<and>
     (\<exists>b. s_daemon t = (s_daemon s) \<lparr> mShutdown := b \<rparr>)"

lemma idle_refl: "idle s s"
  unfolding idle_def by (intro conjI refl exI [of _ "mShutdown (s_daemon s)"]) simp

lemma idle_iteration: "loop_body w v s = Inr s \<Longrightarrow> \<exists>t. iteration w v s = Inr t \<and> idle s t"
  using idle_refl [of s] by (auto simp: iteration_def idle_def count_down_def Let_def)

lemma idle_iterations:
  assumes "\<And>t. idle s t \<Longrightarrow> loop_body w v t = Inr t" "idle s t"
  shows "\<exists>u. iterations n w v t = Inr u \<and> idle s u"
  using assms(2)
proof (induction n arbitrary: t)
  case (Suc n)
  show ?case
  proof (cases "mShutdown (s_daemon t)")
    case False
    from idle_iteration [OF assms(1) [OF Suc.prems]] obtain t' where t': "iteration w v t = Inr t'" "idle t t'" by blast
    with Suc.prems have "idle s t'" by (auto simp: idle_def)
    with Suc.IH False t'(1) show ?thesis by simp
  qed (use Suc.prems in auto)
qed auto

text \<open>C6: The hand-over of messages. A description, an information or a result that was not picked up holds
  the loop up, unless the state machine has not written a message yet, and so does a size larger
  than the area: however many iterations follow, they write nothing and leave the communicator,
  the state machine and the node as they are. In every other case - the area is empty, holds
  monitoring data, picked up or not, or no message was written yet - the iteration writes
  exactly one message over what is there. (The last message, behind the loop, does not wait.)\<close>

theorem pending_message_kept:
  assumes "memory_view (w_ops w) mem" "mComm (s_daemon s) = Some c" "mem c = Some m"
    and "messageOffset v + 4 \<le> length m" "m ! messageOffset v \<noteq> message_code Command"
    and "held \<longleftrightarrow> messageMaxSize v < announced (drop (messageOffset v) m) \<or> mFirstWriteDone (s_daemon s) \<and>
      m ! messageOffset v \<in> {message_code Monitoring_Description, message_code Basic_Information, message_code Command_Result}"
  shows "(held \<longrightarrow> (\<forall>n. \<exists>t. iterations n w v s = Inr t \<and> s_node t = s_node s \<and> s_system t = s_system s \<and>
      s_daemon t = (s_daemon s) \<lparr> mShutdown := mShutdown (s_daemon t) \<rparr>)) \<and>
    (\<not> held \<longrightarrow> (\<forall>t. loop_body w v s = Inr t \<longrightarrow> mFirstWriteDone (s_daemon t) \<and>
      (\<exists>b. dWrites (s_daemon t) = dWrites (s_daemon s) @ [(messageOffset v, b)])))"
proof (intro conjI impI allI)
  fix n assume wt: held
  have "loop_body w v t = Inr t" if i: "idle s t" for t
  proof -
    have t: "mComm (s_daemon t) = Some c" "mFirstWriteDone (s_daemon t) = mFirstWriteDone (s_daemon s)"
      using i assms(2) by (auto simp: idle_def)
    from header_read [OF assms(1) t(1) assms(3,4)] wt assms(5,6) t(2) show ?thesis
      by (auto simp: loop_body_def Let_def is_pending_def)
  qed
  then show "\<exists>t. iterations n w v s = Inr t \<and> s_node t = s_node s \<and> s_system t = s_system s \<and>
      s_daemon t = (s_daemon s) \<lparr> mShutdown := mShutdown (s_daemon t) \<rparr>"
    using idle_iterations [of s w v s n, OF _ idle_refl] by (auto simp: idle_def)
next
  fix t assume "\<not> held" and t: "loop_body w v s = Inr t"
  with header_read [OF assms(1-4)] assms(5,6) obtain s1 where
    s1: "write_next (mState (s_daemon s)) w v s = Inr s1" "t = s1 \<lparr> s_daemon := (s_daemon s1) \<lparr> mFirstWriteDone := True \<rparr> \<rparr>"
    by (auto simp: loop_body_def Let_def is_pending_def bind_res_Inr_iff)
  then show "mFirstWriteDone (s_daemon t)" by simp
  from write_next_once [OF s1(1)] s1(2)
  show "\<exists>b. dWrites (s_daemon t) = dWrites (s_daemon s) @ [(messageOffset v, b)]" by simp
qed

definition waiting_session :: "dummy_comm session" where
  "waiting_session = (sample_session (1 # replicate 203 0) 0) \<lparr> s_daemon :=
     (s_daemon (sample_session (1 # replicate 203 0) 0)) \<lparr> mFirstWriteDone := True \<rparr> \<rparr>"

theorem pending_message_kept_witness:
  "(\<exists>t. iterations 5 sample_world sample_vars waiting_session = Inr t \<and> s_node t = s_node waiting_session
     \<and> mComm (s_daemon t) = mComm (s_daemon waiting_session) \<and> dWrites (s_daemon t) = [])"
proof -
  let ?a = "1 # replicate 203 0" let ?m = "sample_memory (1 # replicate 203 0)"
  have len: "length ?a = 204" by simp
  note a = sample_area [OF len]
  have h: "memory_view (w_ops sample_world) dummy_mem" "mComm (s_daemon waiting_session) = Some \<lparr> dData = Some ?m \<rparr>"
    "dummy_mem \<lparr> dData = Some ?m \<rparr> = Some ?m" "messageOffset sample_vars + 4 \<le> length ?m" "?m ! messageOffset sample_vars = 1"
    "mFirstWriteDone (s_daemon waiting_session)" "dWrites (s_daemon waiting_session) = []"
    using dummy_memory.memory_view_axioms a by (simp_all add: waiting_session_def dummy_mem_def wire_simps)
  have c: "?m ! messageOffset sample_vars \<noteq> message_code Command" using h(5) by simp
  from pending_message_kept [OF h(1-4) c refl] h(5,6) obtain t where
    t: "iterations 5 sample_world sample_vars waiting_session = Inr t" "s_node t = s_node waiting_session"
      "s_daemon t = (s_daemon waiting_session) \<lparr> mShutdown := mShutdown (s_daemon t) \<rparr>" by auto
  have "mComm (s_daemon t) = mComm (s_daemon waiting_session)" "dWrites (s_daemon t) = dWrites (s_daemon waiting_session)"
    by (subst t(3), simp)+
  with t(1,2) h(7) show ?thesis by auto
qed

section \<open>The end\<close>



lemma finish_outcome:
  assumes "session_ok v s" "w_malloc w (messageMaxSize v)" "81 \<le> messageMaxSize v" "messageMaxSize v < 2 ^ 32"
    and "0 < per_page (messageMaxSize v)" "mSensors (s_node s) = (S, h0)"
  shows "\<exists>h1. (\<forall>a \<in> snd ` set (mSensorMap S). hobjs h1 a = None) \<and> finish w v s =
    bind_res (comm_write (w_ops w) (messageOffset v) [1, 0, 9, 0, 1, 1, 0, 0, 0] (s_daemon s)) (\<lambda>(_, d).
      Inr (h1, s \<lparr> s_daemon := d \<lparr> mPluginLoggers := [] \<rparr>, s_node := (s_node s) \<lparr> mSensors :=
        (S \<lparr> mSensorMap := [], mJSONSensorsParsers := [], mKnownGroups := [] \<rparr>, h1) \<rparr> \<rparr>))"
proof -
  let ?S = "S \<lparr> mSensorMap := [], mJSONSensorsParsers := [], mKnownGroups := [] \<rparr>"
  let ?n = "messageMaxSize v" let ?buf = "malloc_bytes (w_junk w) (messageMaxSize v)"
  have "set_ok (S, h0)" using assms(1,6) by (simp add: session_ok_def sensors_ok_def)
  from clear_set_total [OF this] obtain h1 where
    c: "clear_set (S, h0) = Inr (?S, h1)" "\<forall>a \<in> snd ` set (mSensorMap S). hobjs h1 a = None" by blast
  have one: "pages_needed k 0 = 1" for k by (cases k) (simp_all add: pages_needed_def)
  have "\<exists>buf'. getDescriptionPage ?buf (length ?buf) 1 (?S, h1) = Inr (9, buf', 1, ?S, h1)
     \<and> length buf' = length ?buf \<and> take 9 buf' = enc_Monitoring_Description_Header (page_header 9 1 1 0 0)"
    using getDescriptionPage_bytes [of ?buf ?S 1 h1] assms(3-5) one
    by (simp add: page_entries_def per_page_def)
  moreover have "enc_Monitoring_Description_Header (page_header 9 1 1 0 0) = [1, 0, 9, 0, 1, 1, 0, 0, 0]" by code_simp
  ultimately obtain buf' where g: "getDescriptionPage ?buf ?n 1 (?S, h1) = Inr (9, buf', 1, ?S, h1)"
    "get_bytes buf' 0 9 = Inr [1, 0, 9, 0, 1, 1, 0, 0, 0]"
    using assms(3) by (auto simp: get_bytes_def)
  have p: "malloc_ptr w ?n = Some ?buf" using assms(2) by (simp add: malloc_ptr_def)
  have n: "Node_dtor ((s_node s) \<lparr> mSensors := (?S, h1) \<rparr>) = Inr h1"
    by (simp add: Node_dtor_def SensorSet_dtor_def clear_set_def)
  have "finish w v s = bind_res (comm_write (w_ops w) (messageOffset v) [1, 0, 9, 0, 1, 1, 0, 0, 0] (s_daemon s)) (\<lambda>(_, d).
      Inr (h1, s \<lparr> s_daemon := d \<lparr> mPluginLoggers := [] \<rparr>, s_node := (s_node s) \<lparr> mSensors := (?S, h1) \<rparr> \<rparr>))"
    unfolding finish_def assms(6) c(1) bind_res.simps p ptr_bytes_def option.case g prod.case n ..
  with c(2) show ?thesis by blast
qed

text \<open>C22: when the loop has ended, the last message in the area is an empty description, and
  every sensor has been freed.\<close>

theorem last_message_is_empty:
  assumes "finish w v s = Inr (h, s')" "session_ok v s" "w_malloc w (messageMaxSize v)"
    and "81 \<le> messageMaxSize v" "messageMaxSize v < 2 ^ 32" "0 < per_page (messageMaxSize v)"
  shows "dWrites (s_daemon s') = dWrites (s_daemon s) @ [(messageOffset v, [1, 0, 9, 0, 1, 1, 0, 0, 0])]
    \<and> mSensorMap (fst (mSensors (s_node s'))) = []
    \<and> (\<forall>a \<in> snd ` set (mSensorMap (fst (mSensors (s_node s)))). hobjs h a = None)"
proof -
  obtain S h0 where st: "mSensors (s_node s) = (S, h0)" by force
  obtain h1 where f: "\<forall>a \<in> snd ` set (mSensorMap S). hobjs h1 a = None" "finish w v s =
    bind_res (comm_write (w_ops w) (messageOffset v) [1, 0, 9, 0, 1, 1, 0, 0, 0] (s_daemon s)) (\<lambda>(_, d).
      Inr (h1, s \<lparr> s_daemon := d \<lparr> mPluginLoggers := [] \<rparr>, s_node := (s_node s) \<lparr> mSensors :=
        (S \<lparr> mSensorMap := [], mJSONSensorsParsers := [], mKnownGroups := [] \<rparr>, h1) \<rparr> \<rparr>))"
    using finish_outcome [OF assms(2-6) st] by blast
  from assms(1) [unfolded f(2)] f(1) obtain r d where
    w: "comm_write (w_ops w) (messageOffset v) [1, 0, 9, 0, 1, 1, 0, 0, 0] (s_daemon s) = Inr (r, d)"
    and s': "s_daemon s' = d \<lparr> mPluginLoggers := [] \<rparr>" "mSensorMap (fst (mSensors (s_node s'))) = []"
      "\<forall>a \<in> snd ` set (mSensorMap S). hobjs h a = None"
    by (auto simp: bind_res_Inr_iff)
  from comm_write_keeps [OF w] s' st show ?thesis by simp
qed

lemma sample_session_ok: "session_ok sample_vars (sample_session [] n)"
proof -
  have "begun sample_world n sample_vars (sample_session [] n)"
    by (rule start_begun [OF sample_start Daemon_ctor_writes sample_plugins_ok])
  from begun_ok [OF this sample_pages] show ?thesis by simp
qed

lemma sample_finish: "\<exists>h s'. finish sample_world sample_vars (sample_session [] 0) = Inr (h, s')"
proof -
  obtain r c where w: "comm_write (dummy_ops 0) (dummy_slot 0) [1, 0, 9, 0, 1, 1, 0, 0, 0] (s_daemon (sample_session [] 0))
      = Inr (r, (s_daemon (sample_session [] 0)) \<lparr> mComm := Some c, dWrites := [(dummy_slot 0, [1, 0, 9, 0, 1, 1, 0, 0, 0])] \<rparr>)"
    using mailbox.write_free_box [OF dummy_mailbox0.mailbox_axioms sample_free [of 0], of "[1, 0, 9, 0, 1, 1, 0, 0, 0]" 0]
    by (auto simp: fair_message_def announced_def u16_load_def htons_def)
  have "w_malloc sample_world (messageMaxSize sample_vars)" by simp
  from finish_outcome [OF sample_session_ok [of 0] this _ _ _ sample_session_simps(1)] w show ?thesis
    by (auto simp: dummy_slot_def sample_describable)
qed

theorem last_message_is_empty_witness:
  "\<exists>h s'. finish sample_world sample_vars (sample_session [] 0) = Inr (h, s') \<and>
     dWrites (s_daemon s') = [(14, [1, 0, 9, 0, 1, 1, 0, 0, 0])]"
proof -
  obtain h s' where f: "finish sample_world sample_vars (sample_session [] 0) = Inr (h, s')" using sample_finish by blast
  from last_message_is_empty [OF f sample_session_ok] f show ?thesis by (simp add: sample_describable)
qed




section \<open>Pauses and message areas\<close>

text \<open>The pause behind an iteration calls \<open>usleep\<close> for at most twice the update interval, and
  ends earlier only when the interval has passed since the previous iteration.\<close>

theorem pause_bounded:
  assumes "0 \<le> updateInterval v"
  shows "s_sleeps s \<le> s_sleeps (wait_update w v s) \<and>
    100 * int (s_sleeps (wait_update w v s) - s_sleeps s) \<le> 2 * updateInterval v \<and>
    (s_sleeps (wait_update w v s) - s_sleeps s < wait_rounds (updateInterval v) \<longrightarrow>
       updateInterval v \<le> loop_time (s_lastLoopTime s) (s_lastLoopTime (wait_update w v s)))"
proof -
  obtain e t k where w: "wait_loop (w_clock w) (s_lastLoopTime s) (updateInterval v)
      (wait_rounds (updateInterval v)) (s_ticks s) (w_junk_time w) = (e, t, k)" by (metis prod_cases3)
  have "int k \<le> int (wait_rounds (updateInterval v))" using wait_loop_bound [OF w] by simp
  then have "100 * int k \<le> 2 * updateInterval v" using wait_rounds_bound [OF assms] by linarith
  moreover have "k < wait_rounds (updateInterval v) \<longrightarrow> updateInterval v \<le> loop_time (s_lastLoopTime s) e"
    using wait_loop_early [OF w] by blast
  ultimately show ?thesis by (simp add: wait_update_def w)
qed

theorem pause_bounded_witness:
  "100 * int (s_sleeps (wait_update sample_world sample_vars (sample_session [] 0)) - s_sleeps (sample_session [] 0)) \<le> 2000"
proof -
  have "0 \<le> updateInterval sample_vars" by simp
  from pause_bounded [OF this, of "sample_session [] 0" sample_world] show ?thesis
    unfolding sample_vars_simps by linarith
qed

text \<open>C23: the message areas of two slots of a baseboard do not overlap, and both lie inside the
  shared memory, behind the start of its dynamic part.\<close>

theorem message_areas_disjoint:
  assumes "1 < maxSlots hdr" "area_start hdr \<le> unat (dh_size hdr)"
    and "0 \<le> sint i" "sint i < sint j" "sint j < uint (maxSlots hdr)"
  shows "fst (message_area hdr i) + snd (message_area hdr i) \<le> fst (message_area hdr j) \<and>
    fst (message_area hdr j) + snd (message_area hdr j) \<le> unat (dh_size hdr) \<and>
    area_start hdr \<le> fst (message_area hdr i)"
  using assms by (rule areas_disjoint)

lemma sample_areas: "area_start (dummy_header 0) = 14" "area_part (dummy_header 0) = 1020"
  by (simp_all add: area_start_def area_part_def dummy_header_simps)

lemma sample_slots: "sint (1 :: 8 word) = 1" "sint (3 :: 8 word) = 3" "sint (4 :: 8 word) = 4"
  by code_simp+

theorem message_areas_disjoint_witness:
  "message_area (dummy_header 0) 1 = (1034, 1020) \<and> message_area (dummy_header 0) 3 = (3074, 1020)
   \<and> fst (message_area (dummy_header 0) 1) + snd (message_area (dummy_header 0) 1) \<le> fst (message_area (dummy_header 0) 3)"
proof -
  note a = message_area_slot [of "dummy_header 0", unfolded sample_areas]
  have "message_area (dummy_header 0) 1 = (1034, 1020)" "message_area (dummy_header 0) 3 = (3074, 1020)"
    using a [of 1] a [of 3] sample_slots by (simp_all add: dummy_header_simps)
  moreover have "fst (message_area (dummy_header 0) 1) + snd (message_area (dummy_header 0) 1) \<le> fst (message_area (dummy_header 0) 3)"
    by (rule message_areas_disjoint [THEN conjunct1]) (simp_all add: dummy_header_simps sample_areas sample_slots)
  ultimately show ?thesis by blast
qed

text \<open>A slot number that is not checked against the number of slots gives an area behind the
  last one.\<close>

theorem unchecked_slot_leaves_areas:
  assumes "1 < maxSlots hdr" "area_start hdr \<le> unat (dh_size hdr)" "uint (maxSlots hdr) \<le> sint slot"
  shows "fst (message_area hdr slot) = area_start hdr + nat (sint slot) * area_part hdr \<and>
    area_start hdr + unat (maxSlots hdr) * area_part hdr \<le> fst (message_area hdr slot)"
proof -
  have "0 \<le> uint (maxSlots hdr)" by simp
  then have nn: "0 \<le> sint slot" using assms(3) by linarith
  have "nat (uint (maxSlots hdr)) \<le> nat (sint slot)" using assms(3) by (rule nat_mono)
  then have "unat (maxSlots hdr) \<le> nat (sint slot)" by (simp only: unat_eq_nat_uint)
  then have "unat (maxSlots hdr) * area_part hdr \<le> nat (sint slot) * area_part hdr" by (rule mult_le_mono1)
  then show ?thesis by (simp add: message_area_slot [OF assms(1,2) nn])
qed

theorem unchecked_slot_leaves_areas_witness:
  "fst (message_area (dummy_header 0) 4) = 4094"
  using unchecked_slot_leaves_areas [of "dummy_header 0" 4]
  by (simp add: dummy_header_simps sample_areas sample_slots)

section \<open>The page counter\<close>

text \<open>With 255 pages the counter wraps to page 0 behind the last page, and the next
  iteration's description reads in front of the sensors.\<close>

theorem page_counter_wraps:
  assumes "mCurrentPage d = 255" "length (mSensorMap S) < 65536" "0 < sensors_per_page sz"
  shows "mCurrentPage (next_page 255 d) = 0 \<and> getDescriptionPage buffer sz (mCurrentPage (next_page 255 d)) (S, h) = Inl Bad_access"
proof -
  have p: "mCurrentPage (next_page 255 d) = 0" using assms(1) by (simp add: next_page_def)
  let ?k = "sensors_per_page sz"
  have "0 < unat ?k" "unat ?k < 256" using assms(3) u8_less [of ?k] by (simp_all add: word_less_nat_alt)
  then have k: "0 < uint ?k" "uint ?k < 256" unfolding uint_nat by linarith+
  have "(uint (0 :: u8) - 1) * uint ?k = - uint ?k" by simp
  then have "uint (starting_sensor 0 ?k) = (- uint ?k) mod 2 ^ LENGTH(16)"
    by (simp only: starting_sensor_def uint_word_of_int)
  also have "\<dots> = (- uint ?k) mod 65536" by simp
  also have "\<dots> = (65536 - uint ?k) mod 65536" by (metis diff_0 minus_mod_self1)
  also have "\<dots> = 65536 - uint ?k" using k by (intro mod_pos_pos_trivial) linarith+
  finally have "int (unat (starting_sensor 0 ?k)) + int (unat ?k) = 65536" unfolding uint_nat by linarith
  then have st: "unat (starting_sensor 0 ?k) + unat ?k = 65536" by linarith
  have last: "0 < page_count c ?k" for c using page_count_positive [of c ?k] by (auto simp only: word_le_nat_alt word_less_nat_alt unat_1 unat_0)
  show ?thesis
    unfolding p getDescriptionPage_def sensors_on_page_def prod.case Let_def if_P [OF last] bind_res.simps st
    using assms(2) by simp
qed

theorem page_counter_wraps_witness:
  "getDescriptionPage [] 1020 (mCurrentPage (next_page 255 ((Daemon_ctor :: dummy_comm daemon) \<lparr> mCurrentPage := 255 \<rparr>)))
     (sensor_set_empty, heap_empty) = Inl Bad_access"
proof -
  have "0 < sensors_per_page 1020" by (simp add: sensors_per_page_def dbl_to_u8_def wire_simps)
  moreover have "length (mSensorMap sensor_set_empty) < 65536" by (simp add: sensor_set_empty_def)
  moreover have "mCurrentPage ((Daemon_ctor :: dummy_comm daemon) \<lparr> mCurrentPage := 255 \<rparr>) = 255" by simp
  ultimately show ?thesis using page_counter_wraps by blast
qed

text \<open>A communicator that resets the state machine while it writes the first page (the TCP
  communicator does when it reconnects) makes the daemon skip that page: the machine starts again
  with the basic information, but the page counter stands at 2.\<close>

theorem reset_during_write_skips_page:
  assumes "write_page w v s = Inr s'" "mComm (s_daemon s) = Some c" "mCurrentPage (s_daemon s) = 1"
    and "\<forall>b. \<exists>r c'. writeData (w_ops w) (messageOffset v) b c = Inr (r, [(''resetStatemachine'', Null_param)], c')"
    and "1 < page_total v (mSensors (s_node s))"
  shows "mState (s_daemon s') = State_BasicInformation \<and> mCurrentPage (s_daemon s') = 2"
proof -
  obtain S h where st: "mSensors (s_node s) = (S, h)" by force
  from assms(1) st obtain size desc pages st' b r d where
    m: "getDescriptionPage (ptr_bytes (malloc_ptr w (messageMaxSize v))) (messageMaxSize v)
      (mCurrentPage (s_daemon s)) (S, h) = Inr (size, desc, pages, st')"
    and wr: "comm_write (w_ops w) (messageOffset v) b (s_daemon s) = Inr (r, d)"
    and s': "s_daemon s' = next_page pages d"
    by (auto simp: write_page_def bind_res_Inr_iff)
  have pages: "1 < pages" using getDescriptionPage_keeps [OF m] assms(5) st by (simp add: page_total_def)
  then have "\<not> pages < 2" by (simp add: word_less_nat_alt)
  obtain r' c' where "writeData (w_ops w) (messageOffset v) b c = Inr (r', [(''resetStatemachine'', Null_param)], c')"
    using assms(4) by blast
  with wr assms(2) have "mState d = State_BasicInformation" "mCurrentPage d = 1"
    by (auto simp: comm_write_def InvokeService_def)
  with s' \<open>\<not> pages < 2\<close> show ?thesis by (simp add: next_page_def)
qed

definition resetting_ops :: "dummy_comm communicator" where
  "resetting_ops = (dummy_ops 0) \<lparr> writeData := (\<lambda>off b c. Inr (0, [(''resetStatemachine'', Null_param)], c)) \<rparr>"

definition resetting_world :: "(dummy_comm, unit) world" where
  "resetting_world = sample_world \<lparr> w_ops := resetting_ops \<rparr>"

definition describing_session :: "dummy_comm session" where
  "describing_session = (sample_session [] 0) \<lparr> s_node := (s_node (sample_session [] 0)) \<lparr> mSensors := (sample_set, sample_heap) \<rparr> \<rparr>"

lemma describing_page: "\<exists>s'. write_page resetting_world (sample_vars \<lparr> messageMaxSize := 100 \<rparr>) describing_session = Inr s'"
proof -
  let ?buf = "malloc_bytes (\<lambda>_. 0) 100"
  have n: "length (mSensorMap sample_set) = 2" "pages_needed 1 2 = 2" "page_entries 1 1 (mSensorMap sample_set) = [(''fan'', 0)]"
    by (simp_all add: sample_set_def pages_needed_def page_entries_def)
  have live: "\<forall>e \<in> set (mSensorMap sample_set). live sample_heap (snd e)"
    by (simp add: sample_set_def sample_heap_def live_def)
  from getDescriptionPage_bytes [of ?buf sample_set 1 sample_heap] n live obtain buf' st' where
    g: "getDescriptionPage ?buf 100 1 (sample_set, sample_heap) = Inr (81, buf', 2, st')" "length buf' = 100" by auto
  obtain d' where w: "comm_write resetting_ops 14 (take 81 buf') (s_daemon describing_session) = Inr (0, d')"
    by (simp add: comm_write_def resetting_ops_def describing_session_def InvokeService_def)
  have d: "mCurrentPage (s_daemon describing_session) = 1" "mSensors (s_node describing_session) = (sample_set, sample_heap)"
    by (simp_all add: describing_session_def)
  show ?thesis
    by (simp add: write_page_def resetting_world_def malloc_ptr_def ptr_bytes_def d g get_bytes_def w)
qed

theorem reset_during_write_skips_page_witness:
  "\<exists>s'. write_page resetting_world (sample_vars \<lparr> messageMaxSize := 100 \<rparr>) describing_session = Inr s' \<and>
     mState (s_daemon s') = State_BasicInformation \<and> mCurrentPage (s_daemon s') = 2"
proof -
  obtain s' where r: "write_page resetting_world (sample_vars \<lparr> messageMaxSize := 100 \<rparr>) describing_session = Inr s'"
    using describing_page by blast
  have c: "mComm (s_daemon describing_session) = Some \<lparr> dData = Some (sample_memory []) \<rparr>"
    "mCurrentPage (s_daemon describing_session) = 1" by (simp_all add: describing_session_def)
  have wr: "\<forall>b. \<exists>r c'. writeData (w_ops resetting_world) (messageOffset (sample_vars \<lparr> messageMaxSize := 100 \<rparr>)) b
      \<lparr> dData = Some (sample_memory []) \<rparr> = Inr (r, [(''resetStatemachine'', Null_param)], c')"
    by (simp add: resetting_world_def resetting_ops_def)
  have "sensors_per_page 100 = 1" by (simp add: sensors_per_page_def dbl_to_u8_def wire_simps)
  then have pt: "1 < page_total (sample_vars \<lparr> messageMaxSize := 100 \<rparr>) (mSensors (s_node describing_session))"
    by (simp add: page_total_def describing_session_def sample_set_def page_count_def dbl_to_u8_def)
  from reset_during_write_skips_page [OF r c wr pt] r show ?thesis by blast
qed

section \<open>Starting\<close>

text \<open>The program ends with -1, without running the loop, when the shared memory does not begin
  with the signature of a RECS baseboard or names no slots.\<close>

theorem foreign_memory_refused:
  assumes "GetString cfg ''Comm'' ''PluginName'' [] = name" "name \<noteq> []"
    and "GetString cfg ''Comm'' ''BaseboardPluginName'' [] = []" "createCommunicator f name = Some c"
    and "initInterface (w_ops w) c = (True, [], c')" "memory_view (w_ops w) mem" "mem c' = Some m" "14 \<le> length m"
    and "take 4 m \<noteq> bytes_of ''RECS'' \<or> m ! 7 = 0"
  shows "run_daemon w f cfg n h = Some (Inr (-1, None))"
proof -
  let ?d = "Daemon_ctor \<lparr> mComm := Some c' \<rparr>" and ?hdr = "dec_Daemon_Header (take 14 m)"
  have ne: "malloc_bytes (w_junk w) 14 \<noteq> []" by (simp add: malloc_bytes_def)
  have fit: "0 + length (malloc_bytes (w_junk w) 14) \<le> length m" using assms(8) by simp
  have c: "mComm ?d = Some c'" by simp
  from memory_view.comm_read_mem [OF assms(6) c assms(7) fit ne] obtain q where
    q: "q \<noteq> 0" "comm_read (w_ops w) 0 (malloc_bytes (w_junk w) 14) ?d = Inr (q, take 14 m, ?d)" by auto
  have "magic ?hdr = take 4 m" "maxSlots ?hdr = m ! 7" using assms(8) by (simp_all add: dec_Daemon_Header_def)
  moreover obtain k where "comm_max_size (w_ops w) ?d = Inr (k, ?d)"
    using memory_view.comm_max_size_mem [OF assms(6) c assms(7)] by blast
  ultimately have "start_connected w f cfg n h None ?d = Inr None"
    using assms(9) q by (auto simp: start_connected_def read_header_def valid_magic_def wire_simps Let_def)
  then have "start w f cfg n h Daemon_ctor = Inr None"
    using assms(1-5) by (simp add: start_def init_comm_def)
  then show ?thesis by (simp add: run_daemon_def run_from_def)
qed

definition blank_ops :: "dummy_comm communicator" where
  "blank_ops = (dummy_ops 0) \<lparr> initInterface := (\<lambda>c. (True, [], \<lparr> dData = Some (replicate 4096 0) \<rparr>)) \<rparr>"

lemma blank_memory: "memory_view blank_ops dummy_mem"
  using dummy_memory.memory_view_axioms [of 0] by (simp add: memory_view_def blank_ops_def)

theorem foreign_memory_refused_witness:
  "run_daemon (sample_world \<lparr> w_ops := blank_ops \<rparr>) sample_factories sample_config 0 heap_empty = Some (Inr (-1, None))"
  by (rule foreign_memory_refused [where c = CommunicatorDummy_ctor and c' = "\<lparr> dData = Some (replicate 4096 0) \<rparr>"
        and mem = dummy_mem and m = "replicate 4096 0"])
     (simp_all add: sample_config_values blank_memory, simp_all add: sample_factories_def blank_ops_def dummy_mem_def wire_simps)

text \<open>The number behind the argument \<open>-exitAfter\<close> limits the iterations; without a number
  behind it the arguments are read past their end.\<close>

theorem exit_after_argument:
  assumes "\<forall>a \<in> set args. a \<noteq> ''-h'' \<and> a \<noteq> ''--help'' \<and> a \<noteq> ''-exitAfter''" "int_min \<le> k" "k \<le> int_max"
  shows "parse_args (args @ [''-exitAfter'', show_int k]) n = Inr (Some k) \<and>
    parse_args (args @ [''-exitAfter'']) n = Inl Bad_access"
  using assms(1)
proof (induction args arbitrary: n)
  case Nil
  show ?case using assms(2,3) by (simp add: istream_show_int)
qed simp

theorem exit_after_argument_witness:
  "parse_args [''x'', ''-exitAfter'', show_int 5] 0 = Inr (Some 5) \<and> parse_args [''x'', ''-exitAfter''] 0 = Inl Bad_access"
  using exit_after_argument [of "[''x'']" 5 0] by (simp add: int_min_def int_max_def)

section \<open>Clients\<close>

text \<open>C24: whatever a client of the command line server sends, the sensors of the node, their
  number, the size of the monitoring message, the written messages and the shutdown flag stay as
  they were: \<open>addsensors\<close> lower-cases the description and so never finds a data type in it.\<close>

theorem clients_add_no_sensors:
  assumes "client_execute ops junk input nd d = Some (Inr (out, nd', d'))"
  shows "mSensorMap (fst (mSensors nd')) = mSensorMap (fst (mSensors nd)) \<and> snd (mSensors nd') = snd (mSensors nd)
    \<and> mSize (fst (mSensors nd')) = mSize (fst (mSensors nd)) \<and> (set_ok (mSensors nd) \<longrightarrow> set_ok (mSensors nd'))
    \<and> dWrites d' = dWrites d \<and> mShutdown d' = mShutdown d"
  using client_loop_kept [OF assms [unfolded client_execute_def]] by (simp add: same_sensors_def kept_def)

lemma sample_client:
  "client_execute (dummy_ops 0) (\<lambda>_. 0) (map Byte (''exit'' @ [CHR 0x0A])) nd d
     = Some (Inr ([''Closing connection'' @ [CHR 0x0A]], nd, d))"
proof -
  have r: "readline (BUFFER_LENGTH - 1) (map Byte (''exit'' @ [CHR 0x0A])) = Some (''exit'', [])"
    by (simp add: readline_def BUFFER_LENGTH_def readline_loop.simps)
  have l: "lower (c_str ''exit'') = ''exit''" by code_simp
  have c: "command_line (dummy_ops 0) (\<lambda>_. 0) ''exit'' nd d
      = Some (Inr ([''Closing connection'' @ [CHR 0x0A]], False, nd, d))"
    by (simp add: command_line_def l)
  show ?thesis unfolding client_execute_def client_loop.simps r option.case prod.case c sum.case by simp
qed

theorem clients_add_no_sensors_witness:
  "\<exists>nd' d'. client_execute (dummy_ops 0) (\<lambda>_. 0) (map Byte (''exit'' @ [CHR 0x0A])) (s_node describing_session)
       (s_daemon describing_session) = Some (Inr ([''Closing connection'' @ [CHR 0x0A]], nd', d'))
     \<and> mSensorMap (fst (mSensors nd')) = [(''fan'', 0), (''load'', 1)]"
  using clients_add_no_sensors [OF sample_client, of "s_node describing_session" "s_daemon describing_session"]
    sample_client [of "s_node describing_session" "s_daemon describing_session"]
  by (simp add: describing_session_def sample_set_def)

text \<open>A session with a client ends: reading more lines than the stream can hold does not
  change its outcome.\<close>

theorem client_session_ends:
  "client_loop (Suc (length input) + k) ops junk input nd d = client_execute ops junk input nd d"
  unfolding client_execute_def by (rule client_loop_more_fuel) simp_all

end
