(* ===== verification/Network_Client.thy ===== *)
theory Network_Client
  imports C_Library
begin

text \<open>
  The client end of a TCP connection (\<open>plugins/CommunicatorTCP/src/NetworkClient.cpp\<close>). The
  sockets of the operating system are a parameter: the answers its calls will give, each a
  function from the number of the call, from now on. \<open>awaited\<close> drops the first answer, so a
  call that was made is not answered again.
\<close>

definition SOCKET_ERROR :: int where "SOCKET_ERROR = -1"
definition INVALID_SOCKET :: int where "INVALID_SOCKET = -1"

type_synonym 'a answers = "nat \<Rightarrow> 'a"

definition awaited :: "'a answers \<Rightarrow> 'a answers" where
  "awaited f = (\<lambda>n. f (Suc n))"

text \<open>
  The answer of \<open>send\<close> depends on how many bytes it is given. A wait for data: the result of \<open>select\<close>, whether the socket is in the set, and the bytes
  \<open>recvfrom\<close> stores (\<open>None\<close> for its \<open>-1\<close>; an end of the connection is no bytes). \<open>select\<close> is told to look at sockets below 63 only, so for
  others the result is that of a timeout.
\<close>

record wait_answer =
  select_result :: int
  is_set :: bool
  received :: "bytes option"

record network =
  sockets :: "int answers"
  connects :: "int answers"
  waits :: "wait_answer answers"
  plain_recvs :: "bytes option answers"
  sends :: "(nat \<Rightarrow> int) answers"
  outbox :: "bytes list"
  mInstanceCounter :: u32

record network_client =
  mSocket :: int
  sin_port :: u16
  s_addr :: u32

text \<open>Every \<open>send\<close> records in \<open>outbox\<close>, which no code reads, the bytes it has taken.\<close>

definition NetworkClient_ctor :: "u32 \<Rightarrow> u16 \<Rightarrow> network \<Rightarrow> network_client \<times> network" where
  "NetworkClient_ctor address port net =
     (let s = sockets net 0;
          s = (if connects net 0 = SOCKET_ERROR then INVALID_SOCKET else s)
      in (\<lparr> mSocket = s, sin_port = htons port, s_addr = htonl address \<rparr>,
          net \<lparr> sockets := awaited (sockets net), connects := awaited (connects net),
                mInstanceCounter := mInstanceCounter net + 1 \<rparr>))"

definition NetworkClient_dtor :: "network_client \<Rightarrow> network \<Rightarrow> network" where
  "NetworkClient_dtor c net = net \<lparr> mInstanceCounter := mInstanceCounter net - 1 \<rparr>"

definition isConnected :: "network_client \<Rightarrow> bool" where
  "isConnected c \<longleftrightarrow> mSocket c \<noteq> INVALID_SOCKET"

definition closeSocket :: "network_client \<Rightarrow> network_client" where
  "closeSocket c = (if mSocket c \<noteq> INVALID_SOCKET then c \<lparr> mSocket := INVALID_SOCKET \<rparr> else c)"

definition sendData :: "bytes \<Rightarrow> network_client \<Rightarrow> network \<Rightarrow> bool \<times> network" where
  "sendData dat c net =
     (let cnt = sends net 0 (length dat);
          net = net \<lparr> sends := awaited (sends net), outbox := outbox net @ [take (nat cnt) dat] \<rparr>
      in (\<not> cnt < 0, net))"

definition sendString :: "string \<Rightarrow> network_client \<Rightarrow> network \<Rightarrow> bool \<times> network" where
  "sendString dat c net = sendData (bytes_of dat) c net"

text \<open>
  The overload without a timeout converts the \<open>-1\<close> of an error to \<open>size_t\<close>. Both store at
  most \<open>maxLength\<close> bytes from the start of the buffer.
\<close>

definition receivePlain :: "nat \<Rightarrow> network_client \<Rightarrow> network \<Rightarrow> nat \<times> bytes \<times> network" where
  "receivePlain maxLength c net =
     (let net' = net \<lparr> plain_recvs := awaited (plain_recvs net) \<rparr>
      in case plain_recvs net 0 of
           None \<Rightarrow> (2 ^ 64 - 1, [], net')
         | Some w \<Rightarrow> (length (take maxLength w), take maxLength w, net'))"

definition receiveData :: "nat \<Rightarrow> network_client \<Rightarrow> network \<Rightarrow> nat \<times> bytes \<times> network" where
  "receiveData maxLength c net =
     (let a = waits net 0; net' = net \<lparr> waits := awaited (waits net) \<rparr>
      in if 0 < select_result a then
           (if is_set a then
              (case received a of
                 None \<Rightarrow> (0, [], net')
               | Some w \<Rightarrow>
                   let w = take maxLength w
                   in if 0 < length w then (length w, w, net') else (0, [], net'))
            else (0, [], net'))
         else (0, [], net'))"

definition getRemoteIP :: "network_client \<Rightarrow> u32" where
  "getRemoteIP c = htonl (s_addr c)"

definition getRemotePort :: "network_client \<Rightarrow> u16" where
  "getRemotePort c = htons (sin_port c)"

text \<open>\<open>gethostbyname\<close> is a parameter: the address in network order, or none.\<close>

definition resolveHost :: "(string \<Rightarrow> u32 option) \<Rightarrow> string \<Rightarrow> u32" where
  "resolveHost hosts host = (case hosts host of None \<Rightarrow> 0 | Some a \<Rightarrow> htonl a)"

text \<open>The addresses of this host, in network order; the last one is returned.\<close>

definition getInterfaceIP :: "string option \<Rightarrow> (string \<Rightarrow> u32 list option) \<Rightarrow> u32" where
  "getInterfaceIP hostname getaddrinfo =
     (case hostname of None \<Rightarrow> 0
      | Some ac \<Rightarrow>
          (case getaddrinfo ac of None \<Rightarrow> 0
           | Some addrs \<Rightarrow> fold (\<lambda>a _. htonl a) addrs 0))"

definition printIP :: "u32 \<Rightarrow> string" where
  "printIP ip = show_nat (unat (drop_bit 24 ip AND 255)) @ ''.'' @ show_nat (unat (drop_bit 16 ip AND 255)) @ ''.'' @
     show_nat (unat (drop_bit 8 ip AND 255)) @ ''.'' @ show_nat (unat (ip AND 255))"

section \<open>Addresses and ports\<close>

lemma u32_load_bit:
  "bit (u32_load a b c d) n \<longleftrightarrow>
     (if n < 8 then bit a n else if n < 16 then bit b (n - 8) else if n < 24 then bit c (n - 16) else bit d (n - 24))"
  unfolding u32_load_def by (auto simp: bit_simps dest: bit_imp_le_length)

lemma u32_load_bytes: "u32_load (ucast x) (ucast (drop_bit 8 x)) (ucast (drop_bit 16 x)) (ucast (drop_bit 24 x)) = x"
  by (rule bit_word_eqI) (auto simp: u32_load_bit bit_simps)

lemma u32_load_byte:
  "ucast (u32_load a b c d) = a" "ucast (drop_bit 8 (u32_load a b c d)) = b"
  "ucast (drop_bit 16 (u32_load a b c d)) = c" "ucast (drop_bit 24 (u32_load a b c d)) = d"
  by (rule bit_word_eqI, simp add: u32_load_bit bit_simps)+

lemma htonl_load: "htonl (u32_load a b c d) = u32_load d c b a"
  by (simp add: htonl_def u32_load_byte)

lemma htonl_htonl [simp]: "htonl (htonl x) = x"
  by (subst (2) htonl_def) (simp add: htonl_load u32_load_bytes)

lemma remote_of_ctor:
  "NetworkClient_ctor a p net = (c, net') \<Longrightarrow> getRemoteIP c = a \<and> getRemotePort c = p"
  by (auto simp: NetworkClient_ctor_def getRemoteIP_def getRemotePort_def Let_def)

text \<open>A receive stores as many bytes as it reports, never more than it may.\<close>

lemma receiveData_length:
  "receiveData n c net = (r, w, net') \<Longrightarrow> r = length w \<and> length w \<le> n"
  by (auto simp: receiveData_def Let_def split: if_splits option.splits)

lemma receiveData_net:
  "receiveData n c net = (r, w, net') \<Longrightarrow> net' = net \<lparr> waits := awaited (waits net) \<rparr>"
  by (auto simp: receiveData_def Let_def split: if_splits option.splits)

lemma awaited_const [simp]: "awaited (\<lambda>_. x) = (\<lambda>_. x)"
  by (simp add: awaited_def)

end
