(* ===== verification/Communicator_TCP.thy ===== *)
theory Communicator_TCP
  imports Daemon_State Config Network_Client
begin

text \<open>
  The communicator plugin for a controller reached over TCP
  (\<open>plugins/CommunicatorTCP/src/CommunicatorTCP.cpp\<close>). It keeps an image of the shared memory
  with one slot: messages the controller sends are unpacked behind the header of the image,
  and what the daemon writes there is sent as a packet. The configuration and the answer to
  \<open>getSlot\<close> do not change during a run; they are parameters of the operations.
\<close>

definition TCP_MEMORY_SIZE :: nat where [wire_simps]: "TCP_MEMORY_SIZE = 65535"
definition TCP_SLOTS :: nat where [wire_simps]: "TCP_SLOTS = 1"

record TCP_Message_Header =
  th_magic :: bytes
  th_baseboard :: u8
  th_node :: u8
  th_size :: u16

definition sizeof_TCP_Message_Header :: nat where [wire_simps]: "sizeof_TCP_Message_Header = 8"

definition enc_TCP_Message_Header :: "TCP_Message_Header \<Rightarrow> bytes" where
  "enc_TCP_Message_Header h = th_magic h @ [th_baseboard h, th_node h] @ u16_mem (th_size h)"

text \<open>
  What surrounds the plugin: the configuration, uninitialised memory, the resolver, the
  daemon's answer to the slot service (none if there is no such service), and what
  \<open>memcpy\<close> makes of a target that overlaps its source.
\<close>

record tcp_env =
  te_config :: config
  te_junk :: int
  te_reserved :: u8
  te_hosts :: "string \<Rightarrow> u32 option"
  te_slot :: "u8 option"
  te_overlap :: "bytes \<Rightarrow> nat \<Rightarrow> nat \<Rightarrow> bytes"

record tcp_comm =
  tcpBaseboardID :: u8
  mClient :: "network_client option"
  tcpData :: "bytes option"
  mReceiveBuffer :: "bytes option"
  mReceiveBufferPos :: nat
  mallocs :: "bool answers"
  net :: network

definition CommunicatorTCP_ctor :: "bool answers \<Rightarrow> network \<Rightarrow> tcp_comm" where
  "CommunicatorTCP_ctor ms n = \<lparr> tcpBaseboardID = 0, mClient = None, tcpData = None, mReceiveBuffer = None,
     mReceiveBufferPos = 0, mallocs = ms, net = n \<rparr>"

section \<open>Connection\<close>

definition delete_client :: "tcp_comm \<Rightarrow> tcp_comm" where
  "delete_client c =
     (case mClient c of
        None \<Rightarrow> c
      | Some k \<Rightarrow> c \<lparr> mClient := None, net := NetworkClient_dtor k (net c) \<rparr>)"

definition CommunicatorTCP_dtor :: "tcp_comm \<Rightarrow> tcp_comm" where
  "CommunicatorTCP_dtor c = delete_client c"

definition tryConnect :: "tcp_env \<Rightarrow> tcp_comm \<Rightarrow> bool \<times> tcp_comm" where
  "tryConnect e c =
     (let controller = GetString (te_config e) ''Comm'' ''controller'' '''' in
      if controller = [] then (False, c)
      else
        let port = GetInt (te_junk e) (te_config e) ''Comm'' ''port'' 2022;
            c = delete_client c;
            (k, n) = NetworkClient_ctor (resolveHost (te_hosts e) controller) (word_of_int port) (net c);
            c = c \<lparr> mClient := Some k, net := n \<rparr>
        in if \<not> isConnected k then (False, delete_client c) else (True, c))"

definition tcp_header :: "tcp_env \<Rightarrow> u8 \<Rightarrow> Daemon_Header" where
  "tcp_header e board = \<lparr> magic = bytes_of ''RECS'', dh_size = word_of_nat TCP_MEMORY_SIZE, baseboardID = board,
     maxSlots = word_of_nat TCP_SLOTS, dh_version = 3, dh_reserved = te_reserved e,
     chunksOffset = word_of_nat sizeof_Daemon_Header, dynamicAreaOffset = word_of_nat sizeof_Daemon_Header \<rparr>"

definition malloc_answer :: "tcp_comm \<Rightarrow> bool \<times> tcp_comm" where
  "malloc_answer c = (mallocs c 0, c \<lparr> mallocs := awaited (mallocs c) \<rparr>)"

definition tcp_initInterface :: "tcp_env \<Rightarrow> tcp_comm \<Rightarrow> bool \<times> service_call list \<times> tcp_comm" where
  "tcp_initInterface e c =
     (let c = c \<lparr> tcpBaseboardID := word_of_int (GetInt (te_junk e) (te_config e) ''Comm'' ''baseboard'' (-1)) \<rparr> in
      if sint (tcpBaseboardID c) = -1 then (False, [], c)
      else
        let (ok, c) = tryConnect e c in
        if \<not> ok then (False, [], c)
        else
          let (got, c) = malloc_answer c in
          if \<not> got then (False, [], c \<lparr> tcpData := None \<rparr>)
          else
            let c = c \<lparr> tcpData := Some (replicate TCP_MEMORY_SIZE 0) \<rparr>;
                (got, c) = malloc_answer c
            in if \<not> got then (False, [], c \<lparr> mReceiveBuffer := None \<rparr>)
               else
                 (True, [], c \<lparr> mReceiveBuffer := Some (replicate TCP_MEMORY_SIZE (word_of_int (te_junk e))),
                    tcpData := Some (overlay (replicate TCP_MEMORY_SIZE 0) 0
                                     (enc_Daemon_Header (tcp_header e (tcpBaseboardID c)))) \<rparr>))"

section \<open>Reading\<close>

definition tcp_clip :: "nat \<Rightarrow> nat \<Rightarrow> nat" where
  "tcp_clip offset count =
     (if TCP_MEMORY_SIZE < (offset + count) mod 2 ^ 64 then size_sub TCP_MEMORY_SIZE offset else count)"

text \<open>\<open>memcpy(buf, &buf[from], n)\<close> within one buffer.\<close>

definition copy_down :: "tcp_env \<Rightarrow> bytes \<Rightarrow> nat \<Rightarrow> nat \<Rightarrow> bytes res" where
  "copy_down e buf from n =
     (if n \<le> from then bind_res (get_bytes buf from n) (put_bytes buf 0)
      else if from + n \<le> length buf then Inr (te_overlap e buf from n)
      else Inl Bad_access)"

definition packet_length :: "bytes \<Rightarrow> nat" where
  "packet_length rb = unat (rb ! 6) * 256 + unat (rb ! 7)"

text \<open>A packet at the start of the receive buffer is unpacked, once it is complete.\<close>

definition take_packet :: "tcp_env \<Rightarrow> tcp_comm \<Rightarrow> tcp_comm res" where
  "take_packet e c =
     (case (tcpData c, mReceiveBuffer c) of
        (Some m, Some rb) \<Rightarrow>
          let pos = mReceiveBufferPos c; n = packet_length rb in
          if sizeof_TCP_Message_Header < pos then
            (if take 4 rb = bytes_of ''RECS'' then
               (if sizeof_TCP_Message_Header + n \<le> pos then
                  bind_res (get_bytes rb sizeof_TCP_Message_Header n) (\<lambda>w.
                  bind_res (put_bytes m sizeof_Daemon_Header w) (\<lambda>m.
                  bind_res (copy_down e rb (sizeof_TCP_Message_Header + n) (pos - (sizeof_TCP_Message_Header + n))) (\<lambda>rb.
                  Inr (c \<lparr> tcpData := Some m, mReceiveBuffer := Some rb,
                           mReceiveBufferPos := pos - (sizeof_TCP_Message_Header + n) \<rparr>))))
                else Inr c)
             else Inr (c \<lparr> mReceiveBufferPos := 0 \<rparr>))
          else Inr c
      | _ \<Rightarrow> Inl Bad_access)"

definition receive :: "tcp_env \<Rightarrow> tcp_comm \<Rightarrow> tcp_comm res" where
  "receive e c =
     (case mClient c of
        None \<Rightarrow> Inr c
      | Some k \<Rightarrow>
          let (r, w, n) = receiveData (size_sub TCP_MEMORY_SIZE (mReceiveBufferPos c)) k (net c);
              c = c \<lparr> net := n \<rparr>
          in if 0 < r then
               (case mReceiveBuffer c of
                  None \<Rightarrow> Inl Bad_access
                | Some rb \<Rightarrow>
                    bind_res (put_bytes rb (mReceiveBufferPos c) w) (\<lambda>rb.
                      take_packet e (c \<lparr> mReceiveBuffer := Some rb, mReceiveBufferPos := mReceiveBufferPos c + r \<rparr>)))
             else Inr c)"

definition tcp_readData :: "tcp_env \<Rightarrow> nat \<Rightarrow> nat \<Rightarrow> tcp_comm \<Rightarrow> (int \<times> bytes \<times> service_call list \<times> tcp_comm) res" where
  "tcp_readData e offset count c =
     (case tcpData c of
        None \<Rightarrow> Inr (-3, [], [], c)
      | Some _ \<Rightarrow>
          let n = tcp_clip offset count in
          bind_res (receive e c) (\<lambda>c.
            case tcpData c of
              None \<Rightarrow> Inl Bad_access
            | Some m \<Rightarrow> bind_res (get_bytes m offset n) (\<lambda>b. Inr (int n, b, [], c))))"

section \<open>Writing\<close>

definition message_header :: "tcp_env \<Rightarrow> tcp_comm \<Rightarrow> nat \<Rightarrow> TCP_Message_Header" where
  "message_header e c count = \<lparr> th_magic = bytes_of ''RECS'', th_baseboard = tcpBaseboardID c,
     th_node = (case te_slot e of None \<Rightarrow> 0 | Some s \<Rightarrow> s), th_size = htons (word_of_nat count) \<rparr>"

text \<open>Header and message are two calls of \<open>send\<close>; if one fails, the client is deleted.\<close>

definition send_packet :: "tcp_env \<Rightarrow> bytes \<Rightarrow> network_client \<Rightarrow> tcp_comm \<Rightarrow> tcp_comm" where
  "send_packet e msg k c =
     (let (ok, n) = sendData (enc_TCP_Message_Header (message_header e c (length msg))) k (net c);
          c = c \<lparr> net := n \<rparr>
      in if ok then
           let (ok, n) = sendData msg k (net c); c = c \<lparr> net := n \<rparr>
           in if ok then c else delete_client c
         else delete_client c)"

text \<open>The variable for the slot is not initialised; the service stores the slot in it.\<close>

definition slot_call :: "tcp_env \<Rightarrow> service_call list" where
  "slot_call e = (case te_slot e of None \<Rightarrow> [] | Some _ \<Rightarrow> [(''getSlot'', Slot_param (word_of_int (te_junk e)))])"

definition reset_call :: "tcp_env \<Rightarrow> service_call list" where
  "reset_call e = (case te_slot e of None \<Rightarrow> [] | Some _ \<Rightarrow> [(''resetStatemachine'', Null_param)])"

definition forward_message :: "tcp_env \<Rightarrow> bytes \<Rightarrow> tcp_comm \<Rightarrow> service_call list \<times> tcp_comm" where
  "forward_message e msg c =
     (case mClient c of
        Some k \<Rightarrow> (slot_call e, send_packet e msg k c)
      | None \<Rightarrow> let (ok, c) = tryConnect e c in (if ok then reset_call e else [], c))"

definition tcp_writeData :: "tcp_env \<Rightarrow> nat \<Rightarrow> bytes \<Rightarrow> tcp_comm \<Rightarrow> (int \<times> service_call list \<times> tcp_comm) res" where
  "tcp_writeData e offset b c =
     (case tcpData c of
        None \<Rightarrow> Inr (-3, [], c)
      | Some m \<Rightarrow>
          let n = tcp_clip offset (length b) in
          bind_res (get_bytes b 0 n) (\<lambda>src.
          bind_res (put_bytes m offset src) (\<lambda>m.
            if m ! sizeof_Daemon_Header \<noteq> 0 then
              let (calls, c) = forward_message e src (c \<lparr> tcpData := Some m \<rparr>)
              in Inr (int n, calls, c \<lparr> tcpData := Some (m [sizeof_Daemon_Header := 0]) \<rparr>)
            else Inr (int n, [], c \<lparr> tcpData := Some m \<rparr>))))"

definition tcp_ops :: "tcp_env \<Rightarrow> tcp_comm communicator" where
  "tcp_ops e = \<lparr> initInterface = tcp_initInterface e, getMaxDataSize = (\<lambda>c. Inr (TCP_MEMORY_SIZE, [], c)),
     readData = tcp_readData e, writeData = tcp_writeData e \<rparr>"

end
