(* ===== verification/Communicator_TCP_Facts.thy ===== *)
theory Communicator_TCP_Facts
  imports Communicator_TCP
begin

text \<open>
  What the TCP communicator keeps: the sizes of its buffers through every operation, the
  image through a read of a quiet connection, and the bytes of a packet until it is complete.
  It provides the contracts of the communicator interface while the controller is quiet.
\<close>

section \<open>Buffers\<close>

text \<open>Both buffers exist and have their size; \<open>memcpy\<close> changes no size.\<close>

definition tcp_ready :: "tcp_comm \<Rightarrow> bool" where
  "tcp_ready c \<longleftrightarrow> (\<exists>m rb. tcpData c = Some m \<and> length m = TCP_MEMORY_SIZE \<and>
     mReceiveBuffer c = Some rb \<and> length rb = TCP_MEMORY_SIZE) \<and> mReceiveBufferPos c \<le> TCP_MEMORY_SIZE"

definition keeps_length :: "tcp_env \<Rightarrow> bool" where
  "keeps_length e \<longleftrightarrow> (\<forall>buf k n. length (te_overlap e buf k n) = length buf)"

lemma tcp_readyE:
  assumes "tcp_ready c"
  obtains m rb where "tcpData c = Some m" "length m = TCP_MEMORY_SIZE" "mReceiveBuffer c = Some rb"
    "length rb = TCP_MEMORY_SIZE" "mReceiveBufferPos c \<le> TCP_MEMORY_SIZE"
  using assms by (auto simp: tcp_ready_def)

lemma tcp_ready_net [simp]:
  "tcp_ready (c \<lparr> net := n \<rparr>) = tcp_ready c" "tcp_ready (c \<lparr> mClient := k \<rparr>) = tcp_ready c"
  by (simp_all add: tcp_ready_def)

lemma tcp_ready_memory:
  "tcp_ready c \<Longrightarrow> length m = TCP_MEMORY_SIZE \<Longrightarrow> tcp_ready (c \<lparr> tcpData := Some m \<rparr>)"
  by (auto simp: tcp_ready_def)

lemma copy_down_length:
  "copy_down e buf k n = Inr buf' \<Longrightarrow> keeps_length e \<Longrightarrow> length buf' = length buf"
  by (auto simp: copy_down_def keeps_length_def bind_res_Inr_iff dest: put_bytes_InrD split: if_splits)

lemma take_packet_ready:
  assumes "take_packet e c = Inr c'" "tcp_ready c" "keeps_length e"
  shows "tcp_ready c' \<and> mClient c' = mClient c \<and> net c' = net c \<and> tcpBaseboardID c' = tcpBaseboardID c"
proof -
  from assms(2) obtain m rb where b: "tcpData c = Some m" "length m = TCP_MEMORY_SIZE" "mReceiveBuffer c = Some rb"
    "length rb = TCP_MEMORY_SIZE" "mReceiveBufferPos c \<le> TCP_MEMORY_SIZE" by (rule tcp_readyE)
  with assms show ?thesis
    by (auto simp: take_packet_def Let_def bind_res_Inr_iff tcp_ready_def
        dest!: put_bytes_InrD copy_down_length [OF _ assms(3)] split: if_splits)
qed

lemma receive_ready:
  assumes "receive e c = Inr c'" "tcp_ready c" "keeps_length e"
  shows "tcp_ready c' \<and> mClient c' = mClient c"
proof (cases "mClient c")
  case (Some k)
  obtain r w n where r: "receiveData (size_sub TCP_MEMORY_SIZE (mReceiveBufferPos c)) k (net c) = (r, w, n)"
    by (cases "receiveData (size_sub TCP_MEMORY_SIZE (mReceiveBufferPos c)) k (net c)") auto
  from assms(2) obtain m rb where b: "tcpData c = Some m" "length m = TCP_MEMORY_SIZE" "mReceiveBuffer c = Some rb"
    "length rb = TCP_MEMORY_SIZE" "mReceiveBufferPos c \<le> TCP_MEMORY_SIZE" by (rule tcp_readyE)
  show ?thesis
  proof (cases "0 < r")
    case True
    with assms(1) Some r b obtain rb' where p: "put_bytes rb (mReceiveBufferPos c) w = Inr rb'"
      and t: "take_packet e (c \<lparr> net := n, mReceiveBuffer := Some rb', mReceiveBufferPos := mReceiveBufferPos c + r \<rparr>) = Inr c'"
      by (auto simp: receive_def bind_res_Inr_iff)
    from p b have "length rb' = TCP_MEMORY_SIZE" "mReceiveBufferPos c + length w \<le> TCP_MEMORY_SIZE"
      by (auto dest: put_bytes_InrD)
    with receiveData_length [OF r] b
    have "tcp_ready (c \<lparr> net := n, mReceiveBuffer := Some rb', mReceiveBufferPos := mReceiveBufferPos c + r \<rparr>)"
      by (simp add: tcp_ready_def)
    from take_packet_ready [OF t this assms(3)] show ?thesis by simp
  next
    case False
    with assms(1,2) Some r show ?thesis by (auto simp: receive_def)
  qed
qed (use assms in \<open>auto simp: receive_def\<close>)

lemma delete_client_ready [simp]: "tcp_ready (delete_client c) = tcp_ready c"
  by (simp add: delete_client_def tcp_ready_def split: option.splits)

lemma tryConnect_ready: "tryConnect e c = (ok, c') \<Longrightarrow> tcp_ready c' = tcp_ready c"
  by (auto simp: tryConnect_def Let_def split: if_splits prod.splits)

lemma send_packet_ready [simp]: "tcp_ready (send_packet e msg k c) = tcp_ready c"
  by (simp add: send_packet_def Let_def split: prod.splits)

lemma forward_message_ready: "forward_message e msg c = (calls, c') \<Longrightarrow> tcp_ready c' = tcp_ready c"
  by (auto simp: forward_message_def dest: tryConnect_ready split: option.splits prod.splits)

lemma tcp_readData_ready:
  assumes "tcp_readData e off n c = Inr (r, b, calls, c')" "tcp_ready c" "keeps_length e"
  shows "tcp_ready c'"
  using assms receive_ready [of e c c']
  by (auto simp: tcp_readData_def Let_def bind_res_Inr_iff split: option.splits)

lemma tcp_writeData_ready:
  assumes "tcp_writeData e off b c = Inr (r, calls, c')" "tcp_ready c"
  shows "tcp_ready c'"
  using assms
  by (auto simp: tcp_writeData_def Let_def bind_res_Inr_iff tcp_ready_def [of c] tcp_ready_memory
      dest!: put_bytes_InrD split: option.splits if_splits prod.splits
      intro!: tcp_ready_memory dest!: forward_message_ready)

text \<open>A successful start gives ready buffers.\<close>

lemma tcp_initInterface_ready:
  assumes "tcp_initInterface e c = (True, calls, c')" "mReceiveBufferPos c \<le> TCP_MEMORY_SIZE"
  shows "tcp_ready c' \<and> calls = []"
proof -
  let ?b = "c \<lparr> tcpBaseboardID := word_of_int (GetInt (te_junk e) (te_config e) ''Comm'' ''baseboard'' (-1)) \<rparr>"
  obtain ok c1 where t: "tryConnect e ?b = (ok, c1)" by force
  have "mReceiveBufferPos c1 = mReceiveBufferPos c"
    using t by (auto simp: tryConnect_def delete_client_def Let_def split: if_splits prod.splits option.splits)
  with assms t show ?thesis
    by (auto simp: tcp_initInterface_def Let_def malloc_answer_def tcp_ready_def tcp_header_def wire_simps
        length_overlay split: if_splits)
qed

section \<open>A quiet controller\<close>

text \<open>
  No data will arrive: every wait times out or fails. The connection is calm if, in addition,
  sending works for ever, or no connection will be made again. Then the image is a memory that
  reads leave alone, and its only message area, behind the header, is a mailbox.
\<close>

definition no_data :: "network \<Rightarrow> bool" where
  "no_data n \<longleftrightarrow> waits n = (\<lambda>_. \<lparr> select_result = 0, is_set = False, received = None \<rparr>)"

definition no_reconnect :: "tcp_env \<Rightarrow> network \<Rightarrow> bool" where
  "no_reconnect e n \<longleftrightarrow> GetString (te_config e) ''Comm'' ''controller'' '''' = [] \<or> connects n = (\<lambda>_. SOCKET_ERROR)"

definition calm :: "tcp_env \<Rightarrow> tcp_comm \<Rightarrow> bool" where
  "calm e c \<longleftrightarrow> no_data (net c) \<and>
     (mClient c \<noteq> None \<and> (\<exists>f. sends (net c) = (\<lambda>_. f) \<and> (\<forall>n. \<not> f n < 0)) \<or> no_reconnect e (net c))"

definition tcp_mem :: "tcp_env \<Rightarrow> tcp_comm \<Rightarrow> bytes option" where
  "tcp_mem e c = (if tcp_ready c \<and> calm e c then tcpData c else None)"

lemma tcp_clip_inside: "offset + count \<le> TCP_MEMORY_SIZE \<Longrightarrow> tcp_clip offset count = count"
  by (simp add: tcp_clip_def TCP_MEMORY_SIZE_def)

lemma receive_quiet:
  assumes "no_data (net c)"
  shows "receive e c = Inr c"
proof (cases "mClient c")
  case (Some k)
  have "net c \<lparr> waits := awaited (waits (net c)) \<rparr> = net c"
    using assms by (simp add: no_data_def)
  then have "receiveData n k (net c) = (0, [], net c)" for n
    using assms by (simp add: receiveData_def Let_def no_data_def)
  with Some show ?thesis by (simp add: receive_def)
qed (simp add: receive_def)

lemma delete_client_sets:
  "mClient (delete_client c) = None" "waits (net (delete_client c)) = waits (net c)"
  "connects (net (delete_client c)) = connects (net c)" "sends (net (delete_client c)) = sends (net c)"
  "tcpData (delete_client c) = tcpData c"
  by (simp_all add: delete_client_def NetworkClient_dtor_def split: option.splits)

lemma tryConnect_never:
  assumes "no_reconnect e (net c)" "tryConnect e c = (ok, c')"
  shows "\<not> ok \<and> tcpData c' = tcpData c \<and> waits (net c') = waits (net c) \<and> no_reconnect e (net c')"
  using assms by (auto simp: tryConnect_def NetworkClient_ctor_def isConnected_def no_reconnect_def Let_def
      delete_client_sets split: if_splits)

lemma send_packet_calm:
  assumes "calm e c" "mClient c = Some k"
  shows "calm e (send_packet e msg k c) \<and> tcpData (send_packet e msg k c) = tcpData c"
  using assms
  by (auto simp: calm_def send_packet_def sendData_def no_data_def no_reconnect_def Let_def delete_client_sets)

lemma forward_message_calm:
  assumes "calm e c" "forward_message e msg c = (calls, c')"
  shows "calm e c' \<and> tcpData c' = tcpData c \<and> (\<forall>x \<in> set calls. harmless x)"
proof (cases "mClient c")
  case None
  then have n: "no_reconnect e (net c)" "no_data (net c)" using assms(1) by (auto simp: calm_def)
  obtain ok c1 where t: "tryConnect e c = (ok, c1)" by force
  from tryConnect_never [OF n(1) t] assms(2) None t n(2) show ?thesis
    by (auto simp: forward_message_def calm_def no_data_def)
next
  case (Some k)
  with assms send_packet_calm [OF assms(1) Some, of msg] show ?thesis
    by (auto simp: forward_message_def slot_call_def harmless_def split: option.splits)
qed

interpretation tcp_memory: memory_view "tcp_ops e" "tcp_mem e"
proof
  fix c m and off n :: nat
  assume m: "tcp_mem e c = Some m" "off + n \<le> length m" "0 < n"
  then have d: "tcpData c = Some m" "tcp_ready c" "no_data (net c)"
    by (auto simp: tcp_mem_def calm_def split: if_splits)
  then have l: "off + n \<le> TCP_MEMORY_SIZE" using m(2) by (auto elim: tcp_readyE)
  then have "tcp_readData e off n c = Inr (int n, take n (drop off m), [], c)"
    using m(2) d by (simp add: tcp_readData_def receive_quiet tcp_clip_inside get_bytes_ok)
  with m(3) show "\<exists>r. r \<noteq> 0 \<and> readData (tcp_ops e) off n c = Inr (r, take n (drop off m), [], c)"
    by (simp add: tcp_ops_def)
qed (simp add: tcp_ops_def)

text \<open>The message area: what is left behind the header.\<close>

definition tcp_area :: nat where
  "tcp_area = TCP_MEMORY_SIZE - sizeof_Daemon_Header"

lemma calm_memory [simp]: "calm e (c \<lparr> tcpData := m \<rparr>) = calm e c"
  by (simp add: calm_def)

lemma announced_update: "announced (drop k (m [k := x])) = announced (drop k m)" if "k + 2 < length m"
  using that by (simp add: announced_def)

lemma tcp_write_free:
  assumes c: "tcp_mem e c = Some m" and free: "mailbox_free sizeof_Daemon_Header tcp_area m"
    and b: "fair_message tcp_area b"
  shows "\<exists>r calls c' m'. writeData (tcp_ops e) sizeof_Daemon_Header b c = Inr (r, calls, c')
    \<and> (\<forall>x \<in> set calls. harmless x) \<and> tcp_mem e c' = Some m' \<and> mailbox_free sizeof_Daemon_Header tcp_area m'"
proof -
  let ?o = sizeof_Daemon_Header and ?m = "overlay m sizeof_Daemon_Header b"
  have m: "tcpData c = Some m" "tcp_ready c" "calm e c" "length m = TCP_MEMORY_SIZE"
    using c by (auto simp: tcp_mem_def elim: tcp_readyE split: if_splits)
  have lb: "?o + length b \<le> TCP_MEMORY_SIZE" using b by (auto simp: fair_message_def tcp_area_def wire_simps)
  have len: "length ?m = TCP_MEMORY_SIZE" using m lb by (simp add: length_overlay)
  have ann: "announced (drop ?o ?m) \<le> tcp_area"
  proof (cases "b = []")
    case True
    then show ?thesis using free by (simp add: overlay_def mailbox_free_def)
  next
    case False
    then have "4 \<le> length b" "announced b \<le> tcp_area" using b by (auto simp: fair_message_def)
    moreover have "drop ?o ?m = b @ drop (?o + length b) m" using m lb by (simp add: overlay_def)
    ultimately show ?thesis by (simp add: announced_def nth_append)
  qed
  have area: "4 \<le> tcp_area" "?o + tcp_area \<le> TCP_MEMORY_SIZE" "?o + 2 < TCP_MEMORY_SIZE"
    by (simp_all add: tcp_area_def wire_simps)
  have w: "writeData (tcp_ops e) ?o b c = (if ?m ! ?o \<noteq> 0 then
      let (calls, c) = forward_message e b (c \<lparr> tcpData := Some ?m \<rparr>)
      in Inr (int (length b), calls, c \<lparr> tcpData := Some (?m [?o := 0]) \<rparr>)
    else Inr (int (length b), [], c \<lparr> tcpData := Some ?m \<rparr>))"
    using m lb by (simp add: tcp_ops_def tcp_writeData_def tcp_clip_inside get_bytes_ok put_bytes_ok)
  have ready: "tcp_ready (c \<lparr> tcpData := Some ?m \<rparr>)" using m(2) len by (simp add: tcp_ready_memory)
  show ?thesis
  proof (cases "?m ! ?o = 0")
    case True
    with w ready m(3) len ann area show ?thesis by (simp add: tcp_mem_def mailbox_free_def)
  next
    case False
    obtain calls c' where f: "forward_message e b (c \<lparr> tcpData := Some ?m \<rparr>) = (calls, c')" by force
    have c': "calm e c'" "\<forall>x \<in> set calls. harmless x" "tcp_ready c'"
      using forward_message_calm [OF _ f] forward_message_ready [OF f] m(3) ready by auto
    have "tcp_mem e (c' \<lparr> tcpData := Some (?m [?o := 0]) \<rparr>) = Some (?m [?o := 0])"
      using c' len by (simp add: tcp_mem_def tcp_ready_memory)
    moreover have "mailbox_free ?o tcp_area (?m [?o := 0])"
      using ann area len by (simp add: mailbox_free_def announced_update)
    ultimately show ?thesis using w f False c'(2) by (auto split: prod.splits)
  qed
qed

interpretation tcp_mailbox: mailbox "tcp_ops e" "tcp_mem e" sizeof_Daemon_Header tcp_area "\<lambda>_ _. True"
  by unfold_locales (simp only: simp_thms, rule tcp_write_free)

text \<open>While the connection stands and every \<open>send\<close> takes all it is given, the bytes sent are those of the
  messages written so far: a header and the message for each that has a type.\<close>

definition online :: "tcp_comm \<Rightarrow> bool" where
  "online c \<longleftrightarrow> mClient c \<noteq> None \<and> sends (net c) = (\<lambda>_. int)"

definition packet_parts :: "tcp_env \<Rightarrow> u8 \<Rightarrow> bytes \<Rightarrow> bytes list" where
  "packet_parts e board msg = (if msg = [] \<or> msg ! 0 = 0 then []
     else [enc_TCP_Message_Header \<lparr> th_magic = bytes_of ''RECS'', th_baseboard = board,
             th_node = (case te_slot e of None \<Rightarrow> 0 | Some s \<Rightarrow> s), th_size = htons (word_of_nat (length msg)) \<rparr>, msg])"

definition delivered :: "tcp_env \<Rightarrow> u8 \<Rightarrow> (nat \<times> bytes) list \<Rightarrow> tcp_comm \<Rightarrow> bool" where
  "delivered e board h c \<longleftrightarrow> online c \<and> tcpBaseboardID c = board \<and>
     outbox (net c) = concat (map (packet_parts e board \<circ> snd) h)"

lemma forward_message_online:
  assumes "online c"
  shows "\<exists>c'. forward_message e msg c = (slot_call e, c') \<and> online c' \<and> tcpBaseboardID c' = tcpBaseboardID c \<and>
    tcpData c' = tcpData c \<and> outbox (net c') = outbox (net c) @ [enc_TCP_Message_Header (message_header e c (length msg)), msg]"
proof -
  from assms obtain k where k: "mClient c = Some k" "sends (net c) = (\<lambda>_. int)" by (auto simp: online_def)
  then show ?thesis
    by (auto simp: forward_message_def send_packet_def sendData_def message_header_def online_def Let_def)
qed

lemma tcp_write_online:
  assumes c: "tcpData c = Some m" "length m = TCP_MEMORY_SIZE" "m ! 14 = 0" and d: "delivered e board h c"
    and b: "14 + length b \<le> TCP_MEMORY_SIZE"
  shows "\<exists>calls c'. tcp_writeData e 14 b c = Inr (int (length b), calls, c') \<and> delivered e board (h @ [(14, b)]) c'"
proof -
  have m14: "overlay m 14 b ! 14 = (if b = [] then 0 else b ! 0)"
    using c b by (auto simp: overlay_def nth_append)
  have on: "online (c \<lparr> tcpData := Some x \<rparr>)" for x using d by (simp add: delivered_def online_def)
  from forward_message_online [OF on, of e b "overlay m 14 b"] obtain c' where
    f: "forward_message e b (c \<lparr> tcpData := Some (overlay m 14 b) \<rparr>) = (slot_call e, c')" "online c'"
      "tcpBaseboardID c' = tcpBaseboardID c"
      "outbox (net c') = outbox (net c) @ [enc_TCP_Message_Header (message_header e (c \<lparr> tcpData := Some (overlay m 14 b) \<rparr>) (length b)), b]"
    by auto
  have w: "tcp_writeData e 14 b c = (if overlay m 14 b ! 14 \<noteq> 0 then
      Inr (int (length b), slot_call e, c' \<lparr> tcpData := Some ((overlay m 14 b) [14 := 0]) \<rparr>)
    else Inr (int (length b), [], c \<lparr> tcpData := Some (overlay m 14 b) \<rparr>))"
    using c b f(1) by (simp add: tcp_writeData_def tcp_clip_inside get_bytes_ok put_bytes_ok sizeof_Daemon_Header_def)
  show ?thesis
  proof (cases "b = [] \<or> b ! 0 = 0")
    case True
    with w m14 on d show ?thesis by (auto simp: delivered_def packet_parts_def)
  next
    case False
    with w m14 f d show ?thesis
      by (simp add: delivered_def packet_parts_def message_header_def online_def)
  qed
qed

interpretation tcp_controller: mailbox "tcp_ops e" "tcp_mem e" sizeof_Daemon_Header tcp_area "delivered e board"
proof
  fix c m h and b :: bytes
  assume a: "tcp_mem e c = Some m" "mailbox_free sizeof_Daemon_Header tcp_area m" "delivered e board h c" "fair_message tcp_area b"
  then have c: "tcpData c = Some m" "length m = TCP_MEMORY_SIZE" "m ! 14 = 0" "14 + length b \<le> TCP_MEMORY_SIZE"
    by (auto simp: tcp_mem_def mailbox_free_def fair_message_def tcp_area_def wire_simps tcp_ready_def split: if_splits)
  from tcp_write_online [OF c(1-3) a(3) c(4)] tcp_write_free [OF a(1,2,4)]
  show "\<exists>r calls c' m'. writeData (tcp_ops e) sizeof_Daemon_Header b c = Inr (r, calls, c')
      \<and> (\<forall>x \<in> set calls. harmless x) \<and> tcp_mem e c' = Some m' \<and> mailbox_free sizeof_Daemon_Header tcp_area m'
      \<and> delivered e board (h @ [(sizeof_Daemon_Header, b)]) c'"
    by (auto simp: tcp_ops_def sizeof_Daemon_Header_def)
qed

section \<open>Packets in fragments\<close>

definition tcp_packet :: "u8 \<Rightarrow> u8 \<Rightarrow> bytes \<Rightarrow> bytes" where
  "tcp_packet board node msg = enc_TCP_Message_Header \<lparr> th_magic = bytes_of ''RECS'', th_baseboard = board,
     th_node = node, th_size = htons (word_of_nat (length msg)) \<rparr> @ msg"

lemma length_tcp_packet [simp]: "length (tcp_packet b n msg) = 8 + length msg"
  by (simp add: tcp_packet_def enc_TCP_Message_Header_def)

lemma tcp_packet_bytes:
  "\<exists>x y. tcp_packet b n msg = bytes_of ''RECS'' @ [b, n, x, y] @ msg \<and> [y, x] = u16_mem (word_of_nat (length msg))"
proof -
  let ?w = "word_of_nat (length msg) :: u16"
  have "u16_mem (htons ?w) = [ucast (drop_bit 8 ?w), ucast ?w]"
    unfolding u16_mem_htons by (simp add: u16_mem_def)
  then show ?thesis by (simp add: tcp_packet_def enc_TCP_Message_Header_def) (simp add: u16_mem_def)
qed

lemma u16_bytes_value: "[y, x] = u16_mem w \<Longrightarrow> unat x * 256 + unat y = unat w" for w :: u16
proof -
  assume "[y, x] = u16_mem w"
  then have yx: "y = ucast w" "x = ucast (drop_bit 8 w)" by (simp_all add: u16_mem_def)
  have w: "unat w < 65536" using unsigned_less [of w] by simp
  have "unat y = unat w mod 256" using yx by (simp add: take_bit_eq_mod unsigned_ucast_eq)
  moreover have "unat x = unat w div 256"
    using yx w by (simp add: unsigned_ucast_eq unsigned_drop_bit_eq drop_bit_eq_div take_bit_eq_mod unat_div)
  ultimately show ?thesis by simp
qed

lemma packet_header:
  assumes "length msg < 65536" "take k rb = take k (tcp_packet b n msg)" "8 \<le> k" "k \<le> 8 + length msg"
    "k \<le> length rb"
  shows "take 4 rb = bytes_of ''RECS''" "packet_length rb = length msg"
proof -
  obtain x y where p: "tcp_packet b n msg = bytes_of ''RECS'' @ [b, n, x, y] @ msg"
    "[y, x] = u16_mem (word_of_nat (length msg))" using tcp_packet_bytes by blast
  have at: "rb ! i = tcp_packet b n msg ! i" if "i < k" for i
    using arg_cong [OF assms(2), of "\<lambda>l. l ! i"] that assms(4,5) by simp
  have "take 4 rb = take 4 (take k rb)" using assms(3) by simp
  also have "\<dots> = take 4 (tcp_packet b n msg)" using assms(2,3) by (simp add: min_def)
  finally show "take 4 rb = bytes_of ''RECS''" by (simp add: p bytes_of_def)
  have "rb ! 6 = x" "rb ! 7 = y" using at [of 6] at [of 7] assms(3) by (simp_all add: p bytes_of_def)
  then show "packet_length rb = length msg"
    using u16_bytes_value [OF p(2)] assms(1) by (simp add: packet_length_def unat_of_nat take_bit_eq_mod)
qed

text \<open>A connected communicator with image \<open>m\<close> that has received \<open>got\<close> so far.\<close>

definition holding :: "tcp_comm \<Rightarrow> bytes \<Rightarrow> bytes \<Rightarrow> bool" where
  "holding c m got \<longleftrightarrow> tcp_ready c \<and> mClient c \<noteq> None \<and> tcpData c = Some m \<and> mReceiveBufferPos c = length got \<and>
     (\<forall>rb. mReceiveBuffer c = Some rb \<longrightarrow> take (length got) rb = got)"

definition arriving :: "bytes \<Rightarrow> wait_answer" where
  "arriving w = \<lparr> select_result = 1, is_set = True, received = Some w \<rparr>"

lemma overlay_prefix:
  "length got \<le> length rb \<Longrightarrow> take (length got) rb = got \<Longrightarrow> length (got @ w) \<le> length rb \<Longrightarrow>
     take (length (got @ w)) (overlay rb (length got) w) = got @ w"
  by (simp add: overlay_def)

lemma receive_fragment:
  assumes h: "holding c m got" and w: "waits (net c) 0 = arriving w" "w \<noteq> []"
    and fits: "length got + length w \<le> TCP_MEMORY_SIZE"
  shows "\<exists>c1. receive e c = take_packet e c1 \<and> holding c1 m (got @ w) \<and> waits (net c1) = awaited (waits (net c))"
proof -
  from h obtain k rb where c: "mClient c = Some k" "tcpData c = Some m" "length m = TCP_MEMORY_SIZE"
    "mReceiveBuffer c = Some rb" "length rb = TCP_MEMORY_SIZE" "mReceiveBufferPos c = length got" "take (length got) rb = got"
    by (auto simp: holding_def elim: tcp_readyE)
  let ?rb = "overlay rb (length got) w"
  let ?c1 = "c \<lparr> net := (net c) \<lparr> waits := awaited (waits (net c)) \<rparr>, mReceiveBuffer := Some ?rb,
    mReceiveBufferPos := length got + length w \<rparr>"
  have rb: "length ?rb = TCP_MEMORY_SIZE" "take (length (got @ w)) ?rb = got @ w"
    using c fits by (simp_all add: length_overlay overlay_def)
  have "length w \<le> size_sub TCP_MEMORY_SIZE (length got)" using fits by simp
  then have "receiveData (size_sub TCP_MEMORY_SIZE (length got)) k (net c)
      = (length w, w, (net c) \<lparr> waits := awaited (waits (net c)) \<rparr>)"
    using w by (simp add: receiveData_def Let_def arriving_def)
  then have "receive e c = take_packet e ?c1"
    using c fits w(2) by (simp add: receive_def put_bytes_ok)
  moreover have "holding ?c1 m (got @ w)"
    using c rb fits by (simp add: holding_def tcp_ready_def)
  ultimately show ?thesis by (intro exI [of _ ?c1]) simp
qed

lemma take_packet_incomplete:
  assumes h: "holding c m got" and p: "tcp_packet b n msg = got @ rest" "rest \<noteq> []" "length msg < 65536"
  shows "take_packet e c = Inr c"
proof (cases "8 < length got")
  case True
  from h obtain rb where c: "tcpData c = Some m" "mReceiveBuffer c = Some rb" "length rb = TCP_MEMORY_SIZE"
    "mReceiveBufferPos c = length got" "take (length got) rb = got" "length got \<le> TCP_MEMORY_SIZE"
    by (auto simp: holding_def elim: tcp_readyE)
  have l: "8 + length msg = length got + length rest" using arg_cong [OF p(1), of length] by simp
  have "take (length got) rb = take (length got) (tcp_packet b n msg)" using c(5) p(1) by simp
  from packet_header [OF p(3) this] True l c have "take 4 rb = bytes_of ''RECS''" "packet_length rb = length msg" by simp_all
  with c True l p(2) show ?thesis by (simp add: take_packet_def wire_simps)
next
  case False
  with h show ?thesis by (auto simp: take_packet_def holding_def wire_simps elim!: tcp_readyE)
qed

text \<open>A complete packet is unpacked; what follows it stays, if the copy does not overlap.\<close>

lemma packet_followed:
  assumes h: "holding c m (tcp_packet b n msg @ extra)" and l: "length msg < 65536" "msg @ extra \<noteq> []"
  shows "take_packet e c = bind_res (put_bytes m 14 msg) (\<lambda>m'.
    bind_res (copy_down e (the (mReceiveBuffer c)) (8 + length msg) (length extra)) (\<lambda>rb.
    Inr (c \<lparr> tcpData := Some m', mReceiveBuffer := Some rb, mReceiveBufferPos := length extra \<rparr>)))"
proof -
  from h obtain rb where c: "tcpData c = Some m" "length m = TCP_MEMORY_SIZE" "mReceiveBuffer c = Some rb"
    "length rb = TCP_MEMORY_SIZE" "mReceiveBufferPos c = 8 + length msg + length extra"
    "take (8 + length msg + length extra) rb = tcp_packet b n msg @ extra"
    "8 + length msg + length extra \<le> TCP_MEMORY_SIZE"
    by (auto simp: holding_def elim: tcp_readyE)
  have p: "take (8 + length msg) rb = tcp_packet b n msg"
    using arg_cong [OF c(6), of "take (8 + length msg)"] by simp
  then have "take (8 + length msg) rb = take (8 + length msg) (tcp_packet b n msg)" by simp
  from packet_header [OF l(1) this] c(4,7) have hd: "take 4 rb = bytes_of ''RECS''" "packet_length rb = length msg"
    by simp_all
  have "take (length msg) (drop 8 rb) = drop 8 (take (8 + length msg) rb)" by (simp add: drop_take)
  then have w: "get_bytes rb 8 (length msg) = Inr msg"
    using c(4,7) p by (simp add: get_bytes_ok tcp_packet_def enc_TCP_Message_Header_def)
  have "0 < length msg + length extra" using l(2) by auto
  with c hd w show ?thesis by (simp add: take_packet_def wire_simps)
qed

lemma take_packet_complete:
  assumes h: "holding c m (tcp_packet b n msg @ extra)" and msg: "msg @ extra \<noteq> []" "length msg \<le> tcp_area"
    and extra: "length extra \<le> 8 + length msg"
  shows "\<exists>c'. take_packet e c = Inr c' \<and> holding c' (overlay m 14 msg) extra \<and> net c' = net c"
proof -
  from h obtain rb where c: "tcpData c = Some m" "length m = TCP_MEMORY_SIZE" "mReceiveBuffer c = Some rb"
    "length rb = TCP_MEMORY_SIZE" "take (8 + length msg + length extra) rb = tcp_packet b n msg @ extra"
    "8 + length msg + length extra \<le> TCP_MEMORY_SIZE" "mClient c \<noteq> None"
    by (auto simp: holding_def elim: tcp_readyE)
  have l: "length msg < 65536" "14 + length msg \<le> TCP_MEMORY_SIZE"
    using msg(2) by (simp_all add: tcp_area_def wire_simps)
  have "take (length extra) (drop (8 + length msg) rb) = drop (8 + length msg) (take (8 + length msg + length extra) rb)"
    by (simp add: drop_take)
  then have "copy_down e rb (8 + length msg) (length extra) = Inr (overlay rb 0 extra)"
    using c extra by (simp add: copy_down_def get_bytes_ok put_bytes_ok)
  moreover have "length (overlay rb 0 extra) = TCP_MEMORY_SIZE" "take (length extra) (overlay rb 0 extra) = extra"
    using c by (simp_all add: length_overlay overlay_def)
  ultimately show ?thesis
    using packet_followed [OF h l(1) msg(1), of e] c l
    by (intro exI [of _ "c \<lparr> tcpData := Some (overlay m 14 msg), mReceiveBuffer := Some (overlay rb 0 extra),
          mReceiveBufferPos := length extra \<rparr>"])
       (simp add: put_bytes_ok holding_def tcp_ready_def length_overlay)
qed

text \<open>A packet that does not fit behind the header of the image is copied over its end.\<close>

lemma take_packet_overrun:
  assumes h: "holding c m (tcp_packet b n msg)" and l: "tcp_area < length msg"
  shows "take_packet e c = Inl Bad_access"
proof -
  have "8 + length msg \<le> TCP_MEMORY_SIZE" "length m = TCP_MEMORY_SIZE" using h by (auto simp: holding_def elim: tcp_readyE)
  then have "length msg < 65536" "\<not> 14 + length msg \<le> length m" "msg \<noteq> []"
    using l by (auto simp: tcp_area_def wire_simps)
  with packet_followed [of c m b n msg "[]" e] h show ?thesis by (simp add: put_bytes_def)
qed

text \<open>\<open>k\<close> reads of \<open>n\<close> bytes at \<open>off\<close>, with what each returns.\<close>

primrec polls :: "nat \<Rightarrow> tcp_env \<Rightarrow> nat \<Rightarrow> nat \<Rightarrow> tcp_comm \<Rightarrow> (bytes list \<times> tcp_comm) res" where
  "polls 0 e off n c = Inr ([], c)"
| "polls (Suc k) e off n c =
     bind_res (tcp_readData e off n c) (\<lambda>(_, b, _, c).
     bind_res (polls k e off n c) (\<lambda>(bs, c). Inr (b # bs, c)))"

lemma tcp_readData_after:
  assumes "holding c m got" "receive e c = Inr c'" "holding c' m' got'" "off + n \<le> TCP_MEMORY_SIZE"
  shows "tcp_readData e off n c = Inr (int n, take n (drop off m'), [], c')"
proof -
  have "tcpData c = Some m" "tcpData c' = Some m'" "length m' = TCP_MEMORY_SIZE"
    using assms(1,3) by (auto simp: holding_def elim: tcp_readyE)
  with assms(2,4) show ?thesis by (simp add: tcp_readData_def tcp_clip_inside get_bytes_ok)
qed

lemma polls_Suc_read:
  assumes "tcp_readData e off n c = Inr (r, b, calls, c1)"
  shows "polls (Suc k) e off n c = bind_res (polls k e off n c1) (\<lambda>(bs, c). Inr (b # bs, c))"
  using assms by simp

text \<open>Until the packet is complete, every read shows the old image.\<close>

lemma polls_incomplete:
  assumes "holding c m got" "\<forall>i < length ws. waits (net c) i = arriving (ws ! i)" "\<forall>w \<in> set ws. w \<noteq> []"
    and "tcp_packet b n msg = got @ concat ws @ rest" "rest \<noteq> []" "length msg < 65536"
    and "length got + length (concat ws) \<le> TCP_MEMORY_SIZE" "off + k \<le> TCP_MEMORY_SIZE"
  shows "\<exists>c'. polls (length ws) e off k c = Inr (replicate (length ws) (take k (drop off m)), c')
    \<and> holding c' m (got @ concat ws) \<and> waits (net c') = (\<lambda>i. waits (net c) (i + length ws))"
  using assms(1-4,7)
proof (induction ws arbitrary: c got)
  case Nil
  then show ?case by simp
next
  case (Cons w ws)
  have w: "waits (net c) 0 = arriving w" "w \<noteq> []" "length got + length w \<le> TCP_MEMORY_SIZE"
    using Cons.prems(2,3,5) by auto
  from receive_fragment [OF Cons.prems(1) w] obtain c1 where
    c1: "receive e c = take_packet e c1" "holding c1 m (got @ w)" "waits (net c1) = awaited (waits (net c))" by blast
  have "take_packet e c1 = Inr c1"
    using take_packet_incomplete [OF c1(2), of b n msg "concat ws @ rest"] Cons.prems(4) assms(5,6) by simp
  with tcp_readData_after [OF Cons.prems(1) _ c1(2) assms(8)] c1(1)
  have r: "tcp_readData e off k c = Inr (int k, take k (drop off m), [], c1)" by simp
  have "\<forall>i < length ws. waits (net c1) i = arriving (ws ! i)"
    using Cons.prems(2) c1(3) by (auto simp: awaited_def)
  from Cons.IH [OF c1(2) this] Cons.prems(3-5) obtain c' where
    "polls (length ws) e off k c1 = Inr (replicate (length ws) (take k (drop off m)), c')"
    "holding c' m (got @ w @ concat ws)" "waits (net c') = (\<lambda>i. waits (net c1) (i + length ws))" by auto
  with r c1(3) show ?case by (simp add: awaited_def)
qed

lemma polls_add:
  "polls i e off n c = Inr (bs, c1) \<Longrightarrow>
     polls (i + j) e off n c = bind_res (polls j e off n c1) (\<lambda>(cs, c2). Inr (bs @ cs, c2))"
proof (induction i arbitrary: c bs)
  case 0
  then show ?case by (cases "polls j e off n c1") auto
next
  case (Suc i)
  then obtain r b calls c2 bs' where
    r: "tcp_readData e off n c = Inr (r, b, calls, c2)" "polls i e off n c2 = Inr (bs', c1)" "bs = b # bs'"
    by (auto simp: bind_res_Inr_iff)
  from Suc.IH [OF r(2)] r show ?case by (cases "polls j e off n c1") auto
qed

text \<open>Reads that leave the communicator as it is, for as long as its waits are.\<close>

lemma polls_idle:
  assumes "holding c m got" "\<And>c. P c \<Longrightarrow> \<exists>c'. receive e c = Inr c' \<and> P c' \<and> (holding c m got \<longrightarrow> holding c' m got)" "P c"
    and "off + k \<le> TCP_MEMORY_SIZE"
  shows "\<exists>c'. polls j e off k c = Inr (replicate j (take k (drop off m)), c') \<and> holding c' m got"
  using assms(1,3)
proof (induction j arbitrary: c)
  case (Suc j)
  from assms(2) [OF Suc.prems(2)] Suc.prems(1) obtain c1 where
    c1: "receive e c = Inr c1" "P c1" "holding c1 m got" by blast
  with tcp_readData_after [OF Suc.prems(1) c1(1,3) assms(4)] Suc.IH [OF c1(3,2)] show ?case by auto
qed simp

lemma polls_packet:
  assumes "holding c m []" "\<forall>i < length ws. waits (net c) i = arriving (ws ! i)" "\<forall>w \<in> set ws. w \<noteq> []"
    and "concat ws = tcp_packet b n msg" "msg \<noteq> []" "length msg \<le> tcp_area" "off + k \<le> TCP_MEMORY_SIZE"
  shows "\<exists>c'. polls (length ws) e off k c = Inr (replicate (length ws - 1) (take k (drop off m))
      @ [take k (drop off (overlay m 14 msg))], c') \<and> holding c' (overlay m 14 msg) []"
proof -
  have "ws \<noteq> []" using arg_cong [OF assms(4), of length] by auto
  then obtain us u where ws: "ws = us @ [u]" by (metis rev_exhaust)
  have u: "u \<noteq> []" "\<forall>w \<in> set us. w \<noteq> []" "\<forall>i < length us. waits (net c) i = arriving (us ! i)"
    "waits (net c) (length us) = arriving u"
    using assms(2,3) by (auto simp: ws nth_append less_Suc_eq split: if_splits)
  have p: "tcp_packet b n msg = [] @ concat us @ u" using assms(4) by (simp add: ws)
  have l: "length (concat us) + length u = 8 + length msg" "length msg < 65536" "8 + length msg \<le> TCP_MEMORY_SIZE"
    using arg_cong [OF p, of length] assms(6) by (simp_all add: tcp_area_def wire_simps)
  obtain c1 where c1: "polls (length us) e off k c = Inr (replicate (length us) (take k (drop off m)), c1)"
    "holding c1 m (concat us)" "waits (net c1) 0 = arriving u"
    using polls_incomplete [OF assms(1) u(3,2) p u(1) l(2) _ assms(7), of e] l u(4) by auto
  from receive_fragment [OF c1(2,3) u(1)] l obtain c2 where
    c2: "receive e c1 = take_packet e c2" "holding c2 m (tcp_packet b n msg @ [])"
    using p by auto
  from take_packet_complete [OF c2(2)] assms(5,6) obtain c' where
    c': "take_packet e c2 = Inr c'" "holding c' (overlay m 14 msg) []" by fastforce
  with tcp_readData_after [OF c1(2) _ c'(2) assms(7)] c2(1)
  have "tcp_readData e off k c1 = Inr (int k, take k (drop off (overlay m 14 msg)), [], c')" by simp
  with c'(2) polls_add [OF c1(1), of 1] show ?thesis by (simp add: ws)
qed

end
