(* ===== verification/TCP_Properties.thy ===== *)
theory TCP_Properties
  imports Communicator_TCP_Facts Daemon_Properties
begin

text \<open>
  What the TCP communicator promises (\<open>plugins/CommunicatorTCP/src\<close>): a message arrives
  whole however the network cuts it, what one side sends the other can read, the controller
  gets what the daemon writes, and what goes wrong with packets that are too long, that come
  together, or that follow a broken connection.
\<close>

section \<open>Samples\<close>

definition sample_client :: network_client where
  "sample_client = \<lparr> mSocket = 3, sin_port = htons 2022, s_addr = htonl 0x0A000001 \<rparr>"

definition silence :: wait_answer where
  "silence = \<lparr> select_result = 0, is_set = False, received = None \<rparr>"

text \<open>The network delivers \<open>ws\<close> and then nothing.\<close>

definition sample_network :: "bytes list \<Rightarrow> network" where
  "sample_network ws = \<lparr> sockets = (\<lambda>_. 4), connects = (\<lambda>_. 0),
     waits = (\<lambda>i. if i < length ws then arriving (ws ! i) else silence), plain_recvs = (\<lambda>_. None),
     sends = (\<lambda>_. int), outbox = [], mInstanceCounter = 1 \<rparr>"

definition sample_tcp :: "bytes list \<Rightarrow> tcp_comm" where
  "sample_tcp ws = \<lparr> tcpBaseboardID = 1, mClient = Some sample_client, tcpData = Some (replicate TCP_MEMORY_SIZE 0),
     mReceiveBuffer = Some (replicate TCP_MEMORY_SIZE 0), mReceiveBufferPos = 0, mallocs = (\<lambda>_. True),
     net = sample_network ws \<rparr>"

definition tcp_config :: config where
  "tcp_config = \<lparr> cini = \<lparr> ini_content = [\<lparr> sdata = [\<lparr> rcomments = [], rkey = ''controller'', rvalue = ''bmc'' \<rparr>],
       scomments = [], sname = ''Comm'' \<rparr>], gfilename = [], error_msg = None, w_flag = False \<rparr>,
     mNoSaveMode = False, mConfigChanged = False, mListeners = [], mDisableChangeListeners = False \<rparr>"

definition sample_env :: tcp_env where
  "sample_env = \<lparr> te_config = tcp_config, te_junk = 0, te_reserved = 0, te_hosts = (\<lambda>_. Some 0x0100000A),
     te_slot = Some 0, te_overlap = (\<lambda>buf k n. overlay buf 0 (take n (drop k buf))) \<rparr>"

lemma sample_tcp_holding: "holding (sample_tcp ws) (replicate TCP_MEMORY_SIZE 0) []"
  by (simp add: holding_def tcp_ready_def sample_tcp_def)

lemma sample_tcp_waits: "i < length ws \<Longrightarrow> waits (net (sample_tcp ws)) i = arriving (ws ! i)"
  by (simp add: sample_tcp_def sample_network_def)

lemma sample_env_keeps [simp]: "keeps_length sample_env"
  by (simp add: keeps_length_def sample_env_def overlay_def)

section \<open>Packets\<close>

text \<open>C15: a message that arrives in any number of fragments is shown, whole, by the read that
  gets the last of them; every earlier read shows the old image, and nothing is left over.\<close>

theorem message_in_fragments:
  assumes "holding c m []" "\<forall>i < length ws. waits (net c) i = arriving (ws ! i)" "\<forall>w \<in> set ws. w \<noteq> []"
    and "concat ws = tcp_packet b n msg" "msg \<noteq> []" "length msg \<le> tcp_area" "off + k \<le> TCP_MEMORY_SIZE"
  shows "\<exists>c'. polls (length ws) e off k c = Inr (replicate (length ws - 1) (take k (drop off m))
      @ [take k (drop off (overlay m 14 msg))], c') \<and> mReceiveBufferPos c' = 0 \<and> tcpData c' = Some (overlay m 14 msg)"
  using polls_packet [OF assms, of e] by (auto simp: holding_def)

lemma sample_packet: "tcp_packet 1 0 [5, 7] = [82, 69, 67, 83, 1, 0, 0, 2, 5, 7]"
  by (simp add: tcp_packet_def enc_TCP_Message_Header_def bytes_of_def u8_of_char_def u16_mem_def htons_def)

theorem message_in_fragments_witness:
  "\<exists>c'. polls 2 sample_env 14 2 (sample_tcp [[82, 69, 67], [83, 1, 0, 0, 2, 5, 7]]) = Inr ([[0, 0], [5, 7]], c')
     \<and> mReceiveBufferPos c' = 0"
proof -
  let ?ws = "[[82, 69, 67], [83, 1, 0, 0, 2, 5, 7]] :: bytes list"
  have "\<forall>i < length ?ws. waits (net (sample_tcp ?ws)) i = arriving (?ws ! i)" using sample_tcp_waits by blast
  moreover have "\<forall>w \<in> set ?ws. w \<noteq> []" "concat ?ws = tcp_packet 1 0 [5, 7]" by (simp_all add: sample_packet)
  moreover have "length [5, 7 :: u8] \<le> tcp_area" "14 + 2 \<le> TCP_MEMORY_SIZE" by (simp_all add: tcp_area_def wire_simps)
  ultimately have "\<exists>c'. polls (length ?ws) sample_env 14 2 (sample_tcp ?ws) = Inr (replicate (length ?ws - 1)
      (take 2 (drop 14 (replicate TCP_MEMORY_SIZE 0))) @ [take 2 (drop 14 (overlay (replicate TCP_MEMORY_SIZE 0) 14 [5, 7]))], c')
     \<and> mReceiveBufferPos c' = 0 \<and> tcpData c' = Some (overlay (replicate TCP_MEMORY_SIZE 0) 14 [5, 7])"
    using message_in_fragments [OF sample_tcp_holding, where ws = ?ws and b = 1 and n = 0 and msg = "[5, 7]"
        and off = 14 and k = 2 and e = sample_env] by fastforce
  then show ?thesis by (simp add: overlay_def TCP_MEMORY_SIZE_def take_replicate numeral_2_eq_2) blast
qed

text \<open>C16: what one communicator sends, another one reads: if every \<open>send\<close> takes all it is given and the
  bytes sent arrive in some fragments, the peer shows the message that was written.\<close>

theorem sent_message_received:
  assumes "tcpData c = Some mem" "length mem = TCP_MEMORY_SIZE" "online c" "outbox (net c) = []"
    and "msg \<noteq> []" "msg ! 0 \<noteq> 0" "length msg \<le> tcp_area"
  shows "\<exists>r c'. tcp_writeData e 14 msg c = Inr (r, slot_call e, c') \<and>
    (\<forall>ws p m e'. holding p m [] \<and> (\<forall>i < length ws. waits (net p) i = arriving (ws ! i)) \<and> (\<forall>w \<in> set ws. w \<noteq> [])
       \<and> concat ws = concat (outbox (net c'))
       \<longrightarrow> (\<exists>p'. polls (length ws) e' 14 (length msg) p
              = Inr (replicate (length ws - 1) (take (length msg) (drop 14 m)) @ [msg], p')))"
proof -
  let ?m = "overlay mem 14 msg"
  have fits: "14 + length msg \<le> TCP_MEMORY_SIZE" using assms(7) by (simp add: tcp_area_def wire_simps)
  have "online (c \<lparr> tcpData := Some ?m \<rparr>)" using assms(3) by (simp add: online_def)
  from forward_message_online [OF this, of e msg] obtain c' where
    f: "forward_message e msg (c \<lparr> tcpData := Some ?m \<rparr>) = (slot_call e, c')"
      "outbox (net c') = [enc_TCP_Message_Header (message_header e (c \<lparr> tcpData := Some ?m \<rparr>) (length msg)), msg]"
    using assms(4) by auto
  have "?m ! 14 = msg ! 0" using assms(2,5) fits by (simp add: overlay_def nth_append)
  then have w: "tcp_writeData e 14 msg c = Inr (int (length msg), slot_call e, c' \<lparr> tcpData := Some (?m [14 := 0]) \<rparr>)"
    using assms fits f(1) by (simp add: tcp_writeData_def tcp_clip_inside get_bytes_ok put_bytes_ok sizeof_Daemon_Header_def)
  have "concat (outbox (net (c' \<lparr> tcpData := Some (?m [14 := 0]) \<rparr>))) = tcp_packet (tcpBaseboardID c) (case te_slot e of None \<Rightarrow> 0 | Some s \<Rightarrow> s) msg"
    by (simp add: f(2) message_header_def tcp_packet_def)
  note out = this
  have recv: "\<exists>p'. polls (length ws) e' 14 (length msg) p
      = Inr (replicate (length ws - 1) (take (length msg) (drop 14 m)) @ [msg], p')"
    if p: "holding p m []" "\<forall>i < length ws. waits (net p) i = arriving (ws ! i)" "\<forall>w \<in> set ws. w \<noteq> []"
      "concat ws = tcp_packet b n msg" for ws p m e' b n
  proof -
    have "take (length msg) (drop 14 (overlay m 14 msg)) = msg"
      using p(1) fits by (auto simp: holding_def overlay_def elim: tcp_readyE)
    with polls_packet [OF p assms(5,7) fits, of e'] show ?thesis by auto
  qed
  show ?thesis
    by (rule exI, rule exI, rule conjI, rule w) (intro allI impI, elim conjE, rule recv, simp_all only: out)
qed

theorem sent_message_received_witness:
  "\<exists>c' p'. tcp_writeData sample_env 14 [5, 7] (sample_tcp []) = Inr (2, slot_call sample_env, c') \<and>
     outbox (net c') = [[82, 69, 67, 83, 1, 0, 0, 2], [5, 7]] \<and>
     polls 1 sample_env 14 2 (sample_tcp [concat (outbox (net c'))]) = Inr ([[5, 7]], p')"
proof -
  have on: "online (sample_tcp [])" "outbox (net (sample_tcp [])) = []" "tcpData (sample_tcp []) = Some (replicate TCP_MEMORY_SIZE 0)"
    by (simp_all add: online_def sample_tcp_def sample_network_def)
  have msg: "[5, 7 :: u8] \<noteq> []" "[5, 7 :: u8] ! 0 \<noteq> 0" "length [5, 7 :: u8] \<le> tcp_area"
    by (simp_all add: tcp_area_def wire_simps)
  from sent_message_received [OF on(3) _ on(1,2) msg, where e = sample_env] obtain r c' where
    w: "tcp_writeData sample_env 14 [5, 7] (sample_tcp []) = Inr (r, slot_call sample_env, c')"
    and recv: "\<And>ws p m e'. holding p m [] \<Longrightarrow> \<forall>i < length ws. waits (net p) i = arriving (ws ! i) \<Longrightarrow>
       \<forall>w \<in> set ws. w \<noteq> [] \<Longrightarrow> concat ws = concat (outbox (net c')) \<Longrightarrow>
       \<exists>p'. polls (length ws) e' 14 (length [5, 7 :: u8]) p
              = Inr (replicate (length ws - 1) (take (length [5, 7 :: u8]) (drop 14 m)) @ [[5, 7]], p')"
    by auto
  have "outbox (net c') = [[82, 69, 67, 83, 1, 0, 0, 2], [5, 7]] \<and> r = 2"
    using w
    by (auto simp: tcp_writeData_def tcp_clip_inside sample_tcp_def get_bytes_def put_bytes_def wire_simps overlay_def
        nth_append forward_message_def send_packet_def sendData_def sample_network_def message_header_def sample_env_def
        enc_TCP_Message_Header_def bytes_of_def u8_of_char_def u16_mem_def htons_def Let_def tcp_clip_def)
  moreover from this recv [OF sample_tcp_holding [of "[concat (outbox (net c'))]"], where ws = "[concat (outbox (net c'))]" and e' = sample_env]
  have "\<exists>p'. polls 1 sample_env 14 2 (sample_tcp [concat (outbox (net c'))]) = Inr ([[5, 7]], p')"
    by (simp add: sample_tcp_waits numeral_2_eq_2)
  ultimately show ?thesis using w by blast
qed

text \<open>C17: a packet of more bytes than the image has behind its header, though it fits into the receive
  buffer, is copied over the end of the image when its last fragment arrives.\<close>

theorem oversize_packet_overruns:
  assumes "holding c m []" "\<forall>i < length ws. waits (net c) i = arriving (ws ! i)" "\<forall>w \<in> set ws. w \<noteq> []"
    and "concat ws = tcp_packet b n msg" "tcp_area < length msg" "8 + length msg \<le> TCP_MEMORY_SIZE"
    and "off + k \<le> TCP_MEMORY_SIZE"
  shows "polls (length ws) e off k c = Inl Bad_access"
proof -
  have "ws \<noteq> []" using arg_cong [OF assms(4), of length] by auto
  then obtain us u where ws: "ws = us @ [u]" by (metis rev_exhaust)
  have u: "u \<noteq> []" "\<forall>w \<in> set us. w \<noteq> []" "\<forall>i < length us. waits (net c) i = arriving (us ! i)"
    "waits (net c) (length us) = arriving u"
    using assms(2,3) by (auto simp: ws nth_append less_Suc_eq split: if_splits)
  have p: "tcp_packet b n msg = [] @ concat us @ u" using assms(4) by (simp add: ws)
  have l: "length (concat us) + length u = 8 + length msg" "length msg < 65536"
    using arg_cong [OF p, of length] assms(6) by (simp_all add: wire_simps)
  obtain c1 where c1: "polls (length us) e off k c = Inr (replicate (length us) (take k (drop off m)), c1)"
    "holding c1 m (concat us)" "waits (net c1) 0 = arriving u"
    using polls_incomplete [OF assms(1) u(3,2) p u(1) l(2) _ assms(7), of e] l u(4) assms(6) by auto
  from receive_fragment [OF c1(2,3) u(1)] l assms(6) obtain c2 where
    c2: "receive e c1 = take_packet e c2" "holding c2 m (tcp_packet b n msg)" using p by auto
  have "receive e c1 = Inl Bad_access" using take_packet_overrun [OF c2(2) assms(5), of e] c2(1) by simp
  moreover have "tcpData c1 = Some m" using c1(2) by (simp add: holding_def)
  ultimately have "tcp_readData e off k c1 = Inl Bad_access" by (simp add: tcp_readData_def)
  then show ?thesis using polls_add [OF c1(1), of 1] by (simp add: ws)
qed

lemma huge_packet: "tcp_packet 1 0 (replicate 65522 5)
  = concat [[82], [69, 67, 83, 1, 0, 0xFF, 0xF2] @ replicate 65522 5]"
  by (simp add: tcp_packet_def enc_TCP_Message_Header_def bytes_of_def u8_of_char_def u16_mem_def htons_def)

theorem oversize_packet_overruns_witness:
  "polls 2 sample_env 0 14 (sample_tcp [[82], [69, 67, 83, 1, 0, 0xFF, 0xF2] @ replicate 65522 5]) = Inl Bad_access"
proof -
  let ?ws = "[[82], [69, 67, 83, 1, 0, 0xFF, 0xF2] @ replicate 65522 5] :: bytes list"
  have "\<forall>i < length ?ws. waits (net (sample_tcp ?ws)) i = arriving (?ws ! i)" using sample_tcp_waits by blast
  moreover have "\<forall>w \<in> set ?ws. w \<noteq> []" by simp
  moreover have "tcp_area < length (replicate 65522 (5 :: u8))" "8 + length (replicate 65522 (5 :: u8)) \<le> TCP_MEMORY_SIZE"
    "0 + 14 \<le> TCP_MEMORY_SIZE" by (simp_all add: tcp_area_def wire_simps)
  ultimately have "polls (length ?ws) sample_env 0 14 (sample_tcp ?ws) = Inl Bad_access"
    by (rule oversize_packet_overruns [OF sample_tcp_holding _ _ huge_packet [symmetric]])
  then show ?thesis by (simp only: list.size) (simp only: One_nat_def numeral_2_eq_2 add_Suc_right add_0_right)
qed

text \<open>A packet that announces more bytes than the receive buffer can hold stops the reception for
  ever: once the buffer is full, no read changes the image again, whatever arrives.\<close>

lemma receive_full:
  assumes "holding c m got" "length got = TCP_MEMORY_SIZE"
  shows "\<exists>c'. receive e c = Inr c' \<and> holding c' m got"
proof -
  from assms obtain k where c: "mClient c = Some k" "mReceiveBufferPos c = TCP_MEMORY_SIZE"
    by (auto simp: holding_def)
  have "receiveData 0 k (net c) = (0, [], (net c) \<lparr> waits := awaited (waits (net c)) \<rparr>)"
    by (simp add: receiveData_def Let_def split: option.splits)
  moreover have "holding (c \<lparr> net := n \<rparr>) m got" for n using assms(1) by (simp add: holding_def)
  ultimately show ?thesis using c by (simp add: receive_def)
qed

theorem endless_packet_blocks:
  assumes "holding c m []" "\<forall>i < length ws. waits (net c) i = arriving (ws ! i)" "\<forall>w \<in> set ws. w \<noteq> []"
    and "concat ws @ rest = tcp_packet b n msg" "length (concat ws) = TCP_MEMORY_SIZE"
    and "TCP_MEMORY_SIZE < 8 + length msg" "length msg < 65536" "off + k \<le> TCP_MEMORY_SIZE"
  shows "\<exists>c'. polls (length ws + j) e off k c = Inr (replicate (length ws + j) (take k (drop off m)), c')"
proof -
  have "rest \<noteq> []" using arg_cong [OF assms(4), of length] assms(5,6) by auto
  moreover have "tcp_packet b n msg = [] @ concat ws @ rest" using assms(4) by simp
  ultimately obtain c1 where
    c1: "polls (length ws) e off k c = Inr (replicate (length ws) (take k (drop off m)), c1)" "holding c1 m (concat ws)"
    using polls_incomplete [OF assms(1-3) _ _ assms(7) _ assms(8), of b n rest e] assms(5) by auto
  have "\<exists>c'. polls j e off k c1 = Inr (replicate j (take k (drop off m)), c') \<and> holding c' m (concat ws)"
    by (rule polls_idle [where P = "\<lambda>c. holding c m (concat ws)"]) (use receive_full c1(2) assms(5,8) in blast)+
  with polls_add [OF c1(1), of j] show ?thesis by (auto simp: replicate_add)
qed

lemma endless_packet: "concat [[82, 69, 67, 83, 1, 0, 0xFF, 0xFA] @ replicate 65527 5] @ replicate 3 5
  = tcp_packet 1 0 (replicate 65530 5)"
proof -
  have "replicate 65527 (5 :: u8) @ replicate 3 5 = replicate 65530 5" by (simp only: replicate_add [symmetric]) simp
  then show ?thesis
    by (simp add: tcp_packet_def enc_TCP_Message_Header_def bytes_of_def u8_of_char_def u16_mem_def htons_def)
qed

theorem endless_packet_blocks_witness:
  "\<exists>c'. polls (1 + 100) sample_env 14 1 (sample_tcp [[82, 69, 67, 83, 1, 0, 0xFF, 0xFA] @ replicate 65527 5])
     = Inr (replicate 101 [0], c')"
proof -
  let ?ws = "[[82, 69, 67, 83, 1, 0, 0xFF, 0xFA] @ replicate 65527 5] :: bytes list"
  have "\<forall>i < length ?ws. waits (net (sample_tcp ?ws)) i = arriving (?ws ! i)" using sample_tcp_waits by blast
  moreover have "\<forall>w \<in> set ?ws. w \<noteq> []" by simp
  moreover have "length (concat ?ws) = TCP_MEMORY_SIZE" "TCP_MEMORY_SIZE < 8 + length (replicate 65530 (5 :: u8))"
    "length (replicate 65530 (5 :: u8)) < 65536" "14 + 1 \<le> TCP_MEMORY_SIZE" by (simp_all add: wire_simps)
  ultimately have "\<exists>c'. polls (length ?ws + 100) sample_env 14 1 (sample_tcp ?ws)
      = Inr (replicate (length ?ws + 100) (take 1 (drop 14 (replicate TCP_MEMORY_SIZE 0))), c')"
    by (rule endless_packet_blocks [OF sample_tcp_holding _ _ endless_packet])
  moreover have "length ?ws = 1" "1 + 100 = (101 :: nat)" by simp_all
  moreover have "take 1 (drop 14 (replicate TCP_MEMORY_SIZE 0)) = [0 :: u8]"
    by (simp add: TCP_MEMORY_SIZE_def take_replicate)
  ultimately show ?thesis by (simp only:)
qed

text \<open>A packet that arrives together with the one before it waits: as long as the controller sends
  nothing more, no read shows it.\<close>

theorem second_packet_waits:
  assumes "holding c m []" "waits (net c) 0 = arriving (tcp_packet b n msg @ tcp_packet b' n' msg')"
    and "\<forall>i. waits (net c) (Suc i) = silence" "length msg' \<le> length msg" "length msg \<le> tcp_area"
    and "16 + length msg + length msg' \<le> TCP_MEMORY_SIZE" "off + k \<le> TCP_MEMORY_SIZE"
  shows "\<exists>c'. polls (Suc j) e off k c = Inr (replicate (Suc j) (take k (drop off (overlay m 14 msg))), c')
    \<and> holding c' (overlay m 14 msg) (tcp_packet b' n' msg')"
proof -
  let ?p = "tcp_packet b n msg" and ?q = "tcp_packet b' n' msg'"
  have ne: "?p @ ?q \<noteq> []" "msg @ ?q \<noteq> []" "length ?q \<le> 8 + length msg"
    using assms(4) length_tcp_packet [of b' n' msg'] by (auto simp del: length_tcp_packet) 
  from receive_fragment [OF assms(1,2) ne(1)] assms(6) obtain c1 where
    c1: "receive e c = take_packet e c1" "holding c1 m (?p @ ?q)" "waits (net c1) = awaited (waits (net c))" by auto
  from take_packet_complete [OF c1(2) ne(2) assms(5) ne(3)] obtain c2 where
    c2: "take_packet e c1 = Inr c2" "holding c2 (overlay m 14 msg) ?q" "net c2 = net c1" by blast
  have quiet: "no_data (net c2)" using c1(3) c2(3) assms(3) by (simp add: no_data_def awaited_def silence_def)
  from tcp_readData_after [OF assms(1) _ c2(2) assms(7)] c1(1) c2(1)
  have r: "tcp_readData e off k c = Inr (int k, take k (drop off (overlay m 14 msg)), [], c2)" by simp
  have "\<exists>c'. polls j e off k c2 = Inr (replicate j (take k (drop off (overlay m 14 msg))), c')
      \<and> holding c' (overlay m 14 msg) ?q"
    by (rule polls_idle [where P = "\<lambda>c. no_data (net c)"]) (use receive_quiet c2(2) quiet assms(7) in blast)+
  with r show ?thesis by auto
qed

theorem second_packet_waits_witness:
  "\<exists>c'. polls (Suc 1000) sample_env 14 2 (sample_tcp [tcp_packet 1 0 [5, 7] @ tcp_packet 1 0 [3, 9]])
     = Inr (replicate (Suc 1000) [5, 7], c') \<and> holding c' (overlay (replicate TCP_MEMORY_SIZE 0) 14 [5, 7]) (tcp_packet 1 0 [3, 9])"
proof -
  let ?ws = "[tcp_packet 1 0 [5, 7] @ tcp_packet 1 0 [3, 9]]"
  have "waits (net (sample_tcp ?ws)) 0 = arriving (tcp_packet 1 0 [5, 7] @ tcp_packet 1 0 [3, 9])"
    "\<forall>i. waits (net (sample_tcp ?ws)) (Suc i) = silence"
    by (simp_all add: sample_tcp_def sample_network_def)
  moreover have "length [3, 9 :: u8] \<le> length [5, 7 :: u8]" "length [5, 7 :: u8] \<le> tcp_area"
    "16 + length [5, 7 :: u8] + length [3, 9 :: u8] \<le> TCP_MEMORY_SIZE" "14 + 2 \<le> TCP_MEMORY_SIZE"
    by (simp_all add: tcp_area_def wire_simps)
  ultimately have "\<exists>c'. polls (Suc 1000) sample_env 14 2 (sample_tcp ?ws) = Inr (replicate (Suc 1000)
      (take 2 (drop 14 (overlay (replicate TCP_MEMORY_SIZE 0) 14 [5, 7]))), c')
     \<and> holding c' (overlay (replicate TCP_MEMORY_SIZE 0) 14 [5, 7]) (tcp_packet 1 0 [3, 9])"
    by (rule second_packet_waits [OF sample_tcp_holding])
  moreover have "take 2 (drop 14 (overlay (replicate TCP_MEMORY_SIZE 0) 14 [5, 7 :: u8])) = [5, 7]"
    by (simp add: overlay_def TCP_MEMORY_SIZE_def)
  ultimately show ?thesis by (simp only:)
qed

text \<open>What a broken connection left in the receive buffer stays there: after a reconnect, one to three
  stale bytes make the daemon drop the first packet of the new connection.\<close>

theorem stale_bytes_lose_packet:
  assumes "tcp_ready c" "mReceiveBufferPos c \<in> {1, 2, 3}" "tcpData c = Some m" "tryConnect e c = (True, c1)"
    and "waits (net c1) 0 = arriving (tcp_packet b n msg)" "11 + length msg \<le> TCP_MEMORY_SIZE"
    and "off + k \<le> TCP_MEMORY_SIZE"
  shows "\<exists>c'. tcp_readData e off k c1 = Inr (int k, take k (drop off m), [], c') \<and> mReceiveBufferPos c' = 0"
proof -
  from assms(1) obtain rb where rb: "mReceiveBuffer c = Some rb" "length rb = TCP_MEMORY_SIZE" "length m = TCP_MEMORY_SIZE"
    using assms(3) by (auto elim: tcp_readyE)
  define got where "got = take (mReceiveBufferPos c) rb"
  have g: "length got = mReceiveBufferPos c" "length got \<in> {1, 2, 3}"
    using assms(2) rb by (auto simp: got_def wire_simps)
  have c1: "tcpData c1 = Some m" "mReceiveBuffer c1 = Some rb" "mReceiveBufferPos c1 = mReceiveBufferPos c" "mClient c1 \<noteq> None"
    using assms(3,4) rb by (auto simp: tryConnect_def delete_client_def Let_def split: if_splits prod.splits option.splits)
  then have h: "holding c1 m got"
    using tryConnect_ready [OF assms(4)] assms(1) g by (simp add: holding_def got_def)
  let ?p = "tcp_packet b n msg"
  have "?p \<noteq> []" by (simp add: tcp_packet_def enc_TCP_Message_Header_def)
  from receive_fragment [OF h assms(5) this, of e] g(2) assms(6) obtain c2 where
    c2: "receive e c1 = take_packet e c2" "holding c2 m (got @ ?p)" by auto
  from c2(2) obtain rb2 where r2: "mReceiveBuffer c2 = Some rb2" "length rb2 = TCP_MEMORY_SIZE"
    "take (length (got @ ?p)) rb2 = got @ ?p" "tcpData c2 = Some m" "mReceiveBufferPos c2 = length (got @ ?p)"
    by (auto simp: holding_def elim: tcp_readyE)
  have "take 4 rb2 = take 4 (take (length (got @ ?p)) rb2)" by (simp add: min_def)
  also have "\<dots> = take 4 (got @ ?p)" by (simp only: r2(3))
  finally have "take 4 rb2 = take 4 (got @ ?p)" .
  moreover have "take 4 (got @ ?p) \<noteq> bytes_of ''RECS''"
  proof
    assume "take 4 (got @ ?p) = bytes_of ''RECS''"
    then have "take 4 (got @ ?p) ! length got = bytes_of ''RECS'' ! length got" by simp
    moreover have "take 4 (got @ ?p) ! length got = u8_of_char (CHR ''R'')"
      using g(2) by (auto simp: nth_append tcp_packet_def enc_TCP_Message_Header_def bytes_of_def)
    ultimately show False using g(2) by (auto simp: bytes_of_def numeral_eq_Suc)
  qed
  ultimately have "take 4 rb2 \<noteq> bytes_of ''RECS''" by simp
  moreover have "8 < mReceiveBufferPos c2" using r2(5) g(2) by auto
  ultimately have "take_packet e c2 = Inr (c2 \<lparr> mReceiveBufferPos := 0 \<rparr>)"
    using r2(1,4) by (simp add: take_packet_def Let_def sizeof_TCP_Message_Header_def)
  with c2(1) c1(1) r2(4) rb(3) assms(7) show ?thesis
    by (simp add: tcp_readData_def tcp_clip_inside get_bytes_ok)
qed

lemma tcp_config_values:
  "GetString tcp_config ''Comm'' ''controller'' [] = ''bmc''" "GetInt 0 tcp_config ''Comm'' ''port'' 2022 = 2022"
proof -
  have c: "c_str ''Comm'' = ''Comm''" "c_str ''controller'' = ''controller''" "c_str ''port'' = ''port''" by code_simp+
  show "GetString tcp_config ''Comm'' ''controller'' [] = ''bmc''" "GetInt 0 tcp_config ''Comm'' ''port'' 2022 = 2022"
    by (simp_all add: GetInt_def GetString_def get_value_def get_record_def tcp_config_def c)
qed

text \<open>The connection broke after the first byte of a packet.\<close>

definition broken_tcp :: "bytes list \<Rightarrow> tcp_comm" where
  "broken_tcp ws = (sample_tcp ws) \<lparr> mClient := None, mReceiveBuffer := Some (82 # replicate (TCP_MEMORY_SIZE - 1) 0),
     mReceiveBufferPos := 1 \<rparr>"

theorem stale_bytes_lose_packet_witness:
  "\<exists>c1 c'. tryConnect sample_env (broken_tcp [tcp_packet 1 0 [5, 7]]) = (True, c1) \<and>
     tcp_readData sample_env 14 2 c1 = Inr (2, [0, 0], [], c') \<and> mReceiveBufferPos c' = 0"
proof -
  let ?c = "broken_tcp [tcp_packet 1 0 [5, 7]]"
  obtain ok c1 where t: "tryConnect sample_env ?c = (ok, c1)" by force
  have "ok \<and> waits (net c1) 0 = arriving (tcp_packet 1 0 [5, 7])"
    using t
    by (simp add: tryConnect_def sample_env_def tcp_config_values broken_tcp_def sample_tcp_def sample_network_def
        delete_client_def NetworkClient_ctor_def isConnected_def INVALID_SOCKET_def SOCKET_ERROR_def Let_def) auto
  moreover have "tcp_ready ?c" "mReceiveBufferPos ?c \<in> {1, 2, 3}" "tcpData ?c = Some (replicate TCP_MEMORY_SIZE 0)"
    by (simp_all add: tcp_ready_def broken_tcp_def sample_tcp_def TCP_MEMORY_SIZE_def)
  moreover have "11 + length [5, 7 :: u8] \<le> TCP_MEMORY_SIZE" "14 + 2 \<le> TCP_MEMORY_SIZE" by (simp_all add: wire_simps)
  ultimately obtain c' where
    "tcp_readData sample_env 14 2 c1 = Inr (int 2, take 2 (drop 14 (replicate TCP_MEMORY_SIZE 0)), [], c')"
    "mReceiveBufferPos c' = 0"
    using stale_bytes_lose_packet [of ?c "replicate TCP_MEMORY_SIZE 0" sample_env c1 1 0 "[5, 7]" 14 2] t by auto
  moreover have "take 2 (drop 14 (replicate TCP_MEMORY_SIZE 0)) = [0, 0 :: u8]"
    by (simp add: TCP_MEMORY_SIZE_def take_replicate numeral_2_eq_2)
  ultimately show ?thesis using t \<open>ok \<and> _\<close> by auto
qed

section \<open>The daemon behind a controller\<close>

text \<open>C4: a daemon that reaches its controller over TCP, on a connection that takes all it is given, sends it, in this order and nothing else, the basic
  information block and every page of the sensor description, each behind a header with the
  baseboard, the slot and the size.\<close>

theorem controller_receives_announcements:
  assumes "runs_on (tcp_ops e) 14 tcp_area w v" "mComm (s_daemon s) = Some c" "tcp_mem e c = Some m"
    and "mailbox_free 14 tcp_area m" "online c" "outbox (net c) = []" "dWrites (s_daemon s) = []"
    and "mSensors (s_node s) = (S, h)" "describable tcp_area (S, h)"
    and "\<not> mShutdown (s_daemon s)" "s_exitAfter s \<le> 0" "mState (s_daemon s) = State_BasicInformation"
    and "mCurrentPage (s_daemon s) = 1"
  shows "\<exists>t c'. iterations (1 + page_number tcp_area S) w v s = Inr t \<and> mComm (s_daemon t) = Some c' \<and>
    outbox (net c') = concat (map (packet_parts e (tcpBaseboardID c)) (information_message w tcp_area
      # description_messages (page_number tcp_area S) (per_page tcp_area) (mSensorMap S) h (mKnownGroups S)
          [1..<Suc (page_number tcp_area S)]))"
proof -
  have "free_box (tcp_mem e) 14 tcp_area (delivered e (tcpBaseboardID c)) (s_daemon s)"
    using assms(2-7) by (simp add: free_box_def delivered_def)
  from mailbox.announcements_free [OF tcp_controller.mailbox_axioms [unfolded sizeof_Daemon_Header_def]
      assms(1) this assms(8-13)]
  obtain t where t: "iterations (1 + page_number tcp_area S) w v s = Inr t"
    "free_box (tcp_mem e) 14 tcp_area (delivered e (tcpBaseboardID c)) (s_daemon t)"
    "dWrites (s_daemon t) = map (Pair 14) (information_message w tcp_area
      # description_messages (page_number tcp_area S) (per_page tcp_area) (mSensorMap S) h (mKnownGroups S)
          [1..<Suc (page_number tcp_area S)])"
    using assms(7) by auto
  then show ?thesis by (auto simp: free_box_def delivered_def comp_def)
qed

definition tcp_world :: "(tcp_comm, unit) world" where
  "tcp_world = \<lparr> w_ops = tcp_ops sample_env, w_ssl = sample_evp, w_host = quiet_host, w_malloc = (\<lambda>_. True),
     w_clock = (\<lambda>n. (int n, 0)), w_junk = (\<lambda>_. 0), w_junk_adapter = AdapterInfo_zero, w_junk_time = (0, 0) \<rparr>"

definition tcp_image :: bytes where
  "tcp_image = overlay (replicate TCP_MEMORY_SIZE 0) 0 (enc_Daemon_Header (tcp_header sample_env 1))"

definition tcp_session :: "tcp_comm session" where
  "tcp_session = \<lparr> s_daemon = Daemon_ctor \<lparr> mComm := Some ((sample_tcp []) \<lparr> tcpData := Some tcp_image \<rparr>) \<rparr>,
     s_node = s_node (sample_session [] 0), s_exitAfter = 0, s_lastLoopTime = (0, 0), s_ticks = 1, s_sleeps = 0,
     s_system = [] \<rparr>"

lemma tcp_image_facts: "length tcp_image = TCP_MEMORY_SIZE" "mailbox_free 14 tcp_area tcp_image"
proof -
  have h: "length (enc_Daemon_Header (tcp_header sample_env 1)) = 14"
    by (simp add: enc_Daemon_Header_def tcp_header_def bytes_of_def)
  then have d: "drop 14 tcp_image = replicate 65521 0"
    by (simp add: tcp_image_def overlay_def TCP_MEMORY_SIZE_def)
  show l: "length tcp_image = TCP_MEMORY_SIZE" using h by (simp add: tcp_image_def length_overlay TCP_MEMORY_SIZE_def)
  have "tcp_image ! 14 = drop 14 tcp_image ! 0" using l by (simp add: TCP_MEMORY_SIZE_def)
  also have "\<dots> = 0" by (simp add: d)
  finally have z: "tcp_image ! 14 = 0" .
  have "announced (drop 14 tcp_image) = 0" by (simp add: d announced_def u16_load_def htons_def)
  with z l show "mailbox_free 14 tcp_area tcp_image" by (simp add: mailbox_free_def tcp_area_def wire_simps)
qed

lemma tcp_describable:
  "describable tcp_area (sensor_set_empty \<lparr> mSize := 7, mData := replicate 7 0 \<rparr>, heap_empty)"
  "page_number tcp_area (sensor_set_empty \<lparr> mSize := 7, mData := replicate 7 0 \<rparr>) = 1" "per_page tcp_area = 141"
  by (simp_all add: describable_def page_number_def per_page_def sensor_set_empty_def pages_needed_def tcp_area_def wire_simps)

lemma tcp_messages:
  "description_messages 1 141 (mSensorMap (sensor_set_empty \<lparr> mSize := 7, mData := replicate 7 0 \<rparr>)) heap_empty
     (mKnownGroups (sensor_set_empty \<lparr> mSize := 7, mData := replicate 7 0 \<rparr>)) [1..<Suc 1] = [[1, 0, 9, 0, 1, 1, 0, 0, 0]]"
proof -
  have "enc_Monitoring_Description_Header (page_header 9 1 1 0 0) = [1, 0, 9, 0, 1, 1, 0, 0, 0]" by code_simp
  then show ?thesis by (simp add: page_entries_def sensor_set_empty_def)
qed

lemma tcp_page_parts:
  "packet_parts sample_env 1 [1, 0, 9, 0, 1, 1, 0, 0, 0] = [[82, 69, 67, 83, 1, 0, 0, 9], [1, 0, 9, 0, 1, 1, 0, 0, 0]]"
  by (simp add: packet_parts_def enc_TCP_Message_Header_def bytes_of_def u8_of_char_def u16_mem_def htons_def sample_env_def)

theorem controller_receives_announcements_witness:
  "\<exists>t c'. iterations 2 tcp_world (sample_vars \<lparr> messageMaxSize := tcp_area \<rparr>) tcp_session = Inr t \<and>
     mComm (s_daemon t) = Some c' \<and>
     outbox (net c') = packet_parts sample_env 1 (information_message tcp_world tcp_area)
       @ [[82, 69, 67, 83, 1, 0, 0, 9], [1, 0, 9, 0, 1, 1, 0, 0, 0]]"
proof -
  let ?c = "(sample_tcp []) \<lparr> tcpData := Some tcp_image \<rparr>"
  have on: "runs_on (tcp_ops sample_env) 14 tcp_area tcp_world (sample_vars \<lparr> messageMaxSize := tcp_area \<rparr>)"
    by (simp add: runs_on_def host_ok_def quiet_host_def tcp_world_def sample_vars_def)
  have c: "online ?c" "outbox (net ?c) = []" "tcpBaseboardID ?c = 1" "no_data (net ?c)" "tcp_ready ?c"
    using tcp_image_facts(1)
    by (simp_all add: online_def sample_tcp_def sample_network_def no_data_def silence_def tcp_ready_def)
  have mem: "tcp_mem sample_env ?c = Some tcp_image"
    using c exI [of "\<lambda>f. (\<lambda>_ :: nat. int) = (\<lambda>_. f) \<and> (\<forall>n. \<not> f n < 0)" int]
    by (simp add: tcp_mem_def calm_def online_def)
  have s: "mComm (s_daemon tcp_session) = Some ?c" "dWrites (s_daemon tcp_session) = []"
    "mSensors (s_node tcp_session) = (sensor_set_empty \<lparr> mSize := 7, mData := replicate 7 0 \<rparr>, heap_empty)"
    "\<not> mShutdown (s_daemon tcp_session)" "s_exitAfter tcp_session \<le> 0"
    "mState (s_daemon tcp_session) = State_BasicInformation" "mCurrentPage (s_daemon tcp_session) = 1"
    by (simp_all add: tcp_session_def Daemon_ctor_def)
  from controller_receives_announcements [OF on s(1) mem tcp_image_facts(2) c(1,2) s(2,3) tcp_describable(1) s(4-7)]
  show ?thesis
    unfolding c(3) tcp_describable(2,3) sample_two tcp_messages by (simp add: tcp_page_parts)
qed

end
