(* ===== verification/I2C_Communicators.thy ===== *)
theory I2C_Communicators
  imports Daemon_State Config
begin

text \<open>
  The four communicators that reach the shared memory over an I2C bus: through the device file
  of Linux (\<open>plugins/LinuxCommunicatorDev\<close>), the CGOS library of Congatec
  (\<open>plugins/CommunicatorCongatec\<close>), the SEMA library of Adlink (\<open>plugins/CommunicatorAdlink\<close>)
  and a USB adapter (\<open>plugins/WindowsCommunicatorI2CTinyUSB\<close>). The calls of the system and of
  the libraries are parameters over a state of the bus.
\<close>

section \<open>What the drivers share\<close>

text \<open>\<open>(offset >> 8) & 0xff\<close> and \<open>offset & 0xff\<close> in front of the data.\<close>

definition offset_bytes :: "nat \<Rightarrow> bytes" where
  "offset_bytes off = [word_of_nat (off div 256), word_of_nat off]"

text \<open>
  \<open>getMaxDataSize\<close> reads the header into a local variable of which only the size is set; while
  the size is 0 it tries the older addresses, and in the end goes back to the new one.
\<close>

definition header_into :: "(nat \<Rightarrow> nat \<Rightarrow> 'c \<Rightarrow> (int \<times> bytes \<times> 'c) res) \<Rightarrow> bytes \<Rightarrow> 'c \<Rightarrow> (bytes \<times> 'c) res" where
  "header_into rd buf c =
     bind_res (rd 0 sizeof_Daemon_Header c) (\<lambda>(_, w, c). bind_res (put_bytes buf 0 w) (\<lambda>buf. Inr (buf, c)))"

definition header_size :: "bytes \<Rightarrow> nat" where
  "header_size buf = unat (dh_size (dec_Daemon_Header buf))"

definition search_device :: "(nat \<Rightarrow> nat \<Rightarrow> 'c \<Rightarrow> (int \<times> bytes \<times> 'c) res) \<Rightarrow> (int \<Rightarrow> 'c \<Rightarrow> 'c) \<Rightarrow> int \<Rightarrow> int \<Rightarrow> int
    \<Rightarrow> bytes \<Rightarrow> 'c \<Rightarrow> (nat \<times> 'c) res" where
  "search_device rd select addr old1 old2 junk c =
     bind_res (header_into rd (overlay junk 4 [0, 0]) c) (\<lambda>(buf, c).
     if header_size buf \<noteq> 0 then Inr (header_size buf, c)
     else bind_res (header_into rd buf (select old1 c)) (\<lambda>(buf, c).
     if header_size buf \<noteq> 0 then Inr (header_size buf, c)
     else bind_res (header_into rd buf (select old2 c)) (\<lambda>(buf, c).
     if header_size buf \<noteq> 0 then Inr (header_size buf, c)
     else Inr (header_size buf, select addr c))))"

text \<open>A driver never calls back into the daemon.\<close>

definition driver_ops :: "('c \<Rightarrow> (bool \<times> 'c)) \<Rightarrow> ('c \<Rightarrow> (nat \<times> 'c) res) \<Rightarrow> (nat \<Rightarrow> nat \<Rightarrow> 'c \<Rightarrow> (int \<times> bytes \<times> 'c) res)
    \<Rightarrow> (nat \<Rightarrow> bytes \<Rightarrow> 'c \<Rightarrow> (int \<times> 'c) res) \<Rightarrow> 'c communicator" where
  "driver_ops ini maxsize rd wr = \<lparr>
     initInterface = (\<lambda>c. let (ok, c) = ini c in (ok, [], c)),
     getMaxDataSize = (\<lambda>c. bind_res (maxsize c) (\<lambda>(n, c). Inr (n, [], c))),
     readData = (\<lambda>off n c. bind_res (rd off n c) (\<lambda>(r, w, c). Inr (r, w, [], c))),
     writeData = (\<lambda>off b c. bind_res (wr off b c) (\<lambda>(r, c). Inr (r, [], c))) \<rparr>"

section \<open>The device file of Linux\<close>

text \<open>The calls of the system: \<open>open\<close> of bus number \<open>n\<close>, \<open>ioctl(I2C_SLAVE)\<close>, \<open>write\<close>, \<open>read\<close>, \<open>malloc\<close>, \<open>close\<close>.\<close>

record 'b dev_calls =
  open_bus :: "int \<Rightarrow> 'b \<Rightarrow> int \<times> 'b"
  set_slave :: "int \<Rightarrow> int \<Rightarrow> 'b \<Rightarrow> int \<times> 'b"
  write_file :: "int \<Rightarrow> bytes \<Rightarrow> 'b \<Rightarrow> int \<times> 'b"
  read_file :: "int \<Rightarrow> nat \<Rightarrow> 'b \<Rightarrow> int \<times> bytes \<times> 'b"
  dev_malloc :: "nat \<Rightarrow> bool"
  close_file :: "int \<Rightarrow> 'b \<Rightarrow> 'b"

record 'b dev_comm =
  dev_handle :: int
  dev_address :: int
  dev_bus :: 'b

definition dev_ctor :: "'b \<Rightarrow> 'b dev_comm" where
  "dev_ctor b = \<lparr> dev_handle = 0, dev_address = 0x54, dev_bus = b \<rparr>"

definition dev_select :: "'b dev_calls \<Rightarrow> int \<Rightarrow> 'b dev_comm \<Rightarrow> 'b dev_comm" where
  "dev_select k a c =
     (let (r, b) = set_slave k (dev_handle c) a (dev_bus c) in c \<lparr> dev_address := a, dev_bus := b \<rparr>)"

text \<open>\<open>I2C_PATH\<close> with a number of the configuration fits the 16 bytes for it up to 6 digits.\<close>

definition dev_path :: "int \<Rightarrow> string" where
  "dev_path n = ''/dev/i2c-'' @ show_int n"

definition dev_initInterface :: "'b dev_calls \<Rightarrow> int \<Rightarrow> config \<Rightarrow> 'b dev_comm \<Rightarrow> (bool \<times> 'b dev_comm) res" where
  "dev_initInterface k junk cfg c =
     (let i2cNr = GetInt junk cfg ''Comm'' ''i2cBus'' 0 in
      if 16 \<le> length (dev_path i2cNr) then Inl Bad_access
      else
        let (h, b) = open_bus k i2cNr (dev_bus c); c = c \<lparr> dev_handle := h, dev_bus := b \<rparr> in
        if h < 0 then Inr (False, c)
        else
          let (addressed, b) = set_slave k h (dev_address c) b
          in Inr (\<not> addressed < 0, c \<lparr> dev_bus := b \<rparr>))"

definition dev_dtor :: "'b dev_calls \<Rightarrow> 'b dev_comm \<Rightarrow> 'b" where
  "dev_dtor k c = (if 0 < dev_handle c then close_file k (dev_handle c) (dev_bus c) else dev_bus c)"

definition dev_readData :: "'b dev_calls \<Rightarrow> nat \<Rightarrow> nat \<Rightarrow> 'b dev_comm \<Rightarrow> (int \<times> bytes \<times> 'b dev_comm) res" where
  "dev_readData k off count c =
     (if dev_handle c \<le> 0 then Inr (-3, [], c)
      else
        let (written, b) = write_file k (dev_handle c) (offset_bytes off) (dev_bus c); c = c \<lparr> dev_bus := b \<rparr> in
        if written < 2 then Inr (written, [], c)
        else let (got, w, b) = read_file k (dev_handle c) count (dev_bus c) in Inr (got, w, c \<lparr> dev_bus := b \<rparr>))"

definition dev_writeData :: "'b dev_calls \<Rightarrow> nat \<Rightarrow> bytes \<Rightarrow> 'b dev_comm \<Rightarrow> (int \<times> 'b dev_comm) res" where
  "dev_writeData k off dat c =
     (if dev_handle c \<le> 0 then Inr (-3, c)
      else if \<not> dev_malloc k (length dat + 2) then Inr (-4, c)
      else
        let (written, b) = write_file k (dev_handle c) (offset_bytes off @ dat) (dev_bus c)
        in Inr (written, c \<lparr> dev_bus := b \<rparr>))"

definition dev_getMaxDataSize :: "'b dev_calls \<Rightarrow> bytes \<Rightarrow> 'b dev_comm \<Rightarrow> (nat \<times> 'b dev_comm) res" where
  "dev_getMaxDataSize k junk = search_device (dev_readData k) (dev_select k) 0x54 0x44 0x50 junk"

section \<open>The CGOS library of Congatec\<close>

text \<open>A handle of 0 is no board, a bus of \<open>ULONG_MAX\<close> is none.\<close>

record 'b cgos_calls =
  CgosLibInitialize :: "'b \<Rightarrow> bool \<times> 'b"
  CgosLibInstall :: "'b \<Rightarrow> bool \<times> 'b"
  CgosLibGetVersion :: "'b \<Rightarrow> nat"
  CgosLibGetDrvVersion :: "'b \<Rightarrow> nat"
  CgosBoardOpen :: "'b \<Rightarrow> (bool \<times> nat) \<times> 'b"
  CgosBoardClose :: "nat \<Rightarrow> 'b \<Rightarrow> 'b"
  CgosLibUninitialize :: "'b \<Rightarrow> 'b"
  CgosI2CCount :: "'b \<Rightarrow> nat"
  CgosI2CType :: "nat \<Rightarrow> 'b \<Rightarrow> nat"
  CgosI2CGetMaxFrequency :: "nat \<Rightarrow> 'b \<Rightarrow> nat"
  CgosI2CSetFrequency :: "nat \<Rightarrow> nat \<Rightarrow> 'b \<Rightarrow> 'b"
  CgosI2CWrite :: "nat \<Rightarrow> int \<Rightarrow> bytes \<Rightarrow> 'b \<Rightarrow> bool \<times> 'b"
  CgosI2CRead :: "nat \<Rightarrow> int \<Rightarrow> nat \<Rightarrow> 'b \<Rightarrow> bool \<times> bytes \<times> 'b"
  cgos_malloc :: "nat \<Rightarrow> bool"
  CGOS_I2C_TYPE_PRIMARY :: nat

record 'b cgos_comm =
  cgos_handle :: nat
  cgos_i2c_bus :: nat
  cgos_address :: int
  cgos_bus :: 'b

definition ULONG_MAX :: nat where "ULONG_MAX = 2 ^ 64 - 1"

definition cgos_ctor :: "'b \<Rightarrow> 'b cgos_comm" where
  "cgos_ctor b = \<lparr> cgos_handle = 0, cgos_i2c_bus = ULONG_MAX, cgos_address = 0xA8, cgos_bus = b \<rparr>"

text \<open>Initialise; if that fails, install the driver and try once more.\<close>

definition cgos_library :: "'b cgos_calls \<Rightarrow> 'b \<Rightarrow> bool \<times> 'b" where
  "cgos_library k b =
     (let (ok, b) = CgosLibInitialize k b in
      if ok then (True, b)
      else let (ok, b) = CgosLibInstall k b in
           if \<not> ok then (False, b) else CgosLibInitialize k b)"

text \<open>The first bus of the primary type.\<close>

definition primary_bus :: "'b cgos_calls \<Rightarrow> 'b \<Rightarrow> nat" where
  "primary_bus k b =
     (case find_idx (\<lambda>u. CgosI2CType k u b = CGOS_I2C_TYPE_PRIMARY k) [0..<CgosI2CCount k b] of
        None \<Rightarrow> ULONG_MAX | Some u \<Rightarrow> u)"

definition I2C_SPEED :: nat where "I2C_SPEED = 400000"

definition cgos_initInterface :: "'b cgos_calls \<Rightarrow> 'b cgos_comm \<Rightarrow> bool \<times> 'b cgos_comm" where
  "cgos_initInterface k c =
     (let (ok, b) = cgos_library k (cgos_bus c); c = c \<lparr> cgos_bus := b \<rparr> in
      if \<not> ok then (False, c)
      else if CgosLibGetVersion k b < 0x0102000A \<or> CgosLibGetDrvVersion k b < 0x0102000A then (False, c)
      else
        let ((opened, h), b) = CgosBoardOpen k b; c = c \<lparr> cgos_handle := h, cgos_bus := b \<rparr> in
        if \<not> opened then (False, c)
        else
          let u = primary_bus k b; c = (if u = ULONG_MAX then c else c \<lparr> cgos_i2c_bus := u \<rparr>) in
          if cgos_i2c_bus c = ULONG_MAX
          then (False, if h \<noteq> 0 then c \<lparr> cgos_handle := 0, cgos_bus := CgosBoardClose k h b \<rparr> else c)
          else if I2C_SPEED \<le> CgosI2CGetMaxFrequency k (cgos_i2c_bus c) b
          then (True, c \<lparr> cgos_bus := CgosI2CSetFrequency k (cgos_i2c_bus c) I2C_SPEED b \<rparr>)
          else (True, c))"

definition cgos_dtor :: "'b cgos_calls \<Rightarrow> 'b cgos_comm \<Rightarrow> 'b" where
  "cgos_dtor k c =
     CgosLibUninitialize k (if cgos_handle c \<noteq> 0 then CgosBoardClose k (cgos_handle c) (cgos_bus c) else cgos_bus c)"

definition cgos_select :: "int \<Rightarrow> 'b cgos_comm \<Rightarrow> 'b cgos_comm" where
  "cgos_select a c = c \<lparr> cgos_address := a \<rparr>"

definition cgos_readData :: "'b cgos_calls \<Rightarrow> nat \<Rightarrow> nat \<Rightarrow> 'b cgos_comm \<Rightarrow> (int \<times> bytes \<times> 'b cgos_comm) res" where
  "cgos_readData k off count c =
     (if cgos_handle c = 0 \<or> cgos_i2c_bus c = ULONG_MAX then Inr (-3, [], c)
      else
        let (ok, b) = CgosI2CWrite k (cgos_i2c_bus c) (cgos_address c) (offset_bytes off) (cgos_bus c);
            c = c \<lparr> cgos_bus := b \<rparr> in
        if \<not> ok then Inr (-2, [], c)
        else
          let (ok, w, b) = CgosI2CRead k (cgos_i2c_bus c) (cgos_address c OR 1) count b; c = c \<lparr> cgos_bus := b \<rparr>
          in if ok then Inr (int count, w, c) else Inr (-1, w, c))"

definition cgos_writeData :: "'b cgos_calls \<Rightarrow> nat \<Rightarrow> bytes \<Rightarrow> 'b cgos_comm \<Rightarrow> (int \<times> 'b cgos_comm) res" where
  "cgos_writeData k off dat c =
     (if cgos_handle c = 0 \<or> cgos_i2c_bus c = ULONG_MAX then Inr (-3, c)
      else if \<not> cgos_malloc k (length dat + 2) then Inr (-4, c)
      else
        let (ok, b) = CgosI2CWrite k (cgos_i2c_bus c) (cgos_address c) (offset_bytes off @ dat) (cgos_bus c);
            c = c \<lparr> cgos_bus := b \<rparr>
        in if \<not> ok then Inr (-1, c) else Inr (int (length dat), c))"

definition cgos_getMaxDataSize :: "'b cgos_calls \<Rightarrow> bytes \<Rightarrow> 'b cgos_comm \<Rightarrow> (nat \<times> 'b cgos_comm) res" where
  "cgos_getMaxDataSize k junk = search_device (cgos_readData k) cgos_select 0xA8 0x88 0xA0 junk"

section \<open>The SEMA library of Adlink\<close>

text \<open>\<open>WriteReadRaw\<close> writes the offset and reads a block in one transaction; both calls are
  tried twice. A status of 0 is success.\<close>

record 'b sema_calls =
  SemaEApiLibInitialize :: "'b \<Rightarrow> (nat \<times> nat) \<times> 'b"
  SemaEApiLibUnInitialize :: "nat \<Rightarrow> 'b \<Rightarrow> 'b"
  SemaEApiI2CWriteReadRaw :: "int \<Rightarrow> bytes \<Rightarrow> nat \<Rightarrow> 'b \<Rightarrow> nat \<times> bytes \<times> 'b"
  SemaEApiI2CWriteRaw :: "int \<Rightarrow> bytes \<Rightarrow> 'b \<Rightarrow> nat \<times> 'b"
  sema_malloc :: "nat \<Rightarrow> bool"

record 'b sema_comm =
  sema_handle :: nat
  sema_address :: int
  mMaxBlockLen :: nat
  sema_bus :: 'b

definition sema_ctor :: "'b \<Rightarrow> 'b sema_comm" where
  "sema_ctor b = \<lparr> sema_handle = 0, sema_address = 0xA8, mMaxBlockLen = 29, sema_bus = b \<rparr>"

definition sema_initInterface :: "'b sema_calls \<Rightarrow> 'b sema_comm \<Rightarrow> bool \<times> 'b sema_comm" where
  "sema_initInterface k c =
     (let ((ret, h), b) = SemaEApiLibInitialize k (sema_bus c)
      in (ret = 0, c \<lparr> sema_handle := h, sema_bus := b \<rparr>))"

definition sema_dtor :: "'b sema_calls \<Rightarrow> 'b sema_comm \<Rightarrow> 'b" where
  "sema_dtor k c = (if sema_handle c \<noteq> 0 then SemaEApiLibUnInitialize k (sema_handle c) (sema_bus c) else sema_bus c)"

definition sema_select :: "int \<Rightarrow> 'b sema_comm \<Rightarrow> 'b sema_comm" where
  "sema_select a c = c \<lparr> sema_address := a \<rparr>"

text \<open>One block; the bytes of a failed first try are overwritten by the second.\<close>

definition read_block :: "'b sema_calls \<Rightarrow> int \<Rightarrow> bytes \<Rightarrow> nat \<Rightarrow> 'b \<Rightarrow> nat \<times> bytes \<times> 'b" where
  "read_block k a offs n b =
     (let (ret, w, b) = SemaEApiI2CWriteReadRaw k a offs n b in
      if ret \<noteq> 0 then
        let (ret, w', b) = SemaEApiI2CWriteReadRaw k a offs n b in (ret, w' @ drop (length w') w, b)
      else (ret, w, b))"

definition write_block :: "'b sema_calls \<Rightarrow> int \<Rightarrow> bytes \<Rightarrow> 'b \<Rightarrow> nat \<times> 'b" where
  "write_block k a dat b =
     (let (ret, b) = SemaEApiI2CWriteRaw k a dat b in
      if ret \<noteq> 0 then SemaEApiI2CWriteRaw k a dat b else (ret, b))"

text \<open>The loops over \<open>remaining\<close> bytes at \<open>pos\<close>; \<open>buf\<close> is what the buffer holds so far. A block
  length of 0 never ends the loop (\<open>mMaxBlockLen\<close> is 29).\<close>

function read_blocks :: "'b sema_calls \<Rightarrow> nat \<Rightarrow> int \<Rightarrow> nat \<Rightarrow> nat \<Rightarrow> nat \<Rightarrow> bytes \<Rightarrow> 'b \<Rightarrow> (bool \<times> bytes \<times> 'b) res" where
  "read_blocks k maxLen a off remaining pos buf b =
     (if remaining = 0 then Inr (True, buf, b)
      else
        let n = min remaining maxLen; (ret, w, b) = read_block k a (offset_bytes (off + pos)) n b; buf = take pos buf @ w in
        if ret \<noteq> 0 then Inr (False, buf, b)
        else if n = 0 then Inl Diverges
        else read_blocks k maxLen a off (remaining - n) (pos + n) buf b)"
  by pat_completeness auto
termination by (relation "measure (\<lambda>(_, _, _, _, remaining, _). remaining)") auto

function write_blocks :: "'b sema_calls \<Rightarrow> nat \<Rightarrow> int \<Rightarrow> nat \<Rightarrow> bytes \<Rightarrow> nat \<Rightarrow> 'b \<Rightarrow> (bool \<times> 'b) res" where
  "write_blocks k maxLen a off dat pos b =
     (if dat = [] then Inr (True, b)
      else
        let n = min (length dat) maxLen; (ret, b) = write_block k a (offset_bytes (off + pos) @ take n dat) b in
        if ret \<noteq> 0 then Inr (False, b)
        else if n = 0 then Inl Diverges
        else write_blocks k maxLen a off (drop n dat) (pos + n) b)"
  by pat_completeness auto
termination by (relation "measure (\<lambda>(_, _, _, _, dat, _). length dat)") auto

declare read_blocks.simps [simp del] write_blocks.simps [simp del]

text \<open>\<open>remaining\<close> is a \<open>uint32_t\<close>.\<close>

definition sema_readData :: "'b sema_calls \<Rightarrow> nat \<Rightarrow> nat \<Rightarrow> 'b sema_comm \<Rightarrow> (int \<times> bytes \<times> 'b sema_comm) res" where
  "sema_readData k off count c =
     (if sema_handle c = 0 then Inr (-3, [], c)
      else bind_res (read_blocks k (mMaxBlockLen c) (sema_address c) off (count mod 2 ^ 32) 0 [] (sema_bus c)) (\<lambda>(ok, w, b).
        Inr (if ok then int count else -1, w, c \<lparr> sema_bus := b \<rparr>)))"

definition sema_writeData :: "'b sema_calls \<Rightarrow> nat \<Rightarrow> bytes \<Rightarrow> 'b sema_comm \<Rightarrow> (int \<times> 'b sema_comm) res" where
  "sema_writeData k off dat c =
     (if sema_handle c = 0 then Inr (-3, c)
      else if \<not> sema_malloc k (mMaxBlockLen c) then Inr (-4, c)
      else bind_res (write_blocks k (mMaxBlockLen c - 2) (sema_address c) off (take (length dat mod 2 ^ 32) dat) 0 (sema_bus c))
        (\<lambda>(ok, b). Inr (if ok then int (length dat) else -1, c \<lparr> sema_bus := b \<rparr>)))"

definition sema_getMaxDataSize :: "'b sema_calls \<Rightarrow> bytes \<Rightarrow> 'b sema_comm \<Rightarrow> (nat \<times> 'b sema_comm) res" where
  "sema_getMaxDataSize k junk = search_device (sema_readData k) sema_select 0xA8 0x88 0xA0 junk"

section \<open>The USB adapter\<close>

text \<open>
  \<open>usb_control_msg\<close> towards the device with data, from it with a number of bytes, and the status
  request, which gives a result and one byte. \<open>usb_devices\<close> are the devices of each bus with
  vendor and product; \<open>usb_open\<close> gives a handle or 0.
\<close>

record 'b usb_calls =
  usb_devices :: "(nat \<times> nat) list list"
  usb_open :: "nat \<Rightarrow> nat \<Rightarrow> 'b \<Rightarrow> nat \<times> 'b"
  usb_send :: "int \<Rightarrow> bytes \<Rightarrow> 'b \<Rightarrow> int \<times> 'b"
  usb_receive :: "int \<Rightarrow> nat \<Rightarrow> 'b \<Rightarrow> int \<times> bytes \<times> 'b"
  usb_status :: "'b \<Rightarrow> int \<times> u8 \<times> 'b"
  usb_malloc :: "nat \<Rightarrow> bool"
  usb_close :: "nat \<Rightarrow> 'b \<Rightarrow> 'b"

record 'b usb_comm =
  usb_handle :: nat
  usb_address :: int
  usb_bus :: 'b

definition usb_ctor :: "'b \<Rightarrow> 'b usb_comm" where
  "usb_ctor b = \<lparr> usb_handle = 0, usb_address = 0x54, usb_bus = b \<rparr>"

text \<open>\<open>break\<close> leaves the devices of one bus; the next bus is searched all the same.\<close>

fun open_first :: "'b usb_calls \<Rightarrow> nat \<Rightarrow> nat \<Rightarrow> (nat \<times> nat) list \<Rightarrow> 'b usb_comm \<Rightarrow> 'b usb_comm" where
  "open_first k i j [] c = c"
| "open_first k i j ((vid, pid) # ds) c =
     (if vid = 0x0403 \<and> pid = 0xc631
      then let (h, b) = usb_open k i j (usb_bus c) in c \<lparr> usb_handle := h, usb_bus := b \<rparr>
      else open_first k i (Suc j) ds c)"

fun search_busses :: "'b usb_calls \<Rightarrow> nat \<Rightarrow> (nat \<times> nat) list list \<Rightarrow> 'b usb_comm \<Rightarrow> 'b usb_comm" where
  "search_busses k i [] c = c"
| "search_busses k i (ds # bs) c = search_busses k (Suc i) bs (open_first k i 0 ds c)"

definition usb_initInterface :: "'b usb_calls \<Rightarrow> 'b usb_comm \<Rightarrow> bool \<times> 'b usb_comm" where
  "usb_initInterface k c = (let c = search_busses k 0 (usb_devices k) c in (usb_handle c \<noteq> 0, c))"

definition usb_dtor :: "'b usb_calls \<Rightarrow> 'b usb_comm \<Rightarrow> 'b" where
  "usb_dtor k c = (if usb_handle c \<noteq> 0 then usb_close k (usb_handle c) (usb_bus c) else usb_bus c)"

definition usb_select :: "int \<Rightarrow> 'b usb_comm \<Rightarrow> 'b usb_comm" where
  "usb_select a c = c \<lparr> usb_address := a \<rparr>"

definition STATUS_ADDRESS_ACK :: int where "STATUS_ADDRESS_ACK = 1"

text \<open>A failed status request gives its negative result.\<close>

definition i2c_tiny_usb_get_status :: "'b usb_calls \<Rightarrow> 'b usb_comm \<Rightarrow> int \<times> 'b usb_comm" where
  "i2c_tiny_usb_get_status k c =
     (if usb_handle c = 0 then (-1, c)
      else let (n, st, b) = usb_status k (usb_bus c); c = c \<lparr> usb_bus := b \<rparr>
           in if n < 0 then (n, c) else (uint st, c))"

definition usb_readData :: "'b usb_calls \<Rightarrow> nat \<Rightarrow> nat \<Rightarrow> 'b usb_comm \<Rightarrow> (int \<times> bytes \<times> 'b usb_comm) res" where
  "usb_readData k off count c =
     (if usb_handle c = 0 then Inr (-3, [], c)
      else
        let (r, b) = usb_send k (usb_address c) (offset_bytes off) (usb_bus c); c = c \<lparr> usb_bus := b \<rparr> in
        if r < 1 then Inr (-2, [], c)
        else
          let (r, w, b) = usb_receive k (usb_address c) count (usb_bus c); c = c \<lparr> usb_bus := b \<rparr> in
          if r < 1 then Inr (-2, w, c)
          else
            let (status, c) = i2c_tiny_usb_get_status k c
            in if status \<noteq> STATUS_ADDRESS_ACK then Inr (-1, w, c) else Inr (int count, w, c))"

definition usb_writeData :: "'b usb_calls \<Rightarrow> nat \<Rightarrow> bytes \<Rightarrow> 'b usb_comm \<Rightarrow> (int \<times> 'b usb_comm) res" where
  "usb_writeData k off dat c =
     (if usb_handle c = 0 then Inr (-3, c)
      else if \<not> usb_malloc k (length dat + 2) then Inr (-4, c)
      else
        let (r, b) = usb_send k (usb_address c) (offset_bytes off @ dat) (usb_bus c); c = c \<lparr> usb_bus := b \<rparr> in
        if r < 1 then Inr (-2, c)
        else
          let (status, c) = i2c_tiny_usb_get_status k c
          in if status \<noteq> STATUS_ADDRESS_ACK then Inr (0, c) else Inr (int (length dat), c))"

definition usb_getMaxDataSize :: "'b usb_calls \<Rightarrow> bytes \<Rightarrow> 'b usb_comm \<Rightarrow> (nat \<times> 'b usb_comm) res" where
  "usb_getMaxDataSize k junk = search_device (usb_readData k) usb_select 0x54 0x44 0x50 junk"

end
