(* ===== verification/I2C_Properties.thy ===== *)
theory I2C_Properties
  imports I2C_Communicators
begin

text \<open>
  What the I2C communicators promise (\<open>plugins/*/src/Communicator.cpp\<close>) when the calls of the
  system or the library reach a device with a memory: every driver reads and writes that
  memory, the one that splits its accesses into blocks like the ones that do not, and the
  search for the device ends at the address where it answers.
\<close>

section \<open>A device with a memory\<close>

text \<open>
  The documented behaviour of such a device: a write of two bytes sets its pointer, further
  bytes are stored from there, and a read gives the bytes from the pointer on. \<open>wr\<close> and \<open>rd\<close>
  are the transactions with whether they succeeded, \<open>contents\<close> and \<open>ptr\<close> what the state of the
  bus says of the device.
\<close>

definition serves :: "(bytes \<Rightarrow> 'b \<Rightarrow> bool \<times> 'b) \<Rightarrow> (nat \<Rightarrow> 'b \<Rightarrow> bool \<times> bytes \<times> 'b) \<Rightarrow> ('b \<Rightarrow> bytes) \<Rightarrow> ('b \<Rightarrow> nat) \<Rightarrow> bool" where
  "serves wr rd contents ptr \<longleftrightarrow>
     (\<forall>off b. off < 65536 \<longrightarrow> (\<exists>b'. wr (offset_bytes off) b = (True, b') \<and> ptr b' = off \<and> contents b' = contents b)) \<and>
     (\<forall>off dat b. dat \<noteq> [] \<and> off + length dat \<le> length (contents b) \<and> off < 65536 \<longrightarrow>
        (\<exists>b'. wr (offset_bytes off @ dat) b = (True, b') \<and> contents b' = overlay (contents b) off dat)) \<and>
     (\<forall>n b. ptr b + n \<le> length (contents b) \<longrightarrow>
        (\<exists>b'. rd n b = (True, take n (drop (ptr b) (contents b)), b') \<and> contents b' = contents b))"

lemma serves_seek:
  "serves wr rd contents ptr \<Longrightarrow> off < 65536 \<Longrightarrow>
     \<exists>b'. wr (offset_bytes off) b = (True, b') \<and> ptr b' = off \<and> contents b' = contents b"
  unfolding serves_def by blast

lemma serves_write:
  "serves wr rd contents ptr \<Longrightarrow> dat \<noteq> [] \<Longrightarrow> off + length dat \<le> length (contents b) \<Longrightarrow> off < 65536 \<Longrightarrow>
     \<exists>b'. wr (offset_bytes off @ dat) b = (True, b') \<and> contents b' = overlay (contents b) off dat"
  unfolding serves_def by blast

lemma serves_read:
  "serves wr rd contents ptr \<Longrightarrow> ptr b + n \<le> length (contents b) \<Longrightarrow>
     \<exists>b'. rd n b = (True, take n (drop (ptr b) (contents b)), b') \<and> contents b' = contents b"
  unfolding serves_def by blast

text \<open>The transactions of the drivers that use two of them to read.\<close>

definition dev_wr :: "'b dev_calls \<Rightarrow> int \<Rightarrow> bytes \<Rightarrow> 'b \<Rightarrow> bool \<times> 'b" where
  "dev_wr k h bs b = (let (r, b') = write_file k h bs b in (r = int (length bs), b'))"

definition dev_rd :: "'b dev_calls \<Rightarrow> int \<Rightarrow> nat \<Rightarrow> 'b \<Rightarrow> bool \<times> bytes \<times> 'b" where
  "dev_rd k h n b = (let (r, w, b') = read_file k h n b in (r = int n, w, b'))"

definition usb_wr :: "'b usb_calls \<Rightarrow> int \<Rightarrow> bytes \<Rightarrow> 'b \<Rightarrow> bool \<times> 'b" where
  "usb_wr k a bs b = (let (r, b') = usb_send k a bs b in (1 \<le> r, b'))"

definition usb_rd :: "'b usb_calls \<Rightarrow> int \<Rightarrow> nat \<Rightarrow> 'b \<Rightarrow> bool \<times> bytes \<times> 'b" where
  "usb_rd k a n b = (let (r, w, b') = usb_receive k a n b in (1 \<le> r, w, b'))"

definition acknowledges :: "'b usb_calls \<Rightarrow> ('b \<Rightarrow> bytes) \<Rightarrow> bool" where
  "acknowledges k contents \<longleftrightarrow> (\<forall>b. \<exists>n b'. usb_status k b = (n, 1, b') \<and> 0 \<le> n \<and> contents b' = contents b)"

text \<open>What a driver should do with a memory: reads show it, writes change it in place.\<close>

definition accesses :: "(nat \<Rightarrow> nat \<Rightarrow> 'c \<Rightarrow> (int \<times> bytes \<times> 'c) res) \<Rightarrow> (nat \<Rightarrow> bytes \<Rightarrow> 'c \<Rightarrow> (int \<times> 'c) res)
    \<Rightarrow> ('c \<Rightarrow> bytes) \<Rightarrow> 'c \<Rightarrow> bool" where
  "accesses rd wr mem c \<longleftrightarrow>
     (\<forall>off n. off + n \<le> length (mem c) \<and> off + n \<le> 65536 \<and> 0 < n \<longrightarrow>
        (\<exists>c'. rd off n c = Inr (int n, take n (drop off (mem c)), c') \<and> mem c' = mem c)) \<and>
     (\<forall>off dat. dat \<noteq> [] \<and> off + length dat \<le> length (mem c) \<and> off + length dat \<le> 65536 \<longrightarrow>
        (\<exists>c'. wr off dat c = Inr (int (length dat), c') \<and> mem c' = overlay (mem c) off dat))"

text \<open>As \<open>writeData\<close> of the device file returns what \<open>write\<close> returns, it counts the two bytes of
  the offset, too.\<close>

lemma dev_accesses:
  assumes "serves (dev_wr k (dev_handle c)) (dev_rd k (dev_handle c)) contents ptr" "0 < dev_handle c" "\<forall>n. dev_malloc k n"
  shows "accesses (dev_readData k) (\<lambda>off dat c. bind_res (dev_writeData k off dat c) (\<lambda>(r, c). Inr (r - 2, c)))
    (\<lambda>c. contents (dev_bus c)) c"
  unfolding accesses_def
proof (intro conjI allI impI; elim conjE)
  fix off n :: nat
  assume a: "off + n \<le> length (contents (dev_bus c))" "off + n \<le> 65536" "0 < n"
  then have "off < 65536" by simp
  from serves_seek [OF assms(1) this, of "dev_bus c"] obtain b where
    b: "write_file k (dev_handle c) (offset_bytes off) (dev_bus c) = (2, b)" "ptr b = off" "contents b = contents (dev_bus c)"
    by (auto simp: dev_wr_def offset_bytes_def split: prod.splits)
  from serves_read [OF assms(1), of b n] a b obtain b' where
    "read_file k (dev_handle c) n b = (int n, take n (drop off (contents b)), b')" "contents b' = contents b"
    by (auto simp: dev_rd_def split: prod.splits)
  with b assms(2) show "\<exists>c'. dev_readData k off n c = Inr (int n, take n (drop off (contents (dev_bus c))), c')
      \<and> contents (dev_bus c') = contents (dev_bus c)"
    by (simp add: dev_readData_def)
next
  fix off and dat :: bytes
  assume a: "dat \<noteq> []" "off + length dat \<le> length (contents (dev_bus c))" and "off + length dat \<le> 65536"
  from \<open>off + length dat \<le> 65536\<close> a(1) have "off < 65536" by (cases dat) simp_all
  from serves_write [OF assms(1) a this] obtain b where
    "write_file k (dev_handle c) (offset_bytes off @ dat) (dev_bus c) = (int (length dat) + 2, b)"
    "contents b = overlay (contents (dev_bus c)) off dat"
    by (auto simp: dev_wr_def offset_bytes_def split: prod.splits)
  with assms(2,3) show "\<exists>c'. bind_res (dev_writeData k off dat c) (\<lambda>(r, c). Inr (r - 2, c)) = Inr (int (length dat), c')
      \<and> contents (dev_bus c') = overlay (contents (dev_bus c)) off dat"
    by (simp add: dev_writeData_def)
qed

lemma cgos_accesses:
  assumes "serves (CgosI2CWrite k (cgos_i2c_bus c) (cgos_address c)) (CgosI2CRead k (cgos_i2c_bus c) (cgos_address c OR 1)) contents ptr"
    and "cgos_handle c \<noteq> 0" "cgos_i2c_bus c \<noteq> ULONG_MAX" "\<forall>n. cgos_malloc k n"
  shows "accesses (cgos_readData k) (cgos_writeData k) (\<lambda>c. contents (cgos_bus c)) c"
  unfolding accesses_def
proof (intro conjI allI impI; elim conjE)
  fix off n :: nat
  assume a: "off + n \<le> length (contents (cgos_bus c))" "off + n \<le> 65536" "0 < n"
  then have "off < 65536" by simp
  from serves_seek [OF assms(1) this, of "cgos_bus c"] obtain b where
    b: "CgosI2CWrite k (cgos_i2c_bus c) (cgos_address c) (offset_bytes off) (cgos_bus c) = (True, b)" "ptr b = off"
      "contents b = contents (cgos_bus c)" by blast
  from serves_read [OF assms(1), of b n] a b obtain b' where
    "CgosI2CRead k (cgos_i2c_bus c) (cgos_address c OR 1) n b = (True, take n (drop off (contents b)), b')" "contents b' = contents b"
    by auto
  with b assms(2,3) show "\<exists>c'. cgos_readData k off n c = Inr (int n, take n (drop off (contents (cgos_bus c))), c')
      \<and> contents (cgos_bus c') = contents (cgos_bus c)"
    by (simp add: cgos_readData_def)
next
  fix off and dat :: bytes
  assume a: "dat \<noteq> []" "off + length dat \<le> length (contents (cgos_bus c))" and "off + length dat \<le> 65536"
  from \<open>off + length dat \<le> 65536\<close> a(1) have "off < 65536" by (cases dat) simp_all
  from serves_write [OF assms(1) a this] assms(2-4) show "\<exists>c'. cgos_writeData k off dat c = Inr (int (length dat), c')
      \<and> contents (cgos_bus c') = overlay (contents (cgos_bus c)) off dat"
    by (auto simp: cgos_writeData_def)
qed

lemma usb_accesses:
  assumes "serves (usb_wr k (usb_address c)) (usb_rd k (usb_address c)) contents ptr" "acknowledges k contents"
    and "usb_handle c \<noteq> 0" "\<forall>n. usb_malloc k n"
  shows "accesses (usb_readData k) (usb_writeData k) (\<lambda>c. contents (usb_bus c)) c"
  unfolding accesses_def
proof (intro conjI allI impI; elim conjE)
  have st: "\<exists>c'. i2c_tiny_usb_get_status k d = (1, c') \<and> contents (usb_bus c') = contents (usb_bus d)" if "usb_handle d \<noteq> 0" for d
  proof -
    from assms(2) have "\<exists>n b'. usb_status k (usb_bus d) = (n, 1, b') \<and> 0 \<le> n \<and> contents b' = contents (usb_bus d)"
      unfolding acknowledges_def by blast
    then obtain n b' where "usb_status k (usb_bus d) = (n, 1, b')" "0 \<le> n" "contents b' = contents (usb_bus d)" by blast
    with that show ?thesis by (simp add: i2c_tiny_usb_get_status_def)
  qed
  {
    fix off n :: nat
    assume a: "off + n \<le> length (contents (usb_bus c))" "off + n \<le> 65536" "0 < n"
    then have "off < 65536" by simp
    from serves_seek [OF assms(1) this, of "usb_bus c"] obtain r b where
      b: "usb_send k (usb_address c) (offset_bytes off) (usb_bus c) = (r, b)" "1 \<le> r" "ptr b = off"
        "contents b = contents (usb_bus c)" by (auto simp: usb_wr_def split: prod.splits)
    from serves_read [OF assms(1), of b n] a b obtain r' b' where
      "usb_receive k (usb_address c) n b = (r', take n (drop off (contents b)), b')" "1 \<le> r'" "contents b' = contents b"
      by (auto simp: usb_rd_def split: prod.splits)
    moreover from st [of "c \<lparr> usb_bus := b' \<rparr>"] assms(3) obtain c' where
      "i2c_tiny_usb_get_status k (c \<lparr> usb_bus := b' \<rparr>) = (1, c')" "contents (usb_bus c') = contents b'" by auto
    ultimately show "\<exists>c'. usb_readData k off n c = Inr (int n, take n (drop off (contents (usb_bus c))), c')
        \<and> contents (usb_bus c') = contents (usb_bus c)"
      using b assms(3) by (simp add: usb_readData_def STATUS_ADDRESS_ACK_def)
  next
    fix off and dat :: bytes
    assume a: "dat \<noteq> []" "off + length dat \<le> length (contents (usb_bus c))" and "off + length dat \<le> 65536"
    from \<open>off + length dat \<le> 65536\<close> a(1) have "off < 65536" by (cases dat) simp_all
  from serves_write [OF assms(1) a this] obtain r b where
      b: "usb_send k (usb_address c) (offset_bytes off @ dat) (usb_bus c) = (r, b)" "1 \<le> r"
        "contents b = overlay (contents (usb_bus c)) off dat" by (auto simp: usb_wr_def split: prod.splits)
    moreover from st [of "c \<lparr> usb_bus := b \<rparr>"] assms(3) obtain c' where
      "i2c_tiny_usb_get_status k (c \<lparr> usb_bus := b \<rparr>) = (1, c')" "contents (usb_bus c') = contents b" by auto
    ultimately show "\<exists>c'. usb_writeData k off dat c = Inr (int (length dat), c')
        \<and> contents (usb_bus c') = overlay (contents (usb_bus c)) off dat"
      using assms(3,4) by (simp add: usb_writeData_def STATUS_ADDRESS_ACK_def)
  }
qed

section \<open>Accesses in blocks\<close>

text \<open>
  What the driver's comment says of the board: values of up to 29 bytes reach the bus; longer
  ones are reported as executed and do not. So only of a block of at most 29 bytes, the offset
  of a write included, is anything known: it succeeds at the first or at the second try.
\<close>

definition bus_block :: nat where "bus_block = 29"

definition serves_blocks :: "'b sema_calls \<Rightarrow> int \<Rightarrow> ('b \<Rightarrow> bytes) \<Rightarrow> bool" where
  "serves_blocks k a contents \<longleftrightarrow>
     (\<forall>off n b. n \<le> bus_block \<and> off + n \<le> length (contents b) \<and> off < 65536 \<longrightarrow>
        (\<exists>b'. read_block k a (offset_bytes off) n b = (0, take n (drop off (contents b)), b') \<and> contents b' = contents b)) \<and>
     (\<forall>off dat b. length (offset_bytes off @ dat) \<le> bus_block \<and> off + length dat \<le> length (contents b) \<and> off < 65536 \<longrightarrow>
        (\<exists>b'. write_block k a (offset_bytes off @ dat) b = (0, b') \<and> contents b' = overlay (contents b) off dat))"

lemma read_blocks_whole:
  assumes "serves_blocks k a contents" "0 < len" "len \<le> bus_block"
  shows "length buf = pos \<Longrightarrow> off + pos + remaining \<le> length (contents b) \<Longrightarrow> off + pos + remaining \<le> 65536 \<Longrightarrow>
    \<exists>b'. read_blocks k len a off remaining pos buf b = Inr (True, buf @ take remaining (drop (off + pos) (contents b)), b')
      \<and> contents b' = contents b"
proof (induction remaining arbitrary: pos buf b rule: less_induct)
  case (less remaining)
  show ?case
  proof (cases "remaining = 0")
    case False
    let ?n = "min remaining len"
    have fit: "off + pos + ?n \<le> length (contents b)" "off + pos < 65536" using less.prems(2,3) False by simp_all
    have "?n \<le> bus_block" using assms(3) by simp
    with assms(1) fit obtain b1 where
      b1: "read_block k a (offset_bytes (off + pos)) ?n b = (0, take ?n (drop (off + pos) (contents b)), b1)" "contents b1 = contents b"
      unfolding serves_blocks_def by blast
    let ?buf = "buf @ take ?n (drop (off + pos) (contents b))"
    have l: "length ?buf = pos + ?n" using less.prems by simp
    have lt: "remaining - ?n < remaining" using False assms(2) by simp
    have le: "off + (pos + ?n) + (remaining - ?n) \<le> length (contents b1)" using less.prems b1(2) by simp
    from less.IH [OF lt l le] less.prems(3) obtain b' where
      b': "read_blocks k len a off (remaining - ?n) (pos + ?n) ?buf b1
        = Inr (True, ?buf @ take (remaining - ?n) (drop (off + (pos + ?n)) (contents b1)), b')" "contents b' = contents b1" by auto
    have "take ?n (drop (off + pos) (contents b)) @ take (remaining - ?n) (drop (off + (pos + ?n)) (contents b))
        = take (?n + (remaining - ?n)) (drop (off + pos) (contents b))"
      unfolding take_add by (simp add: ac_simps)
    then have "?buf @ take (remaining - ?n) (drop (off + (pos + ?n)) (contents b1)) = buf @ take remaining (drop (off + pos) (contents b))"
      using b1(2) by simp
    moreover have "read_blocks k len a off remaining pos buf b = read_blocks k len a off (remaining - ?n) (pos + ?n) ?buf b1"
      using False b1(1) less.prems(1) assms(2) by (subst read_blocks.simps) (simp add: Let_def min_def)
    ultimately show ?thesis using b' b1(2) by simp
  qed (simp add: read_blocks.simps)
qed

lemma overlay_overlay:
  "off + length xs + length ys \<le> length buf \<Longrightarrow> overlay (overlay buf off xs) (off + length xs) ys = overlay buf off (xs @ ys)"
  by (cases "off = length buf") (auto simp: overlay_def min_def ac_simps)

lemma write_blocks_whole:
  assumes "serves_blocks k a contents" "0 < len" "len + 2 \<le> bus_block"
  shows "off + pos + length dat \<le> length (contents b) \<Longrightarrow> off + pos + length dat \<le> 65536 \<Longrightarrow>
    \<exists>b'. write_blocks k len a off dat pos b = Inr (True, b') \<and> contents b' = overlay (contents b) (off + pos) dat"
proof (induction "length dat" arbitrary: dat pos b rule: less_induct)
  case less
  show ?case
  proof (cases "dat = []")
    case True
    then show ?thesis by (simp add: overlay_def write_blocks.simps)
  next
    case False
    let ?n = "min (length dat) len"
    have fit: "off + pos + length (take ?n dat) \<le> length (contents b)" using less.prems by simp
    have small: "off + pos < 65536" using less.prems(2) False by (cases dat) simp_all
    have "length (offset_bytes (off + pos) @ take ?n dat) \<le> bus_block" using assms(3) by (simp add: offset_bytes_def)
    with assms(1) fit small obtain b1 where
      b1: "write_block k a (offset_bytes (off + pos) @ take ?n dat) b = (0, b1)"
        "contents b1 = overlay (contents b) (off + pos) (take ?n dat)"
      unfolding serves_blocks_def by blast
    have lt: "length (drop ?n dat) < length dat" using False assms(2) by simp
    have "length (contents b1) = length (contents b)" unfolding b1(2) by (rule length_overlay [OF fit])
    then have le: "off + (pos + ?n) + length (drop ?n dat) \<le> length (contents b1)" using less.prems by simp
    have "off + (pos + ?n) + length (drop ?n dat) \<le> 65536" using less.prems(2) by simp
    from less.hyps [OF lt le this] obtain b' where
      b': "write_blocks k len a off (drop ?n dat) (pos + ?n) b1 = Inr (True, b')"
        "contents b' = overlay (contents b1) (off + (pos + ?n)) (drop ?n dat)" by blast
    have "overlay (overlay (contents b) (off + pos) (take ?n dat)) (off + pos + length (take ?n dat)) (drop ?n dat)
        = overlay (contents b) (off + pos) (take ?n dat @ drop ?n dat)"
      by (rule overlay_overlay) (use less.prems in simp)
    then have "contents b' = overlay (contents b) (off + pos) dat" using b'(2) b1(2) by (simp add: add.assoc)
    moreover have "write_blocks k len a off dat pos b = write_blocks k len a off (drop ?n dat) (pos + ?n) b1"
      using False b1(1) assms(2) by (subst write_blocks.simps) (simp add: Let_def min_def)
    ultimately show ?thesis using b'(1) by simp
  qed
qed

lemma sema_accesses:
  assumes "serves_blocks k (sema_address c) contents" "sema_handle c \<noteq> 0" "2 < mMaxBlockLen c" "mMaxBlockLen c \<le> bus_block"
    and "\<forall>n. sema_malloc k n"
  shows "accesses (sema_readData k) (sema_writeData k) (\<lambda>c. contents (sema_bus c)) c"
  unfolding accesses_def
proof (intro conjI allI impI; elim conjE)
  fix off n :: nat
  assume a: "off + n \<le> length (contents (sema_bus c))" "off + n \<le> 65536"
  have n: "n mod 4294967296 = n" using a(2) by simp
  from read_blocks_whole [OF assms(1), of "mMaxBlockLen c" "[]" 0 off n "sema_bus c"] a assms(3,4) obtain b' where
    "read_blocks k (mMaxBlockLen c) (sema_address c) off n 0 [] (sema_bus c)
      = Inr (True, take n (drop off (contents (sema_bus c))), b')" "contents b' = contents (sema_bus c)" by auto
  with assms(2) show "\<exists>c'. sema_readData k off n c = Inr (int n, take n (drop off (contents (sema_bus c))), c')
      \<and> contents (sema_bus c') = contents (sema_bus c)"
    by (simp add: sema_readData_def n)
next
  fix off and dat :: bytes
  assume a: "off + length dat \<le> length (contents (sema_bus c))" "off + length dat \<le> 65536"
  have n: "length dat mod 4294967296 = length dat" using a(2) by simp
  have w: "0 < mMaxBlockLen c - 2" "mMaxBlockLen c - 2 + 2 \<le> bus_block" using assms(3,4) by simp_all
  from write_blocks_whole [OF assms(1) w, of off 0 dat "sema_bus c"] a assms(3,4) obtain b' where
    "write_blocks k (mMaxBlockLen c - 2) (sema_address c) off dat 0 (sema_bus c) = Inr (True, b')"
    "contents b' = overlay (contents (sema_bus c)) off dat" by auto
  with assms(2,5) show "\<exists>c'. sema_writeData k off dat c = Inr (int (length dat), c')
      \<and> contents (sema_bus c') = overlay (contents (sema_bus c)) off dat"
    by (simp add: sema_writeData_def n)
qed

lemma accesses_read:
  "accesses rd wr mem c \<Longrightarrow> off + n \<le> length (mem c) \<Longrightarrow> off + n \<le> 65536 \<Longrightarrow> 0 < n \<Longrightarrow>
     \<exists>c'. rd off n c = Inr (int n, take n (drop off (mem c)), c') \<and> mem c' = mem c"
  unfolding accesses_def by blast

lemma accesses_write:
  "accesses rd wr mem c \<Longrightarrow> off + length dat \<le> length (mem c) \<Longrightarrow> off + length dat \<le> 65536 \<Longrightarrow> dat \<noteq> [] \<Longrightarrow>
     \<exists>c'. wr off dat c = Inr (int (length dat), c') \<and> mem c' = overlay (mem c) off dat"
  unfolding accesses_def by blast

section \<open>Properties\<close>

text \<open>C18: on a board whose bus carries at most 29 bytes at a time, the driver that splits its accesses has the
  effect of the one that moves everything at once: on devices with the same memory both read
  the same bytes, and what both write leaves the same memory. No block is too long for the bus,
  neither one that is read nor one that is written behind its offset.\<close>

theorem blocks_equal_one_access:
  assumes "serves (CgosI2CWrite k (cgos_i2c_bus c) (cgos_address c)) (CgosI2CRead k (cgos_i2c_bus c) (cgos_address c OR 1)) mem ptr"
    and "cgos_handle c \<noteq> 0" "cgos_i2c_bus c \<noteq> ULONG_MAX" "\<forall>n. cgos_malloc k n"
    and "serves_blocks l (sema_address d) mem'" "sema_handle d \<noteq> 0" "mMaxBlockLen d = mMaxBlockLen (sema_ctor b0)" "\<forall>n. sema_malloc l n"
    and "mem (cgos_bus c) = mem' (sema_bus d)" "off + n \<le> length (mem (cgos_bus c))" "off + n \<le> 65536" "0 < n"
  shows "(\<exists>b c' d'. cgos_readData k off n c = Inr (int n, b, c') \<and> sema_readData l off n d = Inr (int n, b, d')
      \<and> mem (cgos_bus c') = mem' (sema_bus d')) \<and>
    (length dat = n \<longrightarrow> (\<exists>c' d'. cgos_writeData k off dat c = Inr (int n, c') \<and> sema_writeData l off dat d = Inr (int n, d')
      \<and> mem (cgos_bus c') = mem' (sema_bus d')))"
proof -
  note a = cgos_accesses [OF assms(1-4)] and b = sema_accesses [OF assms(5,6) _ _ assms(8)]
  have m: "2 < mMaxBlockLen d" "mMaxBlockLen d \<le> bus_block" using assms(7) by (simp_all add: sema_ctor_def bus_block_def)
  have l: "off + n \<le> length (mem' (sema_bus d))" using assms(9,10) by simp
  show ?thesis
  proof (intro conjI impI)
    show "\<exists>b c' d'. cgos_readData k off n c = Inr (int n, b, c') \<and> sema_readData l off n d = Inr (int n, b, d')
        \<and> mem (cgos_bus c') = mem' (sema_bus d')"
      using accesses_read [OF a assms(10-12)] accesses_read [OF b [OF m] l assms(11,12)] assms(9) by auto
    assume "length dat = n"
    moreover from this assms(12) have "dat \<noteq> []" by auto
    ultimately show "\<exists>c' d'. cgos_writeData k off dat c = Inr (int n, c') \<and> sema_writeData l off dat d = Inr (int n, d')
        \<and> mem (cgos_bus c') = mem' (sema_bus d')"
      using accesses_write [OF a, of off dat] accesses_write [OF b [OF m], of off dat] assms(9-11) l by auto
  qed
qed

text \<open>A simulated device: its memory and its pointer.\<close>

definition sim_write :: "bytes \<Rightarrow> bytes \<times> nat \<Rightarrow> bool \<times> (bytes \<times> nat)" where
  "sim_write bs b = (let off = unat (bs ! 0) * 256 + unat (bs ! 1) in (True, (overlay (fst b) off (drop 2 bs), off)))"

definition sim_read :: "nat \<Rightarrow> bytes \<times> nat \<Rightarrow> bool \<times> bytes \<times> (bytes \<times> nat)" where
  "sim_read n b = (True, take n (drop (snd b) (fst b)), b)"

lemma sim_offset: "off < 65536 \<Longrightarrow> unat ((offset_bytes off @ bs) ! 0) * 256 + unat ((offset_bytes off @ bs) ! 1) = off"
  by (simp add: offset_bytes_def unat_of_nat take_bit_eq_mod)

lemma sim_serves: "serves sim_write sim_read fst snd"
proof -
  have w: "sim_write (offset_bytes off @ bs) b = (True, (overlay (fst b) off bs, off))" if "off < 65536" for off bs and b :: "bytes \<times> nat"
    using sim_offset [OF that, of bs] by (simp add: sim_write_def offset_bytes_def)
  have "overlay m off [] = m" for m :: bytes and off by (simp add: overlay_def)
  with w [of _ "[]"] w show ?thesis by (simp add: serves_def sim_read_def)
qed

definition sim_cgos :: "(bytes \<times> nat) cgos_calls" where
  "sim_cgos = \<lparr> CgosLibInitialize = (\<lambda>b. (True, b)), CgosLibInstall = (\<lambda>b. (True, b)),
     CgosLibGetVersion = (\<lambda>_. 0x0102000A), CgosLibGetDrvVersion = (\<lambda>_. 0x0102000A), CgosBoardOpen = (\<lambda>b. ((True, 1), b)),
     CgosBoardClose = (\<lambda>_ b. b), CgosLibUninitialize = (\<lambda>b. b), CgosI2CCount = (\<lambda>_. 1), CgosI2CType = (\<lambda>_ _. 7),
     CgosI2CGetMaxFrequency = (\<lambda>_ _. 100000), CgosI2CSetFrequency = (\<lambda>_ _ b. b),
     CgosI2CWrite = (\<lambda>_ _. sim_write), CgosI2CRead = (\<lambda>_ _. sim_read), cgos_malloc = (\<lambda>_. True),
     CGOS_I2C_TYPE_PRIMARY = 7 \<rparr>"

text \<open>The bus of the simulated board drops what is too long, without an error.\<close>

definition sim_sema :: "(bytes \<times> nat) sema_calls" where
  "sim_sema = \<lparr> SemaEApiLibInitialize = (\<lambda>b. ((0, 1), b)), SemaEApiLibUnInitialize = (\<lambda>_ b. b),
     SemaEApiI2CWriteReadRaw = (\<lambda>_ bs n b. if 29 < n then (0, [], b)
       else let (_, b) = sim_write bs b; (_, w, b) = sim_read n b in (0, w, b)),
     SemaEApiI2CWriteRaw = (\<lambda>_ bs b. (0, if 29 < length bs then b else snd (sim_write bs b))), sema_malloc = (\<lambda>_. True) \<rparr>"

lemma sim_serves_blocks: "serves_blocks sim_sema a fst"
proof -
  have w: "sim_write (offset_bytes off @ bs) b = (True, (overlay (fst b) off bs, off))" if "off < 65536" for off bs and b :: "bytes \<times> nat"
    using sim_offset [OF that, of bs] by (simp add: sim_write_def offset_bytes_def)
  have "overlay m off [] = m" for m :: bytes and off by (simp add: overlay_def)
  with w [of _ "[]"] w show ?thesis
    by (simp add: serves_blocks_def read_block_def write_block_def sim_sema_def sim_read_def bus_block_def)
qed

lemma sim_calls: "CgosI2CWrite sim_cgos u a = sim_write" "CgosI2CRead sim_cgos u a = sim_read" "cgos_malloc sim_cgos n"
  "sema_malloc sim_sema n"
  by (simp_all add: sim_cgos_def sim_sema_def)

definition sample_cgos :: "(bytes \<times> nat) cgos_comm" where
  "sample_cgos = \<lparr> cgos_handle = 1, cgos_i2c_bus = 0, cgos_address = 0xA8, cgos_bus = (replicate 200 3, 0) \<rparr>"

definition sample_sema :: "(bytes \<times> nat) sema_comm" where
  "sample_sema = (sema_ctor (replicate 200 3, 0)) \<lparr> sema_handle := 1 \<rparr>"

theorem blocks_equal_one_access_witness:
  "(\<exists>b c' d'. cgos_readData sim_cgos 10 100 sample_cgos = Inr (100, b, c') \<and> sema_readData sim_sema 10 100 sample_sema = Inr (100, b, d')) \<and>
   (\<exists>c' d'. cgos_writeData sim_cgos 10 (replicate 100 9) sample_cgos = Inr (100, c') \<and>
     sema_writeData sim_sema 10 (replicate 100 9) sample_sema = Inr (100, d') \<and> fst (cgos_bus c') = fst (sema_bus d'))"
proof -
  have c: "cgos_handle sample_cgos \<noteq> 0" "cgos_i2c_bus sample_cgos \<noteq> ULONG_MAX" "cgos_bus sample_cgos = (replicate 200 3, 0)"
    "sema_handle sample_sema \<noteq> 0" "mMaxBlockLen sample_sema = mMaxBlockLen (sema_ctor (replicate 200 3, 0))"
    "sema_bus sample_sema = (replicate 200 3, 0)"
    by (simp_all add: sample_cgos_def sample_sema_def sema_ctor_def ULONG_MAX_def)
  from blocks_equal_one_access [where k = sim_cgos and l = sim_sema and mem = fst and mem' = fst and ptr = snd
      and c = sample_cgos and d = sample_sema and off = 10 and n = 100 and dat = "replicate 100 9", OF _ c(1,2) _ _ c(4,5)]
  show ?thesis by (auto simp: sim_serves sim_serves_blocks sim_calls c(3,6))
qed

text \<open>The search finds the device at whichever of the three addresses it answers, keeps that address and
  gives its size; if it answers at none, the size is 0 and the address the newest.\<close>

theorem search_finds_device:
  assumes "\<And>c a. address (select a c) = a" "distinct [new, old1, old2]"
    and "\<And>c. \<exists>r c'. rd 0 14 c = Inr (r, if address c = home then hdr else [], c') \<and> address c' = address c"
    and "length hdr = 14" "header_size hdr \<noteq> 0" "length junk = 14" "address c = new"
  shows "\<exists>c'. search_device rd select new old1 old2 junk c =
      Inr (if home \<in> {new, old1, old2} then header_size hdr else 0, c') \<and>
    address c' = (if home \<in> {new, old1, old2} then home else new)"
proof -
  have present: "\<exists>c'. header_into rd buf c = Inr (hdr, c') \<and> address c' = address c" if "address c = home" "length buf = 14" for c buf
    using assms(3) [of c] assms(4) that
    by (auto simp: header_into_def sizeof_Daemon_Header_def put_bytes_ok overlay_def)
  have absent: "\<exists>c'. header_into rd buf c = Inr (buf, c') \<and> address c' = address c" if "address c \<noteq> home" for c buf
    using assms(3) [of c] that by (auto simp: header_into_def sizeof_Daemon_Header_def put_bytes_def overlay_def)
  let ?b = "overlay junk 4 [0, 0]"
  have b: "length ?b = 14" "header_size ?b = 0"
    using assms(6)
    by (simp_all add: length_overlay header_size_def dec_Daemon_Header_def overlay_def nth_append u16_load_def)
  consider "home = new" | "home = old1" "home \<noteq> new" | "home = old2" "home \<noteq> new" "home \<noteq> old1"
    | "home \<notin> {new, old1, old2}" by auto
  then show ?thesis
  proof cases
    case 1
    with present [of c ?b] b(1) assms(5,7) show ?thesis by (auto simp: search_device_def)
  next
    case 2
    from absent [of c ?b] 2 assms(7) obtain c1 where 1: "header_into rd ?b c = Inr (?b, c1)" by auto
    from present [of "select old1 c1" ?b] 2 b(1) assms(1) obtain c2 where
      "header_into rd ?b (select old1 c1) = Inr (hdr, c2)" "address c2 = old1" by auto
    with 1 2 b(2) assms(5) show ?thesis by (simp add: search_device_def)
  next
    case 3
    from absent [of c ?b] 3 assms(7) obtain c1 where 1: "header_into rd ?b c = Inr (?b, c1)" by auto
    from absent [of "select old1 c1" ?b] 3 assms(1) obtain c2 where 2: "header_into rd ?b (select old1 c1) = Inr (?b, c2)" by auto
    from present [of "select old2 c2" ?b] 3 b(1) assms(1) obtain c3 where
      "header_into rd ?b (select old2 c2) = Inr (hdr, c3)" "address c3 = old2" by auto
    with 1 2 3 b(2) assms(5) show ?thesis by (simp add: search_device_def)
  next
    case 4
    from absent [of c ?b] 4 assms(7) obtain c1 where 1: "header_into rd ?b c = Inr (?b, c1)" by auto
    from absent [of "select old1 c1" ?b] 4 assms(1) obtain c2 where 2: "header_into rd ?b (select old1 c1) = Inr (?b, c2)" by auto
    from absent [of "select old2 c2" ?b] 4 assms(1) obtain c3 where "header_into rd ?b (select old2 c2) = Inr (?b, c3)" by auto
    with 1 2 4 b(2) assms(1) show ?thesis by (simp add: search_device_def)
  qed
qed

theorem search_finds_device_witness:
  "\<exists>c'. search_device (\<lambda>off n c. Inr (14, if c = 0x44 then [82, 69, 67, 83, 0, 16, 1, 4, 3, 0, 14, 0, 14, 0] else [], c))
       (\<lambda>a _. a) 0x54 0x44 0x50 (replicate 14 9) (0x54 :: int) = Inr (4096, c') \<and> c' = 0x44"
proof -
  have h: "header_size [82, 69, 67, 83, 0, 16, 1, 4, 3, 0, 14, 0, 14, 0] = 4096"
    by (simp add: header_size_def dec_Daemon_Header_def u16_load_def)
  from search_finds_device [where address = "\<lambda>c. c" and select = "\<lambda>a _. a" and new = "0x54 :: int" and ?old1.0 = "0x44"
      and ?old2.0 = "0x50" and home = "0x44" and hdr = "[82, 69, 67, 83, 0, 16, 1, 4, 3, 0, 14, 0, 14, 0]"
      and junk = "replicate 14 9" and c = "0x54"
      and rd = "\<lambda>off n c. Inr (14, if c = 0x44 then [82, 69, 67, 83, 0, 16, 1, 4, 3, 0, 14, 0, 14, 0] else [], c)"]
  show ?thesis by (simp add: h)
qed

end
