(* ===== verification/Path_Names.thy ===== *)
theory Path_Names
  imports Prelude
begin

text \<open>
  File names and directories (\<open>daemon/src/plugin_framework/Path.cpp\<close>,
  \<open>daemon/src/plugin_framework/Directory.cpp\<close>). A \<open>std::string\<close> may hold NUL characters; the
  conversion of a \<open>Path\<close> to \<open>const char*\<close> cuts at the first. The file system is a parameter.
\<close>

text \<open>\<open>st_mode\<close> of \<open>stat\<close> and of \<open>lstat\<close>, if they succeed, the entries of a directory, if it can be
  opened, the target of a link, and the working directory (empty if it cannot be had).\<close>

record file_system =
  stat_mode :: "string \<Rightarrow> u32 option"
  lstat_mode :: "string \<Rightarrow> u32 option"
  opendir :: "string \<Rightarrow> string list option"
  readlink :: "string \<Rightarrow> string option"
  getCWD :: string

definition S_IFDIR :: u32 where "S_IFDIR = 0x4000"
definition S_IFMT :: u32 where "S_IFMT = 0xF000"
definition S_IFLNK :: u32 where "S_IFLNK = 0xA000"

definition path_exists :: "file_system \<Rightarrow> string \<Rightarrow> bool" where
  "path_exists fs path \<longleftrightarrow> path \<noteq> [] \<and> stat_mode fs (c_str path) \<noteq> None"

definition isDirectory :: "file_system \<Rightarrow> string \<Rightarrow> bool" where
  "isDirectory fs path = (case stat_mode fs (c_str path) of None \<Rightarrow> False | Some m \<Rightarrow> m AND S_IFDIR \<noteq> 0)"

definition isAbsolute :: "string \<Rightarrow> bool" where
  "isAbsolute path \<longleftrightarrow> path \<noteq> [] \<and> path ! 0 = CHR ''/''"

definition isSymbolicLink :: "file_system \<Rightarrow> string \<Rightarrow> bool" where
  "isSymbolicLink fs path = (case lstat_mode fs (c_str path) of None \<Rightarrow> False | Some m \<Rightarrow> m AND S_IFMT = S_IFLNK)"

text \<open>The length given to the constructor counts one character more than is left behind the
  separator: the NUL at the end of \<open>c_str()\<close> becomes part of the name.\<close>

definition getBasename :: "string \<Rightarrow> string" where
  "getBasename path =
     (case rfind_idx (\<lambda>c. c = CHR ''/'') path of
        None \<Rightarrow> path
      | Some i \<Rightarrow> drop (i + 1) path @ [CHR 0x00])"

definition getExtension :: "string \<Rightarrow> string res" where
  "getExtension path =
     (let filename = getBasename path in
      case rfind_idx (\<lambda>c. c = CHR ''.'') filename of
        None \<Rightarrow> Inr []
      | Some i \<Rightarrow>
          if i = 0 \<or> i = size_sub (length path) 1 then Inr []
          else substr (i + 1) (length filename) filename)"

text \<open>A trailing separator of the path, or an empty path, costs the working directory its last
  character.\<close>

definition path_makeAbsolute :: "file_system \<Rightarrow> string \<Rightarrow> string" where
  "path_makeAbsolute fs path =
     (if isAbsolute path then path
      else
        let cwd = getCWD fs in
        if take (length cwd) (c_str path) = cwd then path
        else
          let slash = rfind_idx (\<lambda>c. c = CHR ''/'') path;
              cwd = (if path = [] \<or> slash = Some (length path - 1) then butlast cwd else cwd)
          in if path \<noteq> [] \<and> path ! 0 = CHR ''/'' then cwd @ path else cwd @ ''/'' @ path)"

fun path_join :: "string list \<Rightarrow> string" where
  "path_join [] = []"
| "path_join [p] = p"
| "path_join (p # q # ps) = p @ ''/'' @ path_join (q # ps)"

text \<open>\<open>operator+\<close>, whose operands go through \<open>const char*\<close>.\<close>

definition path_plus :: "string \<Rightarrow> string \<Rightarrow> string" where
  "path_plus p q = path_join [c_str p, c_str q]"

text \<open>\<open>Iterator::next\<close>, until it gives nothing: without an open directory it reads through a null
  pointer.\<close>

fun next_entry :: "string list \<Rightarrow> (string \<times> string list) option" where
  "next_entry [] = None"
| "next_entry (e # es) = (if e = ''.'' \<or> e = ''..'' then next_entry es else Some (e, es))"

definition Iterator_init :: "file_system \<Rightarrow> string \<Rightarrow> string list option" where
  "Iterator_init fs path = opendir fs (c_str (path_makeAbsolute fs path))"

lemma next_entry_shorter: "next_entry es = Some (e, rest) \<Longrightarrow> length rest < length es"
  by (induction es rule: next_entry.induct) (auto split: if_splits)

section \<open>What the functions compute\<close>

lemma rfind_idx_none: "\<forall>y \<in> set ys. \<not> P y \<Longrightarrow> rfind_idx P ys = None"
  by (simp add: rfind_idx_def)

lemma rfind_idx_Some:
  assumes "rfind_idx P xs = Some i"
  shows "i < length xs" "P (xs ! i)" "\<forall>y \<in> set (drop (Suc i) xs). \<not> P y"
proof -
  from assms obtain k where k: "find_idx P (rev xs) = Some k" "i = length xs - 1 - k" by (auto simp: rfind_idx_def)
  then have a: "k < length xs" "P (rev xs ! k)" "\<forall>j < k. \<not> P (rev xs ! j)" by (auto simp: find_idx_Some)
  then show "i < length xs" "P (xs ! i)" using k(2) by (auto simp: rev_nth)
  show "\<forall>y \<in> set (drop (Suc i) xs). \<not> P y"
  proof
    fix y
    assume "y \<in> set (drop (Suc i) xs)"
    then obtain j where j: "j < length xs - Suc i" "y = xs ! (Suc i + j)" by (auto simp: in_set_conv_nth)
    define j' where "j' = length xs - 1 - (Suc i + j)"
    have "j' < k" "j' < length xs" "length xs - Suc j' = Suc i + j"
      using j(1) k(2) a(1) by (auto simp: j'_def)
    then have "j' < k" "rev xs ! j' = xs ! (Suc i + j)" by (simp_all add: rev_nth)
    with a(3) j(2) show "\<not> P y" by auto
  qed
qed

lemma getBasename_in_directory:
  "CHR ''/'' \<notin> set base \<Longrightarrow> getBasename (dir @ ''/'' @ base) = base @ [CHR 0x00]"
proof -
  assume "CHR ''/'' \<notin> set base"
  then have "\<forall>y \<in> set base. \<not> y = CHR ''/''" by metis
  from rfind_idx_last [OF _ this, of "CHR ''/''" dir] show ?thesis by (simp add: getBasename_def)
qed

lemma c_str_append_NUL: "CHR 0x00 \<notin> set s \<Longrightarrow> c_str (s @ [CHR 0x00]) = s"
  by (induction s) (auto simp: c_str_def)

text \<open>The extension of a file in a directory as the code should give it: what follows the last dot, if
  that is not the first character.\<close>

definition plain_extension :: "string \<Rightarrow> string" where
  "plain_extension base =
     (case rfind_idx (\<lambda>c. c = CHR ''.'') base of
        None \<Rightarrow> [] | Some i \<Rightarrow> if i = 0 then [] else drop (Suc i) base)"

text \<open>The additional NUL does no harm where the result is converted to \<open>const char*\<close>.\<close>

lemma getExtension_in_directory:
  assumes "CHR ''/'' \<notin> set base" "CHR 0x00 \<notin> set base"
  shows "\<exists>x. getExtension (dir @ ''/'' @ base) = Inr x \<and> c_str x = plain_extension base"
proof (cases "rfind_idx (\<lambda>c. c = CHR ''.'') base")
  case None
  then have "\<forall>y \<in> set (base @ [CHR 0x00]). y \<noteq> CHR ''.''" by (auto simp: rfind_idx_def)
  then have "rfind_idx (\<lambda>c. c = CHR ''.'') (base @ [CHR 0x00]) = None" by (rule rfind_idx_none)
  with None getBasename_in_directory [OF assms(1), of dir] show ?thesis
    by (simp add: getExtension_def plain_extension_def c_str_def)
next
  case (Some i)
  note i = rfind_idx_Some [OF Some]
  have split: "base @ [CHR 0x00] = take i base @ CHR ''.'' # (drop (Suc i) base @ [CHR 0x00])"
    using id_take_nth_drop [OF i(1)] i(2) by simp
  have "rfind_idx (\<lambda>c. c = CHR ''.'') (base @ [CHR 0x00]) = Some i"
    unfolding split using i by (subst rfind_idx_last) auto
  moreover have "i \<noteq> size_sub (length (dir @ ''/'' @ base)) 1" using i(1) by simp
  moreover have "c_str (drop (Suc i) base @ [CHR 0x00]) = drop (Suc i) base"
    by (rule c_str_append_NUL) (use assms(2) in_set_dropD in fast)
  ultimately show ?thesis
    using getBasename_in_directory [OF assms(1), of dir] Some i(1)
    by (cases "i = 0") (simp_all add: getExtension_def plain_extension_def substr_def, simp add: c_str_def)
qed

end
