(* ===== verification/Plugin_Manager.thy ===== *)
theory Plugin_Manager
  imports Path_Names Daemon_State
begin

text \<open>
  The plugin framework (\<open>daemon/src/plugin_framework\<close>, \<open>include/plugin.h\<close>): shared libraries are
  loaded from a directory, their entry points register object types, and objects are created
  by the type's name. Function pointers are values of the type parameters: \<open>'f\<close> create
  functions, \<open>'d\<close> destroy functions, \<open>'x\<close> exit functions, \<open>'l\<close> handles of libraries, \<open>'o\<close>
  objects; what calling them does is a parameter.
\<close>

section \<open>Registrations\<close>

datatype PF_ProgrammingLanguage = PF_ProgrammingLanguage_C | PF_ProgrammingLanguage_CPP

record ('f, 'd) PF_RegisterParams =
  version_major :: int
  version_minor :: int
  createFunc :: "'f option"
  destroyFunc :: "'d option"
  programmingLanguage :: PF_ProgrammingLanguage

text \<open>\<open>pmDestroyed\<close> records the objects given to a destroy function, \<open>pmClosed\<close> the libraries
  closed; no code reads them.\<close>

record ('f, 'd, 'x, 'l, 'o) plugin_manager =
  dynamicLibraryMap :: "(string, 'l) std_map"
  exitFuncVec :: "'x list"
  exactMatchMap :: "(string, ('f, 'd) PF_RegisterParams) std_map"
  wildCardVec :: "('f, 'd) PF_RegisterParams list"
  pmDestroyed :: "('d \<times> 'o) list"
  pmClosed :: "'l list"

definition PluginManager_ctor :: "('f, 'd, 'x, 'l, 'o) plugin_manager" where
  "PluginManager_ctor = \<lparr> dynamicLibraryMap = [], exitFuncVec = [], exactMatchMap = [], wildCardVec = [],
     pmDestroyed = [], pmClosed = [] \<rparr>"

text \<open>Null pointers for the type and the parameters are \<open>None\<close>.\<close>

definition isValid :: "string option \<Rightarrow> ('f, 'd) PF_RegisterParams option \<Rightarrow> bool" where
  "isValid objectType params \<longleftrightarrow>
     (case (objectType, params) of
        (Some t, Some p) \<Rightarrow> c_str t \<noteq> [] \<and> createFunc p \<noteq> None \<and> destroyFunc p \<noteq> None
      | _ \<Rightarrow> False)"

definition platform_major :: int where "platform_major = 1"

definition registerObject :: "string option \<Rightarrow> ('f, 'd) PF_RegisterParams option
    \<Rightarrow> ('f, 'd, 'x, 'l, 'o) plugin_manager \<Rightarrow> int \<times> ('f, 'd, 'x, 'l, 'o) plugin_manager" where
  "registerObject objectType params pm =
     (case (objectType, params) of
        (Some t, Some p) \<Rightarrow>
          if \<not> isValid objectType params then (-1, pm)
          else if platform_major \<noteq> version_major p then (-1, pm)
          else
            let key = c_str t in
            if key = ''*'' then (0, pm \<lparr> wildCardVec := wildCardVec pm @ [p] \<rparr>)
            else if map_of (exactMatchMap pm) key \<noteq> None then (-1, pm)
            else (0, pm \<lparr> exactMatchMap := map_assign key p (exactMatchMap pm) \<rparr>)
      | _ \<Rightarrow> (-1, pm))"

section \<open>Entry points\<close>

text \<open>
  \<open>PF_initPlugin\<close> of a plugin: it registers one type, written in C++, and, if that worked, asks the
  daemon for a logger and some plugins for the configuration. The result is the exit function or
  null, the calls of services, and the manager.
\<close>

definition plugin_params :: "'f \<Rightarrow> 'd \<Rightarrow> ('f, 'd) PF_RegisterParams" where
  "plugin_params create destroy = \<lparr> version_major = 1, version_minor = 0, createFunc = Some create,
     destroyFunc = Some destroy, programmingLanguage = PF_ProgrammingLanguage_CPP \<rparr>"

definition PF_initPlugin :: "string \<Rightarrow> string \<Rightarrow> bool \<Rightarrow> 'f \<Rightarrow> 'd \<Rightarrow> 'x \<Rightarrow> ('f, 'd, 'x, 'l, 'o) plugin_manager
    \<Rightarrow> 'x option \<times> service_call list \<times> ('f, 'd, 'x, 'l, 'o) plugin_manager" where
  "PF_initPlugin name log wants_config create destroy ExitFunc pm =
     (let (res, pm) = registerObject (Some name) (Some (plugin_params create destroy)) pm
      in if res < 0 then (None, [], pm)
         else (Some ExitFunc,
               (''getLogger'', Text_param log) # (if wants_config then [(''getConfig'', Null_param)] else []), pm))"

definition init_CommunicatorAdlink where
  "init_CommunicatorAdlink = PF_initPlugin ''CommunicatorAdlink'' ''CommunicatorAdlink'' False"
definition init_CommunicatorCongatec where
  "init_CommunicatorCongatec = PF_initPlugin ''CommunicatorCongatec'' ''CommunicatorCongatec'' False"
definition init_CommunicatorDummy where
  "init_CommunicatorDummy = PF_initPlugin ''CommunicatorDummy'' ''CommunicatorDummy'' False"
definition init_CommunicatorTCP where
  "init_CommunicatorTCP = PF_initPlugin ''CommunicatorTCP'' ''CommunicatorTCP'' True"
definition init_LinuxCommunicatorDev where
  "init_LinuxCommunicatorDev = PF_initPlugin ''LinuxCommunicatorDev'' ''LinuxCommunicatorDev'' True"
definition init_WindowsCommunicatorI2CTinyUSB where
  "init_WindowsCommunicatorI2CTinyUSB = PF_initPlugin ''WindowsCommunicatorI2CTinyUSB'' ''WindowsCommunicatorI2CTinyUSB'' False"
definition init_LinuxSlotDetectorGPIO where
  "init_LinuxSlotDetectorGPIO = PF_initPlugin ''LinuxSlotDetectorGPIO'' ''LinuxSlotDetectorGPIO'' True"
definition init_LinuxSensorIP where
  "init_LinuxSensorIP = PF_initPlugin ''SensorIP'' ''LinuxSensorIP'' False"
definition init_SensorDummy where
  "init_SensorDummy = PF_initPlugin ''SensorDummy'' ''SensorDummy'' False"
definition init_SensorFileReader where
  "init_SensorFileReader = PF_initPlugin ''SensorFileReader'' ''SensorFileReader'' False"
definition init_LinuxSensorProviderEth where
  "init_LinuxSensorProviderEth = PF_initPlugin ''LinuxSensorProviderEth'' ''LinuxSensorProviderEth'' False"
definition init_SensorProviderJetson where
  "init_SensorProviderJetson = PF_initPlugin ''SensorProviderJetson'' ''SensorProviderJetson'' False"
definition init_SensorProviderSystem where
  "init_SensorProviderSystem = PF_initPlugin ''SensorProviderSystem'' ''SensorProviderSystem'' False"
definition init_SensorProviderZynq where
  "init_SensorProviderZynq = PF_initPlugin ''SensorProviderZynq'' ''SensorProviderZynq'' True"
definition init_SensorProviderZynqModule where
  "init_SensorProviderZynqModule = PF_initPlugin ''SensorProviderZynqModule'' ''SensorProviderZynqModule'' True"

section \<open>Loading\<close>

text \<open>
  The dynamic linker (a handle, or none), the entry point of a library (none without the symbol),
  the functions of the plugins, and \<open>new T(object, df)\<close> of an adapter. An exit function throws if
  its answer is \<open>None\<close>.
\<close>

record ('f, 'd, 'x, 'l, 'o) plugin_world =
  dlopen :: "string \<Rightarrow> 'l option"
  entry_point :: "'l \<Rightarrow> (('f, 'd, 'x, 'l, 'o) plugin_manager
     \<Rightarrow> 'x option \<times> service_call list \<times> ('f, 'd, 'x, 'l, 'o) plugin_manager) option"
  call_create :: "'f \<Rightarrow> string \<Rightarrow> 'o option"
  call_exit :: "'x \<Rightarrow> int option"
  adapt :: "'o \<Rightarrow> 'd option \<Rightarrow> 'o"

definition DynamicLibrary_load :: "('f, 'd, 'x, 'l, 'o) plugin_world \<Rightarrow> string \<Rightarrow> 'l option" where
  "DynamicLibrary_load pw name = (if name = [] then None else dlopen pw (c_str name))"

definition loadLibrary :: "('f, 'd, 'x, 'l, 'o) plugin_world \<Rightarrow> file_system \<Rightarrow> string
    \<Rightarrow> ('f, 'd, 'x, 'l, 'o) plugin_manager \<Rightarrow> 'l option \<times> ('f, 'd, 'x, 'l, 'o) plugin_manager" where
  "loadLibrary pw fs path pm =
     (case DynamicLibrary_load pw path of
        None \<Rightarrow> (None, pm)
      | Some l \<Rightarrow> (Some l, pm \<lparr> dynamicLibraryMap := map_assign (path_makeAbsolute fs path) l (dynamicLibraryMap pm) \<rparr>))"

definition initializePlugin :: "(('f, 'd, 'x, 'l, 'o) plugin_manager
    \<Rightarrow> 'x option \<times> service_call list \<times> ('f, 'd, 'x, 'l, 'o) plugin_manager)
    \<Rightarrow> ('f, 'd, 'x, 'l, 'o) plugin_manager \<Rightarrow> int \<times> service_call list \<times> ('f, 'd, 'x, 'l, 'o) plugin_manager" where
  "initializePlugin initFunc pm =
     (case initFunc pm of
        (None, calls, pm) \<Rightarrow> (-1, calls, pm)
      | (Some exitFunc, calls, pm) \<Rightarrow> (0, calls, pm \<lparr> exitFuncVec := exitFuncVec pm @ [exitFunc] \<rparr>))"

text \<open>A link is replaced by its target as it stands in the link.\<close>

definition loadByPath :: "('f, 'd, 'x, 'l, 'o) plugin_world \<Rightarrow> file_system \<Rightarrow> string
    \<Rightarrow> ('f, 'd, 'x, 'l, 'o) plugin_manager \<Rightarrow> int \<times> service_call list \<times> ('f, 'd, 'x, 'l, 'o) plugin_manager" where
  "loadByPath pw fs pluginPath pm =
     (let link = isSymbolicLink fs pluginPath; target = readlink fs (c_str pluginPath) in
      if link \<and> target = None then (-1, [], pm)
      else
        let path = (if link then take 1024 (the target) else pluginPath) in
        if map_of (dynamicLibraryMap pm) (c_str path) \<noteq> None then (-1, [], pm)
        else
          let (lib, pm) = loadLibrary pw fs (c_str (path_makeAbsolute fs path)) pm in
          case lib of
            None \<Rightarrow> (-1, [], pm)
          | Some d \<Rightarrow>
              (case entry_point pw d of
                 None \<Rightarrow> (-1, [], pm)
               | Some initFunc \<Rightarrow> initializePlugin initFunc pm))"

text \<open>The files of the directory, in its order; results of single plugins are ignored.\<close>

function load_entries :: "('f, 'd, 'x, 'l, 'o) plugin_world \<Rightarrow> file_system \<Rightarrow> string \<Rightarrow> string list
    \<Rightarrow> ('f, 'd, 'x, 'l, 'o) plugin_manager \<Rightarrow> (service_call list \<times> ('f, 'd, 'x, 'l, 'o) plugin_manager) res" where
  "load_entries pw fs dir es pm =
     (case next_entry es of
        None \<Rightarrow> Inr ([], pm)
      | Some (e, es') \<Rightarrow>
          let full_path = path_plus dir e in
          if isDirectory fs full_path then load_entries pw fs dir es' pm
          else bind_res (getExtension full_path) (\<lambda>x.
            if c_str x \<noteq> ''so'' then load_entries pw fs dir es' pm
            else
              let (r, calls, pm) = loadByPath pw fs (c_str full_path) pm
              in bind_res (load_entries pw fs dir es' pm) (\<lambda>(calls', pm). Inr (calls @ calls', pm))))"
  by pat_completeness auto
termination by (relation "measure (\<lambda>(_, _, _, es, _). length es)") (auto dest: next_entry_shorter)

declare load_entries.simps [simp del]

definition loadAll :: "('f, 'd, 'x, 'l, 'o) plugin_world \<Rightarrow> file_system \<Rightarrow> string
    \<Rightarrow> ('f, 'd, 'x, 'l, 'o) plugin_manager \<Rightarrow> (int \<times> service_call list \<times> ('f, 'd, 'x, 'l, 'o) plugin_manager) res" where
  "loadAll pw fs pluginDirectory pm =
     (if pluginDirectory = [] then Inr (-1, [], pm)
      else if \<not> path_exists fs pluginDirectory \<or> \<not> isDirectory fs pluginDirectory then Inr (-1, [], pm)
      else
        case Iterator_init fs (c_str pluginDirectory) of
          None \<Rightarrow> Inl Bad_access
        | Some es \<Rightarrow>
            bind_res (load_entries pw fs pluginDirectory es pm) (\<lambda>(calls, pm). Inr (0, calls, pm)))"

section \<open>Creating objects\<close>

text \<open>\<open>np.objectType\<close> is the C string of the type. A wild card that creates the object is
  registered for the type; if that fails, the object, adapted or not, is destroyed again.\<close>

definition adapted :: "('f, 'd, 'x, 'l, 'o) plugin_world \<Rightarrow> ('f, 'd) PF_RegisterParams \<Rightarrow> 'o \<Rightarrow> 'o" where
  "adapted pw rp object =
     (if programmingLanguage rp = PF_ProgrammingLanguage_C then adapt pw object (destroyFunc rp) else object)"

definition created :: "('f, 'd, 'x, 'l, 'o) plugin_world \<Rightarrow> ('f, 'd) PF_RegisterParams \<Rightarrow> string \<Rightarrow> 'o option" where
  "created pw rp objectType = (case createFunc rp of None \<Rightarrow> None | Some f \<Rightarrow> call_create pw f (c_str objectType))"

fun try_wild_cards :: "('f, 'd, 'x, 'l, 'o) plugin_world \<Rightarrow> string \<Rightarrow> ('f, 'd) PF_RegisterParams list
    \<Rightarrow> ('f, 'd, 'x, 'l, 'o) plugin_manager \<Rightarrow> 'o option \<times> ('f, 'd, 'x, 'l, 'o) plugin_manager" where
  "try_wild_cards pw objectType [] pm = (None, pm)"
| "try_wild_cards pw objectType (rp # rps) pm =
     (case created pw rp objectType of
        None \<Rightarrow> try_wild_cards pw objectType rps pm
      | Some object \<Rightarrow>
          let object = adapted pw rp object;
              (res, pm) = registerObject (Some objectType) (Some rp) pm
          in if res < 0
             then (None, pm \<lparr> pmDestroyed := pmDestroyed pm @ (case destroyFunc rp of None \<Rightarrow> [] | Some d \<Rightarrow> [(d, object)]) \<rparr>)
             else (Some object, pm))"

definition createObject :: "('f, 'd, 'x, 'l, 'o) plugin_world \<Rightarrow> string
    \<Rightarrow> ('f, 'd, 'x, 'l, 'o) plugin_manager \<Rightarrow> 'o option \<times> ('f, 'd, 'x, 'l, 'o) plugin_manager" where
  "createObject pw objectType pm =
     (if objectType = ''*'' then (None, pm)
      else
        case (case map_of (exactMatchMap pm) objectType of
                None \<Rightarrow> None
              | Some rp \<Rightarrow> map_option (adapted pw rp) (created pw rp objectType)) of
          Some object \<Rightarrow> (Some object, pm)
        | None \<Rightarrow> try_wild_cards pw objectType (wildCardVec pm) pm)"

section \<open>Shutdown\<close>

text \<open>The result is that of the last exit function.\<close>

fun call_exits :: "('f, 'd, 'x, 'l, 'o) plugin_world \<Rightarrow> 'x list \<Rightarrow> int \<Rightarrow> int" where
  "call_exits pw [] result = result"
| "call_exits pw (f # fs) result = call_exits pw fs (case call_exit pw f of None \<Rightarrow> -1 | Some r \<Rightarrow> r)"

definition plugin_shutdown :: "('f, 'd, 'x, 'l, 'o) plugin_world \<Rightarrow> ('f, 'd, 'x, 'l, 'o) plugin_manager
    \<Rightarrow> int \<times> ('f, 'd, 'x, 'l, 'o) plugin_manager" where
  "plugin_shutdown pw pm =
     (call_exits pw (exitFuncVec pm) 0,
      pm \<lparr> dynamicLibraryMap := [], exactMatchMap := [], wildCardVec := [], exitFuncVec := [],
           pmClosed := pmClosed pm @ map snd (dynamicLibraryMap pm) \<rparr>)"

text \<open>The start of the daemon loads the directory \<open>plugins\<close> of the working directory; the services the
  plugins ask for are served by the daemon.\<close>

definition load_plugins :: "('f, 'd, 'x, 'l, 'o) plugin_world \<Rightarrow> file_system
    \<Rightarrow> ('f, 'd, 'x, 'l, 'o) plugin_manager \<Rightarrow> 'c daemon \<Rightarrow> (('f, 'd, 'x, 'l, 'o) plugin_manager \<times> 'c daemon) res" where
  "load_plugins pw fs pm d =
     bind_res (loadAll pw fs (path_makeAbsolute fs (getCWD fs @ ''/plugins'')) pm) (\<lambda>(_, calls, pm).
     bind_res (serve_all calls d) (\<lambda>d. Inr (pm, d)))"

end
