(* ===== verification/Plugin_Properties.thy ===== *)
theory Plugin_Properties
  imports Plugin_Manager
begin

text \<open>
  The registry of the plugin manager: what every operation keeps of it, which object types the
  repository's own plugins provide, and how objects are created.
\<close>

section \<open>The registry grows\<close>

definition usable :: "('f, 'd) PF_RegisterParams \<Rightarrow> bool" where
  "usable p \<longleftrightarrow> version_major p = platform_major \<and> createFunc p \<noteq> None \<and> destroyFunc p \<noteq> None"

definition registry_ok :: "('f, 'd, 'x, 'l, 'o) plugin_manager \<Rightarrow> bool" where
  "registry_ok pm \<longleftrightarrow> map_ok (exactMatchMap pm) \<and> (\<forall>p \<in> set (wildCardVec pm). usable p) \<and>
     (\<forall>(t, p) \<in> set (exactMatchMap pm). usable p \<and> t \<notin> {[], ''*''} \<and> c_str t = t)"

definition grows :: "('f, 'd, 'x, 'l, 'o) plugin_manager \<Rightarrow> ('f, 'd, 'x, 'l, 'o) plugin_manager \<Rightarrow> bool" where
  "grows pm pm' \<longleftrightarrow> (registry_ok pm \<longrightarrow> registry_ok pm') \<and>
     map_of (exactMatchMap pm) \<subseteq>\<^sub>m map_of (exactMatchMap pm') \<and> (\<exists>ws. wildCardVec pm' = wildCardVec pm @ ws)"

lemma grows_refl [simp]: "grows pm pm"
  by (simp add: grows_def)

lemma grows_trans [trans]: "grows a b \<Longrightarrow> grows b c \<Longrightarrow> grows a c"
  by (auto simp: grows_def intro: map_le_trans)

lemma grows_same_registry [simp]:
  "grows pm (dynamicLibraryMap_update f pm')  = grows pm pm'"
  "grows pm (exitFuncVec_update g pm')  = grows pm pm'"
  "grows pm (pmDestroyed_update h pm')  = grows pm pm'"
  by (simp_all add: grows_def registry_ok_def)

lemma registry_ok_ctor [simp]: "registry_ok PluginManager_ctor"
  by (simp add: registry_ok_def PluginManager_ctor_def)

lemma c_str_idem [simp]: "c_str (c_str t) = c_str t"
  by (simp add: c_str_def takeWhile_idem)

lemma set_map_assign: "set (map_assign k v m) \<subseteq> insert (k, v) (set m)"
  by (induction m) (auto split: if_splits)

lemma registerObject_simp:
  "registerObject (Some u) (Some q) pm =
     (if usable q \<and> c_str u \<noteq> [] \<and> (c_str u = ''*'' \<or> map_of (exactMatchMap pm) (c_str u) = None) then
        (0, if c_str u = ''*'' then pm \<lparr> wildCardVec := wildCardVec pm @ [q] \<rparr>
            else pm \<lparr> exactMatchMap := map_assign (c_str u) q (exactMatchMap pm) \<rparr>)
      else (-1, pm))"
  by (simp add: registerObject_def isValid_def usable_def Let_def)

lemma registerObject_null: "t = None \<or> p = None \<Longrightarrow> registerObject t p pm = (-1, pm)"
  by (auto simp: registerObject_def split: option.splits)

lemma registerObject_grows: "grows pm (snd (registerObject t p pm))"
proof (cases "t = None \<or> p = None")
  case False
  then obtain u q where t: "t = Some u" "p = Some q" by auto
  have "registry_ok pm \<Longrightarrow> usable q \<Longrightarrow> c_str u \<notin> {[], ''*''} \<Longrightarrow>
      registry_ok (pm \<lparr> exactMatchMap := map_assign (c_str u) q (exactMatchMap pm) \<rparr>)"
    using set_map_assign [of "c_str u" q "exactMatchMap pm"] by (auto simp: registry_ok_def)
  moreover have "registry_ok pm \<Longrightarrow> usable q \<Longrightarrow> registry_ok (pm \<lparr> wildCardVec := wildCardVec pm @ [q] \<rparr>)"
    by (auto simp: registry_ok_def)
  ultimately show ?thesis
    by (auto simp: t registerObject_simp grows_def map_simps map_le_def)
qed (simp add: registerObject_null)

section \<open>The contract of plugins\<close>

text \<open>A plugin reaches the manager through \<open>registerObject\<close> of the platform services only.\<close>

definition register_all :: "(string option \<times> ('f, 'd) PF_RegisterParams option) list
    \<Rightarrow> ('f, 'd, 'x, 'l, 'o) plugin_manager \<Rightarrow> ('f, 'd, 'x, 'l, 'o) plugin_manager" where
  "register_all = fold (\<lambda>(t, p) pm. snd (registerObject t p pm))"

lemma register_all_grows: "grows pm (register_all rs pm)"
proof (induction rs arbitrary: pm)
  case (Cons r rs)
  obtain t p where r: "r = (t, p)" by force
  have "grows pm (snd (registerObject t p pm))" by (rule registerObject_grows)
  also have "grows \<dots> (register_all rs (snd (registerObject t p pm)))" by (rule Cons.IH)
  finally show ?case by (simp add: register_all_def r)
qed (simp add: register_all_def)

locale plugin_contract =
  fixes pw :: "('f, 'd, 'x, 'l, 'o) plugin_world"
  assumes registers_only: "entry_point pw l = Some f \<Longrightarrow> \<exists>rs. snd (snd (f pm)) = register_all rs pm"
begin

lemma entry_grows: "entry_point pw l = Some f \<Longrightarrow> f pm = (x, calls, pm') \<Longrightarrow> grows pm pm'"
  using registers_only [of l f pm] register_all_grows by (metis snd_conv)

lemma initializePlugin_grows:
  "entry_point pw l = Some f \<Longrightarrow> grows pm (snd (snd (initializePlugin f pm)))"
  using entry_grows by (fastforce simp: initializePlugin_def split: prod.splits option.splits)

lemma loadLibrary_grows: "loadLibrary pw fs path pm = (x, pm') \<Longrightarrow> grows pm pm'"
  by (auto simp: loadLibrary_def split: option.splits)

lemma loadByPath_grows: "grows pm (snd (snd (loadByPath pw fs path pm)))"
proof -
  have "loadLibrary pw fs q pm = (x, pm') \<Longrightarrow> entry_point pw l = Some f
      \<Longrightarrow> grows pm (snd (snd (initializePlugin f pm')))" for q x pm' l f
    using loadLibrary_grows initializePlugin_grows by (blast intro: grows_trans)
  then show ?thesis
    by (auto simp: loadByPath_def Let_def loadLibrary_grows split: prod.splits option.splits)
qed

lemma load_entries_grows: "load_entries pw fs dir es pm = Inr (calls, pm') \<Longrightarrow> grows pm pm'"
proof (induction "length es" arbitrary: es pm calls pm' rule: less_induct)
  case less
  show ?case
  proof (cases "next_entry es")
    case None
    with less.prems show ?thesis by (simp add: load_entries.simps)
  next
    case (Some q)
    then obtain e rest where q: "next_entry es = Some (e, rest)" by (cases q) auto
    note IH = less.hyps [OF next_entry_shorter [OF q]]
    obtain r c pm1 where l: "loadByPath pw fs (c_str (path_plus dir e)) pm = (r, c, pm1)" by (metis prod_cases3)
    have "grows pm pm1" using loadByPath_grows [where fs = fs and path = "c_str (path_plus dir e)" and pm = pm] by (simp add: l)
    then show ?thesis
      using less.prems IH
      by (subst (asm) load_entries.simps)
        (auto simp: q l Let_def bind_res_Inr_iff intro: grows_trans split: if_splits)
  qed
qed

lemma loadAll_grows: "loadAll pw fs dir pm = Inr (r, calls, pm') \<Longrightarrow> grows pm pm'"
  by (auto simp: loadAll_def bind_res_Inr_iff split: if_splits option.splits dest: load_entries_grows)

end

lemma try_wild_cards_grows: "grows pm (snd (try_wild_cards pw t rps pm))"
proof (induction pw t rps pm rule: try_wild_cards.induct)
  case (2 pw t rp rps pm)
  show ?case
    using 2 registerObject_grows [of pm "Some t" "Some rp"]
    by (auto simp: Let_def split: option.splits prod.splits)
qed simp

lemma createObject_grows: "grows pm (snd (createObject pw t pm))"
  by (auto simp: createObject_def try_wild_cards_grows split: option.splits)

text \<open>The operations on the manager between its construction and its shutdown.\<close>

inductive manages :: "('f, 'd, 'x, 'l, 'o) plugin_world \<Rightarrow> ('f, 'd, 'x, 'l, 'o) plugin_manager
    \<Rightarrow> ('f, 'd, 'x, 'l, 'o) plugin_manager \<Rightarrow> bool" for pw where
  Unchanged: "manages pw pm pm"
| Register: "manages pw pm pm' \<Longrightarrow> registerObject t p pm' = (r, pm'') \<Longrightarrow> manages pw pm pm''"
| Load: "manages pw pm pm' \<Longrightarrow> loadAll pw fs dir pm' = Inr (r, calls, pm'') \<Longrightarrow> manages pw pm pm''"
| Create: "manages pw pm pm' \<Longrightarrow> createObject pw t pm' = (object, pm'') \<Longrightarrow> manages pw pm pm''"

context plugin_contract
begin

lemma manages_grows: "manages pw pm pm' \<Longrightarrow> grows pm pm'"
proof (induction rule: manages.induct)
  case (Register pm pm' t p r pm'')
  then show ?case using registerObject_grows [of pm' t p] by (auto intro: grows_trans)
next
  case (Create pm pm' t object pm'')
  then show ?case using createObject_grows [of pm' pw t] by (auto intro: grows_trans)
qed (auto intro: grows_trans loadAll_grows)

end

section \<open>The plugins of the repository\<close>

text \<open>
  A directory entry is a plugin if it is a file with the extension of shared libraries, the linker
  loads it as \<open>lib e\<close>, and its entry point registers the type described by \<open>desc e\<close>.
\<close>

record ('f, 'd, 'x) plugin_desc =
  pdType :: string
  pdLog :: string
  pdConfig :: bool
  pdCreate :: 'f
  pdDestroy :: 'd
  pdExit :: 'x

definition desc_init :: "('f, 'd, 'x) plugin_desc \<Rightarrow> ('f, 'd, 'x, 'l, 'o) plugin_manager
    \<Rightarrow> 'x option \<times> service_call list \<times> ('f, 'd, 'x, 'l, 'o) plugin_manager" where
  "desc_init p = PF_initPlugin (pdType p) (pdLog p) (pdConfig p) (pdCreate p) (pdDestroy p) (pdExit p)"

definition desc_calls :: "('f, 'd, 'x) plugin_desc \<Rightarrow> service_call list" where
  "desc_calls p = (''getLogger'', Text_param (pdLog p)) # (if pdConfig p then [(''getConfig'', Null_param)] else [])"

definition is_plugin :: "('f, 'd, 'x, 'l, 'o) plugin_world \<Rightarrow> file_system \<Rightarrow> string
    \<Rightarrow> (string \<Rightarrow> 'l) \<Rightarrow> (string \<Rightarrow> ('f, 'd, 'x) plugin_desc) \<Rightarrow> string \<Rightarrow> bool" where
  "is_plugin pw fs dir lib desc e \<longleftrightarrow>
     CHR ''/'' \<notin> set e \<and> CHR 0x00 \<notin> set e \<and> plain_extension e = ''so'' \<and>
     \<not> isDirectory fs (dir @ ''/'' @ e) \<and> \<not> isSymbolicLink fs (dir @ ''/'' @ e) \<and>
     dlopen pw (dir @ ''/'' @ e) = Some (lib e) \<and> entry_point pw (lib e) = Some (desc_init (desc e)) \<and>
     pdType (desc e) \<notin> {[], ''*''} \<and> CHR 0x00 \<notin> set (pdType (desc e))"

abbreviation plugin_files :: "string list \<Rightarrow> string list" where
  "plugin_files es \<equiv> [e \<leftarrow> es. e \<noteq> ''.'' \<and> e \<noteq> ''..'']"

lemma desc_init_simp:
  "pdType p \<notin> {[], ''*''} \<Longrightarrow> CHR 0x00 \<notin> set (pdType p) \<Longrightarrow> map_of (exactMatchMap pm) (pdType p) = None \<Longrightarrow>
   desc_init p pm = (Some (pdExit p), desc_calls p, pm \<lparr> exactMatchMap :=
     map_assign (pdType p) (plugin_params (pdCreate p) (pdDestroy p)) (exactMatchMap pm) \<rparr>)"
  by (simp add: desc_init_def desc_calls_def PF_initPlugin_def registerObject_simp usable_def
      plugin_params_def platform_major_def c_str_id)

lemma desc_init_registers_only:
  "snd (snd (desc_init p pm)) = register_all [(Some (pdType p), Some (plugin_params (pdCreate p) (pdDestroy p)))] pm"
  by (auto simp: desc_init_def PF_initPlugin_def register_all_def split: prod.splits)

definition with_plugin :: "string \<Rightarrow> (string \<Rightarrow> 'l) \<Rightarrow> (string \<Rightarrow> ('f, 'd, 'x) plugin_desc) \<Rightarrow> string
    \<Rightarrow> ('f, 'd, 'x, 'l, 'o) plugin_manager \<Rightarrow> ('f, 'd, 'x, 'l, 'o) plugin_manager" where
  "with_plugin dir lib desc e pm = pm \<lparr>
     dynamicLibraryMap := map_assign (dir @ ''/'' @ e) (lib e) (dynamicLibraryMap pm),
     exitFuncVec := exitFuncVec pm @ [pdExit (desc e)],
     exactMatchMap := map_assign (pdType (desc e)) (plugin_params (pdCreate (desc e)) (pdDestroy (desc e))) (exactMatchMap pm) \<rparr>"

lemma loadByPath_plugin:
  assumes "is_plugin pw fs dir lib desc e" "isAbsolute dir" "CHR 0x00 \<notin> set dir"
    and "map_of (dynamicLibraryMap pm) (dir @ ''/'' @ e) = None" "map_of (exactMatchMap pm) (pdType (desc e)) = None"
  shows "loadByPath pw fs (dir @ ''/'' @ e) pm = (0, desc_calls (desc e), with_plugin dir lib desc e pm)"
proof -
  have abs: "path_makeAbsolute fs (dir @ ''/'' @ e) = dir @ ''/'' @ e"
    using assms(2) by (simp add: path_makeAbsolute_def isAbsolute_def nth_append)
  have c: "c_str (dir @ ''/'' @ e) = dir @ ''/'' @ e"
    using assms(1,3) by (intro c_str_id) (simp add: is_plugin_def)
  show ?thesis
    using assms(1,4,5) abs c
    by (simp add: loadByPath_def is_plugin_def Let_def loadLibrary_def DynamicLibrary_load_def initializePlugin_def
        desc_init_simp with_plugin_def)
qed

lemma distinct_head:
  "distinct (map f (x # xs)) \<Longrightarrow> distinct (x # xs) \<Longrightarrow> \<forall>y \<in> set xs. y \<noteq> x \<and> f y \<noteq> f x"
  by (simp add: image_iff) metis

lemma load_entries_plugins:
  assumes "isAbsolute dir" "CHR 0x00 \<notin> set dir" "\<forall>e \<in> set (plugin_files es). is_plugin pw fs dir lib desc e"
    and "distinct (map (\<lambda>e. pdType (desc e)) (plugin_files es))" "distinct (plugin_files es)"
    and "\<forall>e \<in> set (plugin_files es). map_of (dynamicLibraryMap pm) (dir @ ''/'' @ e) = None
           \<and> map_of (exactMatchMap pm) (pdType (desc e)) = None"
  shows "load_entries pw fs dir es pm = Inr (concat (map (\<lambda>e. desc_calls (desc e)) (plugin_files es)),
     fold (with_plugin dir lib desc) (plugin_files es) pm)"
  using assms
proof (induction es arbitrary: pm)
  case (Cons e es)
  show ?case
  proof (cases "e = ''.'' \<or> e = ''..''")
    case True
    then have "load_entries pw fs dir (e # es) pm = load_entries pw fs dir es pm"
      by (auto simp: load_entries.simps [of pw fs dir "e # es"] load_entries.simps [of pw fs dir es])
    with True Cons show ?thesis by auto
  next
    case False
    then have p: "is_plugin pw fs dir lib desc e" using Cons.prems(3) by simp
    have pp: "path_plus dir e = dir @ ''/'' @ e"
      using Cons.prems(2) p by (simp add: path_plus_def c_str_id is_plugin_def)
    have c: "c_str (dir @ ''/'' @ e) = dir @ ''/'' @ e"
      using Cons.prems(2) p by (intro c_str_id) (simp add: is_plugin_def)
    obtain x where x: "getExtension (dir @ ''/'' @ e) = Inr x" "c_str x = ''so''"
      using getExtension_in_directory [of e dir] p by (auto simp: is_plugin_def)
    have l: "loadByPath pw fs (dir @ ''/'' @ e) pm = (0, desc_calls (desc e), with_plugin dir lib desc e pm)"
      using Cons.prems False by (intro loadByPath_plugin [OF p]) simp_all
    have other: "\<forall>e' \<in> set (plugin_files es). e' \<noteq> e \<and> pdType (desc e') \<noteq> pdType (desc e)"
      using Cons.prems(4,5) False by (intro distinct_head [where f = "\<lambda>e. pdType (desc e)"]) simp_all
    have free: "\<forall>e' \<in> set (plugin_files es). map_of (dynamicLibraryMap (with_plugin dir lib desc e pm)) (dir @ ''/'' @ e') = None
        \<and> map_of (exactMatchMap (with_plugin dir lib desc e pm)) (pdType (desc e')) = None"
      using Cons.prems(6) other by (simp add: with_plugin_def map_simps)
    have "load_entries pw fs dir es (with_plugin dir lib desc e pm) = Inr
      (concat (map (\<lambda>e. desc_calls (desc e)) (plugin_files es)), fold (with_plugin dir lib desc) (plugin_files es) (with_plugin dir lib desc e pm))"
      using Cons.prems False by (intro Cons.IH free) simp_all
    then show ?thesis
      using False p x l pp c by (simp add: load_entries.simps [of pw fs dir "e # es"] is_plugin_def)
  qed
qed (simp add: load_entries.simps)

lemma with_plugin_registry:
  "e \<notin> set es \<Longrightarrow> pdType (desc e) \<notin> pdType ` desc ` set es \<Longrightarrow>
   map_of (exactMatchMap (fold (with_plugin dir lib desc) es pm)) (pdType (desc e)) = map_of (exactMatchMap pm) (pdType (desc e))"
  by (induction es arbitrary: pm) (auto simp: with_plugin_def map_simps)

lemma with_plugin_self:
  "map_of (exactMatchMap (with_plugin dir lib desc e pm)) (pdType (desc e)) =
     Some (plugin_params (pdCreate (desc e)) (pdDestroy (desc e)))"
  by (simp add: with_plugin_def map_simps)

lemma with_plugin_exact:
  "distinct (map (\<lambda>e. pdType (desc e)) es) \<Longrightarrow> e \<in> set es \<Longrightarrow>
   map_of (exactMatchMap (fold (with_plugin dir lib desc) es pm)) (pdType (desc e)) =
     Some (plugin_params (pdCreate (desc e)) (pdDestroy (desc e)))"
proof (induction es arbitrary: pm)
  case (Cons x es)
  show ?case
  proof (cases "e = x")
    case True
    with Cons.prems have "e \<notin> set es" "pdType (desc e) \<notin> pdType ` desc ` set es" by (auto simp: image_image)
    with True show ?thesis by (simp add: with_plugin_registry with_plugin_self)
  qed (use Cons in simp)
qed simp

lemma with_plugin_rest:
  "wildCardVec (fold (with_plugin dir lib desc) es pm) = wildCardVec pm"
  "exitFuncVec (fold (with_plugin dir lib desc) es pm) = exitFuncVec pm @ map (\<lambda>e. pdExit (desc e)) es"
  by (induction es arbitrary: pm) (simp_all add: with_plugin_def)

text \<open>The entry points of this repository, by the name of the library.\<close>

definition own_entries where
  "own_entries = [
     (''CommunicatorAdlink'', init_CommunicatorAdlink), (''CommunicatorCongatec'', init_CommunicatorCongatec),
     (''CommunicatorDummy'', init_CommunicatorDummy), (''CommunicatorTCP'', init_CommunicatorTCP),
     (''LinuxCommunicatorDev'', init_LinuxCommunicatorDev),
     (''WindowsCommunicatorI2CTinyUSB'', init_WindowsCommunicatorI2CTinyUSB),
     (''LinuxSlotDetectorGPIO'', init_LinuxSlotDetectorGPIO), (''LinuxSensorIP'', init_LinuxSensorIP),
     (''SensorDummy'', init_SensorDummy), (''SensorFileReader'', init_SensorFileReader),
     (''LinuxSensorProviderEth'', init_LinuxSensorProviderEth), (''SensorProviderJetson'', init_SensorProviderJetson),
     (''SensorProviderSystem'', init_SensorProviderSystem), (''SensorProviderZynq'', init_SensorProviderZynq),
     (''SensorProviderZynqModule'', init_SensorProviderZynqModule)]"

lemmas own_inits = init_CommunicatorAdlink_def init_CommunicatorCongatec_def init_CommunicatorDummy_def
  init_CommunicatorTCP_def init_LinuxCommunicatorDev_def init_WindowsCommunicatorI2CTinyUSB_def
  init_LinuxSlotDetectorGPIO_def init_LinuxSensorIP_def init_SensorDummy_def init_SensorFileReader_def
  init_LinuxSensorProviderEth_def init_SensorProviderJetson_def init_SensorProviderSystem_def
  init_SensorProviderZynq_def init_SensorProviderZynqModule_def

lemma own_entries_are_inits:
  "(l, f) \<in> set own_entries \<Longrightarrow> \<exists>name log wants. f = PF_initPlugin name log wants"
  by (auto simp: own_entries_def own_inits)

text \<open>The world of these plugins: every \<open>ExitFunc\<close> answers 0.\<close>

definition own_world :: "(string \<Rightarrow> string option) \<Rightarrow> (string \<Rightarrow> string \<Rightarrow> 'o option) \<Rightarrow> ('o \<Rightarrow> string option \<Rightarrow> 'o)
    \<Rightarrow> (string, string, string, string, 'o) plugin_world" where
  "own_world load create wrap = \<lparr> dlopen = load,
     entry_point = (\<lambda>l. map_option (\<lambda>f. f l l l) (map_of own_entries l)),
     call_create = create, call_exit = (\<lambda>_. Some 0), adapt = wrap \<rparr>"

interpretation own: plugin_contract "own_world load create wrap"
proof
  fix l :: string and f and pm :: "(string, string, string, string, 'a) plugin_manager"
  assume "entry_point (own_world load create wrap) l = Some f"
  then obtain g where g: "(l, g) \<in> set own_entries" "f = g l l l"
    by (auto simp: own_world_def dest: map_of_SomeD)
  then obtain name log wants where "f = PF_initPlugin name log wants l l l" using own_entries_are_inits by metis
  then have "snd (snd (f pm)) = register_all [(Some name, Some (plugin_params l l))] pm"
    by (auto simp: PF_initPlugin_def register_all_def split: prod.splits)
  then show "\<exists>rs. snd (snd (f pm)) = register_all rs pm" by blast
qed

section \<open>Properties\<close>

text \<open>C21: However the manager is used - types registered, directories loaded, objects created - every
  registration it holds has the version of the platform, a create and a destroy function and a
  proper type name, each type is registered once, and whoever registered a type first keeps it.\<close>

theorem registry_well_typed:
  assumes "\<forall>l f pm. entry_point pw l = Some f \<longrightarrow> (\<exists>rs. snd (snd (f pm)) = register_all rs pm)"
    and "manages pw PluginManager_ctor pm" "manages pw pm pm'"
  shows "registry_ok pm \<and> registry_ok pm' \<and> map_of (exactMatchMap pm) \<subseteq>\<^sub>m map_of (exactMatchMap pm')"
proof -
  from assms(1) have "plugin_contract pw" by unfold_locales blast
  from plugin_contract.manages_grows [OF this assms(2)] plugin_contract.manages_grows [OF this assms(3)]
  show ?thesis by (simp add: grows_def)
qed

theorem registry_well_typed_witness:
  "\<exists>pm pm'. manages (own_world Some (\<lambda>_ _. None :: nat option) (\<lambda>x _. x)) PluginManager_ctor pm
     \<and> manages (own_world Some (\<lambda>_ _. None :: nat option) (\<lambda>x _. x)) pm pm' \<and> exactMatchMap pm \<noteq> [] \<and>
     registry_ok pm \<and> registry_ok pm' \<and> map_of (exactMatchMap pm) \<subseteq>\<^sub>m map_of (exactMatchMap pm')"
proof -
  let ?w = "own_world Some (\<lambda>_ _. None :: nat option) (\<lambda>x _. x)"
  let ?r = "registerObject (Some ''SensorDummy'') (Some (plugin_params ''SensorDummy'' ''SensorDummy'')) PluginManager_ctor"
  have 1: "manages ?w PluginManager_ctor (snd ?r)" by (rule manages.Register [OF manages.Unchanged prod.collapse [symmetric]])
  have 2: "manages ?w (snd ?r) (snd (createObject ?w ''SensorIP'' (snd ?r)))"
    by (rule manages.Create [OF manages.Unchanged prod.collapse [symmetric]])
  have "\<forall>l f pm. entry_point ?w l = Some f \<longrightarrow> (\<exists>rs. snd (snd (f pm)) = register_all rs pm)"
    using own.registers_only by blast
  from registry_well_typed [OF this 1 2] 1 2 show ?thesis
    by (intro exI [of _ "snd ?r"] exI [of _ "snd (createObject ?w ''SensorIP'' (snd ?r))"])
      (simp add: registerObject_simp usable_def plugin_params_def platform_major_def c_str_def PluginManager_ctor_def)
qed

text \<open>The manager behind the loading of a directory, and what it creates.\<close>

lemma loadAll_plugins:
  assumes "isAbsolute dir" "CHR 0x00 \<notin> set dir" "path_exists fs dir" "isDirectory fs dir" "opendir fs dir = Some es"
    and "\<forall>e \<in> set (plugin_files es). is_plugin pw fs dir lib desc e"
    and "distinct (plugin_files es)" "distinct (map (\<lambda>e. pdType (desc e)) (plugin_files es))"
  shows "loadAll pw fs dir PluginManager_ctor =
      Inr (0, concat (map (\<lambda>e. desc_calls (desc e)) (plugin_files es)), fold (with_plugin dir lib desc) (plugin_files es) PluginManager_ctor)"
proof -
  have "c_str dir = dir" using assms(2) by (rule c_str_id)
  moreover have "path_makeAbsolute fs dir = dir" using assms(1) by (simp add: path_makeAbsolute_def)
  moreover have "dir \<noteq> []" using assms(3) by (simp add: path_exists_def)
  moreover have "load_entries pw fs dir es PluginManager_ctor
      = Inr (concat (map (\<lambda>e. desc_calls (desc e)) (plugin_files es)), fold (with_plugin dir lib desc) (plugin_files es) PluginManager_ctor)"
    by (rule load_entries_plugins [OF assms(1,2,6,8,7)]) (simp add: PluginManager_ctor_def)
  ultimately show ?thesis using assms(3-5) by (simp add: loadAll_def Iterator_init_def)
qed

lemma createObject_plugin:
  assumes "distinct (map (\<lambda>e. pdType (desc e)) files)" "e \<in> set files" "is_plugin pw fs dir lib desc e"
  shows "createObject pw (pdType (desc e)) (fold (with_plugin dir lib desc) files PluginManager_ctor)
    = (call_create pw (pdCreate (desc e)) (pdType (desc e)), fold (with_plugin dir lib desc) files PluginManager_ctor)"
proof -
  have "pdType (desc e) \<noteq> ''*''" "c_str (pdType (desc e)) = pdType (desc e)" using assms(3) by (auto simp: is_plugin_def c_str_id)
  then show ?thesis
    by (simp add: createObject_def with_plugin_exact [OF assms(1,2)] created_def adapted_def with_plugin_rest
        plugin_params_def PluginManager_ctor_def split: option.splits)
qed

lemma with_plugin_unknown:
  "t \<notin> pdType ` desc ` set files \<Longrightarrow>
   map_of (exactMatchMap (fold (with_plugin dir lib desc) files pm)) t = map_of (exactMatchMap pm) t"
  by (induction files arbitrary: pm) (auto simp: with_plugin_def map_simps)

lemma createObject_unknown:
  "t \<notin> pdType ` desc ` set files \<Longrightarrow>
   createObject pw t (fold (with_plugin dir lib desc) files PluginManager_ctor) = (None, fold (with_plugin dir lib desc) files PluginManager_ctor)"
  by (simp add: createObject_def with_plugin_unknown with_plugin_rest PluginManager_ctor_def)

text \<open>Loading a directory of plugins: every library in it is opened and initialised, in the order of
  the directory, with the calls of services each makes; afterwards an object of each registered
  type is what the create function of its plugin gives for that type, and one exit function
  per plugin is kept.\<close>

theorem plugins_available:
  assumes "isAbsolute dir" "CHR 0x00 \<notin> set dir" "path_exists fs dir" "isDirectory fs dir" "opendir fs dir = Some es"
    and "\<forall>e \<in> set (plugin_files es). is_plugin pw fs dir lib desc e"
    and "distinct (plugin_files es)" "distinct (map (\<lambda>e. pdType (desc e)) (plugin_files es))"
  shows "\<exists>pm. loadAll pw fs dir PluginManager_ctor =
           Inr (0, concat (map (\<lambda>e. desc_calls (desc e)) (plugin_files es)), pm)
     \<and> exitFuncVec pm = map (\<lambda>e. pdExit (desc e)) (plugin_files es)
     \<and> (\<forall>e \<in> set (plugin_files es).
          createObject pw (pdType (desc e)) pm = (call_create pw (pdCreate (desc e)) (pdType (desc e)), pm))"
proof (intro exI conjI ballI)
  let ?pm = "fold (with_plugin dir lib desc) (plugin_files es) PluginManager_ctor"
  show "loadAll pw fs dir PluginManager_ctor =
      Inr (0, concat (map (\<lambda>e. desc_calls (desc e)) (plugin_files es)), ?pm)"
    by (rule loadAll_plugins [OF assms])
  show "exitFuncVec ?pm = map (\<lambda>e. pdExit (desc e)) (plugin_files es)"
    by (simp add: with_plugin_rest PluginManager_ctor_def)
  fix e
  assume "e \<in> set (plugin_files es)"
  then show "createObject pw (pdType (desc e)) ?pm = (call_create pw (pdCreate (desc e)) (pdType (desc e)), ?pm)"
    using assms(6) by (intro createObject_plugin [OF assms(8)]) blast+
qed

definition two_plugins :: file_system where
  "two_plugins = \<lparr> stat_mode = map_of [(''/p'', S_IFDIR), (''/p/a.so'', 0x8000), (''/p/b.so'', 0x8000)],
     lstat_mode = map_of [(''/p'', S_IFDIR), (''/p/a.so'', 0x8000), (''/p/b.so'', 0x8000)],
     opendir = map_of [(''/p'', [''.'', ''b.so'', ''..'', ''a.so''])], readlink = Map.empty, getCWD = ''/'' \<rparr>"

definition two_libraries :: "string \<Rightarrow> string" where
  "two_libraries e = (if e = ''a.so'' then ''SensorDummy'' else ''CommunicatorTCP'')"

definition two_descs :: "string \<Rightarrow> (string, string, string) plugin_desc" where
  "two_descs e = \<lparr> pdType = two_libraries e, pdLog = two_libraries e, pdConfig = (e = ''b.so''),
     pdCreate = two_libraries e, pdDestroy = two_libraries e, pdExit = two_libraries e \<rparr>"

definition two_world :: "(string, string, string, string, string) plugin_world" where
  "two_world = own_world (map_of [(''/p/a.so'', ''SensorDummy''), (''/p/b.so'', ''CommunicatorTCP'')])
     (\<lambda>f t. Some (f @ t)) (\<lambda>x _. x)"

theorem plugins_available_witness:
  "\<exists>pm. loadAll two_world two_plugins ''/p'' PluginManager_ctor =
      Inr (0, [(''getLogger'', Text_param ''CommunicatorTCP''), (''getConfig'', Null_param),
               (''getLogger'', Text_param ''SensorDummy'')], pm)
    \<and> createObject two_world ''SensorDummy'' pm = (Some ''SensorDummySensorDummy'', pm)"
proof -
  have f: "plugin_files [''.'', ''b.so'', ''..'', ''a.so''] = [''b.so'', ''a.so'']" by simp
  have p: "is_plugin two_world two_plugins ''/p'' two_libraries two_descs e" if "e = ''a.so'' \<or> e = ''b.so''" for e
    using that
    by (auto simp: is_plugin_def two_world_def two_plugins_def two_libraries_def two_descs_def own_world_def
        own_entries_def isDirectory_def isSymbolicLink_def S_IFDIR_def S_IFMT_def S_IFLNK_def c_str_def
        plain_extension_def rfind_idx_def desc_init_def own_inits fun_eq_iff)
  have "isAbsolute ''/p''" "CHR 0x00 \<notin> set ''/p''" "path_exists two_plugins ''/p''" "isDirectory two_plugins ''/p''"
      "opendir two_plugins ''/p'' = Some [''.'', ''b.so'', ''..'', ''a.so'']"
    by (simp_all add: isAbsolute_def path_exists_def isDirectory_def two_plugins_def c_str_def S_IFDIR_def)
  from plugins_available [OF this, unfolded f, of two_world two_libraries two_descs] p show ?thesis
    by (auto simp: two_descs_def two_libraries_def desc_calls_def)
      (simp add: two_world_def own_world_def)
qed

text \<open>If the plugin registered for a type cannot create the object, a plugin for all types may do so;
  its registration for the type is then refused, the object is destroyed, and the caller gets
  nothing.\<close>

theorem fallback_object_destroyed:
  assumes "registry_ok pm" "map_of (exactMatchMap pm) t = Some p" "created pw p t = None"
    and "wildCardVec pm = ws @ rp # ws'" "\<forall>w \<in> set ws. created pw w t = None" "created pw rp t = Some ob"
  shows "\<exists>d. destroyFunc rp = Some d \<and>
     createObject pw t pm = (None, pm \<lparr> pmDestroyed := pmDestroyed pm @ [(d, adapted pw rp ob)] \<rparr>)"
proof -
  have t: "t \<noteq> ''*''" "c_str t = t" using assms(1) map_of_SomeD [OF assms(2)] by (auto simp: registry_ok_def)
  have "usable rp" using assms(1,4) by (simp add: registry_ok_def)
  then obtain d where d: "destroyFunc rp = Some d" by (auto simp: usable_def)
  have "registerObject (Some t) (Some rp) pm = (-1, pm)"
    using assms(2) t by (simp add: registerObject_simp)
  then have "try_wild_cards pw t (ws @ rp # ws') pm
      = (None, pm \<lparr> pmDestroyed := pmDestroyed pm @ [(d, adapted pw rp ob)] \<rparr>)"
    using assms(5) by (induction ws) (simp_all add: assms(6) d)
  with d show ?thesis using assms(2-4) t(1) by (simp add: createObject_def)
qed

definition fallback_world :: "(nat, nat, nat, nat, string) plugin_world" where
  "fallback_world = \<lparr> dlopen = (\<lambda>_. None), entry_point = (\<lambda>_. None),
     call_create = (\<lambda>f t. if f = 0 then None else Some t), call_exit = (\<lambda>_. None), adapt = (\<lambda>x _. x) \<rparr>"

theorem fallback_object_destroyed_witness:
  "let pm = snd (registerObject (Some ''*'') (Some (plugin_params 1 7))
              (snd (registerObject (Some ''X'') (Some (plugin_params 0 8)) PluginManager_ctor)))
   in createObject fallback_world ''X'' pm = (None, pm \<lparr> pmDestroyed := [(7, ''X'')] \<rparr>)"
proof -
  let ?pm = "PluginManager_ctor \<lparr> exactMatchMap := [(''X'', plugin_params (0 :: nat) (8 :: nat))],
     wildCardVec := [plugin_params 1 7] \<rparr> :: (nat, nat, nat, nat, string) plugin_manager"
  have pm: "snd (registerObject (Some ''*'') (Some (plugin_params 1 7))
              (snd (registerObject (Some ''X'') (Some (plugin_params 0 8)) PluginManager_ctor))) = ?pm"
    by (simp add: registerObject_simp usable_def plugin_params_def platform_major_def c_str_def PluginManager_ctor_def)
  have "registry_ok ?pm"
    by (simp add: registry_ok_def PluginManager_ctor_def usable_def plugin_params_def platform_major_def
        map_ok_Cons c_str_def)
  from fallback_object_destroyed [OF this, of "''X''" "plugin_params 0 8" fallback_world "[]" "plugin_params 1 7" "[]" "''X''"]
  show ?thesis unfolding Let_def pm
    by (simp add: PluginManager_ctor_def fallback_world_def created_def adapted_def plugin_params_def c_str_def)
qed

end
