(* ===== verification/IEEE_Arith.thy ===== *)
theory IEEE_Arith
  imports IEEE_Float
begin

text \<open>
  Sums, products and quotients of doubles, rounded to nearest. Which NaN an invalid operation or
  a NaN operand gives is the choice of the processor, a parameter.
\<close>

definition dbl_mul :: "(dbl \<Rightarrow> dbl \<Rightarrow> dbl) \<Rightarrow> dbl \<Rightarrow> dbl \<Rightarrow> dbl" where
  "dbl_mul nan x y =
     (let neg = (dbl_neg x \<noteq> dbl_neg y) in
      if dbl_is_nan x \<or> dbl_is_nan y then nan x y
      else if dbl_is_inf x \<or> dbl_is_inf y then
        (if dbl_mag x = 0 \<or> dbl_mag y = 0 then nan x y else dbl_make neg dbl_inf)
      else
        let (n, d) = ratio_of (dbl_frac x); (n', d') = ratio_of (dbl_frac y)
        in dbl_of_ratio neg (n * n') (d * d'))"

definition dbl_div :: "(dbl \<Rightarrow> dbl \<Rightarrow> dbl) \<Rightarrow> dbl \<Rightarrow> dbl \<Rightarrow> dbl" where
  "dbl_div nan x y =
     (let neg = (dbl_neg x \<noteq> dbl_neg y) in
      if dbl_is_nan x \<or> dbl_is_nan y then nan x y
      else if dbl_is_inf x then (if dbl_is_inf y then nan x y else dbl_make neg dbl_inf)
      else if dbl_is_inf y then dbl_make neg 0
      else if dbl_mag y = 0 then (if dbl_mag x = 0 then nan x y else dbl_make neg dbl_inf)
      else
        let (n, d) = ratio_of (dbl_frac x); (n', d') = ratio_of (dbl_frac y)
        in dbl_of_ratio neg (n * d') (d * n'))"

text \<open>A sum of 0 is positive unless both operands are negative.\<close>

definition dbl_add :: "(dbl \<Rightarrow> dbl \<Rightarrow> dbl) \<Rightarrow> dbl \<Rightarrow> dbl \<Rightarrow> dbl" where
  "dbl_add nan x y =
     (if dbl_is_nan x \<or> dbl_is_nan y then nan x y
      else if dbl_is_inf x then (if dbl_is_inf y \<and> dbl_neg x \<noteq> dbl_neg y then nan x y else x)
      else if dbl_is_inf y then y
      else
        let (n, d) = ratio_of (dbl_frac x); (n', d') = ratio_of (dbl_frac y);
            s = (if dbl_neg x then - int (n * d') else int (n * d')) + (if dbl_neg y then - int (n' * d) else int (n' * d))
        in dbl_of_ratio (if s = 0 then dbl_neg x \<and> dbl_neg y else s < 0) (nat \<bar>s\<bar>) (d * d'))"

text \<open>The conversion to \<open>uint32_t\<close> goes through a 64-bit integer on the target.\<close>

definition u32_of_dbl :: "dbl \<Rightarrow> u32" where
  "u32_of_dbl w =
     (case dbl_trunc w of
        None \<Rightarrow> 0
      | Some i \<Rightarrow> if - (2 ^ 63) \<le> i \<and> i < 2 ^ 63 then word_of_int i else 0)"

end
