(* ===== verification/Sensor_Plugins.thy ===== *)
theory Sensor_Plugins
  imports IEEE_Arith Sensor_Set_Facts
begin

text \<open>
  The plugins that provide one configured sensor each: \<open>plugins/SensorDummy\<close>,
  \<open>plugins/SensorFileReader\<close> and \<open>plugins/LinuxSensorIP\<close>. A file is its text, or none if it
  cannot be opened; \<open>files n\<close> are the files at the \<open>n\<close>-th reading of a sensor.
\<close>

section \<open>SensorDummy\<close>

record dummy_sensor = base_sensor +
  mLength :: nat
  mDummyData :: bytes

definition DummySensor_ctor :: dummy_sensor where
  "DummySensor_ctor = base_sensor.extend BaseSensor_ctor \<lparr> mLength = 0, mDummyData = [] \<rparr>"

definition Dummy_configure :: "string \<Rightarrow> dummy_sensor \<Rightarrow> bool \<times> dummy_sensor" where
  "Dummy_configure data s =
     (True, (BaseSensor_configure data s) \<lparr> mLength := length (c_str data) + 1, mDummyData := bytes_of (c_str data) @ [0] \<rparr>)"

definition Dummy_getData :: "dummy_sensor \<Rightarrow> bytes \<times> bool" where
  "Dummy_getData s = (take (mLength s) (mDummyData s), True)"

definition dummy_plugin :: "dummy_sensor \<Rightarrow> plugin_sensor" where
  "dummy_plugin s = base_sensor.extend (base_sensor.truncate s)
     \<lparr> pDataType = TYPE_STR, pUnit = UNIT_DIMENSIONLESS, pMaxDataSize = mLength s,
       pSamples = (\<lambda>_. Dummy_getData s), pCalls = 0 \<rparr>"

section \<open>LinuxSensorIP\<close>

text \<open>The addresses of \<open>getifaddrs\<close>, in the notation of \<open>inet_ntop\<close>.\<close>

datatype ifaddr = No_addr | Inet string | Inet6 string | Other_family

record ip_sensor = base_sensor +
  mIPs :: string

definition LinuxSensorIP_ctor :: ip_sensor where
  "LinuxSensorIP_ctor = base_sensor.extend BaseSensor_ctor \<lparr> mIPs = [] \<rparr>"

fun add_addresses :: "ifaddr list \<Rightarrow> string \<Rightarrow> string" where
  "add_addresses [] ips = ips"
| "add_addresses (Inet a # as) ips = add_addresses as (ips @ a @ '', '')"
| "add_addresses (Inet6 a # as) ips = add_addresses as (ips @ a @ '', '')"
| "add_addresses (_ # as) ips = add_addresses as ips"

definition IP_configure :: "ifaddr list \<Rightarrow> string \<Rightarrow> ip_sensor \<Rightarrow> bool \<times> ip_sensor" where
  "IP_configure ifs data s =
     (let ips = add_addresses ifs (mIPs s)
      in (True, (BaseSensor_configure data s) \<lparr> mIPs := if 0 < length ips then take (size_sub (length ips) 2) ips else ips \<rparr>))"

definition IP_getData :: "ip_sensor \<Rightarrow> bytes \<times> bool" where
  "IP_getData s = (bytes_of (mIPs s), True)"

definition ip_plugin :: "ip_sensor \<Rightarrow> plugin_sensor" where
  "ip_plugin s = base_sensor.extend (base_sensor.truncate s)
     \<lparr> pDataType = TYPE_STR, pUnit = UNIT_DIMENSIONLESS, pMaxDataSize = length (mIPs s),
       pSamples = (\<lambda>_. IP_getData s), pCalls = 0 \<rparr>"

section \<open>SensorFileReader\<close>

record file_sensor = base_sensor +
  mPath :: string
  fsDataType :: ISensorDataType
  fsUnit :: ISensorUnit
  mMultiplier :: dbl

definition SensorFileReader_ctor :: file_sensor where
  "SensorFileReader_ctor = base_sensor.extend BaseSensor_ctor
     \<lparr> mPath = [], fsDataType = TYPE_NONE, fsUnit = UNIT_DIMENSIONLESS, mMultiplier = dbl_of_int 1 \<rparr>"

text \<open>The unit is the Latin-1 text of degrees Celsius. A failure leaves what was set before it.\<close>

definition File_configure :: "string \<Rightarrow> file_sensor \<Rightarrow> bool \<times> file_sensor" where
  "File_configure data s =
     (let options = c_str data;
          s = (BaseSensor_configure data s) \<lparr> mPath := getOption options ''path'' \<rparr>;
          dataType = getOption options ''type'';
          units = (\<lambda>s. (True, if getOption options ''unit'' = [CHR 0xB0, CHR ''C''] then s \<lparr> fsUnit := UNIT_TEMPERATURE \<rparr> else s))
      in if mPath s = [] then (False, s)
         else if dataType = ''U8'' then units (s \<lparr> fsDataType := TYPE_U8 \<rparr>)
         else if dataType = ''U16'' then units (s \<lparr> fsDataType := TYPE_U16 \<rparr>)
         else if dataType = ''double'' then
           let s = s \<lparr> fsDataType := TYPE_FLOAT \<rparr>; multiplier = getOption options ''multiplier'' in
           units (if multiplier = [] then s
                  else case istream_dbl multiplier of
                      (Some value, _, True) \<Rightarrow> s \<lparr> mMultiplier := value \<rparr>
                    | _ \<Rightarrow> s)
         else (False, s))"

definition File_getMaxDataSize :: "file_sensor \<Rightarrow> nat" where
  "File_getMaxDataSize s =
     (case fsDataType s of TYPE_U8 \<Rightarrow> 1 | TYPE_U16 \<Rightarrow> 2 | TYPE_FLOAT \<Rightarrow> 8 | _ \<Rightarrow> 0)"

text \<open>\<open>getline\<close> until it fails: the lines of a text.\<close>

function file_lines :: "string \<Rightarrow> string list" where
  "file_lines s =
     (if s = [] then []
      else takeWhile (\<lambda>c. c \<noteq> CHR 0x0A) s
           # file_lines (drop (length (takeWhile (\<lambda>c. c \<noteq> CHR 0x0A) s) + 1) s))"
  by auto
termination
  by (relation "measure length") auto

declare file_lines.simps [simp del]

text \<open>The lines are joined by a slash and an \<open>n\<close>, not by a newline.\<close>

fun joined_lines :: "string list \<Rightarrow> string" where
  "joined_lines [] = []"
| "joined_lines (l # ls) = l @ concat (map (\<lambda>line. ''/n'' @ line) ls)"

definition File_parse :: "(dbl \<Rightarrow> dbl \<Rightarrow> dbl) \<Rightarrow> file_sensor \<Rightarrow> string \<Rightarrow> bytes \<times> bool" where
  "File_parse nan s fileContent =
     (case fsDataType s of
        TYPE_U8 \<Rightarrow> (case istream_int int_min int_max fileContent of
            (Some value, _, True) \<Rightarrow> ([word_of_int value], True) | _ \<Rightarrow> ([], False))
      | TYPE_U16 \<Rightarrow> (case istream_uint 16 fileContent of
            (Some value, _, True) \<Rightarrow> ([word_of_nat (value div 256), word_of_nat value], True) | _ \<Rightarrow> ([], False))
      | TYPE_FLOAT \<Rightarrow> (case istream_dbl fileContent of
            (Some value, _, True) \<Rightarrow> (u64_mem (dbl_mul nan value (mMultiplier s)), True) | _ \<Rightarrow> ([], False))
      | _ \<Rightarrow> ([], False))"

definition File_getData :: "(dbl \<Rightarrow> dbl \<Rightarrow> dbl) \<Rightarrow> (string \<Rightarrow> string option) \<Rightarrow> file_sensor \<Rightarrow> bytes \<times> bool" where
  "File_getData nan files s =
     (case files (c_str (mPath s)) of
        None \<Rightarrow> ([], False)
      | Some content \<Rightarrow> File_parse nan s (joined_lines (file_lines content)))"

definition file_plugin :: "(dbl \<Rightarrow> dbl \<Rightarrow> dbl) \<Rightarrow> (nat \<Rightarrow> string \<Rightarrow> string option) \<Rightarrow> file_sensor \<Rightarrow> plugin_sensor" where
  "file_plugin nan files s = base_sensor.extend (base_sensor.truncate s)
     \<lparr> pDataType = fsDataType s, pUnit = fsUnit s, pMaxDataSize = File_getMaxDataSize s,
       pSamples = (\<lambda>n. File_getData nan (files n) s), pCalls = 0 \<rparr>"

section \<open>The factory with these plugins\<close>

definition create_sensor :: "(dbl \<Rightarrow> dbl \<Rightarrow> dbl) \<Rightarrow> (nat \<Rightarrow> string \<Rightarrow> string option) \<Rightarrow> string \<Rightarrow> plugin_sensor option" where
  "create_sensor nan files name =
     (if name = ''SensorDummy'' then Some (dummy_plugin DummySensor_ctor)
      else if name = ''SensorIP'' then Some (ip_plugin LinuxSensorIP_ctor)
      else if name = ''SensorFileReader'' then Some (file_plugin nan files SensorFileReader_ctor)
      else None)"

definition configure_sensor :: "(dbl \<Rightarrow> dbl \<Rightarrow> dbl) \<Rightarrow> (nat \<Rightarrow> string \<Rightarrow> string option) \<Rightarrow> ifaddr list
    \<Rightarrow> string \<Rightarrow> string \<Rightarrow> plugin_sensor \<Rightarrow> bool \<times> plugin_sensor" where
  "configure_sensor nan files ifs name options p =
     (if name = ''SensorDummy'' then map_prod id dummy_plugin (Dummy_configure options DummySensor_ctor)
      else if name = ''SensorIP'' then map_prod id ip_plugin (IP_configure ifs options LinuxSensorIP_ctor)
      else if name = ''SensorFileReader'' then map_prod id (file_plugin nan files) (File_configure options SensorFileReader_ctor)
      else (True, p))"

end
