(* ===== verification/Sensor_Plugin_Properties.thy ===== *)
theory Sensor_Plugin_Properties
  imports Sensor_Plugins
begin

text \<open>What the sensors of the three plugins promise to the sensor set, and what they read.\<close>

text \<open>A reading never exceeds the announced size, a successful one has exactly that size, and the size is
  the one of the data type.\<close>

definition typed_sensor :: "plugin_sensor \<Rightarrow> bool" where
  "typed_sensor p \<longleftrightarrow>
     (\<forall>n. length (fst (pSamples p n)) \<le> pMaxDataSize p) \<and>
     (\<forall>n. snd (pSamples p n) \<longrightarrow> length (fst (pSamples p n)) = pMaxDataSize p) \<and>
     (case pDataType p of TYPE_U8 \<Rightarrow> pMaxDataSize p = 1 | TYPE_U16 \<Rightarrow> pMaxDataSize p = 2
        | TYPE_FLOAT \<Rightarrow> pMaxDataSize p = 8 | TYPE_STR \<Rightarrow> True | _ \<Rightarrow> pMaxDataSize p = 0)"

lemmas plugin_conversions = dummy_plugin_def ip_plugin_def file_plugin_def base_sensor.defs plugin_sensor.defs

lemma dummy_typed: "length (mDummyData s) = mLength s \<Longrightarrow> typed_sensor (dummy_plugin s)"
  by (simp add: typed_sensor_def plugin_conversions Dummy_getData_def)

lemma ip_typed: "typed_sensor (ip_plugin s)"
  by (simp add: typed_sensor_def plugin_conversions IP_getData_def)

lemma File_parse_size:
  "length (fst (File_parse nan s t)) \<le> File_getMaxDataSize s"
  "snd (File_parse nan s t) \<Longrightarrow> length (fst (File_parse nan s t)) = File_getMaxDataSize s"
  by (auto simp: File_parse_def File_getMaxDataSize_def split: ISensorDataType.splits option.splits prod.splits bool.splits)

lemma File_getData_size:
  "length (fst (File_getData nan fs s)) \<le> File_getMaxDataSize s"
  "snd (File_getData nan fs s) \<Longrightarrow> length (fst (File_getData nan fs s)) = File_getMaxDataSize s"
  by (auto simp: File_getData_def File_parse_size split: option.splits)

lemma file_typed: "fsDataType s \<in> {TYPE_NONE, TYPE_U8, TYPE_U16, TYPE_FLOAT} \<Longrightarrow> typed_sensor (file_plugin nan files s)"
  using File_getData_size
  by (auto simp: typed_sensor_def plugin_conversions File_getMaxDataSize_def)

lemma File_configure_type:
  "fsDataType s \<in> {TYPE_NONE, TYPE_U8, TYPE_U16, TYPE_FLOAT} \<Longrightarrow>
   fsDataType (snd (File_configure data s)) \<in> {TYPE_NONE, TYPE_U8, TYPE_U16, TYPE_FLOAT}"
  by (auto simp: File_configure_def BaseSensor_configure_def Let_def split: prod.splits option.splits bool.splits)

lemma created_configured_typed:
  assumes "create_sensor nan files name = Some p"
  shows "typed_sensor p \<and> typed_sensor (snd (configure_sensor nan files ifs name options p))"
proof -
  have "length (mDummyData (snd (Dummy_configure options DummySensor_ctor)))
      = mLength (snd (Dummy_configure options DummySensor_ctor))"
    by (simp add: Dummy_configure_def)
  moreover have "fsDataType SensorFileReader_ctor = TYPE_NONE" by (simp add: SensorFileReader_ctor_def base_sensor.defs)
  ultimately show ?thesis
    using assms ip_typed file_typed File_configure_type [of SensorFileReader_ctor]
    by (auto simp: create_sensor_def configure_sensor_def dummy_typed DummySensor_ctor_def base_sensor.defs
        split: if_splits)
qed

text \<open>C36: Every sensor the plugins create, configured with any options, has the size of its data type;
  whatever its files hold, a reading stays within that size and a successful one fills it.\<close>

theorem own_sensors_typed:
  assumes "create_sensor nan files name = Some p"
  shows "typed_sensor p \<and> typed_sensor (snd (configure_sensor nan files ifs name options p))"
  using assms by (rule created_configured_typed)

theorem own_sensors_typed_witness:
  "typed_sensor (snd (configure_sensor (\<lambda>x _. x) (\<lambda>_ _. Some ''7'') [] ''SensorFileReader'' ''path=/t,type=U8''
     (file_plugin (\<lambda>x _. x) (\<lambda>_ _. Some ''7'') SensorFileReader_ctor)))"
  using own_sensors_typed [of "\<lambda>x _. x" "\<lambda>_ _. Some ''7''" "''SensorFileReader''"] by (simp add: create_sensor_def)

text \<open>With these plugins as the factory the sensor set's contract of its plugins holds.\<close>

lemma own_plugins_ok:
  assumes "\<forall>name m. providers name = Some m \<longrightarrow> (\<forall>(k, p) \<in> set m. sensor_ok (Plugin p))"
  shows "plugins_ok \<lparr> createSensor = create_sensor nan files, configureSensor = configure_sensor nan files ifs,
     createSensorProvider = providers, createJSONSensorProvider = json \<rparr>"
  using assms created_configured_typed by (simp add: plugins_ok_def typed_sensor_def)

lemma istream_uint_show:
  assumes "n < 2 ^ w" "t = [] \<or> \<not> isdigit (hd t)"
  shows "istream_uint w (show_nat n @ t) = (Some n, t, True)"
  using assms by (simp add: istream_uint_def dropWhile_space_show_nat split_sign_show_nat
      takeWhile_show_nat dropWhile_show_nat)

text \<open>A configured file sensor for 16-bit values reads the number that stands in the first line of its
  file and sends it most significant byte first.\<close>

theorem file_reading_value:
  assumes "getOption (c_str options) ''path'' = path" "path \<noteq> []" "getOption (c_str options) ''type'' = ''U16''"
    and "files k (c_str path) = Some (show_nat n @ CHR 0x0A # rest)" "n < 65536"
    and "configure_sensor nan files ifs ''SensorFileReader'' options p = (ok, p')"
  shows "ok \<and> pDataType p' = TYPE_U16 \<and> (\<exists>b. pSamples p' k = (b, True) \<and> length b = 2 \<and> big_endian b = n)"
proof -
  define s where "s = snd (File_configure options SensorFileReader_ctor)"
  have s: "File_configure options SensorFileReader_ctor = (True, s)" "mPath s = path" "fsDataType s = TYPE_U16"
    unfolding s_def using assms(1-3) by (auto simp: File_configure_def Let_def)
  have p: "ok" "p' = file_plugin nan files s" using assms(6) s(1) by (simp_all add: configure_sensor_def)
  have "\<forall>c \<in> set (show_nat n). c \<noteq> CHR 0x0A"
    using show_nat_digits [of n] by (auto simp: isdigit_def char_val_def)
  then have t: "takeWhile (\<lambda>c. c \<noteq> CHR 0x0A) (show_nat n @ CHR 0x0A # rest) = show_nat n"
    by (simp add: takeWhile_append)
  then have "file_lines (show_nat n @ CHR 0x0A # rest) = show_nat n # file_lines rest"
    by (simp add: file_lines.simps [of "show_nat n @ CHR 0x0A # rest"])
  then obtain t where t: "joined_lines (file_lines (show_nat n @ CHR 0x0A # rest)) = show_nat n @ t" "t = [] \<or> hd t = CHR ''/''"
    by (cases "file_lines rest") simp_all
  have "istream_uint 16 (show_nat n @ t) = (Some n, t, True)"
    using t(2) assms(5) by (intro istream_uint_show) (auto simp: isdigit_def char_val_def)
  then have "File_getData nan (files k) s = ([word_of_nat (n div 256), word_of_nat n], True)"
    using assms(4) s t(1) by (simp add: File_getData_def File_parse_def)
  moreover have "big_endian [word_of_nat (n div 256), word_of_nat n] = n"
    using assms(5) by (simp add: big_endian_def unat_of_nat take_bit_eq_mod)
  ultimately show ?thesis using p s(3) by (simp add: plugin_conversions)
qed

theorem file_reading_value_witness:
  "\<exists>ok p' b. configure_sensor (\<lambda>x _. x) (\<lambda>_ _. Some (''513'' @ CHR 0x0A # ''x'')) [] ''SensorFileReader'' ''path=/t,type=U16''
      (file_plugin (\<lambda>x _. x) (\<lambda>_ _. None) SensorFileReader_ctor)
      = (ok, p') \<and> pSamples p' 4 = (b, True) \<and> big_endian b = 513"
proof -
  let ?c = "configure_sensor (\<lambda>x _. x) (\<lambda>_ _. Some (''513'' @ CHR 0x0A # ''x'')) [] ''SensorFileReader'' ''path=/t,type=U16''
      (file_plugin (\<lambda>x _. x) (\<lambda>_ _. None) SensorFileReader_ctor)"
  have o: "getOption (c_str ''path=/t,type=U16'') ''path'' = ''/t''" "getOption (c_str ''path=/t,type=U16'') ''type'' = ''U16''"
    by code_simp+
  have n: "Some (''513'' @ CHR 0x0A # ''x'') = Some (show_nat 513 @ CHR 0x0A # ''x'')" by code_simp
  obtain ok p' where c: "?c = (ok, p')" by force
  from file_reading_value [OF o(1) _ o(2) n _ c, of 4] c show ?thesis by auto
qed

end
