(* ===== verification/Plugin_Adapters.thy ===== *)
theory Plugin_Adapters
  imports Plugin_Properties Sensor_Plugin_Properties Daemon_Start_Facts Communicator_Dummy
begin

text \<open>
  The factories and the adapters of \<open>daemon/src/plugin_models\<close> over the handles of
  \<open>include/c_object_model.h\<close>. A C object is a table of functions and a handle, whose state is of
  a type parameter; an adapter forwards each call to the table, with the handle. A C++ object
  needs no adapter.
\<close>

section \<open>Communicators\<close>

text \<open>The functions of \<open>C_Communicator\<close> are those of a communicator, over the handle.\<close>

record ('h, 'd) comm_adapter =
  ca_communicator :: "'h communicator"
  ca_handle :: 'h
  ca_destroyFunc :: "'d option"

definition CommunicatorAdapter_ctor :: "'h communicator \<Rightarrow> 'h \<Rightarrow> 'd option \<Rightarrow> ('h, 'd) comm_adapter" where
  "CommunicatorAdapter_ctor table handle df =
     \<lparr> ca_communicator = table, ca_handle = handle, ca_destroyFunc = df \<rparr>"

text \<open>The call of the destroy function, if there is one.\<close>

definition CommunicatorAdapter_dtor :: "('h, 'd) comm_adapter \<Rightarrow> ('d \<times> 'h) option" where
  "CommunicatorAdapter_dtor a = map_option (\<lambda>d. (d, ca_handle a)) (ca_destroyFunc a)"

definition adapter_ops :: "('h, 'd) comm_adapter communicator" where
  "adapter_ops = \<lparr>
     initInterface = (\<lambda>a. case initInterface (ca_communicator a) (ca_handle a) of
        (r, calls, h) \<Rightarrow> (r, calls, a \<lparr> ca_handle := h \<rparr>)),
     getMaxDataSize = (\<lambda>a. bind_res (getMaxDataSize (ca_communicator a) (ca_handle a)) (\<lambda>(n, calls, h).
        Inr (n, calls, a \<lparr> ca_handle := h \<rparr>))),
     readData = (\<lambda>offset n a. bind_res (readData (ca_communicator a) offset n (ca_handle a)) (\<lambda>(r, b, calls, h).
        Inr (r, b, calls, a \<lparr> ca_handle := h \<rparr>))),
     writeData = (\<lambda>offset b a. bind_res (writeData (ca_communicator a) offset b (ca_handle a)) (\<lambda>(r, calls, h).
        Inr (r, calls, a \<lparr> ca_handle := h \<rparr>))) \<rparr>"

section \<open>Sensors\<close>

record 'h C_Sensor =
  cs_configure :: "'h \<Rightarrow> string \<Rightarrow> bool \<times> 'h"
  cs_getDataType :: "'h \<Rightarrow> ISensorDataType"
  cs_getMaxDataSize :: "'h \<Rightarrow> nat"
  cs_getData :: "'h \<Rightarrow> (bytes \<times> bool) \<times> 'h"
  cs_getUnit :: "'h \<Rightarrow> ISensorUnit"
  cs_getUseLowerThresholds :: "'h \<Rightarrow> bool"
  cs_getUseUpperThresholds :: "'h \<Rightarrow> bool"
  cs_getLowerCriticalThreshold :: "'h \<Rightarrow> dbl"
  cs_getLowerWarningThreshold :: "'h \<Rightarrow> dbl"
  cs_getUpperWarningThreshold :: "'h \<Rightarrow> dbl"
  cs_getUpperCriticalThreshold :: "'h \<Rightarrow> dbl"
  cs_getNumberOfValues :: "'h \<Rightarrow> u16"
  cs_getRenderingType :: "'h \<Rightarrow> IRenderingType"
  cs_getGroup :: "'h \<Rightarrow> string"

text \<open>The handle behind \<open>n\<close> calls of a function that changes it.\<close>

primrec after_calls :: "('h \<Rightarrow> 'r \<times> 'h) \<Rightarrow> nat \<Rightarrow> 'h \<Rightarrow> 'h" where
  "after_calls f 0 h = h"
| "after_calls f (Suc n) h = after_calls f n (snd (f h))"

text \<open>An adapted sensor as the sensor set sees it: what the functions of the table answer.\<close>

definition SensorAdapter :: "'h C_Sensor \<Rightarrow> 'h \<Rightarrow> plugin_sensor" where
  "SensorAdapter s h =
     \<lparr> mUseLowerThresholds = cs_getUseLowerThresholds s h, mUseUpperThresholds = cs_getUseUpperThresholds s h,
       mLowerCriticalThreshold = cs_getLowerCriticalThreshold s h, mLowerWarningThreshold = cs_getLowerWarningThreshold s h,
       mUpperWarningThreshold = cs_getUpperWarningThreshold s h, mUpperCriticalThreshold = cs_getUpperCriticalThreshold s h,
       mGroup = cs_getGroup s h, mRendering = cs_getRenderingType s h, mNumberOfValues = cs_getNumberOfValues s h,
       pDataType = cs_getDataType s h, pUnit = cs_getUnit s h, pMaxDataSize = cs_getMaxDataSize s h,
       pSamples = (\<lambda>n. fst (cs_getData s (after_calls (cs_getData s) n h))), pCalls = 0 \<rparr>"

definition SensorAdapter_configure :: "'h C_Sensor \<Rightarrow> string \<Rightarrow> 'h \<Rightarrow> bool \<times> plugin_sensor" where
  "SensorAdapter_configure s options h = map_prod id (SensorAdapter s) (cs_configure s h options)"

section \<open>Providers of sensors\<close>

record ('h, 's) C_SensorProvider =
  cp_getSensorsCount :: "'h \<Rightarrow> u32"
  cp_getSensorName :: "'h \<Rightarrow> nat \<Rightarrow> string"
  cp_getSensor :: "'h \<Rightarrow> nat \<Rightarrow> 's C_Sensor \<times> 's"

text \<open>Rounds \<open>i\<close>, \<open>i + 1\<close>, ... of the loop; a name that comes again replaces its sensor.\<close>

primrec provider_rounds :: "('h, 's) C_SensorProvider \<Rightarrow> 'h \<Rightarrow> nat \<Rightarrow> nat
    \<Rightarrow> (string, plugin_sensor) std_map \<Rightarrow> (string, plugin_sensor) std_map" where
  "provider_rounds cp h 0 i m = m"
| "provider_rounds cp h (Suc n) i m =
     (let (s, sh) = cp_getSensor cp h i
      in provider_rounds cp h n (Suc i) (map_assign (c_str (cp_getSensorName cp h i)) (SensorAdapter s sh) m))"

definition SensorProviderAdapter_getSensors :: "('h, 's) C_SensorProvider \<Rightarrow> 'h \<Rightarrow> (string, plugin_sensor) std_map" where
  "SensorProviderAdapter_getSensors cp h = provider_rounds cp h (unat (cp_getSensorsCount cp h)) 0 []"

record 'h C_JSONSensorProvider =
  cj_getSensorsDescription :: "'h \<Rightarrow> string"
  cj_getSensorsData :: "'h \<Rightarrow> string \<times> 'h"

definition JSONSensorProviderAdapter :: "'h C_JSONSensorProvider \<Rightarrow> 'h \<Rightarrow> json_provider" where
  "JSONSensorProviderAdapter cj h = Plugin_JSON (cj_getSensorsDescription cj h)
     (\<lambda>n. fst (cj_getSensorsData cj (after_calls (cj_getSensorsData cj) n h))) 0"

definition SlotDetectorAdapter_getSlot :: "('h \<Rightarrow> 8 word) \<Rightarrow> 'h \<Rightarrow> 8 word" where
  "SlotDetectorAdapter_getSlot table h = table h"

section \<open>The factories\<close>

text \<open>Each factory asks the plugin manager for an object and casts it to its interface.\<close>

definition factory_create :: "('o \<Rightarrow> 'i) \<Rightarrow> ('f, 'd, 'x, 'l, 'o) plugin_world \<Rightarrow> string
    \<Rightarrow> ('f, 'd, 'x, 'l, 'o) plugin_manager \<Rightarrow> 'i option \<times> ('f, 'd, 'x, 'l, 'o) plugin_manager" where
  "factory_create cast pw objectType pm =
     (let (object, pm) = createObject pw objectType pm in (map_option cast object, pm))"

definition CommunicatorFactory where "CommunicatorFactory = factory_create"
definition SlotDetectorFactory where "SlotDetectorFactory = factory_create"
definition SensorFactory where "SensorFactory = factory_create"
definition SensorProviderFactory where "SensorProviderFactory = factory_create"
definition JSONSensorProviderFactory where "JSONSensorProviderFactory = factory_create"

lemmas factory_defs = CommunicatorFactory_def SlotDetectorFactory_def SensorFactory_def SensorProviderFactory_def
  JSONSensorProviderFactory_def

section \<open>Properties\<close>

text \<open>The device behind an adapter is the one behind its handle.\<close>

definition adapter_mem :: "'h communicator \<Rightarrow> ('h \<Rightarrow> bytes option) \<Rightarrow> ('h, 'd) comm_adapter \<Rightarrow> bytes option" where
  "adapter_mem ops mem a = (if ca_communicator a = ops then mem (ca_handle a) else None)"

lemma adapter_mem_Some:
  "adapter_mem ops mem a = Some m \<longleftrightarrow> ca_communicator a = ops \<and> mem (ca_handle a) = Some m"
  by (simp add: adapter_mem_def)

context memory_view
begin

lemma adapted_memory: "memory_view adapter_ops (adapter_mem ops mem)"
proof
  fix a :: "('c, 'd) comm_adapter" and m :: bytes and off n :: nat
  have self: "a \<lparr> ca_handle := ca_handle a \<rparr> = a" by (cases a) simp
  assume "adapter_mem ops mem a = Some m"
  then have a: "ca_communicator a = ops" "mem (ca_handle a) = Some m" by (simp_all add: adapter_mem_Some)
  show "\<exists>n. getMaxDataSize adapter_ops a = Inr (n, [], a)"
    using max_size [OF a(2)] by (auto simp: adapter_ops_def a(1) self)
  assume "off + n \<le> length m" "0 < n"
  from read [OF a(2) this] show "\<exists>r. r \<noteq> 0 \<and> readData adapter_ops off n a = Inr (r, take n (drop off m), [], a)"
    by (auto simp: adapter_ops_def a(1) self)
qed

end

context mailbox
begin

lemma adapted_mailbox: "mailbox adapter_ops (adapter_mem ops mem) mo cap (\<lambda>h a. agrees h (ca_handle a))"
proof (intro mailbox.intro mailbox_axioms.intro adapted_memory)
  fix a :: "('c, 'd) comm_adapter" and m h b
  assume m: "adapter_mem ops mem a = Some m" "mailbox_free mo cap m" "agrees h (ca_handle a)" "fair_message cap b"
  then have a: "ca_communicator a = ops" "mem (ca_handle a) = Some m" by (simp_all add: adapter_mem_Some)
  from write_free [OF a(2) m(2-4)] obtain r calls c' m' where
    w: "writeData ops mo b (ca_handle a) = Inr (r, calls, c')" "\<forall>x \<in> set calls. harmless x"
      "mem c' = Some m'" "mailbox_free mo cap m'" "agrees (h @ [(mo, b)]) c'" by blast
  then show "\<exists>r calls c' m'. writeData adapter_ops mo b a = Inr (r, calls, c') \<and> (\<forall>x \<in> set calls. harmless x)
      \<and> adapter_mem ops mem c' = Some m' \<and> mailbox_free mo cap m' \<and> agrees (h @ [(mo, b)]) (ca_handle c')"
    by (auto simp: adapter_ops_def a(1) adapter_mem_Some intro!: exI [of _ "a \<lparr> ca_handle := c' \<rparr>"])
qed

end

text \<open>C35: A communicator written in C that keeps the contract of a mailbox keeps it behind its adapter too,
  so what is proved of the daemon on such a communicator holds for the adapted one.\<close>

theorem adapter_keeps_contract:
  assumes "mailbox ops mem mo cap agrees"
  shows "mailbox adapter_ops (adapter_mem ops mem) mo cap (\<lambda>h a. agrees h (ca_handle a))"
  using mailbox.adapted_mailbox [OF assms] .

theorem adapter_keeps_contract_witness:
  "mailbox (adapter_ops :: (_, nat) comm_adapter communicator) (adapter_mem (dummy_ops 0) dummy_mem) (dummy_slot 1) 1020 (\<lambda>_ _. True) \<and>
   adapter_mem (dummy_ops 0) dummy_mem (CommunicatorAdapter_ctor (dummy_ops 0)
     (snd (snd (dummy_initInterface 0 CommunicatorDummy_ctor))) (Some (5 :: nat)))
     = dummy_mem (snd (snd (dummy_initInterface 0 CommunicatorDummy_ctor)))"
  using adapter_keeps_contract [OF dummy_mailbox1.mailbox_axioms, of 0]
  by (simp add: adapter_mem_def CommunicatorAdapter_ctor_def)

text \<open>The sensors of an adapted provider: of several with the same name, the last one.\<close>

definition provided :: "('h, 's) C_SensorProvider \<Rightarrow> 'h \<Rightarrow> nat \<Rightarrow> string \<times> plugin_sensor" where
  "provided cp h i = (c_str (cp_getSensorName cp h i), case_prod SensorAdapter (cp_getSensor cp h i))"

lemma provider_rounds_map:
  "map_of (provider_rounds cp h n i m) = map_of m ++ map_of (rev (map (provided cp h) [i..<i + n]))"
proof (induction n arbitrary: i m)
  case (Suc n)
  have "[i..<i + Suc n] = i # [Suc i..<Suc i + n]" by (simp add: upt_conv_Cons)
  then show ?case
    by (simp add: Suc.IH Let_def split_beta map_of_assign provided_def fun_eq_iff map_add_def split: option.splits)
qed simp

lemma provider_rounds_ok: "map_ok m \<Longrightarrow> map_ok (provider_rounds cp h n i m)"
  by (induction n arbitrary: i m) (auto simp: split_beta Let_def)

lemma adapted_provider_map:
  "map_ok (SensorProviderAdapter_getSensors cp h) \<and> map_of (SensorProviderAdapter_getSensors cp h) =
     map_of (rev (map (provided cp h) [0..<unat (cp_getSensorsCount cp h)]))"
  by (simp add: SensorProviderAdapter_getSensors_def provider_rounds_map provider_rounds_ok)

end
