(* ===== verification/Slot_Detector.thy ===== *)
theory Slot_Detector
  imports Config
begin

text \<open>
  The slot detector (\<open>plugins/LinuxSlotDetectorGPIO/src/SlotDetector.cpp\<close>): two GPIO pins, named
  in the configuration, are exported, made inputs, and read as the two bits of the slot.
  The files of \<open>/sys/class/gpio\<close> are a parameter: whether a file can be opened after
  what was written so far, and the first character read from it, if there is one.
\<close>

record gpio_files =
  can_open :: "(string \<times> string) list \<Rightarrow> string \<Rightarrow> bool"
  first_char :: "(string \<times> string) list \<Rightarrow> string \<Rightarrow> char option"
  buffer_junk :: char

text \<open>What was written to which file, and the files that are open.\<close>

record gpio =
  written :: "(string \<times> string) list"
  opened :: "string list"

text \<open>\<open>sprintf\<close> into a buffer of \<open>n\<close> characters.\<close>

definition sprintf_into :: "nat \<Rightarrow> string \<Rightarrow> string res" where
  "sprintf_into n s = (if length s < n then Inr s else Inl Bad_access)"

definition exportGPIO :: "gpio_files \<Rightarrow> int \<Rightarrow> gpio \<Rightarrow> (int \<times> gpio) res" where
  "exportGPIO gf pinNr g =
     (if \<not> can_open gf (written g) ''/sys/class/gpio/export'' then Inr (-1, g)
      else bind_res (sprintf_into 5 (show_int pinNr)) (\<lambda>set_value.
        Inr (0, g \<lparr> written := written g @ [(''/sys/class/gpio/export'', set_value)] \<rparr>)))"

definition setDirection :: "gpio_files \<Rightarrow> int \<Rightarrow> int \<Rightarrow> gpio \<Rightarrow> (int \<times> gpio) res" where
  "setDirection gf pinNr direction g =
     bind_res (sprintf_into 35 (''/sys/class/gpio/gpio'' @ show_int pinNr @ ''/direction'')) (\<lambda>filename.
       if \<not> can_open gf (written g) filename then Inr (-1, g)
       else Inr (0, g \<lparr> written := written g @ [(filename, if direction = 1 then ''out'' else ''in'')] \<rparr>))"

definition openGPIO :: "gpio_files \<Rightarrow> int \<Rightarrow> gpio \<Rightarrow> (string option \<times> gpio) res" where
  "openGPIO gf pinNr g =
     bind_res (sprintf_into 35 (''/sys/class/gpio/gpio'' @ show_int pinNr @ ''/value'')) (\<lambda>filename.
       if \<not> can_open gf (written g) filename then Inr (None, g)
       else Inr (Some filename, g \<lparr> opened := opened g @ [filename] \<rparr>))"

text \<open>If nothing is read, the buffer holds what it happened to hold.\<close>

definition getGPIO :: "gpio_files \<Rightarrow> string option \<Rightarrow> gpio \<Rightarrow> int" where
  "getGPIO gf fp g =
     (case fp of
        None \<Rightarrow> -1
      | Some f \<Rightarrow>
          let buffer = (case first_char gf (written g) f of Some c \<Rightarrow> c | None \<Rightarrow> buffer_junk gf)
          in if buffer = CHR ''1'' then 1 else if buffer = CHR ''0'' then 0 else -1)"

text \<open>\<open>fclose\<close> of a null pointer is an access through it.\<close>

definition fclose :: "string option \<Rightarrow> gpio \<Rightarrow> gpio res" where
  "fclose fp g = (case fp of None \<Rightarrow> Inl Bad_access | Some f \<Rightarrow> Inr (g \<lparr> opened := remove1 f (opened g) \<rparr>))"

text \<open>Both value files must have been opened; a pin without a value leaves them open.\<close>

definition read_slot :: "gpio_files \<Rightarrow> int \<Rightarrow> int \<Rightarrow> gpio \<Rightarrow> (8 word \<times> gpio) res" where
  "read_slot gf bit0GPIO bit1GPIO g =
     bind_res (openGPIO gf bit0GPIO g) (\<lambda>(bit0, g).
     bind_res (openGPIO gf bit1GPIO g) (\<lambda>(bit1, g).
       if bit0 = None \<or> bit1 = None then
         bind_res (fclose bit0 g) (\<lambda>g. bind_res (fclose bit1 g) (\<lambda>g. Inr (-1, g)))
       else
         let bit0Value = getGPIO gf bit0 g; bit1Value = getGPIO gf bit1 g in
         if bit0Value < 0 \<or> bit1Value < 0 then Inr (-1, g)
         else bind_res (fclose bit0 g) (\<lambda>g. bind_res (fclose bit1 g) (\<lambda>g.
           Inr (push_bit 1 (word_of_int bit1Value) OR word_of_int bit0Value, g)))))"

definition detector_getSlot :: "gpio_files \<Rightarrow> int \<Rightarrow> config \<Rightarrow> gpio \<Rightarrow> (8 word \<times> gpio) res" where
  "detector_getSlot gf junk_int cfg g =
     (let bit0GPIO = GetInt junk_int cfg ''Slot'' ''Bit0GPIO'' (-1);
          bit1GPIO = GetInt junk_int cfg ''Slot'' ''Bit1GPIO'' (-1) in
      if bit0GPIO = -1 \<or> bit1GPIO = -1 then Inr (-1, g)
      else
        bind_res (exportGPIO gf bit0GPIO g) (\<lambda>(ret, g).
        if ret < 0 then Inr (word_of_int ret, g) else
        bind_res (exportGPIO gf bit1GPIO g) (\<lambda>(ret, g).
        if ret < 0 then Inr (word_of_int ret, g) else
        bind_res (setDirection gf bit0GPIO 0 g) (\<lambda>(ret, g).
        if ret < 0 then Inr (word_of_int ret, g) else
        bind_res (setDirection gf bit1GPIO 0 g) (\<lambda>(ret, g).
        if ret < 0 then Inr (word_of_int ret, g) else read_slot gf bit0GPIO bit1GPIO g)))))"

section \<open>Properties\<close>

definition pin_ok :: "int \<Rightarrow> bool" where
  "pin_ok n \<longleftrightarrow> -999 \<le> n \<and> n \<le> 9999 \<and> n \<noteq> -1"

abbreviation value_file :: "int \<Rightarrow> string" where
  "value_file n \<equiv> ''/sys/class/gpio/gpio'' @ show_int n @ ''/value''"

abbreviation direction_file :: "int \<Rightarrow> string" where
  "direction_file n \<equiv> ''/sys/class/gpio/gpio'' @ show_int n @ ''/direction''"

abbreviation setup_writes :: "int \<Rightarrow> int \<Rightarrow> (string \<times> string) list" where
  "setup_writes p q \<equiv> [(''/sys/class/gpio/export'', show_int p), (''/sys/class/gpio/export'', show_int q),
     (direction_file p, ''in''), (direction_file q, ''in'')]"

lemma length_show_int_pin: "pin_ok n \<Longrightarrow> length (show_int n) \<le> 4"
  using length_show_nat_pow [of "nat n" 4] length_show_nat_pow [of "nat (- n)" 3]
  by (auto simp: pin_ok_def show_int_def)

lemma pin_texts:
  assumes "pin_ok n"
  shows "sprintf_into 5 (show_int n) = Inr (show_int n)" "sprintf_into 35 (value_file n) = Inr (value_file n)"
    "sprintf_into 35 (direction_file n) = Inr (direction_file n)"
  using length_show_int_pin [OF assms] by (simp_all add: sprintf_into_def)

text \<open>Whatever the pins hold, the answer is -1 or one of four slots.\<close>

lemma getGPIO_range: "getGPIO gf fp g = -1 \<or> getGPIO gf fp g = 0 \<or> getGPIO gf fp g = 1"
  by (simp add: getGPIO_def Let_def split: option.split)

lemma read_slot_range:
  assumes "read_slot gf p q g = Inr (s, g')"
  shows "s \<in> {-1, 0, 1, 2, 3}"
proof -
  obtain a b h where c: "s = -1 \<or> \<not> getGPIO gf a h < 0 \<and> \<not> getGPIO gf b h < 0 \<and>
      s = push_bit 1 (word_of_int (getGPIO gf b h)) OR word_of_int (getGPIO gf a h)"
    using assms unfolding read_slot_def Let_def by (auto simp: bind_res_Inr_iff split: if_splits)
  with getGPIO_range [of gf a h] getGPIO_range [of gf b h] show ?thesis by (elim disjE) simp_all
qed

lemma checked_step:
  assumes "bind_res m (\<lambda>(ret, g). if ret < 0 then Inr (word_of_int ret, g) else f g) = Inr (s, g')"
    and "\<And>ret g. m = Inr (ret, g) \<Longrightarrow> ret < 0 \<Longrightarrow> ret = -1"
    and "\<And>g. f g = Inr (s, g') \<Longrightarrow> s \<in> {-1, 0, 1, 2, 3 :: 8 word}"
  shows "s \<in> {-1, 0, 1, 2, 3}"
proof -
  obtain ret h where m: "m = Inr (ret, h)" using assms(1) by (auto simp: bind_res_Inr_iff)
  show ?thesis
  proof (cases "ret < 0")
    case True
    with assms(2) [OF m] assms(1) m show ?thesis by simp
  qed (use assms(1,3) m in simp)
qed

lemma detector_getSlot_range:
  assumes "detector_getSlot gf j cfg g = Inr (s, g')"
  shows "s \<in> {-1, 0, 1, 2, 3}"
proof (cases "GetInt j cfg ''Slot'' ''Bit0GPIO'' (-1) = -1 \<or> GetInt j cfg ''Slot'' ''Bit1GPIO'' (-1) = -1")
  case False
  have neg: "exportGPIO gf p h = Inr (r, h') \<Longrightarrow> r < 0 \<Longrightarrow> r = -1"
      "setDirection gf p d h = Inr (r, h') \<Longrightarrow> r < 0 \<Longrightarrow> r = -1" for p d h r h'
    by (auto simp: exportGPIO_def setDirection_def bind_res_Inr_iff split: if_splits)
  show ?thesis
    using assms unfolding detector_getSlot_def Let_def if_not_P [OF False]
    apply -
    by ((erule checked_step, erule (1) neg)+, erule read_slot_range)
qed (use assms in \<open>auto simp: detector_getSlot_def\<close>)

text \<open>A pin number of more than four characters overruns the buffer of the first \<open>sprintf\<close>.\<close>

lemma wide_pin_overruns:
  assumes "GetInt j cfg ''Slot'' ''Bit0GPIO'' (-1) = p" "10000 \<le> p" "GetInt j cfg ''Slot'' ''Bit1GPIO'' (-1) \<noteq> -1"
    and "can_open gf (written g) ''/sys/class/gpio/export''"
  shows "detector_getSlot gf j cfg g = Inl Bad_access"
proof -
  have "10 ^ k \<le> n \<Longrightarrow> k < length (show_nat n)" for k n
  proof (induction k arbitrary: n)
    case (Suc k)
    then have "10 \<le> n" "10 ^ k \<le> n div 10" by (auto intro: order_trans [of 10 "10 * 10 ^ k"])
    with Suc.IH [of "n div 10"] show ?case by (subst show_nat.simps) simp
  qed simp
  moreover have "10 ^ 4 \<le> nat p" using assms(2) by (simp add: le_nat_iff)
  ultimately have "4 < length (show_nat (nat p))" by blast
  with assms(2) have "5 \<le> length (show_int p)" by (simp add: show_int_def)
  with assms show ?thesis by (simp add: detector_getSlot_def exportGPIO_def sprintf_into_def)
qed

text \<open>C39: If the files of both configured pins can be opened and hold 0 or 1, the answer is the number
  with these bits, the pins have been exported and made inputs, and no file is left open.\<close>

theorem slot_from_pins:
  assumes "GetInt j cfg ''Slot'' ''Bit0GPIO'' (-1) = p" "GetInt j cfg ''Slot'' ''Bit1GPIO'' (-1) = q" "pin_ok p" "pin_ok q"
    and "\<forall>w. \<forall>f \<in> {''/sys/class/gpio/export'', direction_file p, direction_file q, value_file p, value_file q}. can_open gf w f"
    and "first_char gf (ws @ setup_writes p q) (value_file p) = Some (if b0 then CHR ''1'' else CHR ''0'')"
    and "first_char gf (ws @ setup_writes p q) (value_file q) = Some (if b1 then CHR ''1'' else CHR ''0'')"
  shows "detector_getSlot gf j cfg \<lparr> written = ws, opened = [] \<rparr> =
    Inr (word_of_nat (2 * of_bool b1 + of_bool b0), \<lparr> written = ws @ setup_writes p q, opened = [] \<rparr>)"
proof -
  have n: "p \<noteq> -1" "q \<noteq> -1" using assms(3,4) by (auto simp: pin_ok_def)
  note t = pin_texts [OF assms(3)] pin_texts [OF assms(4)]
  have o: "can_open gf w ''/sys/class/gpio/export''" "can_open gf w (direction_file p)" "can_open gf w (direction_file q)"
      "can_open gf w (value_file p)" "can_open gf w (value_file q)" for w
    using assms(5) by simp_all
  have r: "read_slot gf p q \<lparr> written = ws @ setup_writes p q, opened = [] \<rparr> =
      Inr (word_of_nat (2 * of_bool b1 + of_bool b0), \<lparr> written = ws @ setup_writes p q, opened = [] \<rparr>)"
    using t(2,5) o(4,5) assms(6,7)
    by (cases b0; cases b1) (simp_all add: read_slot_def openGPIO_def getGPIO_def fclose_def)
  show ?thesis
    using n t o r assms(1,2) by (simp add: detector_getSlot_def exportGPIO_def setDirection_def)
qed

definition pin_config :: config where
  "pin_config = \<lparr> cini = \<lparr> ini_content = [\<lparr> sdata =
       [\<lparr> rcomments = [], rkey = ''Bit0GPIO'', rvalue = ''338'' \<rparr>, \<lparr> rcomments = [], rkey = ''Bit1GPIO'', rvalue = ''339'' \<rparr>],
     scomments = [], sname = ''Slot'' \<rparr>], gfilename = ''config.ini'', error_msg = None, w_flag = False \<rparr>,
     mNoSaveMode = False, mConfigChanged = False, mListeners = [], mDisableChangeListeners = False \<rparr>"

definition pin_files :: gpio_files where
  "pin_files = \<lparr> can_open = (\<lambda>_ _. True),
     first_char = (\<lambda>w f. Some (if f = ''/sys/class/gpio/gpio339/value'' then CHR ''1'' else CHR ''0'')),
     buffer_junk = CHR ''x'' \<rparr>"

theorem slot_from_pins_witness:
  "\<exists>ws. detector_getSlot pin_files 0 pin_config \<lparr> written = [], opened = [] \<rparr> = Inr (2, \<lparr> written = ws, opened = [] \<rparr>)"
proof -
  have p: "GetInt 0 pin_config ''Slot'' ''Bit0GPIO'' (-1) = 338" "GetInt 0 pin_config ''Slot'' ''Bit1GPIO'' (-1) = 339"
    by code_simp+
  have v: "value_file 338 = ''/sys/class/gpio/gpio338/value''" "value_file 339 = ''/sys/class/gpio/gpio339/value''"
    by code_simp+
  have f: "first_char pin_files w (value_file 338) = Some (if False then CHR ''1'' else CHR ''0'')"
      "first_char pin_files w (value_file 339) = Some (if True then CHR ''1'' else CHR ''0'')" for w
    by (simp_all add: pin_files_def v del: append.simps)
  from slot_from_pins [OF p _ _ _ f, of "[]"] show ?thesis
    by (simp add: pin_ok_def pin_files_def)
qed

end
