(* ===== verification/Sensor_Providers.thy ===== *)
theory Sensor_Providers
  imports Sensor_Plugins
begin

text \<open>
  The plugins that provide several sensors each: \<open>plugins/SensorProviderSystem\<close>,
  \<open>plugins/SensorProviderJetson\<close> and \<open>plugins/LinuxSensorProviderEth\<close>. A sensor is a bean and the
  callback that updates it; \<open>files\<close> are the texts of the files that can be opened, \<open>junk\<close> is
  what uninitialised memory holds, \<open>nan\<close> the processor's choice of NaNs.
\<close>

definition plain_bean :: "(nat \<Rightarrow> u8) \<Rightarrow> string \<Rightarrow> ISensorDataType \<Rightarrow> nat \<Rightarrow> ISensorUnit \<Rightarrow> sensor_bean" where
  "plain_bean junk name dataType maxDataSize unit =
     SensorBean_ctor junk name dataType maxDataSize 1 unit False False 0 0 0 0 [] RENDERING_TEXTUAL"

text \<open>\<open>getline\<close> of a file that is open: its first line.\<close>

definition first_line :: "string \<Rightarrow> string" where
  "first_line content = (case file_lines content of [] \<Rightarrow> [] | l # _ \<Rightarrow> l)"

section \<open>SensorProviderSystem\<close>

datatype system_update = Update_Cpu_Utilization | Update_Memory_Free | Update_Disk_Free

definition SensorProviderSystem_ctor :: "(nat \<Rightarrow> u8) \<Rightarrow> (string, sensor_bean \<times> system_update) std_map res" where
  "SensorProviderSystem_ctor junk =
     bind_res (setData_u32 0 (plain_bean junk ''CPU'' TYPE_FLOAT 8 UNIT_PERCENT)) (\<lambda>cpu.
     bind_res (setData_u64 0 (plain_bean junk ''Memory free'' TYPE_U64 8 UNIT_BYTE)) (\<lambda>mem.
     bind_res (setData_u64 0 (plain_bean junk ''System disk free'' TYPE_U64 8 UNIT_BYTE)) (\<lambda>disk.
       Inr (map_assign ''System disk free'' (disk, Update_Disk_Free)
           (map_assign ''Memory free'' (mem, Update_Memory_Free)
           (map_assign ''CPU'' (cpu, Update_Cpu_Utilization) []))))))"

text \<open>The class keeps the times of the last update.\<close>

record cpu_times =
  mLastTotalTime :: u64
  mLastWorkTime :: u64

fun stream_ignore :: "nat \<Rightarrow> char \<Rightarrow> string \<Rightarrow> string" where
  "stream_ignore 0 delim s = s"
| "stream_ignore (Suc n) delim [] = []"
| "stream_ignore (Suc n) delim (c # s) = (if c = delim then s else stream_ignore n delim s)"

text \<open>Rounds \<open>i\<close>, \<open>i + 1\<close>, ... of the loop over the ten columns.\<close>

fun sum_columns :: "nat \<Rightarrow> nat \<Rightarrow> string \<Rightarrow> u64 \<Rightarrow> u64 \<Rightarrow> u64 \<times> u64" where
  "sum_columns 0 i s totalTime workTime = (totalTime, workTime)"
| "sum_columns (Suc k) i s totalTime workTime =
     (case istream_uint 64 s of
        (Some n, s', True) \<Rightarrow>
          sum_columns k (Suc i) s' (totalTime + word_of_nat n) (if i < 3 then workTime + word_of_nat n else workTime)
      | _ \<Rightarrow> (totalTime, workTime))"

definition u64_to_dbl :: "u64 \<Rightarrow> dbl" where
  "u64_to_dbl w = dbl_of_int (uint w)"

definition updateCpuUtilization :: "(dbl \<Rightarrow> dbl \<Rightarrow> dbl) \<Rightarrow> (string \<Rightarrow> string option) \<Rightarrow> cpu_times \<Rightarrow> sensor_bean
    \<Rightarrow> (cpu_times \<times> sensor_bean) res" where
  "updateCpuUtilization nan files t sensor =
     (case files ''/proc/stat'' of
        None \<Rightarrow> Inr (t, sensor)
      | Some content \<Rightarrow>
          let (totalTime, workTime) = sum_columns 10 0 (stream_ignore 3 (CHR '' '') (first_line content)) 0 0;
              t' = \<lparr> mLastTotalTime = totalTime, mLastWorkTime = workTime \<rparr>
          in if mLastTotalTime t = 0 then Inr (t', sensor)
             else
               let work_over_period = u64_to_dbl (workTime - mLastWorkTime t);
                   total_over_period = u64_to_dbl (totalTime - mLastTotalTime t);
                   utilization = dbl_mul nan (dbl_div nan work_over_period total_over_period) (dbl_of_int 100)
               in bind_res (setData_double utilization sensor) (\<lambda>sensor. Inr (t', sensor)))"

text \<open>\<open>stream >> prefix\<close> for a string.\<close>

definition istream_word :: "string \<Rightarrow> string \<times> string" where
  "istream_word s = (let t = dropWhile isspace s in (takeWhile (\<lambda>c. \<not> isspace c) t, dropWhile (\<lambda>c. \<not> isspace c) t))"

fun scan_meminfo :: "string list \<Rightarrow> u64 \<Rightarrow> u64" where
  "scan_meminfo [] freeMem = freeMem"
| "scan_meminfo (line # ls) freeMem =
     (let (prefix, rest) = istream_word line in
      scan_meminfo ls (if prefix = ''MemAvailable:''
        then (case istream_uint 64 rest of (Some n, _) \<Rightarrow> word_of_nat n | (None, _) \<Rightarrow> freeMem) else freeMem))"

definition updateMemoryFree :: "u64 \<Rightarrow> (string \<Rightarrow> string option) \<Rightarrow> sensor_bean \<Rightarrow> sensor_bean res" where
  "updateMemoryFree junk files sensor =
     (case files ''/proc/meminfo'' of
        None \<Rightarrow> Inr sensor
      | Some content \<Rightarrow> setData_u64 (scan_meminfo (file_lines content) junk * 1024) sensor)"

text \<open>\<open>f_bsize\<close> and \<open>f_bavail\<close> of \<open>statvfs\<close> for the root directory.\<close>

definition updateDiskFree :: "u64 \<Rightarrow> u64 \<Rightarrow> sensor_bean \<Rightarrow> sensor_bean res" where
  "updateDiskFree f_bsize f_bavail sensor = setData_u64 (f_bsize * f_bavail) sensor"

section \<open>SensorProviderJetson\<close>

datatype jetson_update = Power_Cpu | Power_Gpu | Power_SoC | Power_Cv | Power_DDR | Power_Sys5V | Temp_SoC

text \<open>Name, unit and callback of the sensors, in the order of their construction.\<close>

definition jetson_sensors :: "(string \<times> ISensorUnit \<times> jetson_update) list" where
  "jetson_sensors = [
     (''Power CPU'', UNIT_POWER, Power_Cpu), (''Power GPU'', UNIT_POWER, Power_Gpu),
     (''Power SoC'', UNIT_POWER, Power_SoC), (''Power CV'', UNIT_POWER, Power_Cv),
     (''Power DDR'', UNIT_POWER, Power_SoC), (''Power SYS5V'', UNIT_POWER, Power_Sys5V),
     (''Temp SoC'', UNIT_TEMPERATURE, Temp_SoC)]"

fun construct_jetson :: "(nat \<Rightarrow> u8) \<Rightarrow> (string \<times> ISensorUnit \<times> jetson_update) list
    \<Rightarrow> (string, sensor_bean \<times> jetson_update) std_map \<Rightarrow> (string, sensor_bean \<times> jetson_update) std_map res" where
  "construct_jetson junk [] m = Inr m"
| "construct_jetson junk ((name, unit, update) # ss) m =
     bind_res (setData_u32 0 (plain_bean junk name TYPE_FLOAT 8 unit)) (\<lambda>b.
       construct_jetson junk ss (map_assign name (b, update) m))"

definition SensorProviderJetson_ctor :: "(nat \<Rightarrow> u8) \<Rightarrow> (string \<Rightarrow> string option)
    \<Rightarrow> (string, sensor_bean \<times> jetson_update) std_map res" where
  "SensorProviderJetson_ctor junk files =
     (if files ''/sys/bus/i2c/drivers/ina3221x/1-0040/iio_device/in_power0_input'' = None then Inr []
      else construct_jetson junk jetson_sensors [])"

text \<open>What all callbacks do with their file: a 16-bit number of thousandths; without a number the
  variable keeps what it held.\<close>

definition update_milli :: "string \<Rightarrow> (dbl \<Rightarrow> dbl \<Rightarrow> dbl) \<Rightarrow> u16 \<Rightarrow> (string \<Rightarrow> string option) \<Rightarrow> sensor_bean \<Rightarrow> sensor_bean res" where
  "update_milli path nan junk files sensor =
     (case files path of
        None \<Rightarrow> Inr sensor
      | Some content \<Rightarrow>
          let milli = (case istream_uint 16 (first_line content) of (Some n, _) \<Rightarrow> word_of_nat n | (None, _) \<Rightarrow> junk)
          in setData_double (dbl_div nan (dbl_of_int (uint milli)) (dbl_of_int 1000)) sensor)"

definition updatePowerCpu where
  "updatePowerCpu = update_milli ''/sys/bus/i2c/drivers/ina3221x/1-0040/iio_device/in_power1_input''"
definition updatePowerGpu where
  "updatePowerGpu = update_milli ''/sys/bus/i2c/drivers/ina3221x/1-0040/iio_device/in_power0_input''"
definition updatePowerSoC where
  "updatePowerSoC = update_milli ''/sys/bus/i2c/drivers/ina3221x/1-0040/iio_device/in_power2_input''"
definition updatePowerCv where
  "updatePowerCv = update_milli ''/sys/bus/i2c/drivers/ina3221x/1-0041/iio_device/in_power0_input''"
definition updatePowerDDR where
  "updatePowerDDR = update_milli ''/sys/bus/i2c/drivers/ina3221x/1-0041/iio_device/in_power1_input''"
definition updatePowerSys5V where
  "updatePowerSys5V = update_milli ''/sys/bus/i2c/drivers/ina3221x/1-0041/iio_device/in_power2_input''"
definition updateTempSoC where
  "updateTempSoC = update_milli ''/sys/devices/virtual/thermal/thermal_zone4/temp''"

end
