(* ===== verification/Ethernet_Sensors.thy ===== *)
theory Ethernet_Sensors
  imports Sensor_Providers
begin

text \<open>
  The sensors of the network interfaces (\<open>plugins/LinuxSensorProviderEth\<close>): the state of the link
  and the bytes received and sent per second. The three sensors of an interface share its
  \<open>AdapterInfo\<close>; \<open>now\<close> is the monotonic clock in seconds and nanoseconds.
\<close>

record adapter_info =
  ai_name :: string
  lastUpdate_sec :: int
  lastUpdate_nsec :: int
  lastCountRx :: u64
  lastCountTx :: u64

datatype eth_sensor = Link_Status | Utilization_Rx | Utilization_Tx

type_synonym eth_map = "(string, sensor_bean \<times> eth_sensor \<times> adapter_info) std_map"

text \<open>Each interface has a name and its flags, if they can be had: whether it is the loopback.\<close>

fun add_interfaces :: "(nat \<Rightarrow> u8) \<Rightarrow> (string \<times> bool option) list \<Rightarrow> eth_map \<Rightarrow> eth_map res" where
  "add_interfaces junk [] m = Inr m"
| "add_interfaces junk ((name, flags) # ifs) m =
     (if flags \<noteq> Some False then add_interfaces junk ifs m
      else
        let ifaceName = c_str name;
            tag = \<lparr> ai_name = ifaceName, lastUpdate_sec = 0, lastUpdate_nsec = 0, lastCountRx = 0, lastCountTx = 0 \<rparr> in
        bind_res (setData_u32 0 (plain_bean junk (ifaceName @ '' link'') TYPE_STR (6 + 8) UNIT_DIMENSIONLESS)) (\<lambda>l.
        bind_res (setData_u32 0 (plain_bean junk (ifaceName @ '' util. RX'') TYPE_U32 4 UNIT_BYTE_SECOND)) (\<lambda>r.
        bind_res (setData_u32 0 (plain_bean junk (ifaceName @ '' util. TX'') TYPE_U32 4 UNIT_BYTE_SECOND)) (\<lambda>t.
          add_interfaces junk ifs
            (map_assign (ifaceName @ '' util. TX'') (t, Utilization_Tx, tag)
            (map_assign (ifaceName @ '' util. RX'') (r, Utilization_Rx, tag)
            (map_assign (ifaceName @ '' link'') (l, Link_Status, tag) m)))))))"

text \<open>No list of interfaces: the socket or the request failed.\<close>

definition LinuxSensorProviderEth_ctor :: "(nat \<Rightarrow> u8) \<Rightarrow> (string \<times> bool option) list option \<Rightarrow> eth_map res" where
  "LinuxSensorProviderEth_ctor junk ifs = (case ifs of None \<Rightarrow> Inr [] | Some l \<Rightarrow> add_interfaces junk l [])"

definition updateLinkStatus :: "(string \<Rightarrow> string option) \<Rightarrow> adapter_info \<Rightarrow> sensor_bean \<Rightarrow> sensor_bean res" where
  "updateLinkStatus files tag sensor =
     bind_res (setData_string ''Unknown'' sensor) (\<lambda>sensor.
       case files (''/sys/class/net/'' @ ai_name tag @ ''/carrier'') of
         None \<Rightarrow> Inr sensor
       | Some carrier \<Rightarrow>
           if first_line carrier = ''1'' then
             (case files (''/sys/class/net/'' @ ai_name tag @ ''/speed'') of
                None \<Rightarrow> Inr sensor
              | Some speed \<Rightarrow> setData_string (first_line speed @ '' MBit/s'') sensor)
           else setData_string ''Down'' sensor)"

text \<open>A counter file: its number, if the file can be opened and starts with one.\<close>

definition read_counter :: "(string \<Rightarrow> string option) \<Rightarrow> adapter_info \<Rightarrow> string \<Rightarrow> u64 option" where
  "read_counter files tag name =
     (case files (''/sys/class/net/'' @ ai_name tag @ ''/statistics/'' @ name) of
        None \<Rightarrow> None
      | Some content \<Rightarrow>
          (case istream_uint 64 (first_line content) of (Some n, _, True) \<Rightarrow> Some (word_of_nat n) | _ \<Rightarrow> None))"

text \<open>The callback of the receiving sensor also sets the sending one.\<close>

definition updateUtilization :: "(dbl \<Rightarrow> dbl \<Rightarrow> dbl) \<Rightarrow> (string \<Rightarrow> string option) \<Rightarrow> int \<times> int
    \<Rightarrow> adapter_info \<Rightarrow> sensor_bean \<Rightarrow> sensor_bean \<Rightarrow> (adapter_info \<times> sensor_bean \<times> sensor_bean) res" where
  "updateUtilization nan files now tag sensor txSensor =
     (case (read_counter files tag ''rx_bytes'', read_counter files tag ''tx_bytes'') of
        (Some rxBytes, Some txBytes) \<Rightarrow>
          let tag' = tag \<lparr> lastUpdate_sec := fst now, lastUpdate_nsec := snd now,
                           lastCountRx := rxBytes, lastCountTx := txBytes \<rparr>
          in if lastUpdate_sec tag = 0 then Inr (tag', sensor, txSensor)
             else
               let diff = dbl_add nan (dbl_of_int (fst now - lastUpdate_sec tag))
                            (dbl_div nan (dbl_of_int (snd now - lastUpdate_nsec tag)) (dbl_of_int 1000000000));
                   rxDiff = u32_of_dbl (dbl_div nan (u64_to_dbl (rxBytes - lastCountRx tag)) diff);
                   txDiff = u32_of_dbl (dbl_div nan (u64_to_dbl (txBytes - lastCountTx tag)) diff)
               in bind_res (setData_u32 rxDiff sensor) (\<lambda>sensor.
                  bind_res (setData_u32 txDiff txSensor) (\<lambda>txSensor. Inr (tag', sensor, txSensor)))
      | _ \<Rightarrow> Inr (tag, sensor, txSensor))"

end
