(* ===== verification/Zynq_Sensors.thy ===== *)
theory Zynq_Sensors
  imports Sensor_Providers
begin

text \<open>
  The Aurora monitor of a Zynq (\<open>plugins/SensorProviderZynq\<close>): its registers, seen through a mapping
  of \<open>/dev/mem\<close>. \<open>dev_mem base n\<close> are the \<open>n\<close> bytes the mapping at \<open>base\<close> shows, if the file can
  be opened and mapped. The values of the registers are those at one moment.
\<close>

definition REGISTERSPACE_SIZE :: nat where "REGISTERSPACE_SIZE = 0x1C"
definition OFFSET_BUS_UTILIZATION :: nat where "OFFSET_BUS_UTILIZATION = 0x0"
definition OFFSET_DATA_WITH :: nat where "OFFSET_DATA_WITH = 0x4"
definition OFFSET_STATUS :: nat where "OFFSET_STATUS = 0x8"
definition OFFSET_SOFT_ERRROR_COUNT :: nat where "OFFSET_SOFT_ERRROR_COUNT = 0xC"
definition OFFSET_FRAME_ERRROR_COUNT :: nat where "OFFSET_FRAME_ERRROR_COUNT = 0x10"
definition OFFSET_BUS_FREQUENCY :: nat where "OFFSET_BUS_FREQUENCY = 0x14"
definition OFFSET_BUS_WITH :: nat where "OFFSET_BUS_WITH = 0x18"

record zynq =
  mBaseAddress :: u64
  mMemory :: "bytes option"
  mMemoryPageOffset :: nat

definition zynq_start :: zynq where
  "zynq_start = \<lparr> mBaseAddress = 0, mMemory = None, mMemoryPageOffset = 0 \<rparr>"

definition mapMemory :: "nat \<Rightarrow> (nat \<Rightarrow> nat \<Rightarrow> bytes option) \<Rightarrow> zynq \<Rightarrow> zynq" where
  "mapMemory pagesize dev_mem z =
     (let page_base = unat (mBaseAddress z) div pagesize * pagesize;
          off = unat (mBaseAddress z) - page_base
      in z \<lparr> mMemoryPageOffset := off, mMemory := dev_mem page_base (off + REGISTERSPACE_SIZE) \<rparr>)"

text \<open>Every callback maps the memory if that has not worked yet.\<close>

definition mapped :: "nat \<Rightarrow> (nat \<Rightarrow> nat \<Rightarrow> bytes option) \<Rightarrow> zynq \<Rightarrow> zynq" where
  "mapped pagesize dev_mem z = (if mMemory z = None then mapMemory pagesize dev_mem z else z)"

definition u32_of_bytes :: "bytes \<Rightarrow> u32" where
  "u32_of_bytes b = u32_load (b ! 0) (b ! 1) (b ! 2) (b ! 3)"

definition zynq_register :: "bytes \<Rightarrow> zynq \<Rightarrow> nat \<Rightarrow> u32 res" where
  "zynq_register m z offset = bind_res (get_bytes m (mMemoryPageOffset z + offset) 4) (\<lambda>b. Inr (u32_of_bytes b))"

section \<open>The text of the link\<close>

fun show_hex :: "nat \<Rightarrow> string" where
  "show_hex n =
     (let d = n mod 16; c = (if d < 10 then char_of (48 + d) else char_of (87 + d))
      in if n < 16 then [c] else show_hex (n div 16) @ [c])"

declare show_hex.simps [simp del]

text \<open>The lanes that are available and up, from bit \<open>i\<close> on, with a comma in front of all but the first.\<close>

fun lane_list :: "nat \<Rightarrow> nat \<Rightarrow> u8 \<Rightarrow> u8 \<Rightarrow> bool \<Rightarrow> string" where
  "lane_list 0 i lanes_avail lanes is_first = []"
| "lane_list (Suc n) i lanes_avail lanes is_first =
     (if bit lanes_avail i \<and> bit lanes i
      then (if is_first then [] else '', '') @ show_nat (i + 1) @ lane_list n (Suc i) lanes_avail lanes False
      else lane_list n (Suc i) lanes_avail lanes is_first)"

definition link_text :: "u32 \<Rightarrow> string" where
  "link_text status =
     (let channel = drop_bit 5 (status AND 0x20);
          lanes_avail = ucast (drop_bit 24 (status AND 0xff000000)) :: u8;
          lanes = ucast (drop_bit 16 (status AND 0xff0000)) :: u8;
          hard_err = drop_bit 4 (status AND 0x10);
          pll_not_locked = drop_bit 3 (status AND 0x8)
      in (if channel = 1 then ''Channel up''
          else if lanes = lanes_avail then ''Channel down (all lanes up)''
          else if lanes = 0 then ''Channel down (all lanes down)''
          else ''Channel down (lanes '' @ lane_list 8 0 lanes_avail lanes True @ '' up)'')
         @ (if hard_err \<noteq> 0 then '', HardErr'' else [])
         @ (if pll_not_locked \<noteq> 0 then '', PLL not locked'' else [])
         @ '' (0x'' @ show_hex (unat status) @ '')'')"

section \<open>The callbacks\<close>

definition updateLink :: "nat \<Rightarrow> (nat \<Rightarrow> nat \<Rightarrow> bytes option) \<Rightarrow> zynq \<Rightarrow> sensor_bean \<Rightarrow> (zynq \<times> sensor_bean) res" where
  "updateLink pagesize dev_mem z sensor =
     (let z = mapped pagesize dev_mem z in
      case mMemory z of
        None \<Rightarrow> Inr (z, sensor)
      | Some m \<Rightarrow>
          bind_res (zynq_register m z OFFSET_STATUS) (\<lambda>status.
          bind_res (setData_string (link_text status) sensor) (\<lambda>sensor. Inr (z, sensor))))"

text \<open>The shift takes its distance modulo 32 on the target; the result is signed.\<close>

definition updateUtilizationZynq :: "(dbl \<Rightarrow> dbl \<Rightarrow> dbl) \<Rightarrow> nat \<Rightarrow> (nat \<Rightarrow> nat \<Rightarrow> bytes option) \<Rightarrow> zynq
    \<Rightarrow> sensor_bean \<Rightarrow> (zynq \<times> sensor_bean) res" where
  "updateUtilizationZynq nan pagesize dev_mem z sensor =
     (let z = mapped pagesize dev_mem z in
      case mMemory z of
        None \<Rightarrow> Inr (z, sensor)
      | Some m \<Rightarrow>
          bind_res (zynq_register m z OFFSET_BUS_UTILIZATION) (\<lambda>bus_utilization.
          bind_res (zynq_register m z OFFSET_DATA_WITH) (\<lambda>data_width.
            let range = push_bit (unat data_width mod 32) 1 :: u32;
                utilization = dbl_div nan (dbl_of_int (uint bus_utilization)) (dbl_of_int (sint range))
            in bind_res (setData_u32 (u32_of_dbl (dbl_mul nan utilization (dbl_of_int 100))) sensor) (\<lambda>sensor.
                 Inr (z, sensor)))))"

definition update_count :: "nat \<Rightarrow> nat \<Rightarrow> (nat \<Rightarrow> nat \<Rightarrow> bytes option) \<Rightarrow> zynq \<Rightarrow> sensor_bean \<Rightarrow> (zynq \<times> sensor_bean) res" where
  "update_count offset pagesize dev_mem z sensor =
     (let z = mapped pagesize dev_mem z in
      case mMemory z of
        None \<Rightarrow> Inr (z, sensor)
      | Some m \<Rightarrow>
          bind_res (zynq_register m z offset) (\<lambda>n.
          bind_res (setData_u32 n sensor) (\<lambda>sensor. Inr (z, sensor))))"

definition updateFrameErr where "updateFrameErr = update_count OFFSET_FRAME_ERRROR_COUNT"
definition updateSoftErr where "updateSoftErr = update_count OFFSET_SOFT_ERRROR_COUNT"

section \<open>The constructor\<close>

datatype zynq_update = Zynq_Link | Zynq_Utilization | Zynq_FrameErr | Zynq_SoftErr | Zynq_Fixed

text \<open>The configured address is an \<open>int\<close> and is sign-extended. The bandwidth is set once.\<close>

definition bandwidth_sensor :: "(nat \<Rightarrow> u8) \<Rightarrow> bytes \<Rightarrow> zynq \<Rightarrow> sensor_bean res" where
  "bandwidth_sensor junk m z =
     bind_res (zynq_register m z OFFSET_BUS_FREQUENCY) (\<lambda>bus_frequency.
     bind_res (zynq_register m z OFFSET_BUS_WITH) (\<lambda>bus_width.
       setData_u64 ((ucast bus_frequency * ucast bus_width) div 8)
         (plain_bean junk ''Aurora bandw.'' TYPE_U32 1 UNIT_BYTE_SECOND)))"

definition SensorProviderZynq_ctor :: "int \<Rightarrow> config \<Rightarrow> (nat \<Rightarrow> u8) \<Rightarrow> nat \<Rightarrow> (nat \<Rightarrow> nat \<Rightarrow> bytes option) \<Rightarrow> zynq
    \<Rightarrow> ((string, sensor_bean \<times> zynq_update) std_map \<times> zynq) res" where
  "SensorProviderZynq_ctor junk_int cfg junk pagesize dev_mem z =
     (let z = z \<lparr> mBaseAddress := word_of_int (GetInt junk_int cfg ''Plugins'' ''auroraMonitorBaseAddress'' 0) \<rparr> in
      if mBaseAddress z = 0 then Inr ([], z)
      else
        bind_res (setData_u32 0 (plain_bean junk ''Aurora link'' TYPE_STR 82 UNIT_DIMENSIONLESS)) (\<lambda>l.
        bind_res (setData_u32 0 (plain_bean junk ''Aurora util.'' TYPE_U8 1 UNIT_PERCENT)) (\<lambda>u.
        bind_res (setData_u32 0 (plain_bean junk ''Aurora frame err.'' TYPE_U32 4 UNIT_DIMENSIONLESS)) (\<lambda>f.
        bind_res (setData_u32 0 (plain_bean junk ''Aurora soft err.'' TYPE_U32 4 UNIT_DIMENSIONLESS)) (\<lambda>s.
        let sensors = map_assign ''Aurora soft err.'' (s, Zynq_SoftErr) (map_assign ''Aurora frame err.'' (f, Zynq_FrameErr)
              (map_assign ''Aurora util.'' (u, Zynq_Utilization) (map_assign ''Aurora link'' (l, Zynq_Link) [])));
            z = mapped pagesize dev_mem z
        in case mMemory z of
             None \<Rightarrow> Inr (sensors, z)
           | Some m \<Rightarrow> bind_res (bandwidth_sensor junk m z) (\<lambda>b.
               Inr (map_assign ''Aurora bandw.'' (b, Zynq_Fixed) sensors, z)))))))"

end
