(* ===== verification/Sensor_Provider_Properties.thy ===== *)
theory Sensor_Provider_Properties
  imports Ethernet_Sensors Zynq_Sensors Sensor_Plugin_Properties
begin

text \<open>
  The providers of several sensors: their constructors, the text of the Aurora link, and the free
  memory.
\<close>

section \<open>The constructors\<close>

lemma plain_bean_size [simp]: "mMaxDataSize (plain_bean junk name ty n unit) = n"
  by (simp add: plain_bean_def SensorBean_ctor_def)

lemma wide_zero_overruns: "4 < n \<Longrightarrow> n < 2 ^ 63 \<Longrightarrow> setData_u32 v (plain_bean junk name ty n unit) = Inl Bad_access"
  by (rule setData_u32_overrun) simp_all

lemma add_interfaces_overruns:
  "(name, Some False) \<in> set ifs \<Longrightarrow> add_interfaces junk ifs m = Inl Bad_access"
proof (induction junk ifs m rule: add_interfaces.induct)
  case (2 junk name' flags ifs m)
  show ?case
  proof (cases "flags = Some False")
    case True
    then show ?thesis by (simp add: wide_zero_overruns)
  next
    case False
    with 2 show ?thesis by auto
  qed
qed simp

text \<open>C37: Every provider gives its first sensor the initial value 0 through the function for 32-bit
  integers, although the sensor is wider: the constructor reads in front of its variable, wherever
  there is something to provide.\<close>

theorem constructors_read_outside:
  assumes "files ''/sys/bus/i2c/drivers/ina3221x/1-0040/iio_device/in_power0_input'' \<noteq> None"
    and "(name, Some False) \<in> set ifs"
    and "(word_of_int (GetInt junk_int cfg ''Plugins'' ''auroraMonitorBaseAddress'' 0) :: u64) \<noteq> 0"
  shows "SensorProviderSystem_ctor junk = Inl Bad_access \<and> SensorProviderJetson_ctor junk files = Inl Bad_access \<and>
    LinuxSensorProviderEth_ctor junk (Some ifs) = Inl Bad_access \<and>
    SensorProviderZynq_ctor junk_int cfg junk pagesize dev_mem z = Inl Bad_access"
proof (intro conjI)
  show "SensorProviderSystem_ctor junk = Inl Bad_access"
    unfolding SensorProviderSystem_ctor_def by (subst wide_zero_overruns) simp_all
  show "SensorProviderJetson_ctor junk files = Inl Bad_access"
    by (simp only: SensorProviderJetson_ctor_def assms(1) jetson_sensors_def construct_jetson.simps if_False) (simp add: wide_zero_overruns)
  show "LinuxSensorProviderEth_ctor junk (Some ifs) = Inl Bad_access"
    by (simp add: LinuxSensorProviderEth_ctor_def add_interfaces_overruns [OF assms(2)])
  show "SensorProviderZynq_ctor junk_int cfg junk pagesize dev_mem z = Inl Bad_access"
    using assms(3) unfolding SensorProviderZynq_ctor_def Let_def by (simp add: wide_zero_overruns del: add_uminus_conv_diff)
qed

definition aurora_config :: config where
  "aurora_config = \<lparr> cini = \<lparr> ini_content = [\<lparr> sdata = [\<lparr> rcomments = [], rkey = ''auroraMonitorBaseAddress'', rvalue = ''64'' \<rparr>],
     scomments = [], sname = ''Plugins'' \<rparr>], gfilename = ''config.ini'', error_msg = None, w_flag = False \<rparr>,
     mNoSaveMode = False, mConfigChanged = False, mListeners = [], mDisableChangeListeners = False \<rparr>"

theorem constructors_read_outside_witness:
  "SensorProviderZynq_ctor 0 aurora_config (\<lambda>_. 0) 4096 (\<lambda>_ _. None) zynq_start = Inl Bad_access \<and>
   LinuxSensorProviderEth_ctor (\<lambda>_. 0) (Some [(''lo'', Some True), (''eth0'', Some False)]) = Inl Bad_access"
proof -
  have "GetInt 0 aurora_config ''Plugins'' ''auroraMonitorBaseAddress'' 0 = 64" by code_simp
  then have "(word_of_int (GetInt 0 aurora_config ''Plugins'' ''auroraMonitorBaseAddress'' 0) :: u64) \<noteq> 0" by simp
  from constructors_read_outside [OF _ _ this, where files = "\<lambda>_. Some []" and name = "''eth0''"
      and ifs = "[(''lo'', Some True), (''eth0'', Some False)]" and junk = "\<lambda>_. 0" and pagesize = 4096
      and dev_mem = "\<lambda>_ _. None" and z = zynq_start] show ?thesis by simp
qed

section \<open>The text of the Aurora link\<close>

lemma length_show_hex: "n < 16 ^ k \<Longrightarrow> 0 < k \<Longrightarrow> length (show_hex n) \<le> k"
proof (induction k arbitrary: n)
  case (Suc k)
  show ?case
  proof (cases "n < 16")
    case False
    then have "0 < k" using Suc.prems(1) by (cases k) auto
    moreover have "n div 16 < 16 ^ k" using Suc.prems(1) by (simp add: less_mult_imp_div_less)
    ultimately show ?thesis using Suc.IH [of "n div 16"] False by (subst show_hex.simps) (simp add: Let_def)
  qed (simp add: show_hex.simps Let_def)
qed simp

abbreviation common_lanes :: "u8 \<Rightarrow> u8 \<Rightarrow> nat \<Rightarrow> nat \<Rightarrow> nat list" where
  "common_lanes a l i n \<equiv> filter (\<lambda>j. bit a j \<and> bit l j) [i..<i + n]"

lemma length_lane_list:
  "i + n \<le> 9 \<Longrightarrow> length (lane_list n i a l b) = 3 * length (common_lanes a l i n) - (if b then 2 else 0)"
proof (induction n i a l b rule: lane_list.induct)
  case (2 n i a l b)
  have u: "[i..<i + Suc n] = i # [Suc i..<Suc i + n]" by (simp add: upt_conv_Cons)
  have "length (show_nat (i + 1)) = 1" using 2(3) by (simp add: show_nat.simps)
  with 2 show ?case unfolding u by auto
qed simp

lemma seven_lanes: "l \<noteq> a \<Longrightarrow> length (common_lanes a l 0 8) \<le> 7"
proof -
  assume "l \<noteq> a"
  then obtain j where "j < 8" "bit l j \<noteq> bit a j" using bit_word_eqI [of l a] by auto
  then have "length (common_lanes a l 0 8) < length [0..<0 + 8]" by (intro length_filter_less [of j]) auto
  then show ?thesis by simp
qed

lemma length_link_text: "length (link_text status) \<le> 81"
proof -
  have h: "length (show_hex (unat status)) \<le> 8"
    using length_show_hex [of "unat status" 8] unsigned_less [of status] by simp
  have "l \<noteq> a \<Longrightarrow> length (lane_list 8 0 a l True) \<le> 19" for a l :: u8
    using seven_lanes [of l a] length_lane_list [of 0 8 a l True] by simp
  then have c: "length (if channel then ''Channel up'' else if l = a then ''Channel down (all lanes up)''
      else if l = 0 then ''Channel down (all lanes down)''
      else ''Channel down (lanes '' @ lane_list 8 0 a l True @ '' up)'') \<le> 43" for channel and a l :: u8 by simp
  have e: "length (if e then '', HardErr'' else []) \<le> 9" "length (if e then '', PLL not locked'' else []) \<le> 16" for e
    by simp_all
  have "length ('' (0x'' @ show_hex (unat status) @ '')'') \<le> 13" using h by simp
  from add_mono [OF c add_mono [OF e(1) add_mono [OF e(2) this]]] show ?thesis
    by (simp only: link_text_def Let_def length_append) (rule order_trans, assumption, simp)
qed

text \<open>C38: The text of the Aurora link is at most 81 characters long, whatever the status register holds,
  so the sensor of 82 bytes always takes it with its terminator; the bound is reached.\<close>

theorem link_text_fits:
  assumes "bean_ok s" "mMaxDataSize s = 82"
  shows "(\<exists>s'. setData_string (link_text status) s = Inr s' \<and>
      take (length (link_text status) + 1) (mBeanData s') = bytes_of (link_text status) @ [0]) \<and>
    length (link_text 0xff7f0018) = 81"
proof
  show "\<exists>s'. setData_string (link_text status) s = Inr s' \<and>
      take (length (link_text status) + 1) (mBeanData s') = bytes_of (link_text status) @ [0]"
    using setData_string_bytes [OF assms(1), of "link_text status"] length_link_text [of status] assms(2) by simp
  have "common_lanes 0xff 0x7f 0 8 = [0, 1, 2, 3, 4, 5, 6]"
    by code_simp
  then have "length (lane_list 8 0 0xff 0x7f True) = 19"
    by (simp add: length_lane_list)
  moreover have "length (show_hex 0xff7f0018) = 8" by (simp add: show_hex.simps Let_def)
  ultimately show "length (link_text 0xff7f0018) = 81" by (simp add: link_text_def)
qed

theorem link_text_fits_witness:
  "\<exists>s'. setData_string (link_text 0xff7f0018) (plain_bean (\<lambda>_. 7) ''Aurora link'' TYPE_STR 82 UNIT_DIMENSIONLESS) = Inr s'
     \<and> mBeanData s' ! 81 = 0"
proof -
  let ?s = "plain_bean (\<lambda>_. 7) ''Aurora link'' TYPE_STR 82 UNIT_DIMENSIONLESS"
  have "bean_ok ?s" by (simp add: bean_ok_def plain_bean_def SensorBean_ctor_def)
  from link_text_fits [OF this, where status = "0xff7f0018"] obtain s' where
    s: "setData_string (link_text 0xff7f0018) ?s = Inr s'" "length (link_text 0xff7f0018) = 81"
      "take 82 (mBeanData s') = bytes_of (link_text 0xff7f0018) @ [0]" by auto
  have "mBeanData s' ! 81 = take 82 (mBeanData s') ! 81" by simp
  also have "\<dots> = 0" using s(2) by (simp add: s(3) nth_append)
  finally show ?thesis using s(1) by blast
qed

section \<open>The free memory\<close>

lemma little_endian_append: "little_endian (xs @ ys) = little_endian xs + 256 ^ length xs * little_endian ys"
  by (induction xs) (simp_all add: little_endian_def algebra_simps)

lemma little_endian_u64: "little_endian (u64_mem x) = unat x"
proof -
  have four: "little_endian (u32_mem y) = unat y" for y
  proof -
    have "unat y < 2 ^ LENGTH(32)" by (rule unsigned_less)
    then show ?thesis using little_endian_u32 [of 4 y] by simp
  qed
  have lo: "unat (ucast x :: u32) = unat x mod 2 ^ 32"
    by (simp add: unsigned_ucast_eq take_bit_eq_mod)
  have "unat (drop_bit 32 x) = unat x div 2 ^ 32" by (metis drop_bit_eq_div unat_drop_bit_eq)
  moreover have "unat x < 2 ^ LENGTH(64)" by (rule unsigned_less)
  then have "unat x div 2 ^ 32 < 2 ^ 32" by (simp add: less_mult_imp_div_less)
  ultimately have hi: "unat (ucast (drop_bit 32 x) :: u32) = unat x div 2 ^ 32"
    by (simp add: unsigned_ucast_eq take_bit_eq_mod)
  show ?thesis
    using mod_mult_div_eq [of "unat x" "2 ^ 32"]
    by (simp add: u64_mem_def little_endian_append four lo hi)
qed

definition is_available_line :: "string \<Rightarrow> bool" where
  "is_available_line line \<longleftrightarrow> fst (istream_word line) = ''MemAvailable:''"

lemma scan_meminfo_none: "\<forall>l \<in> set ls. \<not> is_available_line l \<Longrightarrow> scan_meminfo ls m = m"
  by (induction ls arbitrary: m) (auto simp: is_available_line_def split: prod.splits)

lemma scan_meminfo_append: "scan_meminfo (ls @ ls') m = scan_meminfo ls' (scan_meminfo ls m)"
  by (induction ls arbitrary: m) (auto split: prod.splits)

text \<open>The sensor of the free memory shows 1024 times the number behind \<open>MemAvailable:\<close>, most
  significant byte first.\<close>

theorem memory_free_value:
  assumes "files ''/proc/meminfo'' = Some content"
    and "file_lines content = ls @ (''MemAvailable:'' @ replicate (Suc k) (CHR '' '') @ show_nat n @ '' kB'') # ls'"
    and "\<forall>l \<in> set ls'. \<not> is_available_line l" "n < 2 ^ 54" "bean_ok s" "mMaxDataSize s = 8"
  shows "\<exists>s'. updateMemoryFree junk files s = Inr s' \<and> length (mBeanData s') = 8 \<and> big_endian (mBeanData s') = 1024 * n"
proof -
  have w: "istream_word (''MemAvailable:'' @ replicate (Suc k) (CHR '' '') @ show_nat n @ '' kB'') =
      (''MemAvailable:'', replicate (Suc k) (CHR '' '') @ show_nat n @ '' kB'')"
    by (simp add: istream_word_def isspace_def)
  have "dropWhile isspace (replicate (Suc k) (CHR '' '') @ show_nat n @ '' kB'') = show_nat n @ '' kB''"
    using dropWhile_space_show_nat [of n "'' kB''"] by (simp add: dropWhile_append isspace_def)
  then have "istream_uint 64 (replicate (Suc k) (CHR '' '') @ show_nat n @ '' kB'') = istream_uint 64 (show_nat n @ '' kB'')"
    unfolding istream_uint_def by (simp add: dropWhile_space_show_nat)
  also have "\<dots> = (Some n, '' kB'', True)"
    using assms(4) by (intro istream_uint_show) (simp_all add: isdigit_def char_val_def)
  finally have i: "istream_uint 64 (replicate (Suc k) (CHR '' '') @ show_nat n @ '' kB'') = (Some n, '' kB'', True)" .
  have "scan_meminfo (file_lines content) junk = word_of_nat n"
    unfolding assms(2) scan_meminfo_append scan_meminfo.simps w prod.case Let_def i
    using scan_meminfo_none [OF assms(3)] by simp
  then have "updateMemoryFree junk files s = setData_u64 (word_of_nat n * 1024) s"
    by (simp add: updateMemoryFree_def assms(1))
  also have "\<dots> = Inr (s \<lparr> mBeanData := rev (u64_mem (word_of_nat n * 1024)) \<rparr>)"
    using setData_u64_bytes [OF assms(5), of "word_of_nat n * 1024"] assms(6) by simp
  finally have u: "updateMemoryFree junk files s = Inr (s \<lparr> mBeanData := rev (u64_mem (word_of_nat n * 1024)) \<rparr>)" .
  have "word_of_nat n * 1024 = (word_of_nat (1024 * n) :: u64)" by simp
  then have "unat (word_of_nat n * 1024 :: u64) = unat (word_of_nat (1024 * n) :: u64)" by (rule arg_cong)
  also have "\<dots> = 1024 * n" using assms(4) unfolding unat_of_nat take_bit_eq_mod by simp
  finally show ?thesis by (simp add: u big_endian_rev little_endian_u64)
qed

theorem memory_free_value_witness:
  "\<exists>s'. updateMemoryFree 0 (\<lambda>_. Some (''MemTotal: 9 kB'' @ CHR 0x0A # ''MemAvailable:  5 kB'' @ [CHR 0x0A]))
       (plain_bean (\<lambda>_. 7) ''Memory free'' TYPE_U64 8 UNIT_BYTE) = Inr s' \<and> big_endian (mBeanData s') = 5120"
proof -
  have l: "file_lines (''MemTotal: 9 kB'' @ CHR 0x0A # ''MemAvailable:  5 kB'' @ [CHR 0x0A]) =
      [''MemTotal: 9 kB''] @ (''MemAvailable:'' @ replicate (Suc 1) (CHR '' '') @ show_nat 5 @ '' kB'') # []"
    by code_simp
  have b: "bean_ok (plain_bean (\<lambda>_. 7) ''Memory free'' TYPE_U64 8 UNIT_BYTE)"
    by (simp add: bean_ok_def plain_bean_def SensorBean_ctor_def)
  show ?thesis
    using memory_free_value [where files = "\<lambda>_. Some (''MemTotal: 9 kB'' @ CHR 0x0A # ''MemAvailable:  5 kB'' @ [CHR 0x0A])"
        and junk = 0, OF _ l _ _ b] by simp (metis plain_bean_size)
qed

end
