(* ===== verification/Zynq_Module.thy ===== *)
theory Zynq_Module
  imports Config
begin

text \<open>
  The sensors of a microcontroller on a serial line (\<open>plugins/SensorProviderZynqModule\<close>): a command
  letter is sent, and the reply read up to a newline. The line is a parameter: its events, in
  order, are a group of bytes that can be read at once, or a time-out; when no event is
  left, every wait times out. \<open>mSent\<close> records what was written and is read by no code.
\<close>

definition MAX_RECEIVE_SIZE :: nat where "MAX_RECEIVE_SIZE = 2048"

record serial_port =
  mComFileDescriptor :: int
  incoming :: "bytes option list"
  mSent :: bytes
  mSerialBuffer :: bytes

text \<open>\<open>open\<close> of the device gives a descriptor or a negative number; \<open>settings_ok\<close> is the answer of
  \<open>tcgetattr\<close>.\<close>

definition InitComPort :: "int \<Rightarrow> bool \<Rightarrow> serial_port \<Rightarrow> bool \<times> serial_port" where
  "InitComPort fd settings_ok p =
     (let p = p \<lparr> mComFileDescriptor := fd \<rparr> in
      if fd < 0 then (False, p)
      else if \<not> settings_ok then (False, p \<lparr> mComFileDescriptor := -1 \<rparr>)
      else (True, p))"

definition SensorProviderZynqModule_ctor :: "config \<Rightarrow> (string \<Rightarrow> int) \<Rightarrow> bool \<Rightarrow> bytes option list \<Rightarrow> (nat \<Rightarrow> u8) \<Rightarrow> serial_port" where
  "SensorProviderZynqModule_ctor cfg open_device settings_ok events junk =
     (let p = \<lparr> mComFileDescriptor = -1, incoming = events, mSent = [], mSerialBuffer = map junk [0..<MAX_RECEIVE_SIZE] \<rparr>;
          comPort = GetString cfg ''Plugins'' ''zynqSerialPort'' []
      in if comPort = [] then p else snd (InitComPort (open_device (c_str comPort)) settings_ok p))"

definition SendData :: "bytes \<Rightarrow> serial_port \<Rightarrow> serial_port" where
  "SendData data p = (if mComFileDescriptor p < 0 then p else p \<lparr> mSent := mSent p @ data \<rparr>)"

text \<open>\<open>FD_SET\<close> with a negative descriptor, or one of 1024 or more, reaches outside the set. \<open>select\<close> is told to
  look at the descriptors below 63 only: any other one times out. What does not fit into the
  buffer stays to be read.\<close>

definition ReadData :: "nat \<Rightarrow> nat \<Rightarrow> serial_port \<Rightarrow> (int \<times> serial_port) res" where
  "ReadData pos maxSize p =
     (if mComFileDescriptor p < 0 \<or> 1024 \<le> mComFileDescriptor p then Inl Bad_access
      else if 63 \<le> mComFileDescriptor p then Inr (-1, p)
      else
        case incoming p of
          [] \<Rightarrow> Inr (-1, p)
        | None # es \<Rightarrow> Inr (-1, p \<lparr> incoming := es \<rparr>)
        | Some bs # es \<Rightarrow>
            let b = take maxSize bs; rest = drop maxSize bs in
            bind_res (put_bytes (mSerialBuffer p) pos b) (\<lambda>d.
              Inr (int (length b), p \<lparr> mSerialBuffer := d, incoming := (if rest = [] then es else Some rest # es) \<rparr>)))"

text \<open>\<open>memchr\<close> in the bytes just read; near the start only behind the first \<open>ignoreFirstBytes\<close>.\<close>

definition terminator_found :: "bytes \<Rightarrow> nat \<Rightarrow> nat \<Rightarrow> u8 \<Rightarrow> nat \<Rightarrow> bool" where
  "terminator_found buf readTotal read terminator ignoreFirstBytes \<longleftrightarrow>
     (if readTotal \<le> ignoreFirstBytes
      then ignoreFirstBytes < read \<and> terminator \<in> set (take (read - ignoreFirstBytes) (drop (readTotal + ignoreFirstBytes) buf))
      else terminator \<in> set (take read (drop readTotal buf)))"

lemma ReadData_size: "ReadData pos n p = Inr (r, p') \<Longrightarrow> r \<le> int n"
  by (auto simp: ReadData_def Let_def bind_res_Inr_iff split: if_splits list.splits option.splits)

text \<open>The result is that of the failed read, or the number of bytes read.\<close>

function ReadUntilTerminator :: "nat \<Rightarrow> nat \<Rightarrow> u8 \<Rightarrow> nat \<Rightarrow> serial_port \<Rightarrow> (int \<times> serial_port) res" where
  "ReadUntilTerminator readTotal remainingSize terminator ignoreFirstBytes p =
     (case ReadData readTotal remainingSize p of
        Inl f \<Rightarrow> Inl f
      | Inr (read, p') \<Rightarrow>
          if read \<le> 0 then Inr (read, p')
          else if terminator_found (mSerialBuffer p') readTotal (nat read) terminator ignoreFirstBytes
          then Inr (int readTotal + read, p')
          else ReadUntilTerminator (readTotal + nat read) (remainingSize - nat read) terminator ignoreFirstBytes p')"
  by pat_completeness auto
termination
  by (relation "measure (\<lambda>(_, n, _, _, _). n)") (auto dest: ReadData_size)

declare ReadUntilTerminator.simps [simp del]

text \<open>
  Both questions to the module: send the letter, read the reply, look for the echo, and cut at the
  carriage return. The result is a text within the buffer.
\<close>

definition module_request :: "char \<Rightarrow> serial_port \<Rightarrow> (string \<times> serial_port) res" where
  "module_request letter p =
     (let p = SendData (bytes_of [letter, CHR 0x0D]) p in
      bind_res (ReadUntilTerminator 0 MAX_RECEIVE_SIZE (u8_of_char (CHR 0x0A)) 20 p) (\<lambda>(read, p).
      if 0 < read then
        bind_res (put_bytes (mSerialBuffer p) (nat read) [0]) (\<lambda>d.
        let reply = c_str (string_of d);
            start = (case find_sub [letter, CHR 0x0D, CHR 0x0A] reply of None \<Rightarrow> 0 | Some i \<Rightarrow> i + 3)
        in case find_idx (\<lambda>c. c = CHR 0x0D) (drop start reply) of
             None \<Rightarrow> Inr (drop start reply, p \<lparr> mSerialBuffer := d \<rparr>)
           | Some k \<Rightarrow> Inr (take k (drop start reply), p \<lparr> mSerialBuffer := overlay d (start + k) [0] \<rparr>))
      else Inr ([], p)))"


definition zynq_getSensorsData :: "serial_port \<Rightarrow> (string \<times> serial_port) res" where
  "zynq_getSensorsData = module_request (CHR ''m'')"

section \<open>Properties\<close>

text \<open>A reply in groups: the next group is found at the place behind the ones before it.\<close>

lemma ReadData_group:
  assumes "mComFileDescriptor p \<in> {0..<63}" "incoming p = Some b # es" "length b \<le> n" "pos + length b \<le> length (mSerialBuffer p)"
  shows "ReadData pos n p = Inr (int (length b), p \<lparr> mSerialBuffer := overlay (mSerialBuffer p) pos b, incoming := es \<rparr>)"
  using assms by (simp add: ReadData_def put_bytes_ok)

lemma drop_overlay: "pos \<le> length buf \<Longrightarrow> drop (pos + k) (overlay buf pos b) = drop k (b @ drop (pos + length b) buf)"
  by (simp add: overlay_def)

lemma terminator_found_group:
  assumes "pos + length b \<le> length buf"
  shows "terminator_found (overlay buf pos b) pos (length b) t n \<longleftrightarrow> t \<in> set (if pos \<le> n then drop n b else b)"
  using assms drop_overlay [of pos buf n b] drop_overlay [of pos buf 0 b] by (cases "n < length b") (auto simp: terminator_found_def)











text \<open>Without a configured port the first question accesses the descriptor set outside its bounds, and a
  reply of 2048 bytes ends behind the buffer.\<close>

lemma no_port_faults: "mComFileDescriptor p < 0 \<Longrightarrow> module_request letter p = Inl Bad_access"
  by (simp add: module_request_def SendData_def ReadUntilTerminator.simps ReadData_def)

lemma full_buffer_faults:
  assumes "mComFileDescriptor p \<in> {0..<63}" "length (mSerialBuffer p) = MAX_RECEIVE_SIZE" "incoming p = Some b # es"
    and "length b = MAX_RECEIVE_SIZE" "u8_of_char (CHR 0x0A) \<in> set (drop 20 b)"
  shows "module_request letter p = Inl Bad_access"
proof -
  let ?p = "SendData (bytes_of [letter, CHR 0x0D]) p"
  have p: "mComFileDescriptor ?p = mComFileDescriptor p" "incoming ?p = incoming p" "mSerialBuffer ?p = mSerialBuffer p"
    using assms(1) by (simp_all add: SendData_def)
  have "ReadData 0 MAX_RECEIVE_SIZE ?p =
      Inr (int (length b), ?p \<lparr> mSerialBuffer := overlay (mSerialBuffer ?p) 0 b, incoming := es \<rparr>)"
    using assms p by (intro ReadData_group) simp_all
  moreover have "terminator_found (overlay (mSerialBuffer p) 0 b) 0 (length b) (u8_of_char (CHR 0x0A)) 20"
    using assms(2,4,5) by (subst terminator_found_group) simp_all
  ultimately show ?thesis
    using assms(2,4) p
    by (simp add: module_request_def ReadUntilTerminator.simps MAX_RECEIVE_SIZE_def put_bytes_def length_overlay)
qed

text \<open>A reply of at most 20 bytes is never recognised: the answer is empty, although all of it was read.\<close>

lemma short_reply_lost:
  assumes "mComFileDescriptor p \<in> {0..<63}" "length (mSerialBuffer p) = MAX_RECEIVE_SIZE"
    and "incoming p = [Some b]" "0 < length b" "length b \<le> 20"
  shows "\<exists>p'. module_request letter p = Inr ([], p') \<and> incoming p' = []"
proof -
  let ?p = "SendData (bytes_of [letter, CHR 0x0D]) p" and ?nl = "u8_of_char (CHR 0x0A)"
  let ?q = "?p \<lparr> mSerialBuffer := overlay (mSerialBuffer ?p) 0 b, incoming := [] \<rparr>"
  have p: "mComFileDescriptor ?p = mComFileDescriptor p" "incoming ?p = incoming p" "mSerialBuffer ?p = mSerialBuffer p"
    using assms(1) by (simp_all add: SendData_def)
  have r: "ReadData 0 MAX_RECEIVE_SIZE ?p = Inr (int (length b), ?q)"
    using assms p by (intro ReadData_group) (simp_all add: MAX_RECEIVE_SIZE_def)
  have nf: "\<not> terminator_found (mSerialBuffer ?q) 0 (length b) ?nl 20"
    using assms(2,5) p by (simp add: terminator_found_group MAX_RECEIVE_SIZE_def)
  have e: "ReadData k n ?q = Inr (-1, ?q)" for k n using assms(1) p(1) by (simp add: ReadData_def)
  have "ReadUntilTerminator 0 MAX_RECEIVE_SIZE ?nl 20 ?p = ReadUntilTerminator (length b) (MAX_RECEIVE_SIZE - length b) ?nl 20 ?q"
    using r nf assms(4) by (simp add: ReadUntilTerminator.simps [of 0])
  also have "\<dots> = Inr (-1, ?q)" by (simp add: ReadUntilTerminator.simps [of "length b"] e)
  finally show ?thesis by (simp add: module_request_def)
qed

end
