(* ===== verification/Network_Server.thy ===== *)
theory Network_Server
  imports Network_Client Telnet_Server
begin

text \<open>
  The sockets of the command line server (\<open>daemon/src/network/Network.cpp\<close>), the accept loop of
  \<open>CommandLineServer\<close> and the session of one client on its socket
  (\<open>daemon/src/network/TelnetServer.cpp\<close>). As for the client end, the calls of the operating system
  are answers by the number of the call.
\<close>

section \<open>The signals of the process\<close>

text \<open>
  What the process does with a signal, set by every call of \<open>signal\<close> in the code: those of
  \<open>Daemon::run\<close> in front of its loop, and the one in the constructor of the client end of a
  connection, which only the TCP communicator makes.
\<close>

datatype process_signal = Handled signal | SIGCHLD | SIGTSTP | SIGTTOU | SIGTTIN | SIGPIPE

datatype disposition = SIG_DFL | SIG_IGN | Daemon_handler

definition run_signals :: "(process_signal \<Rightarrow> disposition) \<Rightarrow> process_signal \<Rightarrow> disposition" where
  "run_signals f = f (SIGCHLD := SIG_IGN, SIGTSTP := SIG_IGN, SIGTTOU := SIG_IGN, SIGTTIN := SIG_IGN,
     Handled SIGHUP := Daemon_handler, Handled SIGINT := Daemon_handler, Handled SIGTERM := Daemon_handler)"

definition client_signals :: "(process_signal \<Rightarrow> disposition) \<Rightarrow> process_signal \<Rightarrow> disposition" where
  "client_signals f = f (SIGPIPE := SIG_IGN)"

text \<open>From the dispositions the process was started with. The communicator connects before and
  again during the loop.\<close>

definition process_signals :: "(process_signal \<Rightarrow> disposition) \<Rightarrow> bool \<Rightarrow> process_signal \<Rightarrow> disposition" where
  "process_signals inherited tcp =
     (if tcp then client_signals (run_signals (client_signals inherited)) else run_signals inherited)"

section \<open>The calls\<close>

text \<open>An address and a port, in network order.\<close>

record sockaddr =
  sa_port :: u16
  sa_addr :: u32

text \<open>The result of \<open>send\<close>: how many bytes it took, or a negative number. A \<open>send\<close> to a connection the
  peer has closed raises \<open>SIGPIPE\<close>, whose default ends the process, and fails otherwise.\<close>

datatype send_answer = Sent int | Broken_pipe

fun sent_bytes :: "send_answer \<Rightarrow> bytes \<Rightarrow> bytes" where
  "sent_bytes (Sent cnt) dat = take (nat cnt) dat"
| "sent_bytes Broken_pipe dat = []"

record server_net =
  sv_sockets :: "int answers"
  sv_binds :: "int answers"
  sv_listens :: "int answers"
  sv_accepts :: "(int \<times> sockaddr) answers"
  sv_recvs :: "bytes option answers"
  sv_waits :: "(wait_answer \<times> sockaddr) answers"
  sv_sends :: "send_answer answers"
  sv_names :: "sockaddr option answers"
  sv_outbox :: "(int \<times> bytes) list"
  sv_closed :: "int list"
  sv_instances :: u32
  sv_signals :: "process_signal \<Rightarrow> disposition"

section \<open>The class\<close>

record server_socket =
  ns_socket :: int
  ns_source :: sockaddr
  ns_destination :: sockaddr

text \<open>A failed \<open>socket\<close>, \<open>bind\<close> or \<open>listen\<close> is logged only. \<open>junk\<close> is the uninitialised address.\<close>

definition Network_construct :: "sockaddr \<Rightarrow> u32 \<Rightarrow> u16 \<Rightarrow> server_net \<Rightarrow> server_socket \<times> server_net" where
  "Network_construct junk address port net =
     (\<lparr> ns_socket = sv_sockets net 0, ns_source = \<lparr> sa_port = htons port, sa_addr = htonl address \<rparr>,
        ns_destination = junk \<rparr>,
      net \<lparr> sv_sockets := awaited (sv_sockets net), sv_binds := awaited (sv_binds net),
            sv_listens := awaited (sv_listens net), sv_instances := sv_instances net + 1 \<rparr>)"

definition Network_any :: "sockaddr \<Rightarrow> u16 \<Rightarrow> server_net \<Rightarrow> server_socket \<times> server_net" where
  "Network_any junk port net = Network_construct junk 0 port net"

text \<open>The object of an accepted client is not counted.\<close>

definition Network_accepted :: "sockaddr \<Rightarrow> int \<Rightarrow> sockaddr \<Rightarrow> server_socket" where
  "Network_accepted junk socket clientAddr =
     \<lparr> ns_socket = socket, ns_source = junk, ns_destination = clientAddr \<rparr>"

definition Network_dtor :: "server_socket \<Rightarrow> server_net \<Rightarrow> server_net" where
  "Network_dtor n net =
     (let net = (if ns_socket n \<noteq> INVALID_SOCKET then net \<lparr> sv_closed := sv_closed net @ [ns_socket n] \<rparr> else net)
      in net \<lparr> sv_instances := sv_instances net - 1 \<rparr>)"

definition acceptConnection :: "sockaddr \<Rightarrow> server_socket \<Rightarrow> server_net \<Rightarrow> server_socket option \<times> server_net" where
  "acceptConnection junk n net =
     (let (clientSocket, client_addr) = sv_accepts net 0; net = net \<lparr> sv_accepts := awaited (sv_accepts net) \<rparr>
      in if clientSocket \<noteq> INVALID_SOCKET then (Some (Network_accepted junk clientSocket client_addr), net)
         else (None, net))"

text \<open>Every call records in \<open>sv_outbox\<close>, which no code reads, the bytes it has sent. \<open>None\<close>: the
  process has been ended by the signal.\<close>

definition Network_sendData :: "bytes \<Rightarrow> server_socket \<Rightarrow> server_net \<Rightarrow> (bool \<times> server_net) option" where
  "Network_sendData dat n net =
     (let net' = net \<lparr> sv_sends := awaited (sv_sends net),
          sv_outbox := sv_outbox net @ [(ns_socket n, sent_bytes (sv_sends net 0) dat)] \<rparr>
      in case sv_sends net 0 of
           Sent cnt \<Rightarrow> Some (\<not> cnt < 0, net')
         | Broken_pipe \<Rightarrow> if sv_signals net SIGPIPE = SIG_DFL then None else Some (False, net'))"

definition Network_sendString :: "string \<Rightarrow> server_socket \<Rightarrow> server_net \<Rightarrow> (bool \<times> server_net) option" where
  "Network_sendString dat n net = Network_sendData (bytes_of dat) n net"

text \<open>The \<open>-1\<close> of an error becomes the largest \<open>size_t\<close>.\<close>

definition Network_receiveData :: "nat \<Rightarrow> server_socket \<Rightarrow> server_net \<Rightarrow> nat \<times> bytes \<times> server_net" where
  "Network_receiveData maxLength n net =
     (let net' = net \<lparr> sv_recvs := awaited (sv_recvs net) \<rparr>
      in case sv_recvs net 0 of
           None \<Rightarrow> (2 ^ 64 - 1, [], net')
         | Some w \<Rightarrow> (length (take maxLength w), take maxLength w, net'))"

text \<open>With a timeout; the sender is stored only when something was received.\<close>

definition Network_receiveFrom :: "nat \<Rightarrow> u32 \<times> u16 \<Rightarrow> server_socket \<Rightarrow> server_net \<Rightarrow> nat \<times> bytes \<times> (u32 \<times> u16) \<times> server_net" where
  "Network_receiveFrom maxLength from n net =
     (let (a, sa) = sv_waits net 0; net' = net \<lparr> sv_waits := awaited (sv_waits net) \<rparr>
      in if 0 < select_result a \<and> is_set a then
           (case received a of
              None \<Rightarrow> (0, [], from, net')
            | Some w \<Rightarrow>
                let w = take maxLength w
                in if 0 < length w then (length w, w, (htonl (sa_addr sa), htons (sa_port sa)), net')
                   else (0, [], from, net'))
         else (0, [], from, net'))"

definition getLocalIP :: "server_socket \<Rightarrow> server_net \<Rightarrow> u32 \<times> server_socket \<times> server_net" where
  "getLocalIP n net =
     (let ip = htonl (sa_addr (ns_source n))
      in if ip = 0 then
           (let net' = net \<lparr> sv_names := awaited (sv_names net) \<rparr>
            in case sv_names net 0 of
                 None \<Rightarrow> (0, n, net')
               | Some sa \<Rightarrow> (htonl (sa_addr sa), n \<lparr> ns_source := sa \<rparr>, net'))
         else (ip, n, net))"

definition Network_getRemoteIP :: "server_socket \<Rightarrow> u32" where
  "Network_getRemoteIP n = htonl (sa_addr (ns_destination n))"

definition Network_getRemotePort :: "server_socket \<Rightarrow> u16" where
  "Network_getRemotePort n = htons (sa_port (ns_destination n))"

definition setRemoteIP :: "u32 \<Rightarrow> server_socket \<Rightarrow> server_socket" where
  "setRemoteIP address n = n \<lparr> ns_destination := (ns_destination n)
     \<lparr> sa_addr := if address \<noteq> 0 then htonl address else 0xffffffff \<rparr> \<rparr>"

definition Network_isConnected :: "server_socket \<Rightarrow> bool" where
  "Network_isConnected n \<longleftrightarrow> ns_socket n \<noteq> INVALID_SOCKET"

definition Network_closeSocket :: "server_socket \<Rightarrow> server_net \<Rightarrow> server_socket \<times> server_net" where
  "Network_closeSocket n net =
     (if ns_socket n \<noteq> INVALID_SOCKET
      then (n \<lparr> ns_socket := INVALID_SOCKET \<rparr>, net \<lparr> sv_closed := sv_closed net @ [ns_socket n] \<rparr>)
      else (n, net))"

text \<open>These are copies of the functions of the client end, word for word.\<close>

definition Network_resolveHost :: "(string \<Rightarrow> u32 option) \<Rightarrow> string \<Rightarrow> u32" where
  "Network_resolveHost hosts host = resolveHost hosts host"

definition Network_getInterfaceIP :: "string option \<Rightarrow> (string \<Rightarrow> u32 list option) \<Rightarrow> u32" where
  "Network_getInterfaceIP hostname getaddrinfo = getInterfaceIP hostname getaddrinfo"

definition Network_printIP :: "u32 \<Rightarrow> string" where
  "Network_printIP ip = printIP ip"

section \<open>The server\<close>

text \<open>The port of the configuration is cut to 16 bits. The destructor closes the socket, stops the thread
  (modelled in the theory of the two threads) and deletes the object.\<close>

definition CommandLineServer_ctor :: "int \<Rightarrow> config \<Rightarrow> sockaddr \<Rightarrow> server_net \<Rightarrow> server_socket \<times> server_net" where
  "CommandLineServer_ctor junk_int cfg junk net =
     Network_any junk (word_of_int (GetInt junk_int cfg ''Telnet'' ''port'' 2023)) net"

definition CommandLineServer_dtor :: "server_socket \<Rightarrow> server_net \<Rightarrow> server_net" where
  "CommandLineServer_dtor n net =
     (let (n, net) = Network_closeSocket n net in Network_dtor n net)"

text \<open>The socket is closed once, although both functions close sockets.\<close>

lemma server_closes_once:
  assumes "ns_socket n \<noteq> INVALID_SOCKET"
  shows "sv_closed (CommandLineServer_dtor n net) = sv_closed net @ [ns_socket n]"
  using assms by (simp add: CommandLineServer_dtor_def Network_closeSocket_def Network_dtor_def Let_def)

section \<open>The accept loop\<close>

text \<open>One element of the first list per answer of \<open>IsRunning\<close>; the result are the clients whose threads
  were started.\<close>

primrec accept_loop :: "bool list \<Rightarrow> sockaddr \<Rightarrow> server_socket \<Rightarrow> server_net \<Rightarrow> server_socket list \<times> server_net" where
  "accept_loop [] junk n net = ([], net)"
| "accept_loop (run # runs) junk n net =
     (if run then
        let (client, net) = acceptConnection junk n net; (cs, net) = accept_loop runs junk n net
        in (case client of None \<Rightarrow> cs | Some c \<Rightarrow> c # cs, net)
      else ([], net))"

section \<open>A client on its socket\<close>

text \<open>The loop of \<open>readline\<close> over \<open>receiveData\<close>; it may never return (\<open>None\<close>). The inner \<open>None\<close> is the
  result -1.\<close>

partial_function (option) socket_readline_loop :: "nat \<Rightarrow> char \<Rightarrow> server_socket \<Rightarrow> server_net
    \<Rightarrow> (string option \<times> server_net) option" where
  "socket_readline_loop n c k net =
     (if n = 0 \<or> c = CHR 0x0A then Some (Some [], net)
      else
        let (r, b, net) = Network_receiveData 1 k net in
        if r = 0 then Some (None, net)
        else
          let c = (if b = [] then c else char_of_u8 (b ! 0)) in
          if c = CHR 0x0D \<or> c = CHR 0x0A then socket_readline_loop n c k net
          else
            Option.bind (socket_readline_loop (n - 1) c k net) (\<lambda>(l, net). Some (map_option (\<lambda>l. c # l) l, net)))"

definition socket_readline :: "nat \<Rightarrow> server_socket \<Rightarrow> server_net \<Rightarrow> (string option \<times> server_net) option" where
  "socket_readline len k net = socket_readline_loop len CHR 0x00 k net"

primrec send_replies :: "string list \<Rightarrow> server_socket \<Rightarrow> server_net \<Rightarrow> server_net option" where
  "send_replies [] k net = Some net"
| "send_replies (s # ss) k net =
     (case Network_sendString s k net of None \<Rightarrow> None | Some (_, net) \<Rightarrow> send_replies ss k net)"

text \<open>How a session ends: the client's thread returns, or the process is gone.\<close>

datatype 'a session_end = Ended 'a | Killed

primrec socket_client_loop :: "nat \<Rightarrow> 'c communicator \<Rightarrow> (nat \<Rightarrow> u8) \<Rightarrow> server_socket \<Rightarrow> server_net \<Rightarrow> node \<Rightarrow> 'c daemon
    \<Rightarrow> (server_net \<times> node \<times> 'c daemon) session_end res option" where
  "socket_client_loop 0 ops junk k net nd d = Some (Inl Out_of_fuel)"
| "socket_client_loop (Suc fuel) ops junk k net nd d =
     (case socket_readline (BUFFER_LENGTH - 1) k net of
        None \<Rightarrow> None
      | Some (None, net) \<Rightarrow> Some (Inr (Ended (net, nd, d)))
      | Some (Some text, net) \<Rightarrow>
          (case command_line ops junk text nd d of
             None \<Rightarrow> None
           | Some (Inl e) \<Rightarrow> Some (Inl e)
           | Some (Inr (out, go, nd, d)) \<Rightarrow>
               (case send_replies out k net of
                  None \<Rightarrow> Some (Inr Killed)
                | Some net \<Rightarrow>
                    if go then socket_client_loop fuel ops junk k net nd d else Some (Inr (Ended (net, nd, d))))))"

text \<open>\<open>execute\<close> of the client's thread, with the \<open>delete mClient\<close> at its end.\<close>

definition socket_client_execute :: "nat \<Rightarrow> 'c communicator \<Rightarrow> (nat \<Rightarrow> u8) \<Rightarrow> server_socket \<Rightarrow> server_net \<Rightarrow> node \<Rightarrow> 'c daemon
    \<Rightarrow> (server_net \<times> node \<times> 'c daemon) session_end res option" where
  "socket_client_execute fuel ops junk k net nd d =
     map_option (\<lambda>r. bind_res r (\<lambda>e. Inr (case e of
         Ended (net, nd, d) \<Rightarrow> Ended (Network_dtor k net, nd, d)
       | Killed \<Rightarrow> Killed))) (socket_client_loop fuel ops junk k net nd d)"

section \<open>The sockets as a script\<close>

text \<open>What \<open>recv\<close> answers for a script of receptions; behind it the connection is closed.\<close>

fun recv_of :: "received \<Rightarrow> bytes option" where
  "recv_of (Byte c) = Some [u8_of_char c]"
| "recv_of Closed = Some []"
| "recv_of Failed = None"

definition script_answers :: "received list \<Rightarrow> bytes option answers" where
  "script_answers input = (\<lambda>i. if i < length input then recv_of (input ! i) else Some [])"

lemma script_answers_simps:
  "script_answers [] 0 = Some []" "script_answers (a # input) 0 = recv_of a"
  "awaited (script_answers (a # input)) = script_answers input"
  by (auto simp: script_answers_def awaited_def)

lemma receive_script:
  assumes "sv_recvs net = script_answers (a # input)"
  shows "Network_receiveData 1 k net = (case a of
      Byte c \<Rightarrow> (1, [u8_of_char c], net \<lparr> sv_recvs := script_answers input \<rparr>)
    | Closed \<Rightarrow> (0, [], net \<lparr> sv_recvs := script_answers input \<rparr>)
    | Failed \<Rightarrow> (2 ^ 64 - 1, [], net \<lparr> sv_recvs := script_answers input \<rparr>))"
  using assms by (cases a) (simp_all add: Network_receiveData_def script_answers_simps)

lemma socket_readline_loop_script:
  assumes "sv_recvs net = script_answers input"
  shows "case readline_loop n c input of
      Some (l, rest) \<Rightarrow> socket_readline_loop n c k net = Some (Some l, net \<lparr> sv_recvs := script_answers rest \<rparr>)
    | None \<Rightarrow> \<exists>f. socket_readline_loop n c k net = Some (None, net \<lparr> sv_recvs := f \<rparr>)"
  using assms
proof (induction n c input arbitrary: net rule: readline_loop.induct)
  case (1 n c input)
  show ?case
  proof (cases "n = 0 \<or> c = CHR 0x0A")
    case True
    with "1.prems" show ?thesis
      by (auto simp: readline_loop.simps [of n c] socket_readline_loop.simps [of n c])
  next
    case False
    show ?thesis
    proof (cases input)
      case Nil
      with "1.prems" False show ?thesis
        by (auto simp: readline_loop.simps [of n c] socket_readline_loop.simps [of n c] Network_receiveData_def script_answers_simps)
    next
      case (Cons a rest)
      note r = receive_script [OF "1.prems" [unfolded Cons], of k]
      let ?net = "net \<lparr> sv_recvs := script_answers rest \<rparr>"
      have n: "sv_recvs ?net = script_answers rest" by simp
      show ?thesis
      proof (cases a)
        case (Byte b)
        with r False Cons "1.IH"(1,2,3) [OF False Cons Byte, of ?net] show ?thesis
          by (auto simp: readline_loop.simps [of n c] socket_readline_loop.simps [of n c] split: option.splits if_splits) blast+
      next
        case Closed
        with r False Cons show ?thesis
          by (auto simp: readline_loop.simps [of n c] socket_readline_loop.simps [of n c])
      next
        case Failed
        note u = socket_readline_loop.simps [of n c k net] readline_loop.simps [of n c input]
        show ?thesis
        proof (cases "c = CHR 0x0D")
          case True
          with r False Cons Failed "1.IH"(4) [OF False Cons Failed True n] show ?thesis
            unfolding u by (cases "readline_loop n c rest") auto
        next
          case ne: False
          with r False Cons Failed "1.IH"(5) [OF False Cons Failed ne n] show ?thesis
            unfolding u by (cases "readline_loop (n - 1) c rest") auto
        qed
      qed
    qed
  qed
qed

section \<open>Sessions\<close>

text \<open>One of the replies finds the connection closed, and the signal is not ignored.\<close>

definition killed_by :: "string list \<Rightarrow> server_net \<Rightarrow> bool" where
  "killed_by out net \<longleftrightarrow> sv_signals net SIGPIPE = SIG_DFL \<and> (\<exists>i < length out. sv_sends net i = Broken_pipe)"

text \<open>What the calls of \<open>send\<close> take of the replies.\<close>

definition sent_replies :: "server_socket \<Rightarrow> send_answer answers \<Rightarrow> string list \<Rightarrow> (int \<times> bytes) list" where
  "sent_replies k f out = map (\<lambda>i. (ns_socket k, sent_bytes (f i) (bytes_of (out ! i)))) [0..<length out]"

lemma sent_replies_simps [simp]:
  "sent_replies k f [] = []"
  "sent_replies k f (s # out) = (ns_socket k, sent_bytes (f 0) (bytes_of s)) # sent_replies k (awaited f) out"
  by (simp_all add: sent_replies_def awaited_def upt_conv_Cons map_Suc_upt [symmetric] del: upt_Suc)

definition after_replies :: "server_socket \<Rightarrow> string list \<Rightarrow> server_net \<Rightarrow> server_net" where
  "after_replies k out net = net \<lparr> sv_sends := \<lambda>i. sv_sends net (i + length out),
     sv_outbox := sv_outbox net @ sent_replies k (sv_sends net) out \<rparr>"

lemma killed_by_Nil [simp]: "\<not> killed_by [] net"
  by (simp add: killed_by_def)

lemma killed_by_Cons:
  "killed_by (s # out) net \<longleftrightarrow> sv_signals net SIGPIPE = SIG_DFL \<and> sv_sends net 0 = Broken_pipe
     \<or> killed_by out (net \<lparr> sv_sends := awaited (sv_sends net), sv_outbox := x \<rparr>)"
  by (auto simp: killed_by_def awaited_def less_Suc_eq_0_disj)

lemma killed_by_default: "killed_by out net \<Longrightarrow> sv_signals net SIGPIPE = SIG_DFL"
  by (simp add: killed_by_def)

lemma ex_less_add: "(\<exists>i < m + n. P i) \<longleftrightarrow> (\<exists>i < m. P i) \<or> (\<exists>i < n. P (i + m))" for m n :: nat
  by (induction n) (auto simp: less_Suc_eq add.commute)

lemma killed_by_append:
  "killed_by (o1 @ o2) net \<longleftrightarrow> killed_by o1 net \<or> killed_by o2 ((after_replies k o1 net) \<lparr> sv_recvs := r \<rparr>)"
  by (auto simp: killed_by_def after_replies_def ex_less_add)

lemma sent_replies_append:
  "sent_replies k f (o1 @ o2) = sent_replies k f o1 @ sent_replies k (\<lambda>i. f (i + length o1)) o2"
  by (induction o1 arbitrary: f) (simp_all add: awaited_def)

lemma send_replies_all:
  "send_replies out k net = (if killed_by out net then None else Some (after_replies k out net))"
proof (induction out arbitrary: net)
  case (Cons s out)
  let ?net = "net \<lparr> sv_sends := awaited (sv_sends net),
    sv_outbox := sv_outbox net @ [(ns_socket k, sent_bytes (sv_sends net 0) (bytes_of s))] \<rparr>"
  have "after_replies k out ?net = after_replies k (s # out) net"
    by (simp add: after_replies_def awaited_def)
  with Cons.IH [of ?net] killed_by_Cons [of s out net "sv_outbox ?net"] killed_by_default [of out ?net] show ?case
    by (cases "sv_sends net 0") (auto simp: Network_sendString_def Network_sendData_def Let_def)
qed (simp add: after_replies_def)

lemma socket_readline_script:
  assumes "sv_recvs net = script_answers input"
  shows "readline n input = Some (l, rest) \<Longrightarrow> socket_readline n k net = Some (Some l, net \<lparr> sv_recvs := script_answers rest \<rparr>)"
    and "readline n input = None \<Longrightarrow> \<exists>f. socket_readline n k net = Some (None, net \<lparr> sv_recvs := f \<rparr>)"
  using socket_readline_loop_script [OF assms, of n "CHR 0x00" k]
  by (auto simp: readline_def socket_readline_def)

lemma socket_client_loop_script:
  assumes "sv_recvs net = script_answers input"
    and "client_loop fuel ops junk input nd d = Some (Inr (out, nd', d'))"
  shows "if killed_by out net then socket_client_loop fuel ops junk k net nd d = Some (Inr Killed)
    else \<exists>net'. socket_client_loop fuel ops junk k net nd d = Some (Inr (Ended (net', nd', d')))
      \<and> sv_outbox net' = sv_outbox net @ sent_replies k (sv_sends net) out"
  using assms
proof (induction fuel arbitrary: net input nd d out)
  case (Suc fuel)
  show ?case
  proof (cases "readline (BUFFER_LENGTH - 1) input")
    case None
    with socket_readline_script(2) [OF Suc.prems(1) None, of k] Suc.prems(2) show ?thesis by auto
  next
    case (Some p)
    then obtain cmd rest where p: "readline (BUFFER_LENGTH - 1) input = Some (cmd, rest)" by (cases p) auto
    note r = socket_readline_script(1) [OF Suc.prems(1) p, of k]
    let ?net = "net \<lparr> sv_recvs := script_answers rest \<rparr>"
    obtain o1 go nd1 d1 where c: "command_line ops junk cmd nd d = Some (Inr (o1, go, nd1, d1))"
      using Suc.prems(2) p by (auto split: option.splits sum.splits)
    have k1: "killed_by out ?net = killed_by out net" for out by (simp add: killed_by_def)
    have ar: "after_replies k o1 ?net = (after_replies k o1 net) \<lparr> sv_recvs := script_answers rest \<rparr>"
      by (simp add: after_replies_def)
    show ?thesis
    proof (cases go)
      case True
      with Suc.prems(2) p c obtain o2 where
        o2: "client_loop fuel ops junk rest nd1 d1 = Some (Inr (o2, nd', d'))" "out = o1 @ o2"
        by (auto simp: bind_res_Inr_iff)
      define net1 where "net1 = (after_replies k o1 net) \<lparr> sv_recvs := script_answers rest \<rparr>"
      have n1: "sv_recvs net1 = script_answers rest" "sv_outbox net1 = sv_outbox net @ sent_replies k (sv_sends net) o1"
        "sv_sends net1 = (\<lambda>i. sv_sends net (i + length o1))" by (simp_all add: net1_def after_replies_def)
      have kl: "killed_by out net \<longleftrightarrow> killed_by o1 net \<or> killed_by o2 net1"
        unfolding o2(2) net1_def by (rule killed_by_append)
      have "send_replies o1 k ?net = (if killed_by o1 net then None else Some net1)"
        by (simp only: send_replies_all k1 ar net1_def)
      with Suc.IH [OF n1(1) o2(1)] r c True kl o2(2) show ?thesis
        by (cases "killed_by o1 net"; cases "killed_by o2 net1") (auto simp: n1(2,3) sent_replies_append)
    qed (use Suc.prems(2) p c r in \<open>auto simp: send_replies_all k1 after_replies_def\<close>)
  qed
qed simp

text \<open>The counter of the instances: a server that has served one client counts as none.\<close>

lemma served_client_uncounts:
  assumes "acceptConnection junk n net = (Some c, net')"
  shows "sv_instances (Network_dtor c net') = sv_instances net - 1"
  using assms by (auto simp: acceptConnection_def Network_dtor_def Let_def split: prod.splits if_splits)

text \<open>Without a listening socket the loop turns without waiting and accepts nobody.\<close>

lemma accept_loop_spins:
  assumes "\<forall>i. fst (sv_accepts net i) = INVALID_SOCKET"
  shows "fst (accept_loop runs junk n net) = []"
  using assms
proof (induction runs arbitrary: net)
  case (Cons run runs)
  from Cons.IH [of "net \<lparr> sv_accepts := awaited (sv_accepts net) \<rparr>"] Cons.prems show ?case
    by (cases "sv_accepts net 0") (auto simp: acceptConnection_def Let_def awaited_def split: prod.splits dest: spec [of _ 0])
qed simp

end
