(* ===== verification/Server_Thread.thy ===== *)
theory Server_Thread
  imports Prelude
begin

text \<open>
  The thread of the command line server (\<open>daemon/src/Thread.cpp\<close> under
  \<open>CommandLineServer\<close> of \<open>daemon/src/network/TelnetServer.cpp\<close>). The daemon's thread constructs
  the server, which starts the thread, and deletes it at the end; the server's thread accepts
  clients meanwhile. A step is one statement of one of the two that touches what they share: the
  flag \<open>running\<close>, its mutex, and the listening socket.
\<close>

section \<open>The two threads\<close>

datatype actor = Daemon_thread | Server_thread

text \<open>\<open>stop\<close> is called by the destructor of the server and again by that of its base class.\<close>

datatype stop_site = In_server | In_thread

datatype owner_pc =
    Constructing | Serving
  | Stop_lock stop_site | Stop_test stop_site | Stop_unlock stop_site bool | Stop_join stop_site
  | Delete_network | Destroy_mutex | Gone

datatype worker_pc =
    Not_created | Entry | Run_lock | Run_test | Run_unlock bool
  | Is_lock | Is_read | Is_unlock bool | Accepting | Finished

record server_thread =
  running :: bool
  holder :: "actor option"
  owner :: owner_pc
  worker :: worker_pc
  listening :: bool
  clients :: nat

text \<open>The constructors have initialised the flag, the mutex and the socket.\<close>

definition server_start :: server_thread where
  "server_start = \<lparr> running = False, holder = None, owner = Constructing, worker = Not_created,
     listening = True, clients = 0 \<rparr>"

text \<open>\<open>setup\<close> and \<open>terminate\<close> of the base class do nothing.\<close>

definition thread_setup :: bool where "thread_setup = True"

definition after_stop :: "stop_site \<Rightarrow> owner_pc" where
  "after_stop c = (if c = In_server then Delete_network else Destroy_mutex)"

text \<open>What the server's thread may still touch: the object until it is gone, the socket object until
  it is deleted.\<close>

definition object_alive :: "server_thread \<Rightarrow> bool" where
  "object_alive s \<longleftrightarrow> owner s \<noteq> Gone"

fun network_alive :: "owner_pc \<Rightarrow> bool" where
  "network_alive (Stop_lock c) = (c = In_server)"
| "network_alive (Stop_test c) = (c = In_server)"
| "network_alive (Stop_unlock c join) = (c = In_server)"
| "network_alive (Stop_join c) = (c = In_server)"
| "network_alive Destroy_mutex = False"
| "network_alive Gone = False"
| "network_alive pc = True"

text \<open>
  The statements. \<open>pthread_create\<close> may fail, which the constructor ignores. \<open>stop\<close> clears the flag
  and joins the thread if it was set. \<open>Run\<close> sets it and executes the accept loop, which asks
  \<open>IsRunning\<close> before every \<open>accept\<close>. A closed socket fails every \<open>accept\<close>; \<open>errors\<close> tells
  whether one may fail on an open socket too.
\<close>

inductive thread_step :: "bool \<Rightarrow> server_thread \<Rightarrow> server_thread \<Rightarrow> bool" for errors where
  start: "owner s = Constructing \<Longrightarrow> thread_step errors s (s \<lparr> owner := Serving, worker := Entry \<rparr>)"
| start_fails: "owner s = Constructing \<Longrightarrow> thread_step errors s (s \<lparr> owner := Serving \<rparr>)"
| delete_server: "owner s = Serving \<Longrightarrow> thread_step errors s (s \<lparr> owner := Stop_lock In_server, listening := False \<rparr>)"
| stop_lock: "owner s = Stop_lock c \<Longrightarrow> holder s = None \<Longrightarrow>
    thread_step errors s (s \<lparr> owner := Stop_test c, holder := Some Daemon_thread \<rparr>)"
| stop_test: "owner s = Stop_test c \<Longrightarrow> thread_step errors s (s \<lparr> owner := Stop_unlock c (running s), running := False \<rparr>)"
| stop_unlock: "owner s = Stop_unlock c join \<Longrightarrow>
    thread_step errors s (s \<lparr> owner := if join then Stop_join c else after_stop c, holder := None \<rparr>)"
| stop_join: "owner s = Stop_join c \<Longrightarrow> worker s = Finished \<Longrightarrow> thread_step errors s (s \<lparr> owner := after_stop c \<rparr>)"
| delete_network: "owner s = Delete_network \<Longrightarrow> thread_step errors s (s \<lparr> owner := Stop_lock In_thread \<rparr>)"
| destroy_mutex: "owner s = Destroy_mutex \<Longrightarrow> thread_step errors s (s \<lparr> owner := Gone \<rparr>)"
| entry_point: "worker s = Entry \<Longrightarrow> object_alive s \<Longrightarrow> thread_step errors s (s \<lparr> worker := Run_lock \<rparr>)"
| run_lock: "worker s = Run_lock \<Longrightarrow> object_alive s \<Longrightarrow> holder s = None \<Longrightarrow>
    thread_step errors s (s \<lparr> worker := Run_test, holder := Some Server_thread \<rparr>)"
| run_test: "worker s = Run_test \<Longrightarrow> object_alive s \<Longrightarrow>
    thread_step errors s (s \<lparr> worker := Run_unlock (\<not> running s \<and> thread_setup), running := running s \<or> thread_setup \<rparr>)"
| run_unlock: "worker s = Run_unlock go \<Longrightarrow> object_alive s \<Longrightarrow>
    thread_step errors s (s \<lparr> worker := if go then Is_lock else Finished, holder := None \<rparr>)"
| is_lock: "worker s = Is_lock \<Longrightarrow> object_alive s \<Longrightarrow> holder s = None \<Longrightarrow>
    thread_step errors s (s \<lparr> worker := Is_read, holder := Some Server_thread \<rparr>)"
| is_read: "worker s = Is_read \<Longrightarrow> object_alive s \<Longrightarrow> thread_step errors s (s \<lparr> worker := Is_unlock (running s) \<rparr>)"
| is_unlock: "worker s = Is_unlock ret \<Longrightarrow> object_alive s \<Longrightarrow>
    thread_step errors s (s \<lparr> worker := if ret then Accepting else Finished, holder := None \<rparr>)"
| accept_client: "worker s = Accepting \<Longrightarrow> network_alive (owner s) \<Longrightarrow> listening s \<Longrightarrow>
    thread_step errors s (s \<lparr> worker := Is_lock, clients := clients s + 1 \<rparr>)"
| accept_fails: "worker s = Accepting \<Longrightarrow> network_alive (owner s) \<Longrightarrow> \<not> listening s \<or> errors \<Longrightarrow>
    thread_step errors s (s \<lparr> worker := Is_lock \<rparr>)"

code_pred (modes: i \<Rightarrow> i \<Rightarrow> o \<Rightarrow> bool) thread_step .

inductive_cases thread_stepE: "thread_step errors s t"

definition server_reachable :: "bool \<Rightarrow> server_thread \<Rightarrow> bool" where
  "server_reachable errors s \<longleftrightarrow> (thread_step errors)\<^sup>*\<^sup>* server_start s"

text \<open>The server's thread is about to touch an object that is gone.\<close>

definition dangling :: "server_thread \<Rightarrow> bool" where
  "dangling s \<longleftrightarrow> \<not> object_alive s \<and> worker s \<notin> {Not_created, Finished}
     \<or> worker s = Accepting \<and> \<not> network_alive (owner s)"

section \<open>Invariants\<close>

definition owner_holds :: "server_thread \<Rightarrow> bool" where
  "owner_holds s \<longleftrightarrow> (case owner s of Stop_test _ \<Rightarrow> True | Stop_unlock _ _ \<Rightarrow> True | _ \<Rightarrow> False)"

definition worker_holds :: "server_thread \<Rightarrow> bool" where
  "worker_holds s \<longleftrightarrow> (case worker s of Run_test \<Rightarrow> True | Run_unlock _ \<Rightarrow> True | Is_read \<Rightarrow> True | Is_unlock _ \<Rightarrow> True | _ \<Rightarrow> False)"

text \<open>The thread has not yet set the flag.\<close>

definition not_begun :: "worker_pc \<Rightarrow> bool" where
  "not_begun pc \<longleftrightarrow> pc \<in> {Not_created, Entry, Run_lock, Run_test}"

definition server_ok :: "server_thread \<Rightarrow> bool" where
  "server_ok s \<longleftrightarrow> (holder s = Some Daemon_thread \<longleftrightarrow> owner_holds s) \<and> (holder s = Some Server_thread \<longleftrightarrow> worker_holds s)
     \<and> (not_begun (worker s) \<longrightarrow> \<not> running s) \<and> worker s \<noteq> Run_unlock False
     \<and> (owner s = Constructing \<longrightarrow> worker s = Not_created)
     \<and> (owner s \<notin> {Constructing, Serving} \<longrightarrow> \<not> listening s)
     \<and> (\<forall>c. owner s \<in> {Stop_unlock c True, Stop_join c} \<longrightarrow> \<not> running s \<and> \<not> not_begun (worker s))"

lemmas server_defs = server_ok_def owner_holds_def worker_holds_def not_begun_def object_alive_def thread_setup_def after_stop_def

lemma server_ok_start: "server_ok server_start"
  by (simp add: server_defs server_start_def)

lemma thread_step_ok:
  assumes "thread_step errors s t" "server_ok s"
  shows "server_ok t"
  using assms by cases (auto simp: server_defs split: owner_pc.splits worker_pc.splits)

lemma server_reachable_ok:
  assumes "server_reachable errors s"
  shows "server_ok s"
  using assms unfolding server_reachable_def
  by (induction rule: rtranclp_induct) (auto intro: server_ok_start thread_step_ok)

section \<open>Properties\<close>

text \<open>The flag is only touched under the mutex: never do both threads hold it, and the thread that
  holds it is the one inside a critical section.\<close>

theorem flag_under_mutex:
  assumes "server_reachable errors s"
  shows "\<not> (owner_holds s \<and> worker_holds s) \<and> (holder s = Some Daemon_thread \<longleftrightarrow> owner_holds s)
    \<and> (holder s = Some Server_thread \<longleftrightarrow> worker_holds s)"
  using server_reachable_ok [OF assms] by (auto simp: server_ok_def)

text \<open>Where the thread is when it had set the flag before the server was deleted.\<close>

definition stops_cleanly :: "server_thread \<Rightarrow> bool" where
  "stops_cleanly s \<longleftrightarrow> \<not> not_begun (worker s) \<and>
     (owner s \<in> {Serving, Stop_lock In_server, Stop_test In_server} \<and> running s
      \<or> owner s \<in> {Stop_unlock In_server True, Stop_join In_server} \<and> \<not> running s
      \<or> owner s \<in> {Delete_network, Stop_lock In_thread, Stop_test In_thread, Stop_unlock In_thread False, Destroy_mutex, Gone}
        \<and> \<not> running s \<and> worker s = Finished)"

lemma stops_cleanly_step: "thread_step errors s t \<Longrightarrow> stops_cleanly s \<Longrightarrow> stops_cleanly t"
  by (erule thread_stepE) (auto simp: stops_cleanly_def not_begun_def after_stop_def)

lemma stops_cleanly_safe: "stops_cleanly s \<Longrightarrow> \<not> dangling s \<and> (owner s = Gone \<longrightarrow> worker s = Finished)"
  by (auto simp: stops_cleanly_def dangling_def object_alive_def)

text \<open>C13: If the thread has set the flag before the server is deleted, deleting waits for it: it never
  touches an object that is gone, and when the server is gone the thread has ended.\<close>

theorem deletion_waits:
  assumes "server_reachable errors s" "owner s = Serving" "running s" "(thread_step errors)\<^sup>*\<^sup>* s t"
  shows "\<not> dangling t \<and> (owner t = Gone \<longrightarrow> worker t = Finished)"
proof -
  have "stops_cleanly s" using server_reachable_ok [OF assms(1)] assms(2,3)
    by (auto simp: stops_cleanly_def server_ok_def)
  with assms(4) have "stops_cleanly t"
    by (induction rule: rtranclp_induct) (auto intro: stops_cleanly_step)
  then show ?thesis by (rule stops_cleanly_safe)
qed

text \<open>How many statements the thread has left when the flag is cleared and the socket closed.\<close>

fun steps_left :: "worker_pc \<Rightarrow> nat" where
  "steps_left (Run_unlock go) = 6"
| "steps_left (Is_unlock ret) = (if ret then 5 else 1)"
| "steps_left Accepting = 4"
| "steps_left Is_lock = 3"
| "steps_left Is_read = 2"
| "steps_left pc = 0"

lemma joining_step:
  assumes "server_ok s" "owner s = Stop_join In_server" "thread_step errors s t"
  shows "owner t = Delete_network \<and> worker s = Finished \<or> owner t = Stop_join In_server \<and> steps_left (worker t) < steps_left (worker s)"
  using assms(3,1,2) by cases (auto simp: server_defs)

lemma joining_goes_on:
  assumes "server_ok s" "owner s = Stop_join In_server"
  shows "\<exists>t. thread_step errors s t"
proof -
  have h: "holder s \<noteq> Some Daemon_thread" "holder s = Some Server_thread \<longleftrightarrow> worker_holds s" "\<not> not_begun (worker s)" "\<not> listening s"
    using assms by (auto simp: server_ok_def owner_holds_def)
  have a: "object_alive s" "network_alive (owner s)" using assms(2) by (simp_all add: object_alive_def)
  show ?thesis
  proof (cases "worker s")
    case Is_lock
    with h have "holder s = None" by (cases "holder s") (auto simp: worker_holds_def intro: actor.exhaust)
    with Is_lock a show ?thesis by (blast intro: is_lock)
  next
    case Finished
    with assms(2) show ?thesis by (blast intro: stop_join)
  qed (use h a in \<open>auto simp: not_begun_def intro: run_unlock is_read is_unlock accept_fails\<close>)
qed

section \<open>Fair runs\<close>

text \<open>
  A run goes on while a thread can. Nothing is said of the order of the threads but that the
  mutex does not starve the daemon's thread: if that can take a step again and again, it does.
\<close>

definition owner_can :: "bool \<Rightarrow> server_thread \<Rightarrow> bool" where
  "owner_can errors s \<longleftrightarrow> (\<exists>t. thread_step errors s t \<and> owner t \<noteq> owner s)"

definition server_run :: "bool \<Rightarrow> (nat \<Rightarrow> server_thread) \<Rightarrow> bool" where
  "server_run errors run \<longleftrightarrow> server_reachable errors (run 0) \<and>
     (\<forall>i. thread_step errors (run i) (run (Suc i)) \<or> run (Suc i) = run i \<and> (\<nexists>t. thread_step errors (run i) t))"

definition fair_run :: "bool \<Rightarrow> (nat \<Rightarrow> server_thread) \<Rightarrow> bool" where
  "fair_run errors run \<longleftrightarrow> server_run errors run \<and>
     ((\<forall>i. \<exists>j\<ge>i. owner_can errors (run j)) \<longrightarrow> (\<forall>i. \<exists>j\<ge>i. owner (run (Suc j)) \<noteq> owner (run j)))"

lemma server_run_ok:
  assumes "server_run errors run"
  shows "server_ok (run i)"
proof (induction i)
  case 0
  show ?case using assms server_reachable_ok [of errors "run 0"] by (simp add: server_run_def)
next
  case (Suc i)
  with assms show ?case unfolding server_run_def by (metis thread_step_ok)
qed

lemma server_run_step:
  "server_run errors run \<Longrightarrow> thread_step errors (run i) t \<Longrightarrow> thread_step errors (run i) (run (Suc i))"
  unfolding server_run_def by blast

lemma owner_change_step:
  "server_run errors run \<Longrightarrow> owner (run (Suc i)) \<noteq> owner (run i) \<Longrightarrow> thread_step errors (run i) (run (Suc i))"
  unfolding server_run_def by metis

text \<open>A statement of the daemon's thread that it can take again and again is taken.\<close>

lemma phase_left:
  assumes "fair_run errors run" "owner (run i) = pc"
    and "\<And>k. i \<le> k \<Longrightarrow> \<forall>j\<ge>k. owner (run j) = pc \<Longrightarrow> \<exists>j\<ge>k. owner_can errors (run j)"
  shows "\<exists>j\<ge>i. owner (run j) = pc \<and> owner (run (Suc j)) \<noteq> pc"
proof (rule ccontr)
  assume no: "\<not> ?thesis"
  have all: "owner (run (i + n)) = pc" for n
    by (induction n) (use assms(2) no in auto)
  then have stays: "\<forall>j\<ge>i. owner (run j) = pc" using le_Suc_ex by blast
  have "\<exists>j\<ge>k. owner_can errors (run j)" for k
    using assms(3) [of "max i k"] stays by (meson max.cobounded1 max.bounded_iff)
  with assms(1) obtain j where "j \<ge> i" "owner (run (Suc j)) \<noteq> owner (run j)"
    unfolding fair_run_def by blast
  with stays show False by simp
qed

lemma free_mutex_can:
  "owner s = Stop_lock c \<Longrightarrow> holder s = None \<Longrightarrow> owner_can errors s"
  unfolding owner_can_def by (rule exI, rule conjI, erule (1) stop_lock) simp

lemma critical_can:
  assumes "owner s \<in> {Stop_test c, Stop_unlock c join, Delete_network, Destroy_mutex}"
  shows "owner_can errors s"
  using assms stop_test [of s c errors] stop_unlock [of s c join errors] delete_network [of s errors] destroy_mutex [of s errors]
  unfolding owner_can_def by (fastforce simp: after_stop_def split: if_splits)

text \<open>The server's thread leaves its critical sections, whatever the other one does.\<close>

fun hold_left :: "worker_pc \<Rightarrow> nat" where
  "hold_left Run_test = 2"
| "hold_left Is_read = 2"
| "hold_left (Run_unlock go) = 1"
| "hold_left (Is_unlock ret) = 1"
| "hold_left pc = 0"

lemma holding_step:
  assumes "server_ok s" "owner s = Stop_lock c" "owner t = Stop_lock c" "holder s = Some Server_thread" "thread_step errors s t"
  shows "holder t = None \<or> holder t = Some Server_thread \<and> hold_left (worker t) < hold_left (worker s)"
  using assms(5,1-4) by cases (auto simp: server_ok_def worker_holds_def)

lemma holding_goes_on:
  assumes "server_ok s" "owner s = Stop_lock c" "holder s = Some Server_thread"
  shows "\<exists>t. thread_step errors s t"
proof -
  have "worker_holds s" "object_alive s" using assms by (simp_all add: server_ok_def object_alive_def)
  then show ?thesis
    by (cases "worker s") (auto simp: worker_holds_def intro: run_test run_unlock is_read is_unlock)
qed

lemma mutex_freed:
  assumes "server_run errors run" "\<forall>j\<ge>k. owner (run j) = Stop_lock c"
  shows "\<exists>j\<ge>k. holder (run j) = None"
  using assms(2)
proof (induction "hold_left (worker (run k))" arbitrary: k rule: less_induct)
  case less
  have ok: "server_ok (run k)" "owner (run k) = Stop_lock c" "owner (run (Suc k)) = Stop_lock c"
    using server_run_ok [OF assms(1)] less.prems by auto
  show ?case
  proof (cases "holder (run k)")
    case (Some a)
    with ok have s: "holder (run k) = Some Server_thread"
      by (cases a) (auto simp: server_ok_def owner_holds_def)
    obtain t where "thread_step errors (run k) t" using holding_goes_on [OF ok(1,2) s] by blast
    from holding_step [OF ok(1-3) s server_run_step [OF assms(1) this]]
    show ?thesis
    proof
      assume "holder (run (Suc k)) = Some Server_thread \<and> hold_left (worker (run (Suc k))) < hold_left (worker (run k))"
      then show ?thesis using less.hyps [of "Suc k"] less.prems Suc_leD by blast
    qed (use Suc_n_not_le_n nat_le_linear in blast)
  qed blast
qed

text \<open>Once the daemon's thread waits for the other one, at most seven statements follow.\<close>

lemma join_bound:
  assumes "server_run errors run" "owner (run k) = Stop_join In_server"
  shows "\<exists>i>k. i \<le> k + 7 \<and> owner (run i) = Delete_network"
proof -
  have "\<exists>i>k. i \<le> k + 1 + steps_left (worker (run k)) \<and> owner (run i) = Delete_network"
    using assms(2)
  proof (induction "steps_left (worker (run k))" arbitrary: k rule: less_induct)
    case less
    note ok = server_run_ok [OF assms(1), of k]
    obtain t where "thread_step errors (run k) t" using joining_goes_on [OF ok less.prems] by blast
    from joining_step [OF ok less.prems server_run_step [OF assms(1) this]] show ?case
    proof
      assume n: "owner (run (Suc k)) = Stop_join In_server \<and> steps_left (worker (run (Suc k))) < steps_left (worker (run k))"
      with less.hyps [of "Suc k"] obtain i where
        "Suc k < i" "i \<le> Suc k + 1 + steps_left (worker (run (Suc k)))" "owner (run i) = Delete_network" by blast
      with n show ?thesis by (intro exI [of _ i]) linarith
    qed (intro exI [of _ "Suc k"], simp)
  qed
  then obtain i where i: "k < i" "i \<le> k + 1 + steps_left (worker (run k))" "owner (run i) = Delete_network" by blast
  have "steps_left (worker (run k)) \<le> 6" by (cases "worker (run k)" rule: steps_left.cases) auto
  with i show ?thesis by (intro exI [of _ i]) linarith
qed

text \<open>The two calls of \<open>stop\<close>, from the lock to what follows them.\<close>

lemma lock_taken:
  assumes "fair_run errors run" "owner (run i) = Stop_lock c"
  shows "\<exists>j>i. owner (run j) = Stop_test c"
proof -
  have r: "server_run errors run" using assms(1) by (simp add: fair_run_def)
  have "\<exists>j\<ge>i. owner (run j) = Stop_lock c \<and> owner (run (Suc j)) \<noteq> Stop_lock c"
  proof (rule phase_left [OF assms])
    fix k assume k: "\<forall>j\<ge>k. owner (run j) = Stop_lock c"
    then obtain j where "k \<le> j" "holder (run j) = None" using mutex_freed [OF r] by blast
    with k free_mutex_can show "\<exists>j\<ge>k. owner_can errors (run j)" by blast
  qed
  then obtain j where j: "i \<le> j" "owner (run j) = Stop_lock c" "owner (run (Suc j)) \<noteq> Stop_lock c" by blast
  with owner_change_step [OF r, of j] have "thread_step errors (run j) (run (Suc j))" by simp
  then have "owner (run (Suc j)) = Stop_test c" using j(2,3) by cases auto
  with j(1) show ?thesis by (intro exI [of _ "Suc j"]) simp
qed

lemma critical_left:
  assumes "fair_run errors run" "owner (run i) \<in> {Stop_test c, Stop_unlock c join, Delete_network, Destroy_mutex}"
  shows "\<exists>j\<ge>i. owner (run j) = owner (run i) \<and> owner (run (Suc j)) \<noteq> owner (run i)
    \<and> thread_step errors (run j) (run (Suc j))"
proof -
  have r: "server_run errors run" using assms(1) by (simp add: fair_run_def)
  have "\<exists>j\<ge>i. owner (run j) = owner (run i) \<and> owner (run (Suc j)) \<noteq> owner (run i)"
    by (rule phase_left [OF assms(1) refl]) (metis critical_can assms(2) order_refl)
  then show ?thesis using owner_change_step [OF r] by metis
qed

lemma test_left:
  assumes "fair_run errors run" "owner (run i) = Stop_test c"
  shows "\<exists>j>i. \<exists>join. owner (run j) = Stop_unlock c join"
proof -
  from critical_left [OF assms(1), of i c] assms(2) obtain j where
    j: "i \<le> j" "owner (run j) = Stop_test c" "owner (run (Suc j)) \<noteq> Stop_test c" "thread_step errors (run j) (run (Suc j))" by auto
  from j(4,2,3) have "\<exists>join. owner (run (Suc j)) = Stop_unlock c join" by cases auto
  with j(1) show ?thesis using le_imp_less_Suc by blast
qed

lemma unlock_left:
  assumes "fair_run errors run" "owner (run i) = Stop_unlock c join"
  shows "\<exists>j>i. owner (run j) = (if join then Stop_join c else after_stop c)"
proof -
  from critical_left [OF assms(1), of i c join] assms(2) obtain j where
    j: "i \<le> j" "owner (run j) = Stop_unlock c join" "owner (run (Suc j)) \<noteq> Stop_unlock c join"
      "thread_step errors (run j) (run (Suc j))" by auto
  from j(4,2,3) have "owner (run (Suc j)) = (if join then Stop_join c else after_stop c)" by cases auto
  with j(1) show ?thesis using le_imp_less_Suc by blast
qed

lemma stop_passes_lock:
  assumes "fair_run errors run" "owner (run i) = Stop_lock c"
  shows "\<exists>j>i. owner (run j) \<in> {Stop_join c, after_stop c}"
proof -
  obtain j where j: "i < j" "owner (run j) = Stop_test c" using lock_taken [OF assms] by blast
  obtain k join where k: "j < k" "owner (run k) = Stop_unlock c join" using test_left [OF assms(1) j(2)] by blast
  obtain l where "k < l" "owner (run l) = (if join then Stop_join c else after_stop c)"
    using unlock_left [OF assms(1) k(2)] by blast
  with j(1) k(1) show ?thesis by (intro exI [of _ l]) auto
qed

lemma run_stops_cleanly:
  assumes "server_run errors run" "stops_cleanly (run i)" "i \<le> j"
  shows "stops_cleanly (run j)"
  using assms(3)
proof (induction rule: dec_induct)
  case (step n)
  with assms(1) stops_cleanly_step show ?case unfolding server_run_def by metis
qed (rule assms(2))

lemma deletion_ends:
  assumes "fair_run errors run" "owner (run i) = Delete_network" "\<And>i. stops_cleanly (run i)"
  shows "\<exists>i. owner (run i) = Gone"
proof -
  from critical_left [OF assms(1), of i] assms(2) obtain j where
    j: "owner (run j) = Delete_network" "owner (run (Suc j)) \<noteq> Delete_network" "thread_step errors (run j) (run (Suc j))" by auto
  from j(3,1,2) have "owner (run (Suc j)) = Stop_lock In_thread" by cases auto
  from stop_passes_lock [OF assms(1) this] obtain k where "owner (run k) \<in> {Stop_join In_thread, Destroy_mutex}"
    by (auto simp: after_stop_def)
  with assms(3) [of k] have k: "owner (run k) = Destroy_mutex" by (auto simp: stops_cleanly_def)
  from critical_left [OF assms(1), of k] k obtain l where
    l: "owner (run l) = Destroy_mutex" "owner (run (Suc l)) \<noteq> Destroy_mutex" "thread_step errors (run l) (run (Suc l))" by auto
  from l(3,1,2) have "owner (run (Suc l)) = Gone" by cases auto
  then show ?thesis ..
qed

text \<open>C19: The \<open>stop\<close> in the destructor of the server returns, from its first statement on and whether clients
  come or not, on every run whose mutex does not starve it; when it waits for the thread, within
  seven statements. If the thread had set the flag, the whole deletion comes to its end.\<close>

theorem stop_returns:
  assumes "fair_run errors run" "owner (run 0) = Stop_lock In_server"
  shows "(\<exists>i. owner (run i) = Delete_network) \<and>
    (\<forall>k. owner (run k) = Stop_join In_server \<longrightarrow> (\<exists>i>k. i \<le> k + 7 \<and> owner (run i) = Delete_network)) \<and>
    (running (run 0) \<longrightarrow> (\<exists>i. owner (run i) = Gone \<and> worker (run i) = Finished))"
proof (intro conjI impI allI)
  have r: "server_run errors run" using assms(1) by (simp add: fair_run_def)
  show join: "\<exists>i>k. i \<le> k + 7 \<and> owner (run i) = Delete_network" if "owner (run k) = Stop_join In_server" for k
    using that by (rule join_bound [OF r])
  then show del: "\<exists>i. owner (run i) = Delete_network"
    using stop_passes_lock [OF assms] by (auto simp: after_stop_def)
  assume "running (run 0)"
  then have clean: "stops_cleanly (run i)" for i
    using run_stops_cleanly [OF r, of 0] server_run_ok [OF r, of 0] assms(2)
    by (auto simp: stops_cleanly_def server_ok_def)
  from del obtain i where "owner (run i) = Delete_network" by blast
  from deletion_ends [OF assms(1) this clean] show "\<exists>i. owner (run i) = Gone \<and> worker (run i) = Finished"
    using stops_cleanly_safe [OF clean] by blast
qed

section \<open>Two runs\<close>

lemmas step_on = converse_rtranclp_into_rtranclp

text \<open>The thread has begun and waits for a client; the server is being deleted.\<close>

definition serving :: server_thread where
  "serving = \<lparr> running = True, holder = None, owner = Serving, worker = Accepting, listening = True, clients = 0 \<rparr>"

lemma serving_reachable: "server_reachable errors serving"
  unfolding server_reachable_def
  apply (rule step_on, rule start, simp add: server_start_def)
  apply (rule step_on, rule entry_point, simp, simp add: object_alive_def)
  apply (rule step_on, rule run_lock, simp, simp add: object_alive_def, simp add: server_start_def)
  apply (rule step_on, rule run_test, simp, simp add: object_alive_def)
  apply (rule step_on, rule run_unlock, simp, simp add: object_alive_def)
  apply (rule step_on, rule is_lock, simp add: server_start_def thread_setup_def, simp add: object_alive_def, simp)
  apply (rule step_on, rule is_read, simp, simp add: object_alive_def)
  apply (rule step_on, rule is_unlock, simp, simp add: object_alive_def)
  apply (simp add: server_start_def serving_def thread_setup_def)
  done

text \<open>The rest of the run, from the closed socket on; at the end no thread can take a step.\<close>

definition deleting :: "nat \<Rightarrow> server_thread" where
  "deleting n = \<lparr> running = (n < 2),
     holder = (if n \<in> {1, 2, 10, 11} then Some Daemon_thread else if n \<in> {5, 6} then Some Server_thread else None),
     owner = (if n = 0 then Stop_lock In_server else if n = 1 then Stop_test In_server
       else if n = 2 then Stop_unlock In_server True else if n < 8 then Stop_join In_server
       else if n = 8 then Delete_network else if n = 9 then Stop_lock In_thread
       else if n = 10 then Stop_test In_thread else if n = 11 then Stop_unlock In_thread False
       else if n = 12 then Destroy_mutex else Gone),
     worker = (if n < 4 then Accepting else if n = 4 then Is_lock else if n = 5 then Is_read
       else if n = 6 then Is_unlock False else Finished),
     listening = False, clients = 0 \<rparr>"

lemma deleting_steps:
  assumes "i < 13"
  shows "thread_step errors (deleting i) (deleting (Suc i))"
proof -
  have a: "object_alive (deleting i)" if "i < 13" for i using that by (simp add: object_alive_def deleting_def)
  consider "i = 0" | "i = 1" | "i = 2" | "i = 3" | "i = 4" | "i = 5" | "i = 6" | "i = 7" | "i = 8" | "i = 9"
    | "i = 10" | "i = 11" | "i = 12" using assms by (auto simp: numeral_eq_Suc less_Suc_eq)
  then show ?thesis
  proof cases
    case 1 then show ?thesis using stop_lock [of "deleting 0" In_server errors] by (simp add: deleting_def)
  next
    case 2 then show ?thesis using stop_test [of "deleting 1" In_server errors] by (simp add: deleting_def)
  next
    case 3 then show ?thesis using stop_unlock [of "deleting 2" In_server True errors] by (simp add: deleting_def)
  next
    case 4 then show ?thesis using accept_fails [of "deleting 3" errors] by (simp add: deleting_def)
  next
    case 5 then show ?thesis using is_lock [of "deleting 4" errors, OF _ a] by (simp add: deleting_def)
  next
    case 6 then show ?thesis using is_read [of "deleting 5" errors, OF _ a] by (simp add: deleting_def)
  next
    case 7 then show ?thesis using is_unlock [of "deleting 6" False errors, OF _ a] by (simp add: deleting_def)
  next
    case 8 then show ?thesis using stop_join [of "deleting 7" In_server errors] by (simp add: after_stop_def deleting_def)
  next
    case 9 then show ?thesis using delete_network [of "deleting 8" errors] by (simp add: deleting_def)
  next
    case 10 then show ?thesis using stop_lock [of "deleting 9" In_thread errors] by (simp add: deleting_def)
  next
    case 11 then show ?thesis using stop_test [of "deleting 10" In_thread errors] by (simp add: deleting_def)
  next
    case 12 then show ?thesis using stop_unlock [of "deleting 11" In_thread False errors] by (simp add: deleting_def after_stop_def)
  next
    case 13 then show ?thesis using destroy_mutex [of "deleting 12" errors] by (simp add: deleting_def)
  qed
qed

lemma deleting_over:
  assumes "13 \<le> i"
  shows "deleting i = deleting 13" "\<not> thread_step errors (deleting i) t"
proof -
  show "deleting i = deleting 13" using assms by (simp add: deleting_def)
  show "\<not> thread_step errors (deleting i) t"
    using assms by (auto elim!: thread_stepE simp: deleting_def object_alive_def)
qed

lemma serving_deleting: "(thread_step errors)\<^sup>*\<^sup>* serving (deleting n)"
proof -
  have "thread_step errors serving (deleting 0)"
    using delete_server [of serving errors] by (simp add: serving_def deleting_def)
  then have z: "(thread_step errors)\<^sup>*\<^sup>* serving (deleting 0)" by blast
  have "n \<le> 13 \<Longrightarrow> (thread_step errors)\<^sup>*\<^sup>* serving (deleting n)" for n
  proof (induction n)
    case (Suc n)
    then show ?case using deleting_steps [of n errors] by simp
  qed (rule z)
  then show ?thesis using deleting_over(1) [of n] by (cases "13 \<le> n") auto
qed

lemma deleting_reachable: "server_reachable errors (deleting n)"
  using serving_reachable [of errors] serving_deleting [of errors n] unfolding server_reachable_def by (rule rtranclp_trans)

lemma deleting_fair: "fair_run errors deleting"
proof -
  have "thread_step errors (deleting i) (deleting (Suc i))
      \<or> deleting (Suc i) = deleting i \<and> (\<nexists>t. thread_step errors (deleting i) t)" for i
    using deleting_steps [of i errors] deleting_over(1) [of i] deleting_over(2) [of i errors] deleting_over(1) [of "Suc i"] by (cases "i < 13") auto
  moreover have "\<not> owner_can errors (deleting j)" if "13 \<le> j" for j
    using deleting_over(2) [OF that] by (simp add: owner_can_def)
  ultimately show ?thesis using deleting_reachable [of errors 0] unfolding fair_run_def server_run_def by blast
qed

theorem flag_under_mutex_witness: "holder serving = None \<and> \<not> owner_holds serving \<and> \<not> worker_holds serving"
  using flag_under_mutex [OF serving_reachable] by (simp add: serving_def)

theorem deletion_waits_witness:
  "server_reachable False serving \<and> running serving \<and> owner (deleting 13) = Gone \<and> worker (deleting 13) = Finished
    \<and> \<not> dangling (deleting 13)"
proof -
  have "owner serving = Serving" "running serving" "owner (deleting 13) = Gone" by (simp_all add: serving_def deleting_def)
  with deletion_waits [OF serving_reachable [of False] _ _ serving_deleting, of 13] serving_reachable [of False]
  show ?thesis by blast
qed

theorem stop_returns_witness:
  "fair_run False deleting \<and> owner (deleting 0) = Stop_lock In_server \<and> (\<exists>i. owner (deleting i) = Delete_network) \<and>
     (\<exists>i. owner (deleting i) = Gone \<and> worker (deleting i) = Finished)"
proof -
  have "owner (deleting 0) = Stop_lock In_server" "running (deleting 0)" by (simp_all add: deleting_def)
  with stop_returns [OF deleting_fair [of False]] deleting_fair show ?thesis by blast
qed

text \<open>A server that is deleted before its thread has set the flag does not wait for it: the thread then
  works on an object that is gone.\<close>

theorem early_deletion_dangles: "\<exists>s. server_reachable errors s \<and> dangling s"
proof -
  let ?s = "\<lparr> running = False, holder = None, owner = Gone, worker = Entry, listening = False, clients = 0 \<rparr>"
  have "server_reachable errors ?s"
    unfolding server_reachable_def
    apply (rule step_on, rule start, simp add: server_start_def)
    apply (rule step_on, rule delete_server, simp)
    apply (rule step_on, rule stop_lock, simp, simp add: server_start_def)
    apply (rule step_on, rule stop_test, simp)
    apply (rule step_on, rule stop_unlock, simp)
    apply (rule step_on, rule delete_network, simp add: server_start_def after_stop_def)
    apply (rule step_on, rule stop_lock, simp, simp)
    apply (rule step_on, rule stop_test, simp)
    apply (rule step_on, rule stop_unlock [where join = False and c = In_thread], simp add: server_start_def)
    apply (rule step_on, rule destroy_mutex, simp add: after_stop_def)
    apply (simp add: server_start_def)
    done
  moreover have "dangling ?s" by (simp add: dangling_def object_alive_def)
  ultimately show ?thesis by blast
qed

end
