(* ===== verification/Server_Properties.thy ===== *)
theory Server_Properties
  imports Network_Server Server_Thread Daemon_Properties
begin

text \<open>
  What the command line server promises on real sockets (\<open>daemon/src/network/Network.cpp\<close>,
  \<open>daemon/src/network/TelnetServer.cpp\<close>): the session of a client is that of the script of what
  it sends, and what a client that does not wait for its reply can do.
\<close>

text \<open>A network whose connections are open, or whose clients have gone.\<close>

definition sample_peer :: sockaddr where
  "sample_peer = \<lparr> sa_port = 0, sa_addr = 0 \<rparr>"

definition sample_server_net :: "send_answer \<Rightarrow> received list \<Rightarrow> server_net" where
  "sample_server_net a input = \<lparr> sv_sockets = (\<lambda>_. 3), sv_binds = (\<lambda>_. 0), sv_listens = (\<lambda>_. 0),
     sv_accepts = (\<lambda>_. (4, sample_peer)), sv_recvs = script_answers input,
     sv_waits = (\<lambda>_. (\<lparr> select_result = 0, is_set = False, received = None \<rparr>, sample_peer)),
     sv_sends = (\<lambda>_. a), sv_names = (\<lambda>_. None), sv_outbox = [], sv_closed = [], sv_instances = 1,
     sv_signals = process_signals (\<lambda>_. SIG_DFL) False \<rparr>"

text \<open>C14: The session of a client on its socket is the session on the script of what arrives, unless the
  signal of a closed connection ends the process: it leaves the same node and daemon, hands every
  reply to one \<open>send\<close>, in order, sends of each what that call takes - all of it where the
  call takes all - and closes the socket at the end.\<close>

theorem session_on_socket:
  assumes "sv_recvs net = script_answers input" "ns_socket k \<noteq> INVALID_SOCKET"
    and "client_execute ops junk input nd d = Some (Inr (out, nd', d'))"
    and "sv_signals net SIGPIPE \<noteq> SIG_DFL \<or> (\<forall>i < length out. sv_sends net i \<noteq> Broken_pipe)"
  shows "\<exists>net'. socket_client_execute (Suc (length input)) ops junk k net nd d = Some (Inr (Ended (net', nd', d')))
    \<and> ns_socket k \<in> set (sv_closed net')
    \<and> sv_outbox net' = sv_outbox net @ map (\<lambda>i. (ns_socket k, sent_bytes (sv_sends net i) (bytes_of (out ! i)))) [0..<length out]
    \<and> ((\<forall>i < length out. sv_sends net i = Sent (int (length (out ! i)))) \<longrightarrow>
        sv_outbox net' = sv_outbox net @ map (\<lambda>s. (ns_socket k, bytes_of s)) out)"
proof -
  have alive: "\<not> killed_by out net" using assms(4) by (auto simp: killed_by_def)
  from socket_client_loop_script [OF assms(1) assms(3) [unfolded client_execute_def], of k] alive obtain net' where
    l: "socket_client_loop (Suc (length input)) ops junk k net nd d = Some (Inr (Ended (net', nd', d')))"
      "sv_outbox net' = sv_outbox net @ sent_replies k (sv_sends net) out" by auto
  have "sent_replies k (sv_sends net) out = map (\<lambda>s. (ns_socket k, bytes_of s)) out"
    if "\<forall>i < length out. sv_sends net i = Sent (int (length (out ! i)))"
    using that by (intro nth_equalityI) (simp_all add: sent_replies_def bytes_of_def)
  with l assms(2) show ?thesis
    by (intro exI [of _ "Network_dtor k net'"])
      (simp add: socket_client_execute_def Network_dtor_def sent_replies_def Let_def)
qed

theorem session_on_socket_witness:
  "\<exists>net'. socket_client_execute 6 (dummy_ops 0) (\<lambda>_. 0) (Network_accepted sample_peer 4 sample_peer)
       (sample_server_net (Sent 19) (map Byte (''exit'' @ [CHR 0x0A]))) (s_node describing_session) (s_daemon describing_session)
     = Some (Inr (Ended (net', s_node describing_session, s_daemon describing_session)))
   \<and> 4 \<in> set (sv_closed net') \<and> sv_outbox net' = [(4, bytes_of (''Closing connection'' @ [CHR 0x0A]))]"
  using session_on_socket [OF _ _ sample_client, of "sample_server_net (Sent 19) (map Byte (''exit'' @ [CHR 0x0A]))"
      "Network_accepted sample_peer 4 sample_peer" "s_node describing_session" "s_daemon describing_session"]
  by (simp add: sample_server_net_def Network_accepted_def INVALID_SOCKET_def numeral_eq_Suc)

text \<open>A \<open>send\<close> that takes a part of a reply cuts the reply: nobody sends the rest.\<close>

lemma short_send_cuts_reply:
  "Network_sendString dat k net = Some r \<Longrightarrow> sv_sends net 0 = Sent cnt \<Longrightarrow> 0 \<le> cnt \<Longrightarrow>
     fst r \<and> sv_outbox (snd r) = sv_outbox net @ [(ns_socket k, take (nat cnt) (bytes_of dat))]"
  by (auto simp: Network_sendString_def Network_sendData_def Let_def)

text \<open>C20: In a process started with the default for the signal of a closed connection, a client that
  closes its connection while a reply is still to be sent ends the whole daemon - exactly then, and
  only if the daemon does not talk to its controller over TCP, as only that communicator has the
  signal ignored.\<close>

theorem closed_client_kills_daemon:
  assumes "sv_recvs net = script_answers input" "sv_signals net = process_signals inherited tcp"
    and "inherited SIGPIPE = SIG_DFL" "client_execute ops junk input nd d = Some (Inr (out, nd', d'))"
  shows "socket_client_execute (Suc (length input)) ops junk k net nd d = Some (Inr Killed) \<longleftrightarrow>
    \<not> tcp \<and> (\<exists>i < length out. sv_sends net i = Broken_pipe)"
proof -
  have "sv_signals net SIGPIPE = SIG_DFL \<longleftrightarrow> \<not> tcp"
    using assms(2,3) by (simp add: process_signals_def client_signals_def run_signals_def)
  then have "killed_by out net \<longleftrightarrow> \<not> tcp \<and> (\<exists>i < length out. sv_sends net i = Broken_pipe)"
    by (simp add: killed_by_def)
  with socket_client_loop_script [OF assms(1) assms(4) [unfolded client_execute_def], of k] show ?thesis
    by (auto simp: socket_client_execute_def split: if_splits)
qed

theorem closed_client_kills_daemon_witness:
  "socket_client_execute 6 (dummy_ops 0) (\<lambda>_. 0) (Network_accepted sample_peer 4 sample_peer)
     (sample_server_net Broken_pipe (map Byte (''exit'' @ [CHR 0x0A]))) (s_node describing_session) (s_daemon describing_session)
   = Some (Inr Killed)"
  using closed_client_kills_daemon [OF _ _ _ sample_client, of "sample_server_net Broken_pipe (map Byte (''exit'' @ [CHR 0x0A]))"
      "\<lambda>_. SIG_DFL" False "Network_accepted sample_peer 4 sample_peer" "s_node describing_session" "s_daemon describing_session"]
  by (simp add: sample_server_net_def numeral_eq_Suc)

end
