(* ===== verification/Plugin_Daemon.thy ===== *)
theory Plugin_Daemon
  imports Plugin_Adapters
begin

text \<open>
  The daemon over its plugin manager: \<open>Daemon::run\<close> (\<open>daemon/src/Daemon.cpp\<close>) with the loading of the
  plugins in front of it and their shutdown behind it. The factories it works with are those of
  \<open>daemon/src/plugin_models\<close> over the loaded manager.
\<close>

section \<open>The factories of a loaded manager\<close>

text \<open>The casts of a factory from the object of the manager to its interface.\<close>

record ('o, 'c) interfaces =
  as_communicator :: "'o \<Rightarrow> 'c"
  as_slot_detector :: "'o \<Rightarrow> 8 word"
  as_sensor :: "'o \<Rightarrow> plugin_sensor"
  as_sensor_provider :: "'o \<Rightarrow> (string, plugin_sensor) std_map"
  as_json_provider :: "'o \<Rightarrow> json_provider"

text \<open>The manager stays as it is where every plugin registers types of its own; a plugin for all types
  would be registered for each type it creates. \<open>conf\<close> is what the sensors do with their options.\<close>

definition factories_of :: "('o, 'c) interfaces \<Rightarrow> (string \<Rightarrow> string \<Rightarrow> plugin_sensor \<Rightarrow> bool \<times> plugin_sensor) \<Rightarrow> int \<Rightarrow> u16
    \<Rightarrow> ('f, 'd, 'x, 'l, 'o) plugin_world \<Rightarrow> ('f, 'd, 'x, 'l, 'o) plugin_manager \<Rightarrow> 'c factories" where
  "factories_of k conf junk_int junk_offset pw pm = \<lparr>
     createCommunicator = (\<lambda>t. fst (CommunicatorFactory (as_communicator k) pw t pm)),
     createSlotDetector = (\<lambda>t. fst (SlotDetectorFactory (as_slot_detector k) pw t pm)),
     f_plugins = \<lparr>
       createSensor = (\<lambda>t. fst (SensorFactory (as_sensor k) pw t pm)), configureSensor = conf,
       createSensorProvider = (\<lambda>t. fst (SensorProviderFactory (as_sensor_provider k) pw t pm)),
       createJSONSensorProvider = (\<lambda>t. fst (JSONSensorProviderFactory (as_json_provider k) pw t pm)) \<rparr>,
     f_junk_int = junk_int, f_junk_offset = junk_offset \<rparr>"

section \<open>The program\<close>

text \<open>A plugin directory that cannot be opened is only logged. Every way out shuts the manager down.\<close>

definition daemon_program :: "('o, 'c) interfaces \<Rightarrow> (string \<Rightarrow> string \<Rightarrow> plugin_sensor \<Rightarrow> bool \<times> plugin_sensor) \<Rightarrow> int \<Rightarrow> u16
    \<Rightarrow> ('f, 'd, 'x, 'l, 'o) plugin_world \<Rightarrow> file_system \<Rightarrow> ('c, 'k) world \<Rightarrow> config \<Rightarrow> int \<Rightarrow> sensor_heap
    \<Rightarrow> (int \<times> 'c session option \<times> ('f, 'd, 'x, 'l, 'o) plugin_manager) res option" where
  "daemon_program k conf junk_int junk_offset pw fs w cfg exitAfter h =
     (case load_plugins pw fs PluginManager_ctor Daemon_ctor of
        Inl e \<Rightarrow> Some (Inl e)
      | Inr (pm, d) \<Rightarrow>
          map_option (\<lambda>r. bind_res r (\<lambda>(code, s). Inr (code, s, snd (plugin_shutdown pw pm))))
            (run_from w (factories_of k conf junk_int junk_offset pw pm) cfg exitAfter h d))"

section \<open>A directory of plugins\<close>

text \<open>What a directory offers for a type: the object its plugin creates.\<close>

definition offered :: "('f, 'd, 'x, 'l, 'o) plugin_world \<Rightarrow> (string \<Rightarrow> ('f, 'd, 'x) plugin_desc) \<Rightarrow> string list \<Rightarrow> string \<Rightarrow> 'o option" where
  "offered pw desc files t =
     Option.bind (find (\<lambda>e. pdType (desc e) = t) files) (\<lambda>e. call_create pw (pdCreate (desc e)) t)"

lemma find_type:
  assumes "distinct (map (\<lambda>e. pdType (desc e)) files)" "e \<in> set files"
  shows "find (\<lambda>e'. pdType (desc e') = pdType (desc e)) files = Some e"
  using assms by (induction files) (auto simp: image_iff)

lemma serve_desc_calls:
  "serve_all (concat (map (\<lambda>e. desc_calls (desc e)) files)) d
     = Inr (d \<lparr> mPluginLoggers := mPluginLoggers d @ map (\<lambda>e. pdLog (desc e)) files \<rparr>)"
  by (induction files arbitrary: d) (auto simp: desc_calls_def InvokeService_def addPluginLogger_def)

lemma created_offered:
  assumes "distinct (map (\<lambda>e. pdType (desc e)) files)" "\<forall>e \<in> set files. is_plugin pw fs dir lib desc e"
  shows "createObject pw t (fold (with_plugin dir lib desc) files PluginManager_ctor)
    = (offered pw desc files t, fold (with_plugin dir lib desc) files PluginManager_ctor)"
proof (cases "t \<in> pdType ` desc ` set files")
  case True
  then obtain e where "e \<in> set files" "t = pdType (desc e)" by auto
  with createObject_plugin [OF assms(1), of e pw fs dir lib] assms show ?thesis by (simp add: offered_def find_type)
next
  case False
  then have "find (\<lambda>e. pdType (desc e) = t) files = None" by (auto simp: find_None_iff)
  with createObject_unknown [OF False, of pw dir lib] show ?thesis by (simp add: offered_def)
qed

lemma load_plugins_directory:
  assumes "isAbsolute (getCWD fs)" "CHR 0x00 \<notin> set (getCWD fs)" "dir = getCWD fs @ ''/plugins''"
    and "path_exists fs dir" "isDirectory fs dir" "opendir fs dir = Some es"
    and "\<forall>e \<in> set (plugin_files es). is_plugin pw fs dir lib desc e"
    and "distinct (plugin_files es)" "distinct (map (\<lambda>e. pdType (desc e)) (plugin_files es))"
  shows "load_plugins pw fs PluginManager_ctor d =
    Inr (fold (with_plugin dir lib desc) (plugin_files es) PluginManager_ctor,
      d \<lparr> mPluginLoggers := mPluginLoggers d @ map (\<lambda>e. pdLog (desc e)) (plugin_files es) \<rparr>)"
proof -
  have a: "isAbsolute dir" using assms(1,3) by (auto simp: isAbsolute_def nth_append)
  have z: "CHR 0x00 \<notin> set dir" using assms(2,3) by simp
  have "path_makeAbsolute fs (getCWD fs @ ''/plugins'') = dir" using a assms(3) by (simp add: path_makeAbsolute_def)
  with loadAll_plugins [OF a z assms(4-9)] show ?thesis by (simp add: load_plugins_def serve_desc_calls)
qed

lemma start_unknown_communicator:
  assumes "GetString cfg ''Comm'' ''BaseboardPluginName'' [] = []"
    and "createCommunicator f (GetString cfg ''Comm'' ''PluginName'' []) = None"
  shows "start w f cfg n h d = Inr None"
  using assms by (simp add: start_def Let_def)

end
