(* ===== verification/Spec2Isabelle.thy ===== *)
theory Spec2Isabelle
  imports Json_Properties Config_Properties Sensor_Properties Node_Properties Daemon_Properties
    TCP_Properties I2C_Properties Plugin_Adapters Slot_Detector Sensor_Provider_Properties
    Zynq_Module Server_Properties Plugin_Daemon
begin

text \<open>
  A model of the RECS daemon and its plugins, and what is proved of it.

  \<^bold>\<open>The program.\<close> The daemon (\<open>src/daemon\<close>) runs on a compute module of a RECS server. It loads
  plugins, collects sensors, and talks to the management controller through a shared memory, a
  header with an area of its own per module. In every iteration it looks whether a command lies in
  its area (\<open>Command\<close>: checked against a built-in key, addressed to this module, run by the shell),
  waits while its last message has not been picked up, and otherwise writes the next one: first the
  basic information, then the pages of the sensor description, then monitoring data for ever. How
  the shared memory is reached is the matter of a communicator plugin; sensors come from sensor,
  provider and JSON provider plugins; the slot from a slot detector plugin. Clients of a command
  line server (a thread per client) read the monitoring data and describe further sensors. At the
  end an empty description is written.

  \<^bold>\<open>Conventions.\<close> Words have the width of the target, a little-endian host with 64-bit pointers;
  \<open>size_t\<close> is a \<open>nat\<close> where it cannot wrap and \<open>size_sub\<close> where it can. Every function that can end in
  an exception, an access outside an object, a division by zero or an endless loop returns a
  \<open>res\<close>, the sum of a \<open>fault\<close> and a value. Pointers to sensors are addresses in a heap, a partial
  map, because providers and the set share them; buffers are byte lists. Uninitialised memory is an
  argument (\<open>junk\<close>), never a chosen value. Code outside the repository is an argument as well: the
  files of the host, sockets, the dynamic loader, OpenSSL, the vendors' I2C libraries, the clock,
  \<open>malloc\<close> in the daemon's loop. Records and functions have the names of the source where Isabelle
  and a flat name space allow it.

  \<^bold>\<open>The theories, in the order of their imports.\<close>
  \<^item> \<open>Prelude\<close>, \<open>IEEE_Float\<close>, \<open>IEEE_Arith\<close>, \<open>C_Library\<close>: faults, bytes, byte order, buffers,
    \<open>std::map\<close> as a sorted association list, doubles as bit patterns with conversion, printing,
    parsing and arithmetic, and the text functions of C and C++. \<open>Prelude\<close> has the locale
    \<open>keyed_store\<close>, what a store of settings promises, interpreted on \<open>std::map\<close> there and on the ini
    file in \<open>Ini_Manage\<close>.
  \<^item> \<open>Json_Value\<close>, \<open>Json_Text\<close>, \<open>Json_Facts\<close>, \<open>Json_Roundtrip\<close>, \<open>Json_Properties\<close>:
    \<open>daemon/src/json.cpp\<close>, \<open>json.h\<close>. The parser always answers, builds well-formed values only, and
    reads back what was printed.
  \<^item> \<open>Ini_Manage\<close>, \<open>Config\<close>, \<open>Config_Properties\<close>: \<open>ini_manage.cpp\<close>, \<open>Config.cpp\<close>. The content refines a
    keyed store, its invariant survives any file and any setting, and saving and loading gives it
    back.
  \<^item> \<open>Daemon_Msgs\<close>: \<open>include/daemon_msgs.h\<close> and the enumerations of \<open>include/c_object_model.h\<close>.
  \<^item> \<open>Sensor_Bean\<close>, \<open>Json_Sensors\<close>, \<open>Sensor_Set\<close>, \<open>Sensor_Set_Facts\<close>, \<open>Sensor_Properties\<close>:
    \<open>include/BaseSensor.h\<close>, \<open>SensorBean.h\<close>, \<open>JSONSensorsParser.cpp\<close>, \<open>StaticJSONSensorProvider.cpp\<close>,
    \<open>SensorSet.cpp\<close>. The constructor establishes the invariant of the set, sampling writes exactly
    the announced bytes, the pages of the description list every sensor once.
  \<^item> \<open>Daemon_State\<close>: the daemon object without its loop, with the services a plugin may call, and the
    locales \<open>memory_view\<close> and \<open>mailbox\<close>: what a communicator promises about the memory it shows and
    about a message area whose reader takes every message. \<open>Communicator_Dummy\<close> and
    \<open>Communicator_TCP_Facts\<close> interpret them on the communicators of the repository.
  \<^item> \<open>Node\<close>, \<open>Node_Facts\<close>, \<open>Node_Properties\<close>: \<open>Node.cpp\<close>. The two adapters differ, the information
    block has its layout, the search of the memory header finds the first chunk where it ends.
  \<^item> \<open>Signature\<close>, \<open>Telnet_Server\<close>, \<open>Telnet_Facts\<close>, \<open>Daemon_Loop\<close>, \<open>Daemon_Start\<close>, \<open>Daemon_Facts\<close>,
    \<open>Daemon_Start_Facts\<close>, \<open>Daemon_Progress\<close>, \<open>Run_Ends\<close>, \<open>Program_Entry\<close>, \<open>Daemon_Properties\<close>: \<open>Signature.cpp\<close>,
    \<open>TelnetServer.cpp\<close>, \<open>Daemon.cpp\<close>, \<open>main.cpp\<close>. \<open>start\<close> is \<open>Daemon::run\<close> up to the loop with each of
    its failures, \<open>iteration\<close> one turn of the loop, \<open>run_loop\<close> the loop, \<open>finish\<close> what follows it. The
    states between two iterations are reached by iterations, signals and whole client lines
    (\<open>daemon_step\<close>); the invariant \<open>session_ok\<close> holds in all of them. From it follow that writes stay
    in the area, that only verified commands run, and when a message waits and when it is written
    over; with the locale \<open>mailbox\<close>, that all announcements are sent in order. \<open>Run_Ends\<close> goes
    through every statement of a run: which return always, and which two loops may not.
  \<^item> \<open>Network_Client\<close>, \<open>Communicator_TCP\<close>, \<open>Communicator_TCP_Facts\<close>, \<open>TCP_Properties\<close>:
    \<open>plugins/CommunicatorTCP\<close>. Messages arrive whole from any fragments; what one end writes the
    other shows; and the daemon's loop over this communicator sends the controller exactly the
    announcements.
  \<^item> \<open>I2C_Communicators\<close>, \<open>I2C_Properties\<close>: the drivers \<open>LinuxCommunicatorDev\<close>, \<open>CommunicatorCongatec\<close>,
    \<open>CommunicatorAdlink\<close>, \<open>WindowsCommunicatorI2CTinyUSB\<close>. On a bus that serves a memory the driver
    that works in blocks equals the one that does not, although its bus carries short blocks
    only; the search finds the device.
  \<^item> \<open>Path_Names\<close>, \<open>Plugin_Manager\<close>, \<open>Plugin_Properties\<close>, \<open>Plugin_Adapters\<close>, \<open>Plugin_Daemon\<close>:
    \<open>plugin_framework\<close>, \<open>plugin_models\<close> and each \<open>plugin.cpp\<close>, and the daemon over its manager. The
    locale \<open>plugin_contract\<close> says that a plugin's entry point only registers objects; it is
    interpreted on the repository's own plugins. Its registry invariant holds however the manager
    is used; a directory of plugins decides what the factories create (the theorem below); an
    adapter keeps the contract of the communicator behind it.
  \<^item> \<open>Slot_Detector\<close>, \<open>Sensor_Plugins\<close>, \<open>Sensor_Plugin_Properties\<close>, \<open>Sensor_Providers\<close>,
    \<open>Ethernet_Sensors\<close>, \<open>Zynq_Sensors\<close>, \<open>Sensor_Provider_Properties\<close>, \<open>Zynq_Module\<close>: the slot
    detector, the sensors and the providers.
  \<^item> \<open>Server_Thread\<close>, \<open>Network_Server\<close>, \<open>Server_Properties\<close>: \<open>Thread.cpp\<close> and \<open>network/Network.cpp\<close> under
    the command line server. \<open>thread_step\<close> interleaves the statements of the daemon's thread and of
    the server's thread; on runs that do not starve the daemon's thread of the mutex, \<open>stop\<close> and the
    whole deletion come to their end. The session of a client on its socket refines its session on
    a script, with what every \<open>send\<close> takes; \<open>process_signals\<close> are the dispositions the code sets, which
    decide whether a closed connection ends the process.

  \<^bold>\<open>Bounds and fuel.\<close> The JSON parser recurses under a bound of the length of the text plus one, which
  \<open>parser_always_answers\<close> shows to be enough for every text. A client's session is bounded by one
  line per received character (\<open>client_session_ends\<close>), the same bound \<open>session_on_socket\<close> uses. The
  main loop, the search of the memory header and the reading of a line from a socket have no bound:
  they are partial functions whose value \<open>None\<close> means that they never return, which is proved where
  it can happen and excluded where a property says that they end (\<open>limited_run_ends\<close>, which also
  excludes the faults \<open>Diverges\<close> and \<open>Out_of_fuel\<close>).

  \<^bold>\<open>Not modelled.\<close> Logging, and the code under \<open>WIN32\<close>. In \<open>daemon_step\<close> clients and signals act between
  iterations, not within one; the interleaving of statements is modelled for the server's thread
  only, with \<open>closeSocket\<close> and \<open>accept\<close> as one step each. The \<open>create\<close> and \<open>destroy\<close> functions of plugins are \<open>new\<close> and \<open>delete\<close>. \<open>PluginHelper.h\<close> and
  \<open>PluginRegistrar.h\<close> are templates nothing uses. \<open>malloc\<close> outside the main loop and the I2C drivers
  is taken to succeed. Copying and iterators of JSON values are those of the datatype.
\<close>

section \<open>The daemon and its plugin directory\<close>

text \<open>C10: The directory \<open>plugins\<close> of the working directory decides what the daemon can use: when its files
  are plugins of different types, the loading serves each of them a logger, and afterwards every
  factory creates an object of a type exactly by the plugin of that type and of no other type;
  with a configured communicator that no plugin offers the program ends with -1 and an empty manager.\<close>

theorem plugin_directory_decides:
  assumes "isAbsolute (getCWD fs)" "CHR 0x00 \<notin> set (getCWD fs)" "dir = getCWD fs @ ''/plugins''"
    and "path_exists fs dir" "isDirectory fs dir" "opendir fs dir = Some es"
    and "\<forall>e \<in> set (plugin_files es). is_plugin pw fs dir lib desc e"
    and "distinct (plugin_files es)" "distinct (map (\<lambda>e. pdType (desc e)) (plugin_files es))"
  defines "offer \<equiv> offered pw desc (plugin_files es)"
  shows "(\<exists>pm. load_plugins pw fs PluginManager_ctor d =
        Inr (pm, d \<lparr> mPluginLoggers := mPluginLoggers d @ map (\<lambda>e. pdLog (desc e)) (plugin_files es) \<rparr>)
      \<and> factories_of k conf ji jo pw pm = \<lparr>
          createCommunicator = (\<lambda>t. map_option (as_communicator k) (offer t)),
          createSlotDetector = (\<lambda>t. map_option (as_slot_detector k) (offer t)),
          f_plugins = \<lparr> createSensor = (\<lambda>t. map_option (as_sensor k) (offer t)), configureSensor = conf,
            createSensorProvider = (\<lambda>t. map_option (as_sensor_provider k) (offer t)),
            createJSONSensorProvider = (\<lambda>t. map_option (as_json_provider k) (offer t)) \<rparr>,
          f_junk_int = ji, f_junk_offset = jo \<rparr>)
    \<and> (GetString cfg ''Comm'' ''BaseboardPluginName'' [] = [] \<and> offer (GetString cfg ''Comm'' ''PluginName'' []) = None
       \<longrightarrow> (\<exists>pm. daemon_program k conf ji jo pw fs w cfg n h = Some (Inr (-1, None, pm))
             \<and> exactMatchMap pm = [] \<and> dynamicLibraryMap pm = [] \<and> exitFuncVec pm = []))"
proof -
  let ?pm = "fold (with_plugin dir lib desc) (plugin_files es) PluginManager_ctor"
  have f: "factories_of k conf ji jo pw ?pm = \<lparr>
      createCommunicator = (\<lambda>t. map_option (as_communicator k) (offer t)),
      createSlotDetector = (\<lambda>t. map_option (as_slot_detector k) (offer t)),
      f_plugins = \<lparr> createSensor = (\<lambda>t. map_option (as_sensor k) (offer t)), configureSensor = conf,
        createSensorProvider = (\<lambda>t. map_option (as_sensor_provider k) (offer t)),
        createJSONSensorProvider = (\<lambda>t. map_option (as_json_provider k) (offer t)) \<rparr>,
      f_junk_int = ji, f_junk_offset = jo \<rparr>"
    using created_offered [OF assms(9,7)]
    by (simp add: factories_of_def factory_defs factory_create_def offer_def)
  show ?thesis
  proof (intro conjI impI)
    assume "GetString cfg ''Comm'' ''BaseboardPluginName'' [] = [] \<and> offer (GetString cfg ''Comm'' ''PluginName'' []) = None"
    then have "start w (factories_of k conf ji jo pw ?pm) cfg n h d' = Inr None" for d'
      by (intro start_unknown_communicator) (simp_all add: f)
    then show "\<exists>pm. daemon_program k conf ji jo pw fs w cfg n h = Some (Inr (-1, None, pm))
        \<and> exactMatchMap pm = [] \<and> dynamicLibraryMap pm = [] \<and> exitFuncVec pm = []"
      by (simp add: daemon_program_def run_from_def plugin_shutdown_def load_plugins_directory [OF assms(1-9)])
  qed (use load_plugins_directory [OF assms(1-9), of d] f in blast)
qed

text \<open>A working directory with the plugins \<open>CommunicatorTCP\<close> and \<open>SensorDummy\<close>; the configuration names
  another communicator.\<close>

definition plugged_files :: file_system where
  "plugged_files = \<lparr> stat_mode = map_of [(''/r/plugins'', S_IFDIR), (''/r/plugins/a.so'', 0x8000), (''/r/plugins/b.so'', 0x8000)],
     lstat_mode = map_of [(''/r/plugins'', S_IFDIR), (''/r/plugins/a.so'', 0x8000), (''/r/plugins/b.so'', 0x8000)],
     opendir = map_of [(''/r/plugins'', [''.'', ''b.so'', ''..'', ''a.so''])], readlink = Map.empty, getCWD = ''/r'' \<rparr>"

definition plugged_world :: "(string, string, string, string, string) plugin_world" where
  "plugged_world = own_world (map_of [(''/r/plugins/a.so'', ''SensorDummy''), (''/r/plugins/b.so'', ''CommunicatorTCP'')])
     (\<lambda>f t. Some (f @ t)) (\<lambda>x _. x)"

definition plugged_interfaces :: "(string, dummy_comm) interfaces" where
  "plugged_interfaces = \<lparr> as_communicator = (\<lambda>_. CommunicatorDummy_ctor), as_slot_detector = (\<lambda>_. 0),
     as_sensor = (\<lambda>_. dummy_plugin DummySensor_ctor), as_sensor_provider = (\<lambda>_. []),
     as_json_provider = (\<lambda>_. Plugin_JSON [] (\<lambda>_. []) 0) \<rparr>"

theorem plugin_directory_decides_witness:
  "\<exists>pm. daemon_program plugged_interfaces (\<lambda>_ _ p. (True, p)) 0 0 plugged_world plugged_files sample_world sample_config 3 heap_empty
      = Some (Inr (-1, None, pm)) \<and> exactMatchMap pm = [] \<and> dynamicLibraryMap pm = [] \<and> exitFuncVec pm = []"
proof -
  have f: "plugin_files [''.'', ''b.so'', ''..'', ''a.so''] = [''b.so'', ''a.so'']" by simp
  have p: "is_plugin plugged_world plugged_files ''/r/plugins'' two_libraries two_descs e" if "e = ''a.so'' \<or> e = ''b.so''" for e
    using that
    by (auto simp: is_plugin_def plugged_world_def plugged_files_def two_libraries_def two_descs_def own_world_def
        own_entries_def isDirectory_def isSymbolicLink_def S_IFDIR_def S_IFMT_def S_IFLNK_def c_str_def
        plain_extension_def rfind_idx_def desc_init_def own_inits fun_eq_iff)
  have "isAbsolute (getCWD plugged_files)" "CHR 0x00 \<notin> set (getCWD plugged_files)"
      "''/r/plugins'' = getCWD plugged_files @ ''/plugins''" "path_exists plugged_files ''/r/plugins''"
      "isDirectory plugged_files ''/r/plugins''"
      "opendir plugged_files ''/r/plugins'' = Some [''.'', ''b.so'', ''..'', ''a.so'']"
    by (simp_all add: isAbsolute_def path_exists_def isDirectory_def plugged_files_def c_str_def S_IFDIR_def)
  note t = plugin_directory_decides [OF this, unfolded f, of plugged_world two_libraries two_descs Daemon_ctor plugged_interfaces
      "\<lambda>_ _ p. (True, p)" 0 0 sample_config sample_world 3 heap_empty]
  have "offered plugged_world two_descs [''b.so'', ''a.so''] (GetString sample_config ''Comm'' ''PluginName'' []) = None"
    by (simp add: offered_def two_descs_def two_libraries_def sample_config_values)
  moreover have "distinct [''b.so'', ''a.so'']" "distinct (map (\<lambda>e. pdType (two_descs e)) [''b.so'', ''a.so''])"
    by (simp_all add: two_descs_def two_libraries_def)
  moreover have "\<forall>e \<in> set [''b.so'', ''a.so'']. is_plugin plugged_world plugged_files ''/r/plugins'' two_libraries two_descs e"
    using p by simp
  ultimately show ?thesis using conjunct2 [OF t] sample_config_values(2) by blast
qed

end
